(* ===== verification/Go_Prelude.thy ===== *)
theory Go_Prelude
  imports Main "HOL-Library.Sublist" "HOL-Library.Char_ord" "HOL-Library.List_Lexorder"
    "HOL-Library.AList"
begin

text \<open>
  Shared vocabulary of the development: the parts of Go's standard library that the
  router's code uses on strings and maps, and the generic list lemmas the component
  theories share.

  A Go string is a byte sequence and is modelled as a \<^typ>\<open>string\<close> (a list of bytes).
  \<open>strings.TrimSpace\<close> and \<open>strings.ToLower\<close> are modelled on ASCII; the names, hosts,
  headers and time windows they are applied to in this program are ASCII.

  A Go map with string keys is an association list with distinct keys. Its order is the
  order in which \<open>range\<close> visits the keys in the run under consideration; Go leaves that
  order open, so a statement about a map holds for every order of its entries.

  A time is an integer number of nanoseconds; the zero \<open>time.Time\<close> is \<^const>\<open>None\<close>
  where the code tests for it.
\<close>

named_theorems go_simps \<open>rewrite rules about the string and map vocabulary\<close>

type_synonym 'v gomap = "(string \<times> 'v) list"
type_synonym time = int
type_synonym duration = int

abbreviation second :: duration where "second \<equiv> 1000000000"

text \<open>\<open>m[k]\<close> with the comma-ok form, and \<open>m[k] = v\<close>.\<close>

abbreviation lookup :: "'v gomap \<Rightarrow> string \<Rightarrow> 'v option" where
  "lookup m k \<equiv> map_of m k"

abbreviation store :: "string \<Rightarrow> 'v \<Rightarrow> 'v gomap \<Rightarrow> 'v gomap" where
  "store k v m \<equiv> AList.update k v m"

abbreviation wf_map :: "'v gomap \<Rightarrow> bool" where
  "wf_map m \<equiv> distinct (map fst m)"

section \<open>Strings\<close>

definition has_prefix :: "string \<Rightarrow> string \<Rightarrow> bool" where
  "has_prefix s p \<longleftrightarrow> take (length p) s = p"

definition has_suffix :: "string \<Rightarrow> string \<Rightarrow> bool" where
  "has_suffix s p \<longleftrightarrow> length p \<le> length s \<and> drop (length s - length p) s = p"

definition trim_prefix :: "string \<Rightarrow> string \<Rightarrow> string" where
  "trim_prefix s p = (if has_prefix s p then drop (length p) s else s)"

definition trim_suffix :: "string \<Rightarrow> string \<Rightarrow> string" where
  "trim_suffix s p = (if has_suffix s p then take (length s - length p) s else s)"

text \<open>\<open>strings.SplitN(s, c, 2)[0]\<close>.\<close>

definition before_char :: "char \<Rightarrow> string \<Rightarrow> string" where
  "before_char c s = takeWhile (\<lambda>x. x \<noteq> c) s"

text \<open>\<open>strings.Cut(s, c)\<close> for a one-character separator: \<^const>\<open>None\<close> when absent.\<close>

fun cut :: "char \<Rightarrow> string \<Rightarrow> (string \<times> string) option" where
  "cut c [] = None"
| "cut c (x # xs) =
     (if x = c then Some ([], xs)
      else case cut c xs of None \<Rightarrow> None | Some (a, b) \<Rightarrow> Some (x # a, b))"

text \<open>\<open>strings.Split(s, c)\<close> for a one-character separator.\<close>

fun split_on :: "char \<Rightarrow> string \<Rightarrow> string list" where
  "split_on c [] = [[]]"
| "split_on c (x # xs) =
     (if x = c then [] # split_on c xs
      else case split_on c xs of [] \<Rightarrow> [[x]] | p # ps \<Rightarrow> (x # p) # ps)"

definition is_space :: "char \<Rightarrow> bool" where
  "is_space c \<longleftrightarrow> c \<in> {CHR '' '', CHR 0x09, CHR 0x0A, CHR 0x0B, CHR 0x0C, CHR 0x0D}"

definition trim_space :: "string \<Rightarrow> string" where
  "trim_space s = rev (dropWhile is_space (rev (dropWhile is_space s)))"

definition lower_char :: "char \<Rightarrow> char" where
  "lower_char c = (let n = of_char c :: nat in if 65 \<le> n \<and> n \<le> 90 then char_of (n + 32) else c)"

definition to_lower :: "string \<Rightarrow> string" where
  "to_lower s = map lower_char s"

text \<open>\<open>strings.Join(xs, sep)\<close>.\<close>

fun join :: "string \<Rightarrow> string list \<Rightarrow> string" where
  "join sep [] = []"
| "join sep [x] = x"
| "join sep (x # y # ys) = x @ sep @ join sep (y # ys)"

text \<open>\<open>%d\<close> of a natural number.\<close>

fun show_nat :: "nat \<Rightarrow> string" where
  "show_nat n = (if n < 10 then [char_of (48 + n)] else show_nat (n div 10) @ [char_of (48 + n mod 10)])"

declare show_nat.simps [simp del]

definition show_int :: "int \<Rightarrow> string" where
  "show_int i = (if i < 0 then CHR ''-'' # show_nat (nat (- i)) else show_nat (nat i))"

lemma has_prefix_prefix [go_simps]: "has_prefix s p \<longleftrightarrow> prefix p s"
  by (auto simp: has_prefix_def prefix_def) (metis append_take_drop_id)

lemma has_prefix_append [simp]: "has_prefix (p @ s) p"
  by (simp add: has_prefix_def)

lemma has_prefixE:
  assumes "has_prefix s p" obtains t where "s = p @ t"
  using assms by (auto simp: has_prefix_prefix prefix_def)

lemma trim_prefix_append [simp]: "trim_prefix (p @ s) p = s"
  by (simp add: trim_prefix_def)

lemma trim_prefix_id: "\<not> has_prefix s p \<Longrightarrow> trim_prefix s p = s"
  by (simp add: trim_prefix_def)

lemma trim_prefix_restores: "has_prefix s p \<Longrightarrow> p @ trim_prefix s p = s"
  by (auto elim: has_prefixE)

lemma has_suffix_append [simp]: "has_suffix (s @ p) p"
  by (simp add: has_suffix_def)

lemma trim_suffix_append [simp]: "trim_suffix (s @ p) p = s"
  by (simp add: trim_suffix_def)

lemma before_char_no_char: "c \<notin> set (before_char c s)"
  by (auto simp: before_char_def dest: set_takeWhileD)

lemma before_char_id: "c \<notin> set s \<Longrightarrow> before_char c s = s"
  by (auto simp: before_char_def takeWhile_eq_all_conv)

lemma cut_None [simp]: "cut c s = None \<longleftrightarrow> c \<notin> set s"
  by (induction s) (auto split: option.splits)

lemma cut_Some: "cut c s = Some (a, b) \<Longrightarrow> s = a @ c # b \<and> c \<notin> set a"
  by (induction s arbitrary: a b) (auto split: if_splits option.splits)

lemma cut_append: "c \<notin> set a \<Longrightarrow> cut c (a @ c # b) = Some (a, b)"
  by (induction a) auto

lemma split_on_nonempty [simp]: "split_on c s \<noteq> []"
  by (induction s) (auto split: list.splits)

lemma trim_space_no_space:
  assumes "\<forall>c \<in> set s. \<not> is_space c" shows "trim_space s = s"
proof -
  have "dropWhile is_space s = s"
    using assms by (cases s) auto
  moreover have "dropWhile is_space (rev s) = rev s"
    using assms by (cases s rule: rev_cases) auto
  ultimately show ?thesis by (simp add: trim_space_def)
qed

section \<open>Lists\<close>

text \<open>The first element for which an attempt succeeds: the shape of every candidate walk.\<close>

fun find_map :: "('a \<Rightarrow> 'b option) \<Rightarrow> 'a list \<Rightarrow> 'b option" where
  "find_map f [] = None"
| "find_map f (x # xs) = (case f x of Some y \<Rightarrow> Some y | None \<Rightarrow> find_map f xs)"

lemma find_map_None: "find_map f xs = None \<longleftrightarrow> (\<forall>x \<in> set xs. f x = None)"
  by (induction xs) (auto split: option.splits)

lemma find_map_Some:
  "find_map f xs = Some y \<longleftrightarrow>
     (\<exists>us x vs. xs = us @ x # vs \<and> (\<forall>u \<in> set us. f u = None) \<and> f x = Some y)"
proof (induction xs)
  case Nil
  then show ?case by simp
next
  case (Cons a xs)
  show ?case
  proof (cases "f a")
    case None
    show ?thesis
    proof
      assume "find_map f (a # xs) = Some y"
      with None Cons.IH obtain us x vs where
        "xs = us @ x # vs" "\<forall>u \<in> set us. f u = None" "f x = Some y" by auto
      with None have "a # xs = (a # us) @ x # vs \<and> (\<forall>u \<in> set (a # us). f u = None) \<and> f x = Some y"
        by simp
      then show "\<exists>us x vs. a # xs = us @ x # vs \<and> (\<forall>u \<in> set us. f u = None) \<and> f x = Some y"
        by blast
    next
      assume "\<exists>us x vs. a # xs = us @ x # vs \<and> (\<forall>u \<in> set us. f u = None) \<and> f x = Some y"
      then obtain us x vs where *: "a # xs = us @ x # vs" "\<forall>u \<in> set us. f u = None" "f x = Some y"
        by blast
      with None obtain us' where "us = a # us'" by (cases us) auto
      with * None Cons.IH show "find_map f (a # xs) = Some y" by auto
    qed
  next
    case (Some b)
    show ?thesis
      by (auto simp: Some Cons_eq_append_conv intro: exI[of _ "[]"])
  qed
qed

lemma find_map_cong:
  "xs = ys \<Longrightarrow> (\<And>x. x \<in> set ys \<Longrightarrow> f x = g x) \<Longrightarrow> find_map f xs = find_map g ys"
  by (induction xs arbitrary: ys) (auto split: option.splits)

lemma find_map_in: "find_map f xs = Some y \<Longrightarrow> \<exists>x \<in> set xs. f x = Some y"
  by (auto simp: find_map_Some)

lemma lookup_store [simp]: "lookup (store k v m) k' = (if k' = k then Some v else lookup m k')"
  by (simp add: update_conv')

lemma wf_map_store [simp]: "wf_map m \<Longrightarrow> wf_map (store k v m)"
  by (simp add: distinct_update)

lemma store_same: "wf_map m \<Longrightarrow> lookup m k = Some v \<Longrightarrow> store k v m = m"
  by (induction m) (auto split: if_splits dest: map_of_SomeD)

text \<open>The last elements of a list.\<close>

definition last_n :: "nat \<Rightarrow> 'a list \<Rightarrow> 'a list" where
  "last_n m xs = drop (length xs - m) xs"

lemma last_n_rev: "last_n m xs = rev (take m (rev xs))"
  by (simp add: last_n_def take_rev)

lemma length_last_n [simp]: "length (last_n m xs) = min m (length xs)"
  by (simp add: last_n_def)

lemma last_n_all: "length xs \<le> m \<Longrightarrow> last_n m xs = xs"
  by (simp add: last_n_def)

lemma last_n_absorb [simp]: "last_n m (last_n m xs @ ys) = last_n m (xs @ ys)"
  by (simp add: last_n_rev min_def)

section \<open>Substrings\<close>

text \<open>\<open>strings.Cut\<close> at the first occurrence of a separator.\<close>

fun cut_str :: "string \<Rightarrow> string \<Rightarrow> (string \<times> string) option" where
  "cut_str sep [] = (if sep = [] then Some ([], []) else None)"
| "cut_str sep (c # s) =
     (if has_prefix (c # s) sep then Some ([], drop (length sep) (c # s))
      else map_option (\<lambda>(a, b). (c # a, b)) (cut_str sep s))"

definition contains_str :: "string \<Rightarrow> string \<Rightarrow> bool" where
  "contains_str s sep \<longleftrightarrow> cut_str sep s \<noteq> None"

lemma cut_str_Some: "cut_str sep s = Some (a, b) \<Longrightarrow> s = a @ sep @ b"
proof (induction sep s arbitrary: a rule: cut_str.induct)
  case (2 sep c s)
  then show ?case by (auto split: if_splits elim!: has_prefixE)
qed (simp split: if_splits)

lemma cut_str_found: "cut_str sep (x @ sep @ y) \<noteq> None"
proof (induction x)
  case Nil
  show ?case
  proof (cases "sep @ y")
    case (Cons c s)
    then have "has_prefix (c # s) sep" by (metis has_prefix_append)
    then show ?thesis by (simp add: Cons)
  qed simp
next
  case (Cons c x)
  then obtain a b where "cut_str sep (x @ sep @ y) = Some (a, b)" by auto
  then show ?case by simp
qed

lemma cut_str_None: "cut_str sep s = None \<longleftrightarrow> (\<forall>x y. s \<noteq> x @ sep @ y)"
  using cut_str_found[of sep] cut_str_Some[of sep s] by (metis not_None_eq surj_pair)

lemma cut_str_first: "cut_str sep s = Some (a, b) \<Longrightarrow> s = x @ sep @ y \<Longrightarrow> length a \<le> length x"
proof (induction sep s arbitrary: a x rule: cut_str.induct)
  case (2 sep c s)
  show ?case
  proof (cases "has_prefix (c # s) sep")
    case False
    then have "x \<noteq> []" using 2(3) by (auto simp: go_simps)
    then obtain x' where x: "x = c # x'" "s = x' @ sep @ y" using 2(3) by (cases x) auto
    from False 2(2) obtain a' where a: "a = c # a'" "cut_str sep s = Some (a', b)" by auto
    show ?thesis using 2(1)[OF False a(2) x(2)] x(1) a(1) by simp
  qed (use 2(2) in auto)
qed (simp split: if_splits)

lemma cut_str_iff:
  "cut_str sep s = Some (a, b) \<longleftrightarrow> s = a @ sep @ b \<and> (\<forall>x y. s = x @ sep @ y \<longrightarrow> length a \<le> length x)"
proof
  assume "cut_str sep s = Some (a, b)"
  then show "s = a @ sep @ b \<and> (\<forall>x y. s = x @ sep @ y \<longrightarrow> length a \<le> length x)"
    using cut_str_Some cut_str_first by blast
next
  assume r: "s = a @ sep @ b \<and> (\<forall>x y. s = x @ sep @ y \<longrightarrow> length a \<le> length x)"
  then obtain a' b' where c: "cut_str sep s = Some (a', b')"
    using cut_str_found[of sep a b] by auto
  have s: "s = a' @ sep @ b'" by (rule cut_str_Some[OF c])
  have "length a' = length a"
  proof (rule le_antisym)
    show "length a' \<le> length a" using cut_str_first[OF c, of a b] r by blast
    show "length a \<le> length a'" using r s by blast
  qed
  moreover have "a' @ sep @ b' = a @ sep @ b" using s r by simp
  ultimately have "a' = a" "b' = b" by (metis append_eq_append_conv same_append_eq)+
  then show "cut_str sep s = Some (a, b)" using c by simp
qed

lemma cut_str_shorter: "cut_str sep s = Some (a, b) \<Longrightarrow> length a + length b + length sep = length s"
  by (drule cut_str_Some) simp

lemma cut_str_append: "cut_str sep s = Some (a, b) \<Longrightarrow> cut_str sep (s @ t) = Some (a, b @ t)"
proof (induction sep s arbitrary: a rule: cut_str.induct)
  case (2 sep c s)
  show ?case
  proof (cases "has_prefix (c # s) sep")
    case True
    then have p: "prefix sep (c # s)" by (simp add: go_simps)
    have "has_prefix (c # s @ t) sep" "length sep \<le> length (c # s)"
      using prefix_prefix[OF p, of t] prefix_length_le[OF p] by (simp_all add: go_simps)
    then show ?thesis using 2(2) True by (simp add: drop_Cons' split: if_splits)
  next
    case False
    then obtain a' where a: "a = c # a'" "cut_str sep s = Some (a', b)" using 2(2) by auto
    have "length sep \<le> length s" using cut_str_shorter[OF a(2)] by simp
    then have "\<not> has_prefix (c # s @ t) sep"
      using False take_append[of "length sep" "c # s" t] by (simp add: has_prefix_def)
    then show ?thesis using 2(1)[OF False a(2)] a(1) by simp
  qed
next
  case (1 sep)
  then show ?case by (cases t) (auto simp: has_prefix_def split: if_splits)
qed

end
