(* ===== verification/Request_Defaults.thy ===== *)
theory Request_Defaults
  imports Complex_Main Go_Prelude
begin

text \<open>
  \<^verbatim>\<open>internal/config/request_defaults.go\<close>: the fill-only merge of configured request-body
  defaults into a caller's JSON body.

  A decoded JSON or YAML value (\<open>any\<close>) is a \<open>json\<close>; an object is a Go map and so an
  association list. Values of the model are immutable, so the deep copies of the source
  are copies of equal value; \<open>deepCopyValue\<close> is kept as the recursive function it is and
  proved to return its argument.
\<close>

datatype json =
    JNull
  | JBool bool
  | JNum rat
  | JStr string
  | JArr "json list"
  | JObj "(string \<times> json) list"

type_synonym obj = "(string \<times> json) list"

text \<open>Go maps have distinct keys; \<open>wf_obj\<close> says so at every nesting level.\<close>

fun wf_json :: "json \<Rightarrow> bool" where
  "wf_json (JObj kvs) = (distinct (map fst kvs) \<and> list_all (\<lambda>(k, v). wf_json v) kvs)"
| "wf_json (JArr xs) = list_all wf_json xs"
| "wf_json _ = True"

abbreviation wf_obj :: "obj \<Rightarrow> bool" where
  "wf_obj d \<equiv> wf_json (JObj d)"

lemma wf_obj_iff: "wf_obj d \<longleftrightarrow> wf_map d \<and> (\<forall>k v. (k, v) \<in> set d \<longrightarrow> wf_json v)"
  by (auto simp: list_all_iff)

lemma wf_obj_ConsD:
  assumes "wf_obj ((k, v) # d)"
  shows "wf_json v" "wf_obj d" "k \<notin> fst ` set d" "lookup d k = None"
  using assms by (auto simp: map_of_eq_None_iff)

lemma wf_obj_lookup: "wf_obj d \<Longrightarrow> lookup d k = Some v \<Longrightarrow> wf_json v"
  by (auto simp: list_all_iff dest: map_of_SomeD)

section \<open>Definitions\<close>

fun deepCopyValue :: "json \<Rightarrow> json" where
  "deepCopyValue (JObj kvs) = JObj (map (\<lambda>(k, e). (k, deepCopyValue e)) kvs)"
| "deepCopyValue (JArr xs) = JArr (map deepCopyValue xs)"
| "deepCopyValue v = v"

function ApplyRequestDefaults :: "obj \<Rightarrow> obj \<Rightarrow> obj" where
  "ApplyRequestDefaults body [] = body"
| "ApplyRequestDefaults body ((k, dv) # ds) =
     ApplyRequestDefaults
       (case lookup body k of
          None \<Rightarrow> body @ [(k, deepCopyValue dv)]
        | Some bv \<Rightarrow>
            (case (bv, dv) of
               (JObj bm, JObj dm) \<Rightarrow> store k (JObj (ApplyRequestDefaults bm dm)) body
             | _ \<Rightarrow> body))
       ds"
  by pat_completeness auto
termination
  by (relation "measure (\<lambda>(b, d). size (JObj d))") auto

function missingKeys :: "obj \<Rightarrow> obj \<Rightarrow> string list" where
  "missingKeys body [] = []"
| "missingKeys body ((k, dv) # ds) =
     (case lookup body k of
        None \<Rightarrow> [k]
      | Some bv \<Rightarrow>
          (case (bv, dv) of
             (JObj bm, JObj dm) \<Rightarrow> if missingKeys bm dm \<noteq> [] then [k] else []
           | _ \<Rightarrow> []))
     @ missingKeys body ds"
  by pat_completeness auto
termination
  by (relation "measure (\<lambda>(b, d). size (JObj d))") auto

definition AppliedRequestDefaultKeys :: "obj \<Rightarrow> obj \<Rightarrow> string list" where
  "AppliedRequestDefaultKeys body defaults = sort (missingKeys body defaults)"

definition reservedRequestFields :: "string list" where
  "reservedRequestFields = [''model'', ''messages'', ''stream'', ''prompt'', ''input'']"

text \<open>The first reserved field a defaults block sets, as the error of the source.\<close>

definition validateRequestDefaults :: "obj \<Rightarrow> string option" where
  "validateRequestDefaults d = find (\<lambda>k. lookup d k \<noteq> None) reservedRequestFields"

section \<open>What the merge computes\<close>

lemma deepCopyValue_id [simp]: "deepCopyValue v = v"
  by (induction v rule: deepCopyValue.induct) (auto intro: map_idI)

lemma wf_map_snoc: "wf_map b \<Longrightarrow> lookup b k = None \<Longrightarrow> wf_map (b @ [(k, v)])"
  by (auto simp: map_of_eq_None_iff)

lemma lookup_snoc: "lookup b k = None \<Longrightarrow> lookup (b @ [(k, v)]) k' = (if k' = k then Some v else lookup b k')"
  by (induction b) (auto split: if_splits)

text \<open>What the merged object holds at one key, from what the two sides hold there.\<close>

fun merge_at :: "json option \<Rightarrow> json option \<Rightarrow> json option" where
  "merge_at b None = b"
| "merge_at None (Some dv) = Some dv"
| "merge_at (Some (JObj bm)) (Some (JObj dm)) = Some (JObj (ApplyRequestDefaults bm dm))"
| "merge_at (Some bv) (Some dv) = Some bv"

text \<open>One round of the loop over the defaults.\<close>

definition fill_one :: "obj \<Rightarrow> string \<Rightarrow> json \<Rightarrow> obj" where
  "fill_one body k dv =
     (case lookup body k of
        None \<Rightarrow> body @ [(k, dv)]
      | Some bv \<Rightarrow>
          (case (bv, dv) of
             (JObj bm, JObj dm) \<Rightarrow> store k (JObj (ApplyRequestDefaults bm dm)) body
           | _ \<Rightarrow> body))"

lemma Apply_Cons: "ApplyRequestDefaults body ((k, dv) # ds) = ApplyRequestDefaults (fill_one body k dv) ds"
  by (simp add: fill_one_def split: option.splits json.splits)

declare ApplyRequestDefaults.simps(2) [simp del]
declare Apply_Cons [simp]

lemma lookup_fill_one:
  "lookup (fill_one body k dv) k' = (if k' = k then merge_at (lookup body k) (Some dv) else lookup body k')"
  by (auto simp: fill_one_def lookup_snoc simp del: map_of_append split: option.splits json.splits)

lemma wf_map_fill_one: "wf_map body \<Longrightarrow> wf_map (fill_one body k dv)"
  by (auto simp: fill_one_def wf_map_snoc simp del: distinct_append map_append
      split: option.splits json.splits)

lemma lookup_ApplyRequestDefaults:
  "wf_map d \<Longrightarrow> lookup (ApplyRequestDefaults b d) k = merge_at (lookup b k) (lookup d k)"
proof (induction d arbitrary: b)
  case Nil
  then show ?case by simp
next
  case (Cons kv ds)
  obtain k' dv where kv: "kv = (k', dv)" by force
  from Cons.prems kv have notin: "lookup ds k' = None" and wf: "wf_map ds"
    by (auto simp: map_of_eq_None_iff)
  show ?case
    by (simp add: kv Cons.IH[OF wf] lookup_fill_one notin)
qed

lemma wf_map_Apply: "wf_map b \<Longrightarrow> wf_map (ApplyRequestDefaults b d)"
proof (induction d arbitrary: b)
  case Nil
  then show ?case by simp
next
  case (Cons kv ds)
  obtain k dv where kv: "kv = (k, dv)" by force
  show ?case
    unfolding kv Apply_Cons by (rule Cons.IH[OF wf_map_fill_one[OF Cons.prems]])
qed

lemma missingKeys_empty_iff:
  "missingKeys b d = [] \<longleftrightarrow>
     (\<forall>(k, dv) \<in> set d. \<exists>bv. lookup b k = Some bv \<and>
        (\<forall>bm dm. bv = JObj bm \<longrightarrow> dv = JObj dm \<longrightarrow> missingKeys bm dm = []))"
proof (induction d)
  case Nil
  then show ?case by simp
next
  case (Cons kv ds)
  obtain k dv where kv: "kv = (k, dv)" by force
  show ?case
    by (simp add: kv Cons.IH split: option.splits json.splits)
qed

lemma missingKeys_emptyI:
  assumes "\<And>k dv. (k, dv) \<in> set d \<Longrightarrow> \<exists>bv. lookup b k = Some bv \<and>
        (\<forall>bm dm. bv = JObj bm \<longrightarrow> dv = JObj dm \<longrightarrow> missingKeys bm dm = [])"
  shows "missingKeys b d = []"
  by (subst missingKeys_empty_iff) (use assms in auto)

lemma set_missingKeys:
  "wf_map d \<Longrightarrow> k \<in> set (missingKeys b d) \<longleftrightarrow>
     (\<exists>dv. lookup d k = Some dv \<and>
        (lookup b k = None \<or>
         (\<exists>bm dm. lookup b k = Some (JObj bm) \<and> dv = JObj dm \<and> missingKeys bm dm \<noteq> [])))"
proof (induction d)
  case Nil
  then show ?case by simp
next
  case (Cons kv ds)
  obtain k' dv where kv: "kv = (k', dv)" by force
  from Cons.prems kv have "lookup ds k' = None" "wf_map ds"
    by (auto simp: map_of_eq_None_iff)
  with Cons.IH show ?case
    by (auto simp: kv split: option.splits json.splits if_splits)
qed

lemma Apply_fixed:
  "missingKeys b d = [] \<Longrightarrow> wf_obj b \<Longrightarrow> ApplyRequestDefaults b d = b"
proof (induction b d rule: missingKeys.induct)
  case (1 b)
  then show ?case by simp
next
  case (2 b k dv ds)
  from "2.prems" obtain bv where bv: "lookup b k = Some bv"
    by (auto split: option.splits)
  from "2.prems" have ds: "missingKeys b ds = []" by simp
  have "fill_one b k dv = b"
  proof (cases "\<exists>bm dm. bv = JObj bm \<and> dv = JObj dm")
    case True
    then obtain bm dm where o: "bv = JObj bm" "dv = JObj dm" by blast
    with "2.prems" bv have "missingKeys bm dm = []" by (auto split: if_splits)
    moreover from wf_obj_lookup[OF "2.prems"(2) bv] have "wf_obj bm" by (simp add: o)
    ultimately have "ApplyRequestDefaults bm dm = bm"
      using "2.IH"(1) bv o by blast
    with o bv "2.prems"(2) show ?thesis by (simp add: fill_one_def store_same)
  next
    case False
    with bv show ?thesis by (auto simp: fill_one_def split: json.splits)
  qed
  moreover have "ApplyRequestDefaults b ds = b"
    by (rule "2.IH"(2)[OF ds "2.prems"(2)])
  ultimately show ?case by simp
qed

lemma size_obj_member: "(k, JObj dm) \<in> set d \<Longrightarrow> size (JObj dm) < size (JObj d)"
  by (induction d) auto

lemma wf_obj_by_lookup: "wf_map d \<Longrightarrow> (\<And>k v. lookup d k = Some v \<Longrightarrow> wf_json v) \<Longrightarrow> wf_obj d"
  by (auto simp: list_all_iff)

lemma wf_obj_Apply: "wf_obj b \<Longrightarrow> wf_obj d \<Longrightarrow> wf_obj (ApplyRequestDefaults b d)"
proof (induction d arbitrary: b rule: measure_induct_rule[of "\<lambda>d. size (JObj d)"])
  case (less d)
  show ?case
  proof (rule wf_obj_by_lookup)
    show "wf_map (ApplyRequestDefaults b d)" using less.prems(1) by (simp add: wf_map_Apply)
    fix k v assume v: "lookup (ApplyRequestDefaults b d) k = Some v"
    have m: "merge_at (lookup b k) (lookup d k) = Some v"
      using v lookup_ApplyRequestDefaults[of d b k] less.prems(2) by simp
    note wb = wf_obj_lookup[OF less.prems(1), of k] and wd = wf_obj_lookup[OF less.prems(2), of k]
    show "wf_json v"
    proof (cases "\<exists>bm dm. lookup b k = Some (JObj bm) \<and> lookup d k = Some (JObj dm)")
      case True
      then obtain bm dm where o: "lookup b k = Some (JObj bm)" "lookup d k = Some (JObj dm)" by blast
      have "size (JObj dm) < size (JObj d)"
        by (rule size_obj_member) (rule map_of_SomeD[OF o(2)])
      with less.IH[of dm bm] wb wd o m show ?thesis by auto
    next
      case False
      with m have "lookup b k = Some v \<or> lookup d k = Some v"
        by (cases "lookup b k"; cases "lookup d k"; cases "the (lookup b k)"; cases "the (lookup d k)") auto
      with wb wd show ?thesis by blast
    qed
  qed
qed

lemma missingKeys_refl: "wf_obj d \<Longrightarrow> missingKeys d d = []"
proof (induction d rule: measure_induct_rule[of "\<lambda>d. size (JObj d)"])
  case (less d)
  show ?case
  proof (rule missingKeys_emptyI)
    fix k dv assume kv: "(k, dv) \<in> set d"
    with less.prems have l: "lookup d k = Some dv" by simp
    have "missingKeys dm dm = []" if "dv = JObj dm" for dm
      using less.IH[of dm] size_obj_member[of k dm d] kv that wf_obj_lookup[OF less.prems l] by simp
    with l show "\<exists>bv. lookup d k = Some bv \<and>
        (\<forall>bm dm. bv = JObj bm \<longrightarrow> dv = JObj dm \<longrightarrow> missingKeys bm dm = [])"
      by auto
  qed
qed

lemma missingKeys_Apply: "wf_obj d \<Longrightarrow> missingKeys (ApplyRequestDefaults b d) d = []"
proof (induction d arbitrary: b rule: measure_induct_rule[of "\<lambda>d. size (JObj d)"])
  case (less d)
  show ?case
  proof (rule missingKeys_emptyI)
    fix k dv assume kv: "(k, dv) \<in> set d"
    with less.prems have l: "lookup d k = Some dv" by simp
    have res: "lookup (ApplyRequestDefaults b d) k = merge_at (lookup b k) (Some dv)"
      using lookup_ApplyRequestDefaults[of d b k] less.prems l by simp
    have refl: "missingKeys dm dm = []" if "dv = JObj dm" for dm
      using missingKeys_refl wf_obj_lookup[OF less.prems l] that by simp
    have rec: "missingKeys (ApplyRequestDefaults bm dm) dm = []" if "dv = JObj dm" for bm dm
      using less.IH[of dm bm] size_obj_member[of k dm d] kv that wf_obj_lookup[OF less.prems l] by simp
    show "\<exists>bv. lookup (ApplyRequestDefaults b d) k = Some bv \<and>
        (\<forall>bm dm. bv = JObj bm \<longrightarrow> dv = JObj dm \<longrightarrow> missingKeys bm dm = [])"
      unfolding res
      by (cases "lookup b k"; cases dv; cases "the (lookup b k)") (auto simp: refl rec)
  qed
qed

section \<open>Values at a path\<close>

fun jpath :: "string list \<Rightarrow> json \<Rightarrow> json option" where
  "jpath [] v = Some v"
| "jpath (k # ks) (JObj kvs) = (case lookup kvs k of None \<Rightarrow> None | Some v \<Rightarrow> jpath ks v)"
| "jpath (k # ks) _ = None"

definition is_obj :: "json \<Rightarrow> bool" where
  "is_obj v \<longleftrightarrow> (case v of JObj _ \<Rightarrow> True | _ \<Rightarrow> False)"

lemma is_obj_simps [simp]:
  "is_obj (JObj d)" "\<not> is_obj JNull" "\<not> is_obj (JBool b)" "\<not> is_obj (JNum n)"
  "\<not> is_obj (JStr s)" "\<not> is_obj (JArr xs)"
  by (simp_all add: is_obj_def)

lemma jpath_nonobj: "\<not> is_obj v \<Longrightarrow> jpath (k # ks) v = None"
  by (cases v) auto

lemma merge_at_nonobj: "\<not> is_obj v \<Longrightarrow> merge_at (Some v) dv = Some v"
  by (cases v; cases dv) auto

text \<open>The caller wins at every nesting level: whatever non-object value the request body
  holds at a path of keys, the body that is forwarded after filling in the seat's defaults holds
  the same value there.\<close>

theorem defaults_caller_wins:
  assumes "wf_obj d" and "jpath p (JObj b) = Some v" and "\<not> is_obj v"
  shows "jpath p (JObj (ApplyRequestDefaults b d)) = Some v"
  using assms
proof (induction p arbitrary: b d)
  case Nil
  then show ?case by auto
next
  case (Cons k p)
  from Cons.prems(2) obtain bv where bv: "lookup b k = Some bv" and rest: "jpath p bv = Some v"
    by (auto split: option.splits)
  note look = lookup_ApplyRequestDefaults[of d b k]
  show ?case
  proof (cases "\<exists>bm dm. bv = JObj bm \<and> lookup d k = Some (JObj dm)")
    case True
    then obtain bm dm where o: "bv = JObj bm" "lookup d k = Some (JObj dm)" by blast
    with Cons.prems(1) wf_obj_lookup[of d k] have "wf_obj dm" by blast
    with Cons.IH[of dm bm] rest Cons.prems(3) o bv Cons.prems(1) look show ?thesis by simp
  next
    case False
    then have "merge_at (Some bv) (lookup d k) = Some bv"
      by (cases bv; cases "lookup d k"; cases "the (lookup d k)") auto
    with look bv rest Cons.prems(1) show ?thesis by simp
  qed
qed

theorem defaults_caller_wins_witness:
  "jpath [''chat_template_kwargs'', ''enable_thinking'']
     (JObj (ApplyRequestDefaults
        [(''chat_template_kwargs'', JObj [(''enable_thinking'', JBool False)])]
        [(''chat_template_kwargs'', JObj [(''enable_thinking'', JBool True), (''top_k'', JNum 3)])]))
   = Some (JBool False)"
  by (rule defaults_caller_wins) simp_all

text \<open>Defaults fill what the caller left unsaid: where the request body has no value at a path
  and no non-object value on the way to it, the forwarded body holds exactly what the defaults hold
  at that path.\<close>

theorem defaults_fill_unset:
  assumes "wf_obj d" and "jpath p (JObj b) = None"
    and "\<forall>q r v. p = q @ r \<longrightarrow> jpath q (JObj b) = Some v \<longrightarrow> is_obj v"
  shows "jpath p (JObj (ApplyRequestDefaults b d)) = jpath p (JObj d)"
  using assms
proof (induction p arbitrary: b d)
  case Nil
  then show ?case by simp
next
  case (Cons k p)
  note look = lookup_ApplyRequestDefaults[of d b k]
  show ?case
  proof (cases "lookup b k")
    case None
    with look Cons.prems(1) show ?thesis by (cases "lookup d k") auto
  next
    case (Some bv)
    have "jpath [k] (JObj b) = Some bv" using Some by simp
    with Cons.prems(3) have "is_obj bv" by (metis append_Cons append_Nil)
    then obtain bm where bm: "bv = JObj bm" by (cases bv) auto
    have inner: "\<forall>q r v. p = q @ r \<longrightarrow> jpath q (JObj bm) = Some v \<longrightarrow> is_obj v"
    proof (intro allI impI)
      fix q r v assume "p = q @ r" "jpath q (JObj bm) = Some v"
      with Some bm have "k # p = (k # q) @ r" "jpath (k # q) (JObj b) = Some v" by simp_all
      with Cons.prems(3) show "is_obj v" by blast
    qed
    have none: "jpath p (JObj bm) = None" using Cons.prems(2) Some bm by simp
    show ?thesis
    proof (cases "\<exists>dm. lookup d k = Some (JObj dm)")
      case True
      then obtain dm where dm: "lookup d k = Some (JObj dm)" by blast
      with Cons.prems(1) wf_obj_lookup[of d k] have "wf_obj dm" by blast
      with Cons.IH[OF _ none inner, of dm] dm Some bm look Cons.prems(1) show ?thesis by simp
    next
      case False
      then have keep: "lookup (ApplyRequestDefaults b d) k = Some (JObj bm)"
        using look Some bm Cons.prems(1) by (cases "lookup d k"; cases "the (lookup d k)") auto
      from none obtain k' p' where p: "p = k' # p'" by (cases p) auto
      have "jpath (k # p) (JObj d) = None"
      proof (cases "lookup d k")
        case (Some dv)
        with False have "\<not> is_obj dv" by (cases dv) auto
        with Some show ?thesis by (simp add: p jpath_nonobj)
      qed simp
      with keep none show ?thesis by simp
    qed
  qed
qed

theorem defaults_fill_unset_witness:
  "jpath [''chat_template_kwargs'', ''top_k'']
     (JObj (ApplyRequestDefaults
        [(''chat_template_kwargs'', JObj [(''enable_thinking'', JBool False)])]
        [(''chat_template_kwargs'', JObj [(''enable_thinking'', JBool True), (''top_k'', JNum 3)])]))
   = Some (JNum 3)"
proof -
  let ?b = "[(''chat_template_kwargs'', JObj [(''enable_thinking'', JBool False)])]"
  have "\<forall>q r v. [''chat_template_kwargs'', ''top_k''] = q @ r \<longrightarrow> jpath q (JObj ?b) = Some v \<longrightarrow> is_obj v"
    by (auto simp: Cons_eq_append_conv)
  then show ?thesis by (subst defaults_fill_unset) simp_all
qed

text \<open>Filling in the same defaults a second time changes nothing: the tool proxy behind the
  router may apply them again.\<close>

theorem defaults_idempotent:
  assumes "wf_obj b" and "wf_obj d"
  shows "ApplyRequestDefaults (ApplyRequestDefaults b d) d = ApplyRequestDefaults b d"
  by (rule Apply_fixed[OF missingKeys_Apply wf_obj_Apply]) (use assms in auto)

theorem defaults_idempotent_witness:
  "ApplyRequestDefaults (ApplyRequestDefaults [(''top_p'', JNum 1)] [(''n'', JNum 2)]) [(''n'', JNum 2)]
   = ApplyRequestDefaults [(''top_p'', JNum 1)] [(''n'', JNum 2)]"
  by (rule defaults_idempotent) simp_all

text \<open>The keys the forwarding log line names are, in sorted order, exactly the top-level keys
  whose value in the forwarded body differs from what the caller sent.\<close>

theorem applied_keys_exact:
  assumes "wf_obj b" and "wf_obj d"
  shows "set (AppliedRequestDefaultKeys b d) =
           {k. lookup (ApplyRequestDefaults b d) k \<noteq> lookup b k}
         \<and> sorted (AppliedRequestDefaultKeys b d)"
proof -
  have "k \<in> set (missingKeys b d) \<longleftrightarrow> lookup (ApplyRequestDefaults b d) k \<noteq> lookup b k" for k
  proof -
    have changed: "missingKeys bm dm \<noteq> [] \<longleftrightarrow> ApplyRequestDefaults bm dm \<noteq> bm"
      if "lookup b k = Some (JObj bm)" "lookup d k = Some (JObj dm)" for bm dm
      using wf_obj_lookup[OF assms(1) that(1)] wf_obj_lookup[OF assms(2) that(2)]
        Apply_fixed[of bm dm] missingKeys_Apply[of dm bm] by auto
    show ?thesis
    proof (cases "lookup d k")
      case None
      then show ?thesis using assms(2)
        by (simp add: set_missingKeys lookup_ApplyRequestDefaults)
    next
      case (Some dv)
      show ?thesis
      proof (cases "lookup b k")
        case None
        with Some assms(2) show ?thesis
          by (simp add: set_missingKeys lookup_ApplyRequestDefaults)
      next
        case bv: (Some bv)
        with Some changed assms(2) show ?thesis
          by (cases bv; cases dv) (auto simp: set_missingKeys lookup_ApplyRequestDefaults)
      qed
    qed
  qed
  then show ?thesis by (auto simp: AppliedRequestDefaultKeys_def)
qed

theorem applied_keys_exact_witness:
  "set (AppliedRequestDefaultKeys [(''top_p'', JNum 1)] [(''top_p'', JNum 2), (''n'', JNum 2)]) =
     {k. lookup (ApplyRequestDefaults [(''top_p'', JNum 1)] [(''top_p'', JNum 2), (''n'', JNum 2)]) k
           \<noteq> lookup [(''top_p'', JNum 1)] k}
   \<and> sorted (AppliedRequestDefaultKeys [(''top_p'', JNum 1)] [(''top_p'', JNum 2), (''n'', JNum 2)])"
  by (rule applied_keys_exact) simp_all

text \<open>A defaults block that passes load-time validation never touches the fields the caller or
  the router owns: model, messages, stream, prompt and input are forwarded as they came.\<close>

theorem reserved_fields_untouched:
  assumes "wf_obj d" and "validateRequestDefaults d = None" and "k \<in> set reservedRequestFields"
  shows "lookup (ApplyRequestDefaults b d) k = lookup b k"
proof -
  from assms(2,3) have "lookup d k = None"
    by (auto simp: validateRequestDefaults_def find_None_iff)
  with assms(1) show ?thesis by (simp add: lookup_ApplyRequestDefaults)
qed

theorem reserved_fields_untouched_witness:
  "lookup (ApplyRequestDefaults [(''stream'', JBool True)] [(''top_p'', JNum 1)]) ''stream''
   = lookup [(''stream'', JBool True)] ''stream''"
  by (rule reserved_fields_untouched)
     (simp_all add: validateRequestDefaults_def reservedRequestFields_def)

end
