(* ===== verification/Go_Url.thy ===== *)
theory Go_Url
  imports Go_Prelude
begin

text \<open>
  The part of Go's \<open>net/url\<close> the router relies on: \<open>url.Parse\<close> down to the scheme and the
  host, and \<open>URL.Hostname\<close>. \<open>url_parse\<close> returns the scheme and the \<open>Host\<close> field
  (with its port), or \<^const>\<open>None\<close> where \<open>url.Parse\<close> returns an error.

  A percent sign in the host is an error here; Go also accepts the few escapes it allows in an
  IPv6 zone or for non-ASCII bytes.
\<close>

definition is_alpha :: "char \<Rightarrow> bool" where
  "is_alpha c \<longleftrightarrow> (let n = of_char c :: nat in 65 \<le> n \<and> n \<le> 90 \<or> 97 \<le> n \<and> n \<le> 122)"

definition is_digit :: "char \<Rightarrow> bool" where
  "is_digit c \<longleftrightarrow> (let n = of_char c :: nat in 48 \<le> n \<and> n \<le> 57)"

definition is_hex :: "char \<Rightarrow> bool" where
  "is_hex c \<longleftrightarrow> is_digit c \<or> (let n = of_char c :: nat in 65 \<le> n \<and> n \<le> 70 \<or> 97 \<le> n \<and> n \<le> 102)"

definition is_ctl :: "char \<Rightarrow> bool" where
  "is_ctl c \<longleftrightarrow> (let n = of_char c :: nat in n < 32 \<or> n = 127)"

definition is_ascii :: "char \<Rightarrow> bool" where
  "is_ascii c \<longleftrightarrow> (of_char c :: nat) < 128"

text \<open>\<open>getScheme\<close>: \<^const>\<open>None\<close> for a leading colon, else the scheme (maybe empty) and the rest.\<close>

definition scheme_char :: "char \<Rightarrow> bool" where
  "scheme_char c \<longleftrightarrow> is_alpha c \<or> is_digit c \<or> c \<in> set ''+-.''"

definition get_scheme :: "string \<Rightarrow> (string \<times> string) option" where
  "get_scheme s =
     (let pre = takeWhile scheme_char s; post = dropWhile scheme_char s in
      case post of
        [] \<Rightarrow> Some ([], s)
      | c # rest \<Rightarrow>
          if c \<noteq> CHR '':'' then Some ([], s)
          else if pre = [] then None
          else if is_alpha (hd pre) then Some (pre, rest)
          else Some ([], s))"

fun bad_escape :: "string \<Rightarrow> bool" where
  "bad_escape [] = False"
| "bad_escape (c # s) =
     (if c = CHR ''%'' then
        (case s of a # b # _ \<Rightarrow> \<not> (is_hex a \<and> is_hex b) \<or> bad_escape s | _ \<Rightarrow> True)
      else bad_escape s)"

definition valid_optional_port :: "string \<Rightarrow> bool" where
  "valid_optional_port p \<longleftrightarrow> p = [] \<or> (hd p = CHR '':'' \<and> list_all is_digit (tl p))"

text \<open>Split at the last occurrence of a character.\<close>

definition cut_last :: "char \<Rightarrow> string \<Rightarrow> (string \<times> string) option" where
  "cut_last c s =
     (case cut c (rev s) of None \<Rightarrow> None | Some (post, pre) \<Rightarrow> Some (rev pre, rev post))"

definition host_char :: "char \<Rightarrow> bool" where
  "host_char c \<longleftrightarrow> is_alpha c \<or> is_digit c \<or> \<not> is_ascii c \<or> c \<in> set ''-_.~!$&'()*+,;=:[]<>'' \<or> c = CHR 0x22"

definition userinfo_char :: "char \<Rightarrow> bool" where
  "userinfo_char c \<longleftrightarrow> is_alpha c \<or> is_digit c \<or> c \<in> set ''-._:~!$&'()*+,;=%@''"

definition parse_host :: "string \<Rightarrow> string option" where
  "parse_host host =
     (if has_prefix host ''['' then
        (case cut_last (CHR '']'') host of
           None \<Rightarrow> None
         | Some (_, port) \<Rightarrow>
             if valid_optional_port port \<and> list_all host_char host then Some host else None)
      else
        (case cut_last (CHR '':'') host of
           None \<Rightarrow> if list_all host_char host then Some host else None
         | Some (_, port) \<Rightarrow>
             if valid_optional_port (CHR '':'' # port) \<and> list_all host_char host then Some host else None))"

definition parse_authority :: "string \<Rightarrow> string option" where
  "parse_authority a =
     (case cut_last (CHR ''@'') a of
        None \<Rightarrow> parse_host a
      | Some (ui, host) \<Rightarrow>
          if list_all userinfo_char ui \<and> \<not> bad_escape ui then parse_host host else None)"

definition url_parse :: "string \<Rightarrow> (string \<times> string) option" where
  "url_parse raw =
     (let u = before_char (CHR ''#'') raw; frag = drop (length u) raw in
      if list_ex is_ctl u \<or> bad_escape frag then None
      else if u = ''*'' then Some ([], [])
      else case get_scheme u of
        None \<Rightarrow> None
      | Some (scheme, rest0) \<Rightarrow>
          let rest = before_char (CHR ''?'') rest0 in
          if \<not> has_prefix rest ''/'' \<and> scheme \<noteq> [] then Some (to_lower scheme, [])
          else if \<not> has_prefix rest ''/'' \<and> CHR '':'' \<in> set (before_char (CHR ''/'') rest) then None
          else if (scheme \<noteq> [] \<or> \<not> has_prefix rest ''///'') \<and> has_prefix rest ''//'' then
            (let auth = before_char (CHR ''/'') (drop 2 rest); path = drop (2 + length auth) rest in
             case parse_authority auth of
               None \<Rightarrow> None
             | Some host \<Rightarrow> if bad_escape path then None else Some (to_lower scheme, host))
          else if bad_escape rest then None else Some (to_lower scheme, []))"

text \<open>\<open>URL.Hostname\<close>: the host without its port and without the brackets of an IPv6 literal.\<close>

definition strip_port :: "string \<Rightarrow> string" where
  "strip_port host =
     (let h = (case cut_last (CHR '':'') host of
                 None \<Rightarrow> host
               | Some (pre, port) \<Rightarrow> if list_all is_digit port then pre else host)
      in if has_prefix h ''['' \<and> has_suffix h '']'' then butlast (tl h) else h)"

definition url_hostname :: "string \<Rightarrow> string option" where
  "url_hostname raw = map_option (\<lambda>(_, host). strip_port host) (url_parse raw)"

lemma url_hostname_openrouter: "url_hostname ''https://openrouter.ai/api/v1'' = Some ''openrouter.ai''"
  by code_simp

lemma url_hostname_port: "url_hostname ''http://user:pw@OpenRouter.ai:8443'' = Some ''OpenRouter.ai''"
  by code_simp

lemma url_hostname_lookalike: "url_hostname ''https://zen.example/openrouter.ai'' = Some ''zen.example''"
  by code_simp

end
