(* ===== verification/Go_Http.thy ===== *)
theory Go_Http
  imports Request_Defaults Go_Url
begin

text \<open>
  The parts of \<^verbatim>\<open>net/http\<close> and \<^verbatim>\<open>encoding/json\<close> the router's handlers use: header maps with canonical
  keys, the headers \<^verbatim>\<open>httputil.ReverseProxy\<close> strips from an outbound request, the field of a struct a
  JSON object is decoded into, and the compact encoding of \<open>json.Marshal\<close>.

  A document is decoded in document order, so an object read from the wire is a list of its members and
  the last member that matches a field wins; a key matches a field by its name up to the case of ASCII
  letters. \<open>numtext\<close> is the text \<^verbatim>\<open>encoding/json\<close> prints for a number. Non-ASCII letters are bytes, and
  case folding leaves them alone.
\<close>

section \<open>Headers\<close>

type_synonym header = "string list gomap"

definition token_char :: "char \<Rightarrow> bool" where
  "token_char c \<longleftrightarrow> is_alpha c \<or> is_digit c \<or> c \<in> set ''!#$%&*+-.^_`|~'' \<or> c = CHR 0x27"

definition upper_char :: "char \<Rightarrow> char" where
  "upper_char c = (let n = of_char c :: nat in if 97 \<le> n \<and> n \<le> 122 then char_of (n - 32) else c)"

fun canonical_from :: "bool \<Rightarrow> string \<Rightarrow> string" where
  "canonical_from up [] = []"
| "canonical_from up (c # s) = (if up then upper_char c else lower_char c) # canonical_from (c = CHR ''-'') s"

text \<open>\<open>http.CanonicalHeaderKey\<close>: a key with a byte that no header name has is left as it is.\<close>

definition canonical_key :: "string \<Rightarrow> string" where
  "canonical_key k = (if list_all token_char k then canonical_from True k else k)"

definition header_get :: "header \<Rightarrow> string \<Rightarrow> string" where
  "header_get h k = (case lookup h (canonical_key k) of Some (v # vs) \<Rightarrow> v | _ \<Rightarrow> [])"

definition header_set :: "string \<Rightarrow> string \<Rightarrow> header \<Rightarrow> header" where
  "header_set k v h = store (canonical_key k) [v] h"

definition header_del :: "string \<Rightarrow> header \<Rightarrow> header" where
  "header_del k h = AList.delete (canonical_key k) h"

lemma header_get_set [simp]:
  "header_get (header_set k v h) k' = (if canonical_key k = canonical_key k' then v else header_get h k')"
  by (simp add: header_get_def header_set_def)

lemma header_get_del [simp]:
  "header_get (header_del k h) k' = (if canonical_key k = canonical_key k' then [] else header_get h k')"
  by (simp add: header_get_def header_del_def delete_conv split: option.split)

lemma lookup_header_del [simp]:
  "lookup (header_del k h) i = (if i = canonical_key k then None else lookup h i)"
  by (simp add: header_del_def delete_conv)

lemma lookup_header_set [simp]:
  "lookup (header_set k v h) i = (if i = canonical_key k then Some [v] else lookup h i)"
  by (simp add: header_set_def)

text \<open>What \<open>ReverseProxy\<close> does to the outbound headers before \<open>Rewrite\<close> runs: it drops the headers the
  inbound \<open>Connection\<close> names, the hop-by-hop headers and the forwarding headers.\<close>

definition hop_headers :: "string list" where
  "hop_headers = [''Connection'', ''Proxy-Connection'', ''Keep-Alive'', ''Proxy-Authenticate'',
     ''Proxy-Authorization'', ''Te'', ''Trailer'', ''Transfer-Encoding'', ''Upgrade'']"

definition forwarded_headers :: "string list" where
  "forwarded_headers = [''Forwarded'', ''X-Forwarded-For'', ''X-Forwarded-Host'', ''X-Forwarded-Proto'']"

definition connection_names :: "header \<Rightarrow> string list" where
  "connection_names h =
     filter (\<lambda>n. n \<noteq> [])
       (map trim_space (concat (map (split_on (CHR '','')) (case lookup h ''Connection'' of Some vs \<Rightarrow> vs | None \<Rightarrow> []))))"

definition strip_headers :: "header \<Rightarrow> header" where
  "strip_headers h = fold header_del (connection_names h @ hop_headers @ forwarded_headers) h"

lemma lookup_fold_del:
  "lookup (fold header_del ks h) i = (if i \<in> canonical_key ` set ks then None else lookup h i)"
  by (induction ks arbitrary: h) auto

section \<open>Decoding into structs\<close>

definition struct_field :: "(string \<times> json) list \<Rightarrow> string \<Rightarrow> json option" where
  "struct_field kvs name =
     map_option snd (find (\<lambda>(k, v). to_lower k = to_lower name) (rev kvs))"

text \<open>The order \<open>json.Marshal\<close> writes the members of a map in.\<close>

definition sorted_members :: "obj \<Rightarrow> obj" where
  "sorted_members d = sort_key fst d"

section \<open>The compact encoding\<close>

definition hex_lower :: "nat \<Rightarrow> char" where
  "hex_lower n = (if n < 10 then char_of (48 + n) else char_of (87 + n))"

definition unicode_escape :: "nat \<Rightarrow> string" where
  "unicode_escape n =
     [CHR 0x5C, CHR ''u'', hex_lower (n div 4096 mod 16), hex_lower (n div 256 mod 16), hex_lower (n div 16 mod 16), hex_lower (n mod 16)]"

definition escape_char :: "char \<Rightarrow> string" where
  "escape_char c =
     (let n = (of_char c :: nat) in
      if n = 34 \<or> n = 92 then [CHR 0x5C, c]
      else if n = 8 then [CHR 0x5C, CHR ''b'']
      else if n = 9 then [CHR 0x5C, CHR ''t'']
      else if n = 10 then [CHR 0x5C, CHR ''n'']
      else if n = 12 then [CHR 0x5C, CHR ''f'']
      else if n = 13 then [CHR 0x5C, CHR ''r'']
      else if n < 32 \<or> n = 60 \<or> n = 62 \<or> n = 38 then unicode_escape n
      else [c])"

fun escape_string :: "string \<Rightarrow> string" where
  "escape_string (a # b # c # s) =
     (if a = CHR 0xE2 \<and> b = CHR 0x80 \<and> (c = CHR 0xA8 \<or> c = CHR 0xA9)
      then unicode_escape (if c = CHR 0xA8 then 8232 else 8233) @ escape_string s
      else escape_char a @ escape_string (b # c # s))"
| "escape_string (a # s) = escape_char a @ escape_string s"
| "escape_string [] = []"

definition json_string :: "string \<Rightarrow> string" where
  "json_string s = CHR 0x22 # escape_string s @ [CHR 0x22]"

fun marshal :: "(rat \<Rightarrow> string) \<Rightarrow> json \<Rightarrow> string" where
  "marshal numtext JNull = ''null''"
| "marshal numtext (JBool b) = (if b then ''true'' else ''false'')"
| "marshal numtext (JNum x) = numtext x"
| "marshal numtext (JStr s) = json_string s"
| "marshal numtext (JArr xs) = ''['' @ join '','' (map (marshal numtext) xs) @ '']''"
| "marshal numtext (JObj kvs) =
     ''{'' @ join '','' (map snd (sort_key fst (map (\<lambda>(k, v). (k, json_string k @ '':'' @ marshal numtext v)) kvs))) @ ''}''"

end
