(* ===== verification/Registry.thy ===== *)
theory Registry
  imports Request_Defaults Go_Url
begin

text \<open>
  \<^verbatim>\<open>internal/config/config.go\<close>: the model registry. The enumerations and records of the
  file, the accessors of a model entry, the derivation of a model's upstream base, and the
  filters by node and by mode. Load-time validation is in \<open>Registry_Validate\<close>, discovery
  in \<open>Discovery\<close>.

  A Go string enumeration accepts any string from the YAML file, so each datatype has a last
  constructor for an unlisted value; the empty string is \<open>APIClassUnset\<close> (\<open>LocalityUnset\<close>, ...)
  where the code tests for it. A pointer field is an option; prices (\<open>float64\<close>, only copied and
  compared with zero) are rationals.
\<close>

section \<open>Enumerations\<close>

datatype BackendType =
  BackendVLLM | BackendLlamaCPP | BackendLMStudio | BackendExternal | BackendOther string

datatype ModelCapability =
  CapText | CapVision | CapAudio | CapImageGen | CapToolCalling | CapOther string

datatype APIClass =
    APIClassChat | APIClassEmbeddings | APIClassRerank | APIClassImageGen | APIClassImageEdit
  | APIClassTTS | APIClassSTT | APIClassMusicGen | APIClassAnthropic
  | APIClassUnset | APIClassOther string

datatype Locality = LocalityAny | LocalityLocal | LocalityLocalOrZDR | LocalityUnset | LocalityOther string

datatype RoleBalance = BalanceOrder | BalancePressure | BalanceUnset | BalanceOther string

datatype OnEmpty = OnEmptyError | OnEmptyOverflow | OnEmptyOther string

definition validAPIClasses :: "APIClass list" where
  "validAPIClasses =
     [APIClassChat, APIClassEmbeddings, APIClassRerank, APIClassImageGen, APIClassImageEdit,
      APIClassTTS, APIClassSTT, APIClassMusicGen, APIClassAnthropic]"

definition bindsOverflow :: "Locality \<Rightarrow> bool" where
  "bindsOverflow l \<longleftrightarrow> l = LocalityLocalOrZDR"

section \<open>Records\<close>

datatype GpuType = GpuAMD | GpuNvidia | GpuIntel | GpuNone | GpuOther string

record ServiceDefinition =
  sd_Type :: string
  sd_Port :: int
  sd_Label :: string

record NodeDefinition =
  n_Host :: string
  n_GPU :: GpuType
  n_VRAMGB :: int
  n_AgentPort :: int
  n_Services :: "ServiceDefinition gomap"
  n_UnifiedMemory :: bool
  n_Schedule :: "string list option"

record MultiNodeConfig =
  mn_Nodes :: "string list"
  mn_TensorParallelSize :: int
  mn_HeadNode :: string

record VllmArgs =
  va_ToolCallParser :: string
  va_MaxModelLen :: int

record AliasOverride =
  ao_ChatTemplateKwargs :: obj
  ao_ToolProxy :: "bool option"
  ao_RequestDefaults :: obj

record ModelHealth =
  mh_GenerationProbe :: "bool option"
  mh_Inventory :: "bool option"

record ModelDefinition =
  m_HFRepo :: string
  m_Backend :: BackendType
  m_Node :: string
  m_MultiNode :: "MultiNodeConfig option"
  m_VRAMGB :: int
  m_AlwaysOn :: bool
  m_Enabled :: bool
  m_ToolProxy :: bool
  m_Aliases :: "string list"
  m_AliasOverrides :: "AliasOverride gomap"
  m_Capabilities :: "ModelCapability list"
  m_Tags :: "string list"
  m_VllmArgs :: VllmArgs
  m_APIPort :: int
  m_APIBase :: string
  m_APIKey :: string
  m_APIKeyHeader :: string
  m_APIClass :: APIClass
  m_InputCostPerMillion :: "rat option"
  m_OutputCostPerMillion :: "rat option"
  m_Fallbacks :: "string list"
  m_ContextLength :: int
  m_MaxOutputTokens :: int
  m_EffectiveContext :: int
  m_Health :: "ModelHealth option"
  m_RequestDefaults :: obj

text \<open>The entry \<open>UnmarshalYAML\<close> starts from: the zero value with the schema's defaults.\<close>

definition default_model :: ModelDefinition where
  "default_model =
     \<lparr>m_HFRepo = [], m_Backend = BackendVLLM, m_Node = [], m_MultiNode = None, m_VRAMGB = 0,
      m_AlwaysOn = False, m_Enabled = True, m_ToolProxy = False, m_Aliases = [],
      m_AliasOverrides = [], m_Capabilities = [CapText], m_Tags = [],
      m_VllmArgs = \<lparr>va_ToolCallParser = [], va_MaxModelLen = 0\<rparr>,
      m_APIPort = 0, m_APIBase = [], m_APIKey = [], m_APIKeyHeader = [],
      m_APIClass = APIClassChat, m_InputCostPerMillion = None, m_OutputCostPerMillion = None,
      m_Fallbacks = [], m_ContextLength = 0, m_MaxOutputTokens = 0, m_EffectiveContext = 0,
      m_Health = None, m_RequestDefaults = []\<rparr>"

record RoleRequire =
  rq_Locality :: Locality
  rq_Capabilities :: "ModelCapability list"
  rq_APIClass :: APIClass

record RoleDefinition =
  r_Description :: string
  r_Require :: RoleRequire
  r_Candidates :: "string list"
  r_Balance :: RoleBalance
  r_BalanceGroups :: "string list list"
  r_OnEmpty :: OnEmpty
  r_Overflow :: "string list"

text \<open>\<open>RoleDefinition.UnmarshalYAML\<close>: the strict defaults of an unannotated role, and the two
  fields it fills after decoding.\<close>

definition default_role :: RoleDefinition where
  "default_role =
     \<lparr>r_Description = [],
      r_Require = \<lparr>rq_Locality = LocalityUnset, rq_Capabilities = [], rq_APIClass = APIClassUnset\<rparr>,
      r_Candidates = [], r_Balance = BalanceUnset, r_BalanceGroups = [],
      r_OnEmpty = OnEmptyError, r_Overflow = []\<rparr>"

definition fill_role :: "RoleDefinition \<Rightarrow> RoleDefinition" where
  "fill_role rd =
     (let rd1 = (if rq_Locality (r_Require rd) = LocalityUnset
                 then rd\<lparr>r_Require := (r_Require rd)\<lparr>rq_Locality := LocalityAny\<rparr>\<rparr> else rd)
      in if r_Balance rd1 = BalanceUnset then rd1\<lparr>r_Balance := BalanceOrder\<rparr> else rd1)"

record AdoptPolicy =
  ap_All :: bool
  ap_Patterns :: "string list"

record DiscoverySource =
  s_APIBase :: string
  s_Prefix :: string
  s_APIKey :: string
  s_APIKeyHeader :: string
  s_Adopt :: AdoptPolicy
  s_Exclude :: "string list"
  s_Tags :: "string list"
  s_ContextLength :: int
  s_MaxOutputTokens :: int
  s_Capabilities :: "ModelCapability list"

record PressureConfig =
  pc_WindowS :: int
  pc_GPUBuckets :: "int list"

record ModelRegistry =
  reg_Nodes :: "NodeDefinition gomap"
  reg_Models :: "ModelDefinition gomap"
  reg_Roles :: "RoleDefinition gomap"
  reg_Pressure :: PressureConfig
  reg_Discovery :: "DiscoverySource list"
  reg_ToolProxyAddr :: string

text \<open>The maps of a registry are Go maps.\<close>

definition wf_registry :: "ModelRegistry \<Rightarrow> bool" where
  "wf_registry r \<longleftrightarrow> wf_map (reg_Nodes r) \<and> wf_map (reg_Models r) \<and> wf_map (reg_Roles r)"

section \<open>Accessors of a model entry\<close>

definition BackendModelName :: "ModelDefinition \<Rightarrow> string" where
  "BackendModelName m = before_char (CHR ''#'') (m_HFRepo m)"

definition IsVirtual :: "ModelDefinition \<Rightarrow> bool" where
  "IsVirtual m \<longleftrightarrow>
     length (m_Fallbacks m) > 0 \<and> m_APIBase m = [] \<and> m_Node m = [] \<and> m_MultiNode m = None"

definition IsLocal :: "ModelDefinition \<Rightarrow> bool" where
  "IsLocal m \<longleftrightarrow> m_Node m \<noteq> [] \<or> m_MultiNode m \<noteq> None"

fun ModeTagOf :: "string list \<Rightarrow> string" where
  "ModeTagOf [] = []"
| "ModeTagOf (t # ts) = (if has_prefix t ''mode:'' then drop 5 t else ModeTagOf ts)"

definition ModeTag :: "ModelDefinition \<Rightarrow> string" where
  "ModeTag m = ModeTagOf (m_Tags m)"

definition zdrEnforceableHosts :: "string list" where
  "zdrEnforceableHosts = [''openrouter.ai'']"

definition ZDREnforceable :: "ModelDefinition \<Rightarrow> bool" where
  "ZDREnforceable m \<longleftrightarrow>
     (if m_APIBase m = [] then False
      else case url_hostname (m_APIBase m) of
             None \<Rightarrow> False
           | Some h \<Rightarrow> to_lower h \<in> set zdrEnforceableHosts)"

definition HasCapability :: "ModelDefinition \<Rightarrow> ModelCapability \<Rightarrow> bool" where
  "HasCapability m c \<longleftrightarrow> c \<in> set (m_Capabilities m)"

text \<open>\<open>RequestDefaultsFor\<close>: the alias override's defaults, its \<open>chat_template_kwargs\<close> shorthand,
  then the model's.\<close>

definition RequestDefaultsFor :: "ModelDefinition \<Rightarrow> string \<Rightarrow> obj" where
  "RequestDefaultsFor m alias =
     (let out = (if length (m_RequestDefaults m) > 0
                 then ApplyRequestDefaults [] (m_RequestDefaults m) else [])
      in if alias = [] then out
         else case lookup (m_AliasOverrides m) alias of
                None \<Rightarrow> out
              | Some ov \<Rightarrow>
                  let over = (if length (ao_ChatTemplateKwargs ov) > 0
                              then ApplyRequestDefaults (ao_RequestDefaults ov)
                                     [(''chat_template_kwargs'', JObj (ao_ChatTemplateKwargs ov))]
                              else ao_RequestDefaults ov)
                  in if length over = 0 then out else ApplyRequestDefaults over out)"

section \<open>Pressure tuning\<close>

definition DefaultPressureWindowS :: int where "DefaultPressureWindowS = 90"

definition DefaultPressureGPUBuckets :: "int list" where "DefaultPressureGPUBuckets = [40, 70, 85]"

definition Window :: "PressureConfig \<Rightarrow> int" where
  "Window p = (if pc_WindowS p \<le> 0 then DefaultPressureWindowS else pc_WindowS p)"

definition Buckets :: "PressureConfig \<Rightarrow> int list" where
  "Buckets p = (if length (pc_GPUBuckets p) = 0 then DefaultPressureGPUBuckets else pc_GPUBuckets p)"

fun count_reached :: "int \<Rightarrow> int list \<Rightarrow> int" where
  "count_reached pct [] = 0"
| "count_reached pct (thr # ts) = (if pct \<ge> thr then 1 else 0) + count_reached pct ts"

definition GPUBucket :: "PressureConfig \<Rightarrow> int \<Rightarrow> int" where
  "GPUBucket p pct = (if pct < 0 then 0 else count_reached pct (Buckets p))"

section \<open>Upstream bases\<close>

datatype config_error =
    UnknownModel string
  | IsMultiNode string
  | UnknownNode string string
  | UnknownHeadNode string string

definition GetNode :: "ModelRegistry \<Rightarrow> string \<Rightarrow> config_error + NodeDefinition" where
  "GetNode r modelID =
     (case lookup (reg_Models r) modelID of
        None \<Rightarrow> Inl (UnknownModel modelID)
      | Some m \<Rightarrow>
          if m_Node m = [] then Inl (IsMultiNode modelID)
          else case lookup (reg_Nodes r) (m_Node m) of
                 None \<Rightarrow> Inl (UnknownNode modelID (m_Node m))
               | Some n \<Rightarrow> Inr n)"

definition DefaultToolProxyAddr :: string where
  "DefaultToolProxyAddr = ''http://192.168.42.240:5392/v1''"

definition DefaultAPIPort :: int where "DefaultAPIPort = 5391"

text \<open>The head node of a multi-node placement.\<close>

definition head_node :: "MultiNodeConfig \<Rightarrow> string" where
  "head_node mn =
     (if mn_HeadNode mn = [] \<and> length (mn_Nodes mn) > 0 then mn_Nodes mn ! 0 else mn_HeadNode mn)"

definition APIBase :: "ModelRegistry \<Rightarrow> string \<Rightarrow> bool option \<Rightarrow> config_error + string" where
  "APIBase r modelID toolProxyOverride =
     (case lookup (reg_Models r) modelID of
        None \<Rightarrow> Inl (UnknownModel modelID)
      | Some m \<Rightarrow>
          if m_APIBase m \<noteq> [] then Inr (m_APIBase m)
          else
            (case (case m_MultiNode m of
                     Some mn \<Rightarrow>
                       (case lookup (reg_Nodes r) (head_node mn) of
                          None \<Rightarrow> Inl (UnknownHeadNode modelID (head_node mn))
                        | Some n \<Rightarrow> Inr (n_Host n))
                   | None \<Rightarrow>
                       (case GetNode r modelID of Inl e \<Rightarrow> Inl e | Inr n \<Rightarrow> Inr (n_Host n)))
             of Inl e \<Rightarrow> Inl e
              | Inr host \<Rightarrow>
                  let effectiveToolProxy =
                        (case toolProxyOverride of None \<Rightarrow> m_ToolProxy m | Some b \<Rightarrow> b)
                  in if effectiveToolProxy
                     then Inr (if reg_ToolProxyAddr r \<noteq> [] then reg_ToolProxyAddr r
                               else DefaultToolProxyAddr)
                     else
                       let port = (if m_APIPort m = 0 then DefaultAPIPort else m_APIPort m)
                       in Inr (''http://'' @ host @ '':'' @ show_int port @ ''/v1'')))"

section \<open>Filters\<close>

definition assigned_to :: "string \<Rightarrow> ModelDefinition \<Rightarrow> bool" where
  "assigned_to nodeName m \<longleftrightarrow>
     m_Node m = nodeName \<or>
     (case m_MultiNode m of None \<Rightarrow> False | Some mn \<Rightarrow> nodeName \<in> set (mn_Nodes mn))"

definition ModelsForNode :: "ModelRegistry \<Rightarrow> string \<Rightarrow> bool \<Rightarrow> ModelDefinition gomap" where
  "ModelsForNode r nodeName enabledOnly =
     filter (\<lambda>(id, m). assigned_to nodeName m \<and> \<not> (enabledOnly \<and> \<not> m_Enabled m)) (reg_Models r)"

definition in_mode :: "string \<Rightarrow> ModelDefinition \<Rightarrow> bool" where
  "in_mode mode m \<longleftrightarrow>
     (if \<not> m_Enabled m then False
      else if mode = [] then True
      else let mt = ModeTag m in mt = [] \<or> mt = mode)"

definition ModelsForMode :: "ModelRegistry \<Rightarrow> string \<Rightarrow> ModelDefinition gomap" where
  "ModelsForMode r mode = filter (\<lambda>(id, m). in_mode mode m) (reg_Models r)"

section \<open>Lemmas\<close>

lemma lookup_filter:
  "wf_map xs \<Longrightarrow>
     lookup (filter (\<lambda>(k, v). P k v) xs) k =
       (case lookup xs k of None \<Rightarrow> None | Some v \<Rightarrow> if P k v then Some v else None)"
proof (induction xs)
  case Nil
  then show ?case by simp
next
  case (Cons kv xs)
  obtain k' v' where kv: "kv = (k', v')" by force
  have "lookup xs k' = None"
    using Cons.prems by (simp add: kv map_of_eq_None_iff)
  with Cons show ?case by (auto simp: kv split: option.splits)
qed

lemma lookup_ModelsForMode:
  "wf_registry r \<Longrightarrow> lookup (ModelsForMode r mode) mid =
     (case lookup (reg_Models r) mid of None \<Rightarrow> None | Some m \<Rightarrow> if in_mode mode m then Some m else None)"
  by (simp add: ModelsForMode_def lookup_filter wf_registry_def)

lemma lookup_ModelsForModeD:
  "wf_registry r \<Longrightarrow> lookup (ModelsForMode r mode) mid = Some m \<Longrightarrow>
     lookup (reg_Models r) mid = Some m \<and> m_Enabled m"
  by (auto simp: lookup_ModelsForMode in_mode_def split: option.splits if_splits)

lemma virtual_not_local: "IsVirtual m \<Longrightarrow> \<not> IsLocal m"
  by (simp add: IsVirtual_def IsLocal_def)

lemma virtual_not_enforceable: "IsVirtual m \<Longrightarrow> \<not> ZDREnforceable m"
  by (simp add: IsVirtual_def ZDREnforceable_def)

lemma count_reached_mono: "p \<le> q \<Longrightarrow> count_reached p ts \<le> count_reached q ts"
  by (induction ts) auto

lemma count_reached_bounds: "0 \<le> count_reached p ts \<and> count_reached p ts \<le> int (length ts)"
  by (induction ts) auto

lemma APIBase_explicit:
  "lookup (reg_Models r) mid = Some m \<Longrightarrow> m_APIBase m \<noteq> [] \<Longrightarrow> APIBase r mid ov = Inr (m_APIBase m)"
  by (simp add: APIBase_def)

end
