(* ===== verification/Envelope.thy ===== *)
theory Envelope
  imports Registry
begin

text \<open>
  \<^verbatim>\<open>internal/router/envelope.go\<close>: sizing a request and skipping role candidates it is too big for.

  The estimate divides a character count by 3.5 in \<open>float64\<close> and truncates. Twice the count over seven
  differs from a whole number by at least a seventh unless it is one, far more than the rounding error
  of the division, so the truncation is the integer division used here. The hard gate compares a
  token count with 1.25 times the window; both sides are exact in \<open>float64\<close> for windows below 2^50.

  The size of the tool definitions is the length of their compact JSON. \<open>numlen\<close> is the length of a
  number as \<open>encoding/json\<close> prints it.
\<close>

definition imageTokens :: int where "imageTokens = 1024"
definition messageOverheadTokens :: int where "messageOverheadTokens = 4"

section \<open>The compact encoding\<close>

text \<open>The bytes of a string body as \<open>json.Marshal\<close> escapes it: HTML characters and the two Unicode line
  separators (three bytes in UTF-8) become six-character escapes.\<close>

definition escaped_len :: "char \<Rightarrow> nat" where
  "escaped_len c =
     (let n = (of_char c :: nat) in
      if n = 34 \<or> n = 92 \<or> n = 8 \<or> n = 9 \<or> n = 10 \<or> n = 12 \<or> n = 13 then 2
      else if n < 32 \<or> n = 60 \<or> n = 62 \<or> n = 38 then 6
      else 1)"

fun escaped_string_len :: "string \<Rightarrow> nat" where
  "escaped_string_len (a # b # c # s) =
     (if a = CHR 0xE2 \<and> b = CHR 0x80 \<and> (c = CHR 0xA8 \<or> c = CHR 0xA9) then 6 + escaped_string_len s
      else escaped_len a + escaped_string_len (b # c # s))"
| "escaped_string_len (a # s) = escaped_len a + escaped_string_len s"
| "escaped_string_len [] = 0"

fun marshal_len :: "(rat \<Rightarrow> nat) \<Rightarrow> json \<Rightarrow> nat" where
  "marshal_len numlen JNull = 4"
| "marshal_len numlen (JBool b) = (if b then 4 else 5)"
| "marshal_len numlen (JNum x) = numlen x"
| "marshal_len numlen (JStr s) = 2 + escaped_string_len s"
| "marshal_len numlen (JArr xs) = 2 + (length xs - 1) + sum_list (map (marshal_len numlen) xs)"
| "marshal_len numlen (JObj kvs) =
     2 + (length kvs - 1) + sum_list (map (\<lambda>(k, v). 3 + escaped_string_len k + marshal_len numlen v) kvs)"

section \<open>Estimating\<close>

definition str_field :: "obj \<Rightarrow> string \<Rightarrow> string" where
  "str_field m k = (case lookup m k of Some (JStr s) \<Rightarrow> s | _ \<Rightarrow> [])"

definition obj_field :: "obj \<Rightarrow> string \<Rightarrow> obj" where
  "obj_field m k = (case lookup m k of Some (JObj d) \<Rightarrow> d | _ \<Rightarrow> [])"

fun part_size :: "json \<Rightarrow> int \<times> int" where
  "part_size (JObj part) =
     (case lookup part ''text'' of
        Some (JStr text) \<Rightarrow> (int (length text), 0)
      | _ \<Rightarrow>
          (case lookup part ''type'' of
             Some (JStr ty) \<Rightarrow>
               if ty \<in> {''image_url'', ''input_image'', ''input_audio'', ''file''} then (0, imageTokens) else (0, 0)
           | _ \<Rightarrow> (0, 0)))"
| "part_size _ = (0, 0)"

definition contentSize :: "json option \<Rightarrow> int \<times> int" where
  "contentSize content =
     (case content of
        Some (JStr c) \<Rightarrow> (int (length c), 0)
      | Some (JArr parts) \<Rightarrow> (sum_list (map (fst \<circ> part_size) parts), sum_list (map (snd \<circ> part_size) parts))
      | _ \<Rightarrow> (0, 0))"

fun call_chars :: "json \<Rightarrow> int" where
  "call_chars (JObj call) =
     (let fn = obj_field call ''function''
      in int (length (str_field fn ''name'') + length (str_field fn ''arguments'')))"
| "call_chars _ = 0"

fun message_size :: "json \<Rightarrow> int \<times> int" where
  "message_size (JObj m) =
     (let (c, t) = contentSize (lookup m ''content'');
          calls = (case lookup m ''tool_calls'' of Some (JArr cs) \<Rightarrow> sum_list (map call_chars cs) | _ \<Rightarrow> 0)
      in (c + int (length (str_field m ''name'')) + calls, messageOverheadTokens + t))"
| "message_size _ = (0, 0)"

definition estimatePromptTokens :: "(rat \<Rightarrow> nat) \<Rightarrow> obj \<Rightarrow> int" where
  "estimatePromptTokens numlen body =
     (case lookup body ''messages'' of
        Some (JArr msgs) \<Rightarrow>
          if length msgs = 0 then 0
          else
            let chars = sum_list (map (fst \<circ> message_size) msgs);
                tokens = sum_list (map (snd \<circ> message_size) msgs);
                chars' = (case lookup body ''tools'' of
                            Some (JArr tools) \<Rightarrow>
                              if length tools > 0 then chars + int (marshal_len numlen (JArr tools)) else chars
                          | _ \<Rightarrow> chars)
            in tokens + (2 * chars') div 7
      | _ \<Rightarrow> 0)"

section \<open>The gate\<close>

text \<open>\<open>wellKnownContext\<close> (wellknown.go): the window advertised for a model.\<close>

definition wellKnownContext :: "ModelDefinition gomap \<Rightarrow> ModelDefinition \<Rightarrow> int \<Rightarrow> int" where
  "wellKnownContext active m def =
     (if m_ContextLength m > 0 then m_ContextLength m
      else if va_MaxModelLen (m_VllmArgs m) > 0 then va_MaxModelLen (m_VllmArgs m)
      else if IsVirtual m then
        (case lookup active (m_Fallbacks m ! 0) of
           Some first \<Rightarrow>
             if m_ContextLength first > 0 then m_ContextLength first
             else if va_MaxModelLen (m_VllmArgs first) > 0 then va_MaxModelLen (m_VllmArgs first)
             else def
         | None \<Rightarrow> def)
      else def)"

definition wellKnownOutput :: "ModelDefinition gomap \<Rightarrow> ModelDefinition \<Rightarrow> int \<Rightarrow> int" where
  "wellKnownOutput active m def =
     (if m_MaxOutputTokens m > 0 then m_MaxOutputTokens m
      else if IsVirtual m then
        (case lookup active (m_Fallbacks m ! 0) of
           Some first \<Rightarrow> if m_MaxOutputTokens first > 0 then m_MaxOutputTokens first else def
         | None \<Rightarrow> def)
      else def)"

text \<open>Go's integer division truncates; the counts formatted here are positive.\<close>

definition formatTokens :: "int \<Rightarrow> string" where
  "formatTokens n = (if n < 1024 then show_int n else show_int (n div 1024) @ ''k'')"

definition contextGate :: "ModelDefinition gomap \<Rightarrow> ModelDefinition \<Rightarrow> int \<Rightarrow> string" where
  "contextGate active m promptTokens =
     (if promptTokens \<le> 0 then []
      else
        let hard = wellKnownContext active m 0 in
        if hard > 0 \<and> 4 * promptTokens > 5 * hard then
          ''prompt ~'' @ formatTokens promptTokens @ '' tokens > context_length '' @ formatTokens hard
        else if m_EffectiveContext m > 0 \<and> promptTokens > m_EffectiveContext m then
          ''prompt ~'' @ formatTokens promptTokens @ '' tokens > effective_context '' @ formatTokens (m_EffectiveContext m)
        else [])"

section \<open>Lemmas\<close>

lemma part_size_nonneg: "0 \<le> fst (part_size p)" "0 \<le> snd (part_size p)"
  by (induction p rule: part_size.induct) (auto simp: imageTokens_def split: option.split json.split)

lemma contentSize_nonneg: "0 \<le> fst (contentSize c)" "0 \<le> snd (contentSize c)"
  using part_size_nonneg by (auto simp: contentSize_def intro!: sum_list_nonneg split: option.split json.split)

lemma call_chars_nonneg: "0 \<le> call_chars c"
  by (induction c rule: call_chars.induct) (simp_all add: Let_def)

lemma message_size_nonneg: "0 \<le> fst (message_size m)" "0 \<le> snd (message_size m)"
proof -
  have "0 \<le> (case v of Some (JArr cs) \<Rightarrow> sum_list (map call_chars cs) | _ \<Rightarrow> 0)" for v
    using call_chars_nonneg by (auto intro!: sum_list_nonneg split: option.split json.split)
  then show "0 \<le> fst (message_size m)" "0 \<le> snd (message_size m)"
    using contentSize_nonneg by (induction m rule: message_size.induct; simp add: case_prod_beta Let_def messageOverheadTokens_def add_nonneg_nonneg)+
qed


lemma estimate_messages:
  assumes "lookup body ''messages'' = Some (JArr msgs)" and "msgs \<noteq> []"
  shows "estimatePromptTokens numlen body =
     sum_list (map (snd \<circ> message_size) msgs)
     + (2 * (sum_list (map (fst \<circ> message_size) msgs)
             + (case lookup body ''tools'' of
                  Some (JArr tools) \<Rightarrow> if length tools > 0 then int (marshal_len numlen (JArr tools)) else 0
                | _ \<Rightarrow> 0))) div 7"
  using assms by (simp add: estimatePromptTokens_def Let_def split: option.split json.split)

text \<open>The estimate sizes the whole transcript: adding a message anywhere in it never makes the request
  look smaller, so neither a long history nor its position can hide from the gate.\<close>

theorem estimate_grows_with_transcript:
  assumes "us @ vs \<noteq> []"
  shows "estimatePromptTokens numlen (store ''messages'' (JArr (us @ vs)) body)
       \<le> estimatePromptTokens numlen (store ''messages'' (JArr (us @ msg # vs)) body)"
proof -
  let ?tools = "case lookup body ''tools'' of
      Some (JArr tools) \<Rightarrow> if length tools > 0 then int (marshal_len numlen (JArr tools)) else 0 | _ \<Rightarrow> 0"
  have e: "estimatePromptTokens numlen (store ''messages'' (JArr ms) body) =
      sum_list (map (snd \<circ> message_size) ms) + (2 * (sum_list (map (fst \<circ> message_size) ms) + ?tools)) div 7"
    if "ms \<noteq> []" for ms
    using that by (subst estimate_messages[of _ ms]) simp_all
  have "2 * (sum_list (map (fst \<circ> message_size) (us @ vs)) + ?tools)
      \<le> 2 * (sum_list (map (fst \<circ> message_size) (us @ msg # vs)) + ?tools)"
    using message_size_nonneg(1)[of msg] by simp
  then have "(2 * (sum_list (map (fst \<circ> message_size) (us @ vs)) + ?tools)) div 7
      \<le> (2 * (sum_list (map (fst \<circ> message_size) (us @ msg # vs)) + ?tools)) div 7"
    by (rule zdiv_mono1) simp
  moreover have "sum_list (map (snd \<circ> message_size) (us @ vs)) \<le> sum_list (map (snd \<circ> message_size) (us @ msg # vs))"
    using message_size_nonneg(2)[of msg] by simp
  ultimately show ?thesis using assms by (subst (1 2) e) simp_all
qed

theorem estimate_grows_with_transcript_witness:
  "estimatePromptTokens (\<lambda>x. 1) (store ''messages'' (JArr ([JObj [(''content'', JStr ''hello'')]] @ [])) [])
   \<le> estimatePromptTokens (\<lambda>x. 1) (store ''messages'' (JArr ([JObj [(''content'', JStr ''hello'')]] @ JObj [(''content'', JStr ''x'')] # [])) [])"
  by (rule estimate_grows_with_transcript) simp

end
