(* ===== verification/Session.thy ===== *)
theory Session
  imports Go_Http Envelope "HOL-Library.Multiset"
begin

text \<open>
  \<^verbatim>\<open>internal/router/session.go\<close> and \<^verbatim>\<open>callersession.go\<close>: the session header the router adds to a request
  for a provider that demands one, and the caller's own session id for the request log.

  A body is the bytes that are sent and the value they decode to (none when they are not JSON); a
  repeated member has been resolved to its last occurrence. \<open>hash\<close> is the hexadecimal SHA-256, \<open>parse\<close>
  reads one JSON document.
\<close>

record payload =
  pl_bytes :: string
  pl_json :: "json option"

section \<open>Decoding\<close>

text \<open>All members that match a field, in document order: each is decoded, so one of the wrong type fails
  the decoding even when a later one is right.\<close>

definition struct_fields :: "(string \<times> json) list \<Rightarrow> string \<Rightarrow> json list" where
  "struct_fields kvs name = map snd (filter (\<lambda>(k, v). to_lower k = to_lower name) kvs)"

fun decode_string :: "string \<Rightarrow> json list \<Rightarrow> string option" where
  "decode_string s [] = Some s"
| "decode_string s (JStr t # vs) = decode_string t vs"
| "decode_string s (JNull # vs) = decode_string s vs"
| "decode_string s (v # vs) = None"

fun decode_array :: "json list \<Rightarrow> json list \<Rightarrow> json list option" where
  "decode_array xs [] = Some xs"
| "decode_array xs (JArr ys # vs) = decode_array ys vs"
| "decode_array xs (JNull # vs) = decode_array [] vs"
| "decode_array xs (v # vs) = None"

fun decode_object :: "(string \<times> json) list \<Rightarrow> json list \<Rightarrow> (string \<times> json) list option" where
  "decode_object d [] = Some d"
| "decode_object d (JObj e # vs) = decode_object (d @ e) vs"
| "decode_object d (JNull # vs) = decode_object d vs"
| "decode_object d (v # vs) = None"

definition decode_any :: "json list \<Rightarrow> json" where
  "decode_any vs = (if vs = [] then JNull else last vs)"

fun decode_flag :: "bool \<Rightarrow> json list \<Rightarrow> bool option" where
  "decode_flag b [] = Some b"
| "decode_flag b (JBool c # vs) = decode_flag c vs"
| "decode_flag b (JNull # vs) = decode_flag b vs"
| "decode_flag b (v # vs) = None"

text \<open>A plain integer field: a null leaves it as it is.\<close>

fun decode_plain_int :: "int \<Rightarrow> json list \<Rightarrow> int option" where
  "decode_plain_int x [] = Some x"
| "decode_plain_int x (JNum y # vs) =
     (if of_int \<lfloor>y\<rfloor> = y \<and> - (2 ^ 63) \<le> \<lfloor>y\<rfloor> \<and> \<lfloor>y\<rfloor> < 2 ^ 63 then decode_plain_int \<lfloor>y\<rfloor> vs else None)"
| "decode_plain_int x (JNull # vs) = decode_plain_int x vs"
| "decode_plain_int x (v # vs) = None"

text \<open>The elements of an array decoded into structs.\<close>

fun decode_structs :: "((string \<times> json) list \<Rightarrow> 'a option) \<Rightarrow> json list \<Rightarrow> 'a list option" where
  "decode_structs f [] = Some []"
| "decode_structs f (JObj kvs # vs) =
     (case (f kvs, decode_structs f vs) of (Some x, Some xs) \<Rightarrow> Some (x # xs) | _ \<Rightarrow> None)"
| "decode_structs f (JNull # vs) =
     (case (f [], decode_structs f vs) of (Some x, Some xs) \<Rightarrow> Some (x # xs) | _ \<Rightarrow> None)"
| "decode_structs f (v # vs) = None"

text \<open>An object as the members its encoding carries, the encoding of a map being sorted.\<close>

fun wire_json :: "json \<Rightarrow> json" where
  "wire_json (JObj kvs) = JObj (sort_key fst (map (\<lambda>(k, v). (k, wire_json v)) kvs))"
| "wire_json (JArr xs) = JArr (map wire_json xs)"
| "wire_json v = v"

definition encoded :: "(rat \<Rightarrow> string) \<Rightarrow> obj \<Rightarrow> payload" where
  "encoded numtext d = \<lparr>pl_bytes = marshal numtext (JObj d), pl_json = Some (wire_json (JObj d))\<rparr>"

section \<open>The derived session id\<close>

definition sessionIDPrefix :: string where "sessionIDPrefix = ''llmr-''"

definition drop_cache_control :: "json \<Rightarrow> json" where
  "drop_cache_control part =
     (case part of JObj kvs \<Rightarrow> JObj (AList.delete ''cache_control'' kvs) | _ \<Rightarrow> part)"

definition canonicalMessage :: "(rat \<Rightarrow> string) \<Rightarrow> json \<Rightarrow> (string \<times> string) option" where
  "canonicalMessage numtext raw =
     (let decode = (\<lambda>kvs.
            case decode_string [] (struct_fields kvs ''role'') of
              None \<Rightarrow> None
            | Some role \<Rightarrow>
                let content = decode_any (struct_fields kvs ''content'');
                    content' = (case content of JArr parts \<Rightarrow> JArr (map drop_cache_control parts) | _ \<Rightarrow> content)
                in Some (to_lower role,
                         ''{'' @ json_string ''role'' @ '':'' @ json_string role @ '','' @ json_string ''content'' @ '':''
                           @ marshal numtext content' @ ''}''))
      in case raw of JObj kvs \<Rightarrow> decode kvs | JNull \<Rightarrow> decode [] | _ \<Rightarrow> None)"

definition is_system :: "string \<Rightarrow> bool" where
  "is_system role \<longleftrightarrow> role = ''system'' \<or> role = ''developer''"

text \<open>The loop over the messages, with the two it is looking for.\<close>

fun session_scan ::
    "(rat \<Rightarrow> string) \<Rightarrow> json list \<Rightarrow> string option \<Rightarrow> string option \<Rightarrow> string option \<times> string option" where
  "session_scan numtext [] system first = (system, first)"
| "session_scan numtext (raw # msgs) system first =
     (case canonicalMessage numtext raw of
        None \<Rightarrow> session_scan numtext msgs system first
      | Some (role, canon) \<Rightarrow>
          let system' = (if is_system role \<and> system = None then Some canon else system);
              first' = (if \<not> is_system role \<and> first = None then Some canon else first)
          in if system' \<noteq> None \<and> first' \<noteq> None then (system', first')
             else session_scan numtext msgs system' first')"

definition bytes_of :: "string option \<Rightarrow> string" where
  "bytes_of x = (case x of None \<Rightarrow> [] | Some s \<Rightarrow> s)"

definition session_preimage :: "string \<Rightarrow> string option \<Rightarrow> string option \<Rightarrow> string" where
  "session_preimage model system first =
     model @ [CHR 0x00] @ bytes_of system @ [CHR 0x00] @ bytes_of first"

definition session_request :: "json option \<Rightarrow> (string \<times> json list) option" where
  "session_request doc =
     (case doc of
        Some (JObj kvs) \<Rightarrow>
          (case (decode_string [] (struct_fields kvs ''model''), decode_array [] (struct_fields kvs ''messages'')) of
             (Some model, Some msgs) \<Rightarrow> Some (model, msgs)
           | _ \<Rightarrow> None)
      | Some JNull \<Rightarrow> Some ([], [])
      | _ \<Rightarrow> None)"

definition deriveSessionID :: "(string \<Rightarrow> string) \<Rightarrow> (rat \<Rightarrow> string) \<Rightarrow> payload \<Rightarrow> string" where
  "deriveSessionID hash numtext body =
     sessionIDPrefix @ take 32 (hash
       (case session_request (pl_json body) of
          Some (model, msgs) \<Rightarrow>
            if length msgs > 0
            then (let (system, first) = session_scan numtext msgs None None in session_preimage model system first)
            else pl_bytes body
        | None \<Rightarrow> pl_bytes body))"

definition sessionHeaderHosts :: "string gomap" where
  "sessionHeaderHosts = [(''opencode.ai'', ''X-Opencode-Session'')]"

text \<open>\<open>setSessionAffinity\<close> on the outbound headers, for a target with this host name.\<close>

definition setSessionAffinity ::
    "(string \<Rightarrow> string) \<Rightarrow> (rat \<Rightarrow> string) \<Rightarrow> string \<Rightarrow> payload \<Rightarrow> header \<Rightarrow> header" where
  "setSessionAffinity hash numtext hostname body out =
     (case lookup sessionHeaderHosts (to_lower hostname) of
        None \<Rightarrow> out
      | Some name \<Rightarrow>
          if header_get out name \<noteq> [] then out
          else header_set name (deriveSessionID hash numtext body) out)"

section \<open>The caller's session id\<close>

definition maxCallerSessionID :: nat where "maxCallerSessionID = 128"

definition callerSessionHeaders :: "string list" where
  "callerSessionHeaders =
     [''X-Claude-Code-Session-Id'', ''X-Session-Id'', ''X-Opencode-Session'', ''X-Session-Affinity'']"

definition cleanSessionID :: "string \<Rightarrow> string" where
  "cleanSessionID v =
     (let v = trim_space v in
      if v = [] \<or> has_prefix v sessionIDPrefix then []
      else if length v > maxCallerSessionID then take maxCallerSessionID v
      else v)"

text \<open>What follows the last occurrence of a substring.\<close>

fun after_last :: "string \<Rightarrow> string \<Rightarrow> string option" where
  "after_last sep [] = (if sep = [] then Some [] else None)"
| "after_last sep (c # s) =
     (case after_last sep s of
        Some t \<Rightarrow> Some t
      | None \<Rightarrow> if has_prefix (c # s) sep then Some (drop (length sep) (c # s)) else None)"

definition sessionFromUserID :: "(string \<Rightarrow> json option) \<Rightarrow> string \<Rightarrow> string" where
  "sessionFromUserID parse uid0 =
     (let uid = trim_space uid0 in
      if uid = [] then []
      else if has_prefix uid ''{'' then
        (case parse uid of
           Some (JObj kvs) \<Rightarrow>
             (case decode_string [] (struct_fields kvs ''session_id'') of Some s \<Rightarrow> s | None \<Rightarrow> [])
         | _ \<Rightarrow> [])
      else (case after_last ''_session_'' uid of Some s \<Rightarrow> s | None \<Rightarrow> []))"

definition callerSessionID :: "(string \<Rightarrow> json option) \<Rightarrow> header \<Rightarrow> string \<Rightarrow> string" where
  "callerSessionID parse h anthropicUserID =
     (case find_map (\<lambda>name. let v = cleanSessionID (header_get h name) in if v \<noteq> [] then Some v else None)
             callerSessionHeaders of
        Some v \<Rightarrow> v
      | None \<Rightarrow> cleanSessionID (sessionFromUserID parse anthropicUserID))"

text \<open>\<open>anthropicUserID\<close>: the member \<open>metadata.user_id\<close> of a Messages body.\<close>

definition anthropicUserID :: "json option \<Rightarrow> string" where
  "anthropicUserID doc =
     (case doc of
        Some (JObj kvs) \<Rightarrow>
          (case decode_object [] (struct_fields kvs ''metadata'') of
             Some md \<Rightarrow> (case decode_string [] (struct_fields md ''user_id'') of Some s \<Rightarrow> s | None \<Rightarrow> [])
           | None \<Rightarrow> [])
      | _ \<Rightarrow> [])"

section \<open>One conversation, one session\<close>

definition said :: "(rat \<Rightarrow> string) \<Rightarrow> bool \<Rightarrow> json \<Rightarrow> string option" where
  "said numtext sys raw =
     (case canonicalMessage numtext raw of
        Some (role, canon) \<Rightarrow> if is_system role = sys then Some canon else None
      | None \<Rightarrow> None)"

lemma find_map_append:
  "find_map f (xs @ ys) = (case find_map f xs of Some y \<Rightarrow> Some y | None \<Rightarrow> find_map f ys)"
  by (induction xs) (auto split: option.split)

lemma session_scan_finds:
  "system = None \<or> first = None \<Longrightarrow>
     session_scan numtext msgs system first =
       ((case system of Some s \<Rightarrow> Some s | None \<Rightarrow> find_map (said numtext True) msgs),
        (case first of Some s \<Rightarrow> Some s | None \<Rightarrow> find_map (said numtext False) msgs))"
proof (induction msgs arbitrary: system first)
  case (Cons raw msgs)
  show ?case
  proof (cases "canonicalMessage numtext raw")
    case None
    with Cons show ?thesis by (simp add: said_def split: option.split)
  next
    case (Some rc)
    obtain role canon where rc: "rc = (role, canon)" by (rule prod.exhaust)
    with Some Cons show ?thesis
      by (cases "is_system role"; cases system; cases first) (simp_all add: said_def Let_def)
  qed
qed (simp split: option.split)


definition turn_one :: obj where
  "turn_one = [(''messages'', JArr [JObj [(''role'', JStr ''system''), (''content'', JStr ''s'')],
      JObj [(''role'', JStr ''user''), (''content'', JStr ''u'')]]), (''model'', JStr ''m'')]"

definition turn_two :: obj where
  "turn_two = [(''messages'', JArr [JObj [(''role'', JStr ''system''), (''content'', JStr ''s'')],
      JObj [(''role'', JStr ''user''), (''content'', JStr ''u'')], JObj [(''role'', JStr ''assistant'')]]),
      (''model'', JStr ''m'')]"


section \<open>Two conversations, two sessions\<close>

definition nul_free :: "string \<Rightarrow> bool" where
  "nul_free s \<longleftrightarrow> CHR 0x00 \<notin> set s"

lemma nul_free_simps [simp]:
  "nul_free []" "nul_free (s @ t) \<longleftrightarrow> nul_free s \<and> nul_free t" "nul_free (c # s) \<longleftrightarrow> c \<noteq> CHR 0x00 \<and> nul_free s"
  by (auto simp: nul_free_def)

lemma char_of_nz: "0 < (n :: nat) \<Longrightarrow> n < 256 \<Longrightarrow> (char_of n :: char) \<noteq> CHR 0x00"
proof
  assume n: "0 < n" "n < 256" and "char_of n = CHR 0x00"
  then have "(of_char (char_of n :: char) :: nat) = of_char (CHR 0x00)" by simp
  with n show False by (simp add: of_char_of)
qed

lemma hex_lower_nz: "n < 16 \<Longrightarrow> hex_lower n \<noteq> CHR 0x00"
  by (simp add: hex_lower_def char_of_nz)

lemma nul_free_unicode [simp]: "nul_free (unicode_escape n)"
  by (simp add: unicode_escape_def hex_lower_nz)

lemma nul_free_escape_char [simp]: "nul_free (escape_char c)"
  by (auto simp: escape_char_def Let_def)

lemma nul_free_escape [simp]: "nul_free (escape_string s)"
  by (induction s rule: escape_string.induct) simp_all

lemma nul_free_json_string [simp]: "nul_free (json_string s)"
  by (simp add: json_string_def)

lemma nul_free_join: "nul_free sep \<Longrightarrow> \<forall>x \<in> set xs. nul_free x \<Longrightarrow> nul_free (join sep xs)"
  by (induction sep xs rule: join.induct) simp_all

lemma nul_free_marshal: "(\<And>x. nul_free (numtext x)) \<Longrightarrow> nul_free (marshal numtext v)"
proof (induction numtext v rule: marshal.induct)
  case (5 numtext xs)
  then show ?case by (simp add: nul_free_join)
next
  case (6 numtext kvs)
  have "nul_free y" if "y \<in> snd ` (\<lambda>(k, v). (k, json_string k @ '':'' @ marshal numtext v)) ` set kvs" for y
    using that 6 by (auto simp: case_prod_beta)
  then show ?case by (simp add: nul_free_join)
qed simp_all

lemma nul_free_said: "(\<And>x. nul_free (numtext x)) \<Longrightarrow> said numtext b m = Some canon \<Longrightarrow> nul_free canon"
  by (auto simp: said_def canonicalMessage_def Let_def nul_free_marshal simp del: marshal.simps
      split: option.splits json.splits if_splits)

lemma split_at_nul: "nul_free a \<Longrightarrow> nul_free b \<Longrightarrow> a @ CHR 0x00 # s = b @ CHR 0x00 # t \<longleftrightarrow> a = b \<and> s = t"
  by (auto simp: nul_free_def append_eq_append_conv2 append_eq_Cons_conv Cons_eq_append_conv)

text \<open>What is hashed names the conversation without ambiguity: two requests with messages whose model
  names hold no NUL byte are hashed over the same bytes only when the model, the first system message
  and the first other message are the same, so two conversations share a session only if the hash
  collides.\<close>

theorem session_key_unambiguous:
  assumes "nul_free model" "nul_free model'" "\<And>x. nul_free (numtext x)"
    and "session_scan numtext msgs None None = (system, first)"
    and "session_scan numtext msgs' None None = (system', first')"
    and "session_preimage model system first = session_preimage model' system' first'"
  shows "model = model' \<and> bytes_of system = bytes_of system' \<and> bytes_of first = bytes_of first'"
proof -
  have found: "nul_free (bytes_of (find_map (said numtext b) ms))" for b ms
  proof (cases "find_map (said numtext b) ms")
    case (Some c)
    then have "\<exists>m. said numtext b m = Some c" by (induction ms) (auto split: option.splits)
    then show ?thesis using nul_free_said[OF assms(3)] by (auto simp: bytes_of_def Some)
  qed (simp add: bytes_of_def)
  from assms(4,5) found have "nul_free (bytes_of system)" "nul_free (bytes_of system')"
    by (auto simp: session_scan_finds)
  with assms(1,2,6) show ?thesis by (simp add: session_preimage_def split_at_nul)
qed

theorem session_key_unambiguous_witness:
  "session_preimage ''m'' None (Some ''a'') \<noteq> session_preimage ''m'' None (Some ''b'')"
proof
  let ?user = "\<lambda>c. [JObj [(''content'', JStr c), (''role'', JStr ''user'')]]"
  let ?canon = "\<lambda>c. ''{'' @ json_string ''role'' @ '':'' @ json_string ''user'' @ '','' @ json_string ''content'' @ '':'' @ json_string c @ ''}''"
  assume "session_preimage ''m'' None (Some ''a'') = session_preimage ''m'' None (Some ''b'')"
  then have "session_preimage ''m'' None (Some (?canon ''a'')) = session_preimage ''m'' None (Some (?canon ''b''))"
    by (simp add: session_preimage_def bytes_of_def)
  moreover have "session_scan (\<lambda>x. []) (?user ''a'') None None = (None, Some (?canon ''a''))"
    "session_scan (\<lambda>x. []) (?user ''b'') None None = (None, Some (?canon ''b''))" by code_simp+
  ultimately have "bytes_of (Some (?canon ''a'')) = bytes_of (Some (?canon ''b''))"
    using session_key_unambiguous[of "''m''" "''m''" "\<lambda>x. []"] by (simp only: nul_free_simps) fastforce
  then show False by (simp add: bytes_of_def json_string_def escape_char_def)
qed

section \<open>The logged session id\<close>

text \<open>The session id a row is logged with is the cleaned value of the most specific header that has one,
  at most 128 bytes, and never an id the router minted itself, whatever the caller sends.\<close>

theorem caller_session_is_callers:
  "length (callerSessionID parse h uid) \<le> 128 \<and> \<not> has_prefix (callerSessionID parse h uid) sessionIDPrefix
   \<and> (case find (\<lambda>name. cleanSessionID (header_get h name) \<noteq> []) callerSessionHeaders of
        Some name \<Rightarrow> callerSessionID parse h uid = cleanSessionID (header_get h name)
      | None \<Rightarrow> callerSessionID parse h uid = cleanSessionID (sessionFromUserID parse uid))"
proof -
  have clean: "length (cleanSessionID v) \<le> 128 \<and> \<not> has_prefix (cleanSessionID v) sessionIDPrefix" for v
    by (auto simp: cleanSessionID_def Let_def maxCallerSessionID_def has_prefix_def sessionIDPrefix_def min_def)
  have "find_map (\<lambda>name. let v = f name in if v \<noteq> [] then Some v else None) ns
      = map_option f (find (\<lambda>name. f name \<noteq> []) ns)" for f :: "string \<Rightarrow> string" and ns
    by (induction ns) (simp_all add: Let_def)
  then show ?thesis using clean by (simp add: callerSessionID_def split: option.split)
qed

section \<open>The encoding and its length\<close>

lemma length_join: "length (join [c] xs) = sum_list (map length xs) + (length xs - 1)"
  by (induction "[c]" xs rule: join.induct) simp_all

lemma length_escape_char: "length (escape_char c) = escaped_len c"
  by (simp add: escape_char_def escaped_len_def unicode_escape_def Let_def)

lemma length_escape: "length (escape_string s) = escaped_string_len s"
  by (induction s rule: escape_string.induct) (auto simp: length_escape_char unicode_escape_def)

text \<open>The size \<open>estimatePromptTokens\<close> counts for the tool definitions is the length of what is sent.\<close>

lemma marshal_len_is_length: "marshal_len (\<lambda>x. length (numtext x)) v = length (marshal numtext v)"
proof (induction numtext v rule: marshal.induct)
  case (5 numtext xs)
  then have "map (marshal_len (\<lambda>x. length (numtext x))) xs = map (length \<circ> marshal numtext) xs" by simp
  then have "sum_list (map (marshal_len (\<lambda>x. length (numtext x))) xs) = sum_list (map (length \<circ> marshal numtext) xs)"
    by (rule arg_cong)
  then show ?case by (simp add: length_join)
next
  case (6 numtext kvs)
  have perm: "sum_list (map length (map snd (sort_key fst ys))) = sum_list (map length (map snd ys))"
    for ys :: "(string \<times> string) list"
    by (metis (no_types) mset_map mset_sort sum_mset_sum_list)
  let ?enc = "\<lambda>(k, v). (k, json_string k @ '':'' @ marshal numtext v)"
  have "map (\<lambda>(k, v). 3 + escaped_string_len k + marshal_len (\<lambda>x. length (numtext x)) v) kvs
      = map length (map snd (map ?enc kvs))"
    using 6 by (auto simp: json_string_def length_escape)
  then have "(\<Sum>(k, v)\<leftarrow>kvs. 3 + escaped_string_len k + marshal_len (\<lambda>x. length (numtext x)) v)
      = sum_list (map length (map snd (map ?enc kvs)))"
    by (rule arg_cong)
  also note perm[symmetric]
  finally show ?case by (simp add: length_join)
qed (simp_all add: json_string_def length_escape)

end

