(* ===== verification/Upstream_Errors.thy ===== *)
theory Upstream_Errors
  imports Registry "HOL-Library.Word"
begin

text \<open>
  The errors an upstream attempt or a generation probe can end in, and how the code reads them:
  the classifiers of \<^verbatim>\<open>internal/router/upstreamstats.go\<close> and \<open>isWarmingSignal\<close>,
  \<open>ProbeEnabled\<close>, \<open>InventoryEnabled\<close> and \<open>probeBackoff\<close> of \<^verbatim>\<open>internal/health/genprobe.go\<close> and
  \<^verbatim>\<open>inventory.go\<close>.

  An error value carries what \<open>errors.As\<close>, \<open>errors.Is\<close> and the small interfaces of the code can find in
  it: the two suppressed-failure sentinels of the router, the two answers of a probe, a deadline, a
  \<open>net.OpError\<close> (its operation, whether it timed out, the errno inside), or anything else. \<open>nil\<close> is
  \<^const>\<open>None\<close>.
\<close>

datatype errno = ECONNREFUSED | EHOSTUNREACH | ENETUNREACH | EOTHER

datatype upstream_err =
    UpstreamStatus int duration
  | UpstreamEnvelope
  | ProbeStatus int string
  | ProbeRejected int string
  | DeadlineExceeded
  | NetOpError string bool errno
  | OtherErr string

datatype error_class =
    ClassNone | ClassTimeout | ClassConnect | ClassTransport | ClassServerError | ClassRateLimited
  | ClassClientError | ClassEnvelope | ClassPrivacyRefused | ClassScopeRefused

section \<open>Classification\<close>

definition classifyTransportErr :: "upstream_err option \<Rightarrow> error_class" where
  "classifyTransportErr err =
     (case err of
        None \<Rightarrow> ClassNone
      | Some DeadlineExceeded \<Rightarrow> ClassTimeout
      | Some (NetOpError op timeout en) \<Rightarrow>
          if timeout then ClassTimeout
          else if op = ''dial'' then ClassConnect
          else if en \<in> {ECONNREFUSED, EHOSTUNREACH, ENETUNREACH} then ClassConnect
          else ClassTransport
      | Some _ \<Rightarrow> ClassTransport)"

definition retryableStatus :: "int \<Rightarrow> bool" where
  "retryableStatus status \<longleftrightarrow> status \<ge> 500 \<or> status = 429"

definition classifyUpstreamErr :: "upstream_err option \<Rightarrow> error_class" where
  "classifyUpstreamErr err =
     (case err of
        Some (UpstreamStatus status after) \<Rightarrow>
          if status \<ge> 500 then ClassServerError
          else if status = 429 then ClassRateLimited
          else ClassClientError
      | Some UpstreamEnvelope \<Rightarrow> ClassEnvelope
      | _ \<Rightarrow> classifyTransportErr err)"

definition errorClassOf :: "error_class \<Rightarrow> int \<Rightarrow> bool \<Rightarrow> error_class" where
  "errorClassOf transportClass upstreamStatus envelope =
     (if transportClass \<noteq> ClassNone then transportClass
      else if upstreamStatus \<ge> 500 then ClassServerError
      else if upstreamStatus = 429 then ClassRateLimited
      else if upstreamStatus \<ge> 400 then ClassClientError
      else if envelope then ClassEnvelope
      else ClassNone)"

definition isPolicyRefusal :: "error_class \<Rightarrow> bool" where
  "isPolicyRefusal class \<longleftrightarrow> class = ClassPrivacyRefused \<or> class = ClassScopeRefused"

definition isUpstreamFailure :: "error_class \<Rightarrow> bool" where
  "isUpstreamFailure class \<longleftrightarrow>
     class \<noteq> ClassNone \<and> class \<noteq> ClassClientError \<and> \<not> isPolicyRefusal class"

text \<open>\<open>isWarmingSignal\<close> and the \<open>Retry-After\<close> an error carries.\<close>

definition isWarmingSignal :: "upstream_err option \<Rightarrow> bool" where
  "isWarmingSignal err =
     (case err of
        None \<Rightarrow> False
      | Some (UpstreamStatus status after) \<Rightarrow> status = 503
      | Some (ProbeStatus status body) \<Rightarrow> status = 503
      | Some (NetOpError op timeout en) \<Rightarrow> op = ''dial'' \<or> en \<in> {ECONNREFUSED, EHOSTUNREACH, ENETUNREACH}
      | Some _ \<Rightarrow> False)"

definition errRetryAfter :: "upstream_err option \<Rightarrow> duration option" where
  "errRetryAfter err = (case err of Some (UpstreamStatus status after) \<Rightarrow> Some after | _ \<Rightarrow> None)"

section \<open>Which placements are probed\<close>

definition ProbeEnabled :: "ModelDefinition \<Rightarrow> bool" where
  "ProbeEnabled m =
     (if IsVirtual m \<or> \<not> m_Enabled m then False
      else case Option.bind (m_Health m) mh_GenerationProbe of
             Some b \<Rightarrow> b
           | None \<Rightarrow>
               if \<not> IsLocal m then False
               else m_APIClass m \<in> {APIClassChat, APIClassEmbeddings, APIClassRerank, APIClassUnset})"

definition InventoryEnabled :: "ModelDefinition \<Rightarrow> bool" where
  "InventoryEnabled m =
     (if IsVirtual m \<or> \<not> m_Enabled m then False
      else case Option.bind (m_Health m) mh_Inventory of
             Some b \<Rightarrow> b
           | None \<Rightarrow> m_APIClass m \<in> {APIClassChat, APIClassEmbeddings, APIClassRerank, APIClassUnset})"

section \<open>The probe backoff\<close>

text \<open>A \<open>time.Duration\<close> is a signed 64-bit count of nanoseconds and the shift wraps; Go's shift by
  64 or more is zero, as \<^const>\<open>push_bit\<close> on words is.\<close>

definition probeBackoffBase :: "64 word" where "probeBackoffBase = 5000000000"

definition probeBackoffCap :: "64 word" where "probeBackoffCap = 60000000000"

definition probeBackoff :: "int \<Rightarrow> 64 word" where
  "probeBackoff fails =
     (if fails \<le> 0 then 0
      else let d = push_bit (nat (fails - 1)) probeBackoffBase
           in if sint d \<le> 0 \<or> sint d > sint probeBackoffCap then probeBackoffCap else d)"

lemma sint_shifted_base:
  "sint (push_bit k probeBackoffBase) = signed_take_bit 63 (5000000000 * 2 ^ k)"
proof -
  have "push_bit k probeBackoffBase = word_of_int (5000000000 * 2 ^ k)"
    by (simp add: push_bit_eq_mult probeBackoffBase_def)
  then show ?thesis by (simp only: sint_sbintrunc') simp
qed

lemma shifted_base_small:
  assumes "k \<le> 30" shows "sint (push_bit k probeBackoffBase) = 5000000000 * 2 ^ k"
proof -
  have "(2::int) ^ k \<le> 2 ^ 30" using assms by (intro power_increasing) auto
  then have "(5000000000::int) * 2 ^ k < 2 ^ 63" by simp
  moreover have "- (2 ^ 63) \<le> (5000000000::int) * 2 ^ k"
    by (rule order_trans[of _ 0]) auto
  ultimately show ?thesis
    by (simp only: sint_shifted_base signed_take_bit_int_eq_self)
qed

lemma shifted_base_large:
  assumes "k > 30"
  shows "sint (push_bit k probeBackoffBase) \<le> 0 \<or> sint (push_bit k probeBackoffBase) > 60000000000"
proof -
  let ?d = "sint (push_bit k probeBackoffBase)"
  have "(2::int) ^ 36 dvd 2 ^ k * 2 ^ 9"
    unfolding power_add[symmetric] by (rule le_imp_power_dvd) (use assms in simp)
  then have "(2::int) ^ 36 dvd 9765625 * (2 ^ k * 2 ^ 9)" by (rule dvd_mult)
  moreover have "(5000000000::int) * 2 ^ k = 9765625 * (2 ^ k * 2 ^ 9)" by simp
  ultimately have "(2::int) ^ 36 dvd 5000000000 * 2 ^ k" by metis
  then have "take_bit 36 ((5000000000::int) * 2 ^ k) = 0"
    by (simp add: take_bit_eq_0_iff)
  then have "take_bit 36 ?d = 0"
    by (simp add: sint_shifted_base take_bit_signed_take_bit)
  then have "(2::int) ^ 36 dvd ?d" by (simp add: take_bit_eq_0_iff)
  then have "?d \<le> 0 \<or> 2 ^ 36 \<le> ?d" by (auto dest: zdvd_imp_le)
  then show ?thesis by auto
qed

text \<open>The wait before the next generation probe after n failures in a row is five seconds doubled
  n-1 times, capped at sixty seconds, for every n: the 64-bit shift may wrap, but the code's test
  for a non-positive or too large value catches every wrapped result.\<close>

theorem probe_backoff_exact:
  "sint (probeBackoff fails) =
     (if fails \<le> 0 then 0 else min (5 * second * 2 ^ nat (fails - 1)) (60 * second))"
proof (cases "fails \<le> 0")
  case True
  then show ?thesis by (simp add: probeBackoff_def)
next
  case False
  let ?k = "nat (fails - 1)"
  have cap: "sint probeBackoffCap = 60000000000" by (simp add: probeBackoffCap_def)
  show ?thesis
  proof (cases "?k \<le> 30")
    case True
    have "(0::int) < 5000000000 * 2 ^ ?k" by simp
    with True False show ?thesis
      by (simp add: probeBackoff_def Let_def shifted_base_small cap min_def)
  next
    case large: False
    have "(2::int) ^ 31 \<le> 2 ^ ?k" using large by (intro power_increasing) auto
    then have "60000000000 \<le> (5000000000::int) * 2 ^ ?k" by simp
    with False large shifted_base_large[of ?k] show ?thesis
      by (auto simp: probeBackoff_def Let_def cap min_def)
  qed
qed

section \<open>Facts about the classifiers\<close>

lemma policy_not_failure: "isPolicyRefusal c \<Longrightarrow> \<not> isUpstreamFailure c"
  by (simp add: isUpstreamFailure_def)

lemma retryable_is_failure:
  "retryableStatus s \<Longrightarrow> isUpstreamFailure (classifyUpstreamErr (Some (UpstreamStatus s a)))"
  by (auto simp: retryableStatus_def classifyUpstreamErr_def isUpstreamFailure_def isPolicyRefusal_def)

text \<open>A suppressed answer is classified like the same answer passed through: for a status the
  failover path suppresses, the class recorded for the failed attempt is the class the request log
  would have derived from the status, and the two count alike toward the upstream failure rate.\<close>

theorem suppressed_status_same_class:
  assumes "retryableStatus s"
  shows "classifyUpstreamErr (Some (UpstreamStatus s a)) = errorClassOf ClassNone s envelope
       \<and> isUpstreamFailure (errorClassOf ClassNone s envelope)"
  using assms
  by (auto simp: retryableStatus_def classifyUpstreamErr_def errorClassOf_def isUpstreamFailure_def
      isPolicyRefusal_def)

theorem suppressed_status_same_class_witness:
  "classifyUpstreamErr (Some (UpstreamStatus 429 0)) = errorClassOf ClassNone 429 False
   \<and> isUpstreamFailure (errorClassOf ClassNone 429 False)"
  by (rule suppressed_status_same_class) (simp add: retryableStatus_def)

text \<open>A dial that timed out is a timeout to the request log and a warming signal to the health
  tracker, which the source's comment says timeouts are not.\<close>

theorem dial_timeout_is_warming_signal:
  "classifyTransportErr (Some (NetOpError ''dial'' True EOTHER)) = ClassTimeout
   \<and> isWarmingSignal (Some (NetOpError ''dial'' True EOTHER))"
  by (simp add: classifyTransportErr_def isWarmingSignal_def)

end
