(* ===== verification/Capture.thy ===== *)
theory Capture
  imports Session Upstream_Errors
begin

text \<open>
  \<^verbatim>\<open>internal/router/capture.go\<close> and the readers of an upstream answer in \<^verbatim>\<open>upstreamstats.go\<close>: the rolling
  tail of an event stream, and what is read out of a response: token usage, the serving provider, an
  error envelope, a \<open>Retry-After\<close>. The writer that remembers the status is in \<open>Writers\<close>.

  \<open>parse\<close> reads one JSON document. A number decodes into an integer field when its value is whole and fits. A
  \<open>float64\<close> is the rational it denotes; \<open>parse_float\<close> and \<open>parse_date\<close> are \<open>strconv.ParseFloat\<close> on finite
  values and \<open>http.ParseTime\<close>.
\<close>

section \<open>The tail of a stream\<close>

record streamTailCapture =
  st_buf :: string
  st_max :: nat

definition newStreamTailCapture :: "int \<Rightarrow> streamTailCapture" where
  "newStreamTailCapture limit = \<lparr>st_buf = [], st_max = nat (if limit \<le> 0 then 64 * 1024 else limit)\<rparr>"

text \<open>One \<open>Read\<close> that returned these bytes.\<close>

definition tail_read :: "string \<Rightarrow> streamTailCapture \<Rightarrow> streamTailCapture" where
  "tail_read p s =
     (if length p > 0 then
        (let buf = st_buf s @ p
         in s\<lparr>st_buf := (if length buf > st_max s then drop (length buf - st_max s) buf else buf)\<rparr>)
      else s)"

section \<open>Usage\<close>

record usageStats =
  us_PromptTokens :: "int option"
  us_CompletionTokens :: "int option"
  us_TotalTokens :: "int option"
  us_TokPerSec :: "rat option"
  us_CostUSD :: "rat option"
  us_CachedPromptTokens :: "int option"

definition no_usage :: usageStats where
  "no_usage =
     \<lparr>us_PromptTokens = None, us_CompletionTokens = None, us_TotalTokens = None,
      us_TokPerSec = None, us_CostUSD = None, us_CachedPromptTokens = None\<rparr>"

text \<open>A pointer field: \<open>None\<close> when a member has the wrong type.\<close>

fun decode_num :: "rat option \<Rightarrow> json list \<Rightarrow> rat option option" where
  "decode_num x [] = Some x"
| "decode_num x (JNum y # vs) = decode_num (Some y) vs"
| "decode_num x (JNull # vs) = decode_num None vs"
| "decode_num x (v # vs) = None"

fun decode_int :: "int option \<Rightarrow> json list \<Rightarrow> int option option" where
  "decode_int x [] = Some x"
| "decode_int x (JNum y # vs) = (if of_int \<lfloor>y\<rfloor> = y \<and> - (2 ^ 63) \<le> \<lfloor>y\<rfloor> \<and> \<lfloor>y\<rfloor> < 2 ^ 63 then decode_int (Some \<lfloor>y\<rfloor>) vs else None)"
| "decode_int x (JNull # vs) = decode_int None vs"
| "decode_int x (v # vs) = None"

text \<open>A pointer to a struct: a null member resets it, the members of later objects add to earlier ones.\<close>

fun decode_struct :: "(string \<times> json) list option \<Rightarrow> json list \<Rightarrow> (string \<times> json) list option option" where
  "decode_struct d [] = Some d"
| "decode_struct d (JObj e # vs) = decode_struct (Some ((case d of None \<Rightarrow> [] | Some d' \<Rightarrow> d') @ e)) vs"
| "decode_struct d (JNull # vs) = decode_struct None vs"
| "decode_struct d (v # vs) = None"

definition decode_usage :: "(string \<times> json) list \<Rightarrow> usageStats option" where
  "decode_usage u =
     (case (decode_int None (struct_fields u ''prompt_tokens''), decode_int None (struct_fields u ''completion_tokens''),
            decode_int None (struct_fields u ''total_tokens''), decode_num None (struct_fields u ''response_token/s''),
            decode_num None (struct_fields u ''cost''), decode_struct None (struct_fields u ''prompt_tokens_details'')) of
        (Some prompt, Some completion, Some tot, Some tps, Some cost, Some details) \<Rightarrow>
          (case decode_int None (struct_fields (case details of None \<Rightarrow> [] | Some d \<Rightarrow> d) ''cached_tokens'') of
             None \<Rightarrow> None
           | Some cached \<Rightarrow>
               Some \<lparr>us_PromptTokens = prompt, us_CompletionTokens = completion, us_TotalTokens = tot,
                     us_TokPerSec = tps, us_CostUSD = cost, us_CachedPromptTokens = cached\<rparr>)
      | _ \<Rightarrow> None)"

definition parseUsage :: "json option \<Rightarrow> usageStats" where
  "parseUsage body =
     (case body of
        Some (JObj kvs) \<Rightarrow>
          (case decode_struct None (struct_fields kvs ''usage'') of
             Some (Some u) \<Rightarrow> (case decode_usage u of Some s \<Rightarrow> s | None \<Rightarrow> no_usage)
           | _ \<Rightarrow> no_usage)
      | _ \<Rightarrow> no_usage)"

definition usage_present :: "usageStats \<Rightarrow> bool" where
  "usage_present u \<longleftrightarrow>
     us_PromptTokens u \<noteq> None \<or> us_CompletionTokens u \<noteq> None \<or> us_TotalTokens u \<noteq> None
     \<or> us_TokPerSec u \<noteq> None \<or> us_CostUSD u \<noteq> None \<or> us_CachedPromptTokens u \<noteq> None"

section \<open>Events of a stream\<close>

definition newline :: char where "newline = CHR 0x0A"

text \<open>The payload of a line, when it is an event the extractors look at.\<close>

definition event_data :: "string \<Rightarrow> string option" where
  "event_data line0 =
     (let line = rev (dropWhile (\<lambda>c. c = CHR 0x0D) (rev line0)) in
      if \<not> has_prefix line ''data:'' then None
      else
        let data = trim_space (trim_prefix line ''data:'')
        in if length data = 0 \<or> data = ''[DONE]'' then None else Some data)"

definition extractSSEUsage :: "(string \<Rightarrow> json option) \<Rightarrow> string \<Rightarrow> usageStats" where
  "extractSSEUsage parse tail =
     fold (\<lambda>line out.
         case event_data line of
           None \<Rightarrow> out
         | Some data \<Rightarrow> let u = parseUsage (parse data) in if usage_present u then u else out)
       (split_on newline tail) no_usage"

definition parseUpstreamProvider :: "json option \<Rightarrow> string" where
  "parseUpstreamProvider body =
     (case body of
        Some (JObj kvs) \<Rightarrow> (case decode_string [] (struct_fields kvs ''provider'') of Some p \<Rightarrow> p | None \<Rightarrow> [])
      | _ \<Rightarrow> [])"

definition extractSSEProvider :: "(string \<Rightarrow> json option) \<Rightarrow> string \<Rightarrow> string" where
  "extractSSEProvider parse tail =
     fold (\<lambda>line provider.
         case event_data line of
           None \<Rightarrow> provider
         | Some data \<Rightarrow> let p = parseUpstreamProvider (parse data) in if p \<noteq> [] then p else provider)
       (split_on newline tail) []"

definition contentTypeIsSSE :: "string \<Rightarrow> bool" where
  "contentTypeIsSSE ct = has_prefix ct ''text/event-stream''"

definition contentTypeIsJSON :: "string \<Rightarrow> bool" where
  "contentTypeIsJSON ct = has_prefix ct ''application/json''"

section \<open>Failures\<close>

definition hasErrorEnvelope :: "json option \<Rightarrow> bool" where
  "hasErrorEnvelope body =
     (case body of
        Some (JObj kvs) \<Rightarrow>
          (case struct_fields kvs ''error'' of [] \<Rightarrow> False | vs \<Rightarrow> last vs \<noteq> JNull)
      | _ \<Rightarrow> False)"

text \<open>\<open>math.MaxInt64 / int64(time.Second)\<close>, and the saturation of \<open>Time.Sub\<close>.\<close>

definition max_seconds :: int where "max_seconds = (2 ^ 63 - 1) div second"

definition time_sub :: "time \<Rightarrow> time \<Rightarrow> duration" where
  "time_sub a b = max (- (2 ^ 63)) (min (2 ^ 63 - 1) (a - b))"

definition parseRetryAfter ::
    "(string \<Rightarrow> rat option) \<Rightarrow> (string \<Rightarrow> time option) \<Rightarrow> string \<Rightarrow> time \<Rightarrow> duration" where
  "parseRetryAfter parse_float parse_date v0 now =
     (let v = trim_space v0 in
      if v = [] then 0
      else case parse_float v of
             Some secs \<Rightarrow>
               if secs \<le> 0 \<or> secs > of_int max_seconds then 0
               else \<lfloor>secs * of_int second\<rfloor>
           | None \<Rightarrow>
               (case parse_date v of
                  Some t \<Rightarrow> let d = time_sub t now in if d > 0 then d else 0
                | None \<Rightarrow> 0))"

section \<open>Properties\<close>

lemma tail_read_last:
  "length (st_buf s) \<le> st_max s \<Longrightarrow> st_buf (tail_read p s) = last_n (st_max s) (st_buf s @ p)"
  "st_max (tail_read p s) = st_max s"
  by (auto simp: tail_read_def Let_def last_n_def)

lemma tail_reads:
  "length (st_buf s) \<le> st_max s \<Longrightarrow> st_buf (fold tail_read chunks s) = last_n (st_max s) (st_buf s @ concat chunks)"
proof (induction chunks arbitrary: s)
  case (Cons p chunks)
  then have "length (st_buf (tail_read p s)) \<le> st_max (tail_read p s)" by (simp add: tail_read_last)
  from Cons.IH[OF this] Cons.prems show ?case by (simp add: tail_read_last)
qed (simp add: last_n_all)

text \<open>However the upstream cuts its stream into reads, the tail buffer holds exactly the last bytes of
  the stream, at most the configured number of them.\<close>

theorem tail_is_suffix:
  "st_buf (fold tail_read chunks (newStreamTailCapture limit)) =
     last_n (nat (if limit \<le> 0 then 64 * 1024 else limit)) (concat chunks)"
  by (simp add: tail_reads newStreamTailCapture_def)

lemma split_on_append: "split_on c (xs @ c # ys) = split_on c xs @ split_on c ys"
  by (induction xs) (auto split: list.split)

text \<open>A scan that keeps the last hit.\<close>

lemma fold_keeps_last:
  "fold (\<lambda>x out. case g x of None \<Rightarrow> out | Some y \<Rightarrow> y) xs d =
     (case find_map g (rev xs) of Some y \<Rightarrow> y | None \<Rightarrow> d)"
  by (induction xs arbitrary: d) (auto simp: find_map_append split: option.split)

definition line_usage :: "(string \<Rightarrow> json option) \<Rightarrow> string \<Rightarrow> usageStats option" where
  "line_usage parse line =
     (case event_data line of
        None \<Rightarrow> None
      | Some data \<Rightarrow> let u = parseUsage (parse data) in if usage_present u then Some u else None)"

lemma extractSSEUsage_last:
  "extractSSEUsage parse s =
     (case find_map (line_usage parse) (rev (split_on newline s)) of Some u \<Rightarrow> u | None \<Rightarrow> no_usage)"
proof -
  have "(\<lambda>line out. case event_data line of None \<Rightarrow> out
           | Some data \<Rightarrow> let u = parseUsage (parse data) in if usage_present u then u else out) =
        (\<lambda>line out. case line_usage parse line of None \<Rightarrow> out | Some u \<Rightarrow> u)"
    by (auto simp: line_usage_def Let_def fun_eq_iff split: option.split)
  then show ?thesis by (simp only: extractSSEUsage_def fold_keeps_last)
qed

text \<open>The usage of a stream survives the rolling buffer: when the last event that reports usage lies in
  the final bytes the buffer keeps, reading the tail gives what reading the whole stream would, whatever
  partial event the tail begins with.\<close>

theorem usage_survives_tail:
  assumes "stream = before @ newline # rest" and "length rest \<le> m"
    and "\<exists>line \<in> set (split_on newline rest). line_usage parse line \<noteq> None"
  shows "extractSSEUsage parse (last_n m stream) = extractSSEUsage parse stream"
proof -
  have none: "find_map (line_usage parse) xs = None \<longleftrightarrow> (\<forall>x \<in> set xs. line_usage parse x = None)" for xs
    by (induction xs) (auto split: option.split)
  obtain u where u: "find_map (line_usage parse) (rev (split_on newline rest)) = Some u"
    using none[of "rev (split_on newline rest)"] assms(3) by (metis not_None_eq set_rev)
  then have ext: "extractSSEUsage parse (pre @ newline # rest) = u" for pre
    by (simp add: extractSSEUsage_last split_on_append find_map_append)
  show ?thesis
  proof (cases "length rest = m")
    case True
    with assms(1) have "last_n m stream = rest" by (simp add: last_n_def)
    then show ?thesis using u ext[of before] assms(1) by (simp add: extractSSEUsage_last)
  next
    case False
    with assms(1,2) have "last_n m stream = drop (length stream - m) before @ newline # rest"
      by (simp add: last_n_def drop_append Cons_nth_drop_Suc[symmetric])
    then show ?thesis using ext assms(1) by simp
  qed
qed

theorem usage_survives_tail_witness:
  "let parse = (\<lambda>d. Some (JObj [(''usage'', JObj [(''total_tokens'', JNum 7)])]));
       stream = ''garbage'' @ newline # ''data: {}''
   in extractSSEUsage parse (last_n 12 stream) = extractSSEUsage parse stream"
proof -
  let ?p = "\<lambda>d. Some (JObj [(''usage'', JObj [(''total_tokens'', JNum 7)])])"
  have "\<exists>line \<in> set (split_on newline ''data: {}''). line_usage ?p line \<noteq> None" by code_simp
  from usage_survives_tail[OF refl _ this, of 12 "''garbage''"] show ?thesis by (simp add: Let_def)
qed

text \<open>A cooldown read from a \<open>Retry-After\<close> header is never negative and fits a 64-bit duration, whatever
  the upstream wrote; a delay in whole seconds within range is kept exactly, and anything the router
  cannot read or that already passed is no cooldown.\<close>

theorem retry_after_fits:
  "let d = parseRetryAfter parse_float parse_date v now in
     0 \<le> d \<and> d < 2 ^ 63
     \<and> (\<forall>n. parse_float (trim_space v) = Some (of_int n) \<and> trim_space v \<noteq> [] \<longrightarrow>
           d = (if 0 < n \<and> n \<le> max_seconds then n * second else 0))
     \<and> (parse_float (trim_space v) = None \<and> parse_date (trim_space v) = None \<longrightarrow> d = 0)"
proof -
  have frac: "0 \<le> \<lfloor>secs * of_int second\<rfloor> \<and> \<lfloor>secs * of_int second\<rfloor> < 2 ^ 63"
    if "0 < secs" "secs \<le> of_int max_seconds" for secs :: rat
  proof -
    have "secs * of_int second \<le> of_int max_seconds * of_int second"
      using that by (intro mult_right_mono) auto
    also have "\<dots> = of_int (max_seconds * second)" by simp
    also have "\<dots> \<le> of_int (2 ^ 63 - 1)" by (simp only: of_int_le_iff) (simp add: max_seconds_def)
    finally have "\<lfloor>secs * of_int second\<rfloor> \<le> 2 ^ 63 - 1" by (simp add: floor_le_iff)
    moreover have "0 \<le> \<lfloor>secs * of_int second\<rfloor>" using that by simp
    ultimately show ?thesis by simp
  qed
  have whole: "\<lfloor>(of_int n :: rat) * of_int second\<rfloor> = n * second" for n
    by (simp only: of_int_mult[symmetric] floor_of_int)
  show ?thesis
    using frac whole
    by (auto simp: parseRetryAfter_def Let_def time_sub_def split: option.split)
qed

theorem retry_after_fits_witness:
  "parseRetryAfter (\<lambda>v. Some (of_int 30)) (\<lambda>v. None) ''30'' 0 = 30 * second"
proof -
  have t: "trim_space ''30'' = ''30''" by code_simp
  show ?thesis
    using retry_after_fits[of "\<lambda>v. Some (of_int 30)" "\<lambda>v. None" "''30''" 0]
    by (auto simp: t Let_def max_seconds_def)
qed

end
