(* ===== verification/Writers.thy ===== *)
theory Writers
  imports Go_Http
begin

text \<open>
  The response writers a handler writes through: the \<open>recordingWriter\<close> of
  \<^verbatim>\<open>internal/router/capture.go\<close> over the \<open>responseWriter\<close> of \<^verbatim>\<open>internal/httpx/httpx.go\<close> (installed by
  \<open>AccessLog\<close>) over the writer of \<^verbatim>\<open>net/http\<close>; and the \<open>Recover\<close> and \<open>RequestID\<close> middleware around it.

  One record holds the fields of the three. The header map is shared by all of them and is sent with the
  final status. \<^verbatim>\<open>net/http\<close> takes the first final status; an informational one (1xx but 101) is sent at
  once and is not final; a write without a status, or a handler that returns without one, sends 200.
\<close>

record writer =
  rw_status :: int
  hw_status :: int
  hw_size :: nat
  hw_wroteHeader :: bool
  cl_status :: int
  cl_header :: header
  cl_sent :: header
  cl_body :: string

definition fresh_writer :: writer where
  "fresh_writer =
     \<lparr>rw_status = 0, hw_status = 200, hw_size = 0, hw_wroteHeader = False,
      cl_status = 0, cl_header = [], cl_sent = [], cl_body = []\<rparr>"

definition set_header :: "string \<Rightarrow> string \<Rightarrow> writer \<Rightarrow> writer" where
  "set_header k v w = w\<lparr>cl_header := header_set k v (cl_header w)\<rparr>"

section \<open>net/http\<close>

definition informational :: "int \<Rightarrow> bool" where
  "informational code \<longleftrightarrow> 100 \<le> code \<and> code \<le> 199 \<and> code \<noteq> 101"

definition net_WriteHeader :: "int \<Rightarrow> writer \<Rightarrow> writer" where
  "net_WriteHeader code w =
     (if cl_status w \<noteq> 0 \<or> informational code then w
      else w\<lparr>cl_status := code, cl_sent := cl_header w\<rparr>)"

definition net_Write :: "string \<Rightarrow> writer \<Rightarrow> writer" where
  "net_Write p w0 =
     (let w = (if cl_status w0 = 0 then net_WriteHeader 200 w0 else w0) in w\<lparr>cl_body := cl_body w @ p\<rparr>)"

definition net_finish :: "writer \<Rightarrow> writer" where
  "net_finish w = (if cl_status w = 0 then net_WriteHeader 200 w else w)"

section \<open>The access log's writer (httpx.go)\<close>

definition log_WriteHeader :: "int \<Rightarrow> writer \<Rightarrow> writer" where
  "log_WriteHeader code w =
     (if hw_wroteHeader w then w
      else net_WriteHeader code (w\<lparr>hw_status := code, hw_wroteHeader := True\<rparr>))"

definition log_Write :: "string \<Rightarrow> writer \<Rightarrow> writer" where
  "log_Write p w =
     (let w1 = (if \<not> hw_wroteHeader w then w\<lparr>hw_wroteHeader := True\<rparr> else w);
          w2 = net_Write p w1
      in w2\<lparr>hw_size := hw_size w2 + length p\<rparr>)"

section \<open>The recording writer (capture.go)\<close>

definition WriteHeader :: "int \<Rightarrow> writer \<Rightarrow> writer" where
  "WriteHeader code w = log_WriteHeader code (if rw_status w = 0 then w\<lparr>rw_status := code\<rparr> else w)"

definition Write :: "string \<Rightarrow> writer \<Rightarrow> writer" where
  "Write p w = log_Write p (if rw_status w = 0 then w\<lparr>rw_status := 200\<rparr> else w)"

text \<open>\<open>http.Error\<close>, through the recording writer and through the access log's.\<close>

definition error_headers :: "writer \<Rightarrow> writer" where
  "error_headers w =
     set_header ''X-Content-Type-Options'' ''nosniff'' (set_header ''Content-Type'' ''text/plain; charset=utf-8''
       (w\<lparr>cl_header := header_del ''Content-Length'' (cl_header w)\<rparr>))"

definition http_Error :: "string \<Rightarrow> int \<Rightarrow> writer \<Rightarrow> writer" where
  "http_Error msg code w = Write (msg @ [CHR 0x0A]) (WriteHeader code (error_headers w))"

definition log_Error :: "string \<Rightarrow> int \<Rightarrow> writer \<Rightarrow> writer" where
  "log_Error msg code w = log_Write (msg @ [CHR 0x0A]) (log_WriteHeader code (error_headers w))"

section \<open>The middleware (httpx.go)\<close>

text \<open>\<open>Recover\<close> around a handler that panicked or not, then \<^verbatim>\<open>net/http\<close> when the chain returned.\<close>

definition after_handler :: "bool \<Rightarrow> writer \<Rightarrow> writer" where
  "after_handler panicked w =
     net_finish (if panicked then log_Error ''internal error'' 500 w else w)"

definition requestIDMaxLen :: nat where "requestIDMaxLen = 128"

text \<open>\<open>RequestID\<close>: the id of a request, given a fresh one.\<close>

definition request_id :: "string \<Rightarrow> string \<Rightarrow> string" where
  "request_id fresh supplied = (if supplied = [] \<or> length supplied > requestIDMaxLen then fresh else supplied)"

section \<open>What the client sees\<close>

lemmas writer_defs = set_header_def net_WriteHeader_def net_Write_def net_finish_def log_WriteHeader_def
  log_Write_def WriteHeader_def Write_def error_headers_def http_Error_def log_Error_def after_handler_def Let_def

text \<open>The three layers agree while only final statuses have been written: the recorded status is zero exactly
  when nothing was written, and is otherwise the status the access log has and the client got.\<close>

definition agree :: "writer \<Rightarrow> bool" where
  "agree w \<longleftrightarrow>
     (if rw_status w = 0 then \<not> hw_wroteHeader w \<and> cl_status w = 0 \<and> cl_body w = [] \<and> hw_status w = 200
      else hw_wroteHeader w \<and> cl_status w = rw_status w \<and> hw_status w = rw_status w)"

definition final_status :: "int \<Rightarrow> bool" where
  "final_status code \<longleftrightarrow> code \<noteq> 0 \<and> \<not> informational code"

lemma final_statuses [simp]:
  "final_status 200" "final_status 400" "final_status 403" "final_status 404" "final_status 500"
  "final_status 502" "final_status 503"
  by (simp_all add: final_status_def informational_def)

lemma agree_fresh [simp]: "agree fresh_writer"
  by (simp add: agree_def fresh_writer_def)

lemma rw_status_fresh [simp]: "rw_status fresh_writer = 0"
  by (simp add: fresh_writer_def)

lemma agree_set_header [simp]: "agree (set_header k v w) \<longleftrightarrow> agree w"
  by (simp add: agree_def set_header_def)

lemma rw_status_set_header [simp]: "rw_status (set_header k v w) = rw_status w"
  by (simp add: set_header_def)

lemma error_headers_simps [simp]: "agree (error_headers w) \<longleftrightarrow> agree w" "rw_status (error_headers w) = rw_status w"
  by (simp_all add: agree_def error_headers_def set_header_def)

lemma agree_WriteHeader: "agree w \<Longrightarrow> final_status code \<Longrightarrow> agree (WriteHeader code w)"
  by (auto simp: agree_def final_status_def writer_defs split: if_splits)

lemma agree_Write: "agree w \<Longrightarrow> agree (Write p w)"
  by (auto simp: agree_def final_status_def informational_def writer_defs split: if_splits)

lemma agree_http_Error: "agree w \<Longrightarrow> final_status code \<Longrightarrow> agree (http_Error msg code w)"
  unfolding http_Error_def by (intro agree_Write agree_WriteHeader) simp_all

lemma rw_status_writes [simp]:
  "rw_status (WriteHeader code w) = (if rw_status w = 0 then code else rw_status w)"
  "rw_status (Write p w) = (if rw_status w = 0 then 200 else rw_status w)"
  by (simp_all add: writer_defs)

lemma rw_status_http_Error [simp]:
  "code \<noteq> 0 \<Longrightarrow> rw_status (http_Error msg code w) = (if rw_status w = 0 then code else rw_status w)"
  by (simp add: http_Error_def)

text \<open>The status in the request log and the access log is the one the client received: through any
  sequence of final statuses and writes the three writers stay in step, the first final status wins, and
  a handler that returns has answered with it.\<close>

theorem status_logged_is_status_sent:
  assumes "agree w"
    and "\<forall>op \<in> set ops. case op of Inl code \<Rightarrow> final_status code | Inr p \<Rightarrow> True"
  shows "let w' = fold (\<lambda>op. case op of Inl code \<Rightarrow> WriteHeader code | Inr p \<Rightarrow> Write p) ops w in
     agree w' \<and> (rw_status w \<noteq> 0 \<longrightarrow> rw_status w' = rw_status w)
     \<and> cl_status (after_handler False w') = (if rw_status w' = 0 then 200 else rw_status w')"
proof -
  have "agree (fold (\<lambda>op. case op of Inl code \<Rightarrow> WriteHeader code | Inr p \<Rightarrow> Write p) ops w)
      \<and> (rw_status w \<noteq> 0 \<longrightarrow>
           rw_status (fold (\<lambda>op. case op of Inl code \<Rightarrow> WriteHeader code | Inr p \<Rightarrow> Write p) ops w) = rw_status w)"
    using assms
  proof (induction ops arbitrary: w)
    case (Cons op ops)
    let ?w = "(case op of Inl code \<Rightarrow> WriteHeader code | Inr p \<Rightarrow> Write p) w"
    have "agree ?w" "rw_status w \<noteq> 0 \<longrightarrow> rw_status ?w = rw_status w"
      using Cons.prems by (auto simp: agree_WriteHeader agree_Write split: sum.split)
    with Cons.IH[of ?w] Cons.prems show ?case by simp
  qed simp
  then show ?thesis
    by (auto simp: Let_def agree_def after_handler_def net_finish_def net_WriteHeader_def informational_def)
qed

theorem status_logged_is_status_sent_witness:
  "cl_status (after_handler False (fold (\<lambda>op. case op of Inl code \<Rightarrow> WriteHeader code | Inr p \<Rightarrow> Write p)
     [Inl 404, Inr ''no such model'', Inl 500] fresh_writer)) = 404"
  using status_logged_is_status_sent[of fresh_writer "[Inl 404, Inr ''no such model'', Inl 500]"]
  by (simp add: Let_def)

text \<open>An informational status breaks that: the recording writer and the access log take it for the
  response's status, and the access log's writer then swallows the real one, so the client is told 200.\<close>

theorem informational_status_swallows_the_real_one:
  assumes "informational code" and "final_status answer" and "code \<noteq> 0"
  shows "let w = after_handler False (Write body (WriteHeader answer (WriteHeader code fresh_writer))) in
           rw_status w = code \<and> hw_status w = code \<and> cl_status w = 200"
  using assms by (simp add: fresh_writer_def writer_defs) (simp add: informational_def)

theorem informational_status_swallows_the_real_one_witness:
  "cl_status (after_handler False (Write ''busy'' (WriteHeader 429 (WriteHeader 103 fresh_writer)))) = 200"
  using informational_status_swallows_the_real_one[of 103 429 "''busy''"]
  by (simp add: Let_def informational_def final_status_def)

text \<open>A panic after bytes have gone out adds the text of the recovery to the body, and the response ends
  as a complete one.\<close>

theorem recover_completes_the_response:
  assumes "agree w" and "rw_status w \<noteq> 0"
  shows "cl_body (after_handler True w) = cl_body w @ ''internal error'' @ [CHR 0x0A]
       \<and> cl_status (after_handler True w) = rw_status w"
  using assms by (auto simp: agree_def writer_defs)

theorem recover_completes_the_response_witness:
  "cl_body (after_handler True (Write ''data: partial'' (WriteHeader 200 fresh_writer)))
     = ''data: partialinternal error'' @ [CHR 0x0A]"
proof -
  have "agree (Write ''data: partial'' (WriteHeader 200 fresh_writer))"
    by (intro agree_Write agree_WriteHeader) simp_all
  from recover_completes_the_response[OF this] show ?thesis by (simp add: writer_defs fresh_writer_def informational_def)
qed

end
