(* ===== verification/Discovery.thy ===== *)
theory Discovery
  imports Registry
begin

text \<open>
  \<^verbatim>\<open>internal/config/discovery.go\<close>: the adopt/exclude pattern language, the policy of a
  discovery source, the virtual entry built for an adopted id, and the split of an id into
  source and provider id.

  \<open>compileGlob\<close> turns a pattern into an anchored regular expression. The model compiles it to a
  list of tokens with the meaning that regular expression has in Go: \<open>.\<close> matches any character
  but a newline. A class is modelled when it consists of literal characters and ranges; a class
  with a backslash or an opening bracket in it is reported as not compiling. The memo table
  \<open>globCache\<close> does not change what the function returns and is left out.
\<close>

section \<open>Patterns\<close>

datatype class_item = CChar char | CRange char char

datatype glob_tok = GStar | GAny | GClass bool "class_item list" | GLit char

fun parse_class :: "string \<Rightarrow> class_item list option" where
  "parse_class [] = Some []"
| "parse_class (a # b # c # s) =
     (if a = CHR 0x5C \<or> a = CHR ''['' then None
      else if b = CHR ''-'' then
        (if c = CHR 0x5C \<or> c = CHR ''['' \<or> c < a then None
         else map_option (\<lambda>is. CRange a c # is) (parse_class s))
      else map_option (\<lambda>is. CChar a # is) (parse_class (b # c # s)))"
| "parse_class (a # s) =
     (if a = CHR 0x5C \<or> a = CHR ''['' then None
      else map_option (\<lambda>is. CChar a # is) (parse_class s))"

text \<open>The text between the brackets; a leading exclamation mark, like a caret, negates.\<close>

definition compile_class :: "string \<Rightarrow> glob_tok option" where
  "compile_class body =
     (let (neg, rest) = (case body of
                           [] \<Rightarrow> (False, [])
                         | c # cs \<Rightarrow> if c = CHR ''!'' \<or> c = CHR ''^'' then (True, cs) else (False, c # cs))
      in if rest = [] then None else map_option (GClass neg) (parse_class rest))"

function compileGlob :: "string \<Rightarrow> glob_tok list option" where
  "compileGlob [] = Some []"
| "compileGlob (c # s) =
     (if c = CHR ''*'' then map_option ((#) GStar) (compileGlob s)
      else if c = CHR ''?'' then map_option ((#) GAny) (compileGlob s)
      else if c = CHR ''['' then
        (case cut (CHR '']'') s of
           None \<Rightarrow> None
         | Some (body, rest) \<Rightarrow>
             (case compile_class body of
                None \<Rightarrow> None
              | Some t \<Rightarrow> map_option ((#) t) (compileGlob rest)))
      else map_option ((#) (GLit c)) (compileGlob s))"
  by pat_completeness auto
termination
  by (relation "measure length") (auto dest!: cut_Some)

fun item_matches :: "class_item \<Rightarrow> char \<Rightarrow> bool" where
  "item_matches (CChar a) c = (c = a)"
| "item_matches (CRange a b) c = (a \<le> c \<and> c \<le> b)"

fun tok_char :: "glob_tok \<Rightarrow> char \<Rightarrow> bool" where
  "tok_char GStar c = False"
| "tok_char GAny c = (c \<noteq> CHR 0x0A)"
| "tok_char (GClass neg is) c = (list_ex (\<lambda>i. item_matches i c) is \<noteq> neg)"
| "tok_char (GLit a) c = (c = a)"

fun match_toks :: "glob_tok list \<Rightarrow> string \<Rightarrow> bool" where
  "match_toks [] s = (s = [])"
| "match_toks (GStar # ts) [] = match_toks ts []"
| "match_toks (GStar # ts) (c # s) = (match_toks ts (c # s) \<or> (c \<noteq> CHR 0x0A \<and> match_toks (GStar # ts) s))"
| "match_toks (t # ts) [] = False"
| "match_toks (t # ts) (c # s) = (tok_char t c \<and> match_toks ts s)"

definition GlobMatch :: "string \<Rightarrow> string \<Rightarrow> bool" where
  "GlobMatch pattern mid = (case compileGlob pattern of None \<Rightarrow> False | Some ts \<Rightarrow> match_toks ts mid)"

definition AdoptMatches :: "AdoptPolicy \<Rightarrow> string \<Rightarrow> bool" where
  "AdoptMatches p mid \<longleftrightarrow> ap_All p \<or> list_ex (\<lambda>pat. GlobMatch pat mid) (ap_Patterns p)"

definition Adopts :: "DiscoverySource \<Rightarrow> string \<Rightarrow> bool" where
  "Adopts s mid \<longleftrightarrow> AdoptMatches (s_Adopt s) mid \<and> \<not> list_ex (\<lambda>pat. GlobMatch pat mid) (s_Exclude s)"

definition SourceRoot :: "DiscoverySource \<Rightarrow> string" where
  "SourceRoot s = trim_suffix (trim_suffix (s_APIBase s) ''/'') ''/v1''"

section \<open>Adopted entries\<close>

record ListedModel =
  lm_ID :: string
  lm_ContextLength :: int
  lm_MaxOutputTokens :: int
  lm_InputCostPerMillion :: "rat option"
  lm_OutputCostPerMillion :: "rat option"
  lm_ToolCalling :: bool
  lm_Vision :: bool

definition TagDiscovered :: string where "TagDiscovered = ''discovered''"

definition IsDiscovered :: "ModelDefinition \<Rightarrow> bool" where
  "IsDiscovered m \<longleftrightarrow> TagDiscovered \<in> set (m_Tags m)"

text \<open>Append the elements of a list that are not there yet, in order.\<close>

fun add_new :: "'a list \<Rightarrow> 'a list \<Rightarrow> 'a list" where
  "add_new have [] = have"
| "add_new have (x # xs) = add_new (if x \<in> set have then have else have @ [x]) xs"

definition Entry :: "DiscoverySource \<Rightarrow> ListedModel \<Rightarrow> ModelDefinition" where
  "Entry s lm =
     (let caps0 = [CapText] @ (if lm_ToolCalling lm then [CapToolCalling] else [])
                  @ (if lm_Vision lm then [CapVision] else []);
          caps = add_new caps0 (s_Capabilities s);
          free = lm_InputCostPerMillion lm = Some 0 \<and> lm_OutputCostPerMillion lm = Some 0;
          tags0 = [TagDiscovered] @ (if \<not> free then [''paid''] else []);
          tags = add_new tags0 (filter (\<lambda>t. t \<noteq> TagDiscovered) (s_Tags s))
      in default_model
           \<lparr>m_HFRepo := lm_ID lm, m_Backend := BackendExternal, m_Enabled := True, m_AlwaysOn := True,
            m_APIBase := s_APIBase s, m_APIKey := s_APIKey s, m_APIKeyHeader := s_APIKeyHeader s,
            m_APIClass := APIClassChat, m_Capabilities := caps,
            m_ContextLength := (if lm_ContextLength lm = 0 then s_ContextLength s else lm_ContextLength lm),
            m_MaxOutputTokens := (if lm_MaxOutputTokens lm = 0 then s_MaxOutputTokens s else lm_MaxOutputTokens lm),
            m_InputCostPerMillion := lm_InputCostPerMillion lm,
            m_OutputCostPerMillion := lm_OutputCostPerMillion lm,
            m_Tags := tags\<rparr>)"

section \<open>Ids under a discovery prefix\<close>

text \<open>The loop of \<open>DiscoveredMember\<close>: the first source of longest matching prefix.\<close>

definition under_prefix :: "string \<Rightarrow> DiscoverySource \<Rightarrow> bool" where
  "under_prefix mid s \<longleftrightarrow> s_Prefix s \<noteq> [] \<and> has_prefix mid (s_Prefix s) \<and> length mid > length (s_Prefix s)"

fun best_source :: "string \<Rightarrow> DiscoverySource option \<Rightarrow> DiscoverySource list \<Rightarrow> DiscoverySource option" where
  "best_source mid best [] = best"
| "best_source mid best (s # ss) =
     best_source mid
       (if under_prefix mid s \<and>
           (case best of None \<Rightarrow> True | Some b \<Rightarrow> length (s_Prefix s) > length (s_Prefix b))
        then Some s else best) ss"

definition DiscoveredMember :: "ModelRegistry \<Rightarrow> string \<Rightarrow> (DiscoverySource \<times> string) option" where
  "DiscoveredMember r mid =
     map_option (\<lambda>s. (s, trim_prefix mid (s_Prefix s))) (best_source mid None (reg_Discovery r))"

definition ReservedNames :: "ModelRegistry \<Rightarrow> string list" where
  "ReservedNames r =
     sort (remdups (map fst (reg_Models r) @ concat (map (\<lambda>(mid, m). m_Aliases m) (reg_Models r))
                    @ map fst (reg_Roles r)))"

section \<open>The pattern language\<close>

text \<open>What a pattern denotes: a token at a time, a star any run of characters but newlines.\<close>

fun tok_lang :: "glob_tok \<Rightarrow> string set" where
  "tok_lang GStar = {s. CHR 0x0A \<notin> set s}"
| "tok_lang t = {[c] | c. tok_char t c}"

fun toks_lang :: "glob_tok list \<Rightarrow> string set" where
  "toks_lang [] = {[]}"
| "toks_lang (t # ts) = {u @ v | u v. u \<in> tok_lang t \<and> v \<in> toks_lang ts}"

lemma star_lang_Nil: "[] \<in> toks_lang (GStar # ts) \<longleftrightarrow> [] \<in> toks_lang ts"
  by auto

lemma star_lang_Cons:
  "c # s \<in> toks_lang (GStar # ts) \<longleftrightarrow>
     c # s \<in> toks_lang ts \<or> (c \<noteq> CHR 0x0A \<and> s \<in> toks_lang (GStar # ts))"
  (is "?L \<longleftrightarrow> ?R")
proof
  assume ?L
  then obtain u v where uv: "c # s = u @ v" "CHR 0x0A \<notin> set u" "v \<in> toks_lang ts" by auto
  show ?R
  proof (cases u)
    case Nil
    with uv show ?thesis by simp
  next
    case (Cons a u')
    with uv have "c \<noteq> CHR 0x0A" "s = u' @ v" "CHR 0x0A \<notin> set u'" by auto
    with uv(3) have "s \<in> toks_lang (GStar # ts)" by auto
    with \<open>c \<noteq> CHR 0x0A\<close> show ?thesis by blast
  qed
next
  assume ?R
  then show ?L
  proof
    assume "c # s \<in> toks_lang ts"
    moreover have "[] \<in> tok_lang GStar" by simp
    ultimately show ?L by (metis (mono_tags, lifting) append_Nil mem_Collect_eq toks_lang.simps(2))
  next
    assume "c \<noteq> CHR 0x0A \<and> s \<in> toks_lang (GStar # ts)"
    then obtain u v where "c \<noteq> CHR 0x0A" "s = u @ v" "CHR 0x0A \<notin> set u" "v \<in> toks_lang ts" by auto
    then have "c # s = (c # u) @ v" "c # u \<in> tok_lang GStar" "v \<in> toks_lang ts" by auto
    then show ?L by (metis (mono_tags, lifting) mem_Collect_eq toks_lang.simps(2))
  qed
qed

lemma single_lang_Cons:
  "t \<noteq> GStar \<Longrightarrow> c # s \<in> toks_lang (t # ts) \<longleftrightarrow> tok_char t c \<and> s \<in> toks_lang ts"
proof -
  assume "t \<noteq> GStar"
  then have "tok_lang t = {[a] | a. tok_char t a}" by (cases t) auto
  then have "toks_lang (t # ts) = {u @ v | u v. (\<exists>a. u = [a] \<and> tok_char t a) \<and> v \<in> toks_lang ts}"
    by simp
  also have "\<dots> = {a # v | a v. tok_char t a \<and> v \<in> toks_lang ts}"
    by (rule set_eqI) (auto simp del: toks_lang.simps, metis append_Cons append_Nil)
  finally show ?thesis by simp
qed

lemma single_lang_Nil: "t \<noteq> GStar \<Longrightarrow> [] \<notin> toks_lang (t # ts)"
  by (cases t) auto

lemma match_toks_lang: "match_toks ts s \<longleftrightarrow> s \<in> toks_lang ts"
proof (induction ts s rule: match_toks.induct)
  case (3 ts c s)
  then show ?case by (simp only: match_toks.simps star_lang_Cons)
qed (simp_all add: star_lang_Nil single_lang_Nil single_lang_Cons del: toks_lang.simps(2))

lemma toks_lang_append: "toks_lang (xs @ ys) = {u @ v | u v. u \<in> toks_lang xs \<and> v \<in> toks_lang ys}"
proof (induction xs)
  case Nil
  then show ?case by simp
next
  case (Cons t xs)
  show ?case
  proof (intro set_eqI iffI)
    fix w assume "w \<in> toks_lang ((t # xs) @ ys)"
    then obtain u v1 v2 where "w = u @ v1 @ v2" "u \<in> tok_lang t" "v1 \<in> toks_lang xs" "v2 \<in> toks_lang ys"
      by (auto simp: Cons.IH)
    then have "w = (u @ v1) @ v2" "u @ v1 \<in> toks_lang (t # xs)" "v2 \<in> toks_lang ys" by auto
    then show "w \<in> {u @ v | u v. u \<in> toks_lang (t # xs) \<and> v \<in> toks_lang ys}" by blast
  next
    fix w assume "w \<in> {u @ v | u v. u \<in> toks_lang (t # xs) \<and> v \<in> toks_lang ys}"
    then obtain u v1 v2 where w: "w = u @ v1 @ v2" and u: "u \<in> tok_lang t"
      and v: "v1 \<in> toks_lang xs" "v2 \<in> toks_lang ys" by auto
    from v have "v1 @ v2 \<in> toks_lang (xs @ ys)" by (auto simp: Cons.IH)
    with w u show "w \<in> toks_lang ((t # xs) @ ys)" by auto
  qed
qed

text \<open>Patterns without metacharacters compile to themselves.\<close>

definition plain :: "string \<Rightarrow> bool" where
  "plain s \<longleftrightarrow> list_all (\<lambda>c. c \<notin> set ''*?['') s"

lemma compile_plain_append:
  "plain s \<Longrightarrow> compileGlob (s @ p) = map_option ((@) (map GLit s)) (compileGlob p)"
  by (induction s; cases "compileGlob p") (auto simp: plain_def)

lemma toks_lang_lits: "toks_lang (map GLit s) = {s}"
  by (induction s) auto


text \<open>A pattern made of plain text around one star matches exactly the ids with that prefix and
  that suffix (not overlapping) and no newline between them, whatever slashes lie between.\<close>

theorem glob_prefix_star_suffix:
  assumes "plain p" and "plain q"
  shows "GlobMatch (p @ ''*'' @ q) i \<longleftrightarrow> (\<exists>x. i = p @ x @ q \<and> CHR 0x0A \<notin> set x)"
proof -
  have "compileGlob (p @ ''*'' @ q) = Some (map GLit p @ GStar # map GLit q)"
    using compile_plain_append[OF assms(1), of "''*'' @ q"] compile_plain_append[OF assms(2), of "[]"]
    by simp
  then have "GlobMatch (p @ ''*'' @ q) i \<longleftrightarrow> i \<in> toks_lang (map GLit p @ GStar # map GLit q)"
    by (simp add: GlobMatch_def match_toks_lang)
  also have "\<dots> \<longleftrightarrow> (\<exists>x. i = p @ x @ q \<and> CHR 0x0A \<notin> set x)"
    by (auto simp: toks_lang_append toks_lang_lits)
  finally show ?thesis .
qed

theorem glob_prefix_star_suffix_witness:
  "GlobMatch ('''' @ ''*'' @ '':batch'') ''deepseek/v4:batch''
   \<and> \<not> GlobMatch (''anthropic/claude-'' @ ''*'' @ '''') ''deepseek/v4:batch''"
proof -
  have "plain ''''" "plain '':batch''" "plain ''anthropic/claude-''" by (simp_all add: plain_def)
  note a = glob_prefix_star_suffix[OF this(1,2), of "''deepseek/v4:batch''"]
    and b = glob_prefix_star_suffix[OF this(3,1), of "''deepseek/v4:batch''"]
  have "''deepseek/v4:batch'' = '''' @ ''deepseek/v4'' @ '':batch'' \<and> CHR 0x0A \<notin> set ''deepseek/v4''"
    by simp
  then show ?thesis unfolding a b by auto
qed

section \<open>Sources and adopted entries\<close>

lemma set_add_new: "set (add_new ys xs) = set ys \<union> set xs"
  by (induction xs arbitrary: ys) auto

lemma add_new_extends: "\<exists>zs. add_new ys xs = ys @ zs"
proof (induction xs arbitrary: ys)
  case (Cons x xs)
  obtain zs where "add_new (ys @ [x]) xs = (ys @ [x]) @ zs" using Cons by blast
  with Cons show ?case by auto
qed simp

lemma distinct_add_new: "distinct ys \<Longrightarrow> distinct (add_new ys xs)"
  by (induction xs arbitrary: ys) auto

lemma best_source_keeps: "best_source i (Some b) ss = Some b' \<Longrightarrow>
   length (s_Prefix b) \<le> length (s_Prefix b')"
  by (induction ss arbitrary: b) (fastforce split: if_splits)+

lemma best_source_is_Some: "best_source i (Some b) ss \<noteq> None"
  by (induction ss arbitrary: b) auto

lemma best_source_in:
  "best_source i best ss = Some b \<Longrightarrow> best = Some b \<or> (b \<in> set ss \<and> under_prefix i b)"
  by (induction ss arbitrary: best) (fastforce split: if_splits)+

lemma best_source_longest:
  "best_source i best ss = Some b \<Longrightarrow> s \<in> set ss \<Longrightarrow> under_prefix i s \<Longrightarrow>
     length (s_Prefix s) \<le> length (s_Prefix b)"
proof (induction ss arbitrary: best)
  case Nil
  then show ?case by simp
next
  case (Cons x ss)
  show ?case
  proof (cases "s = x")
    case False
    with Cons show ?thesis by auto
  next
    case True
    show ?thesis
    proof (cases best)
      case None
      with True Cons.prems show ?thesis by (auto dest: best_source_keeps)
    next
      case (Some b0)
      with True Cons.prems show ?thesis
        by (fastforce dest: best_source_keeps split: if_splits)
    qed
  qed
qed

lemma best_source_None: "best_source i None ss = None \<longleftrightarrow> (\<forall>s \<in> set ss. \<not> under_prefix i s)"
  by (induction ss) (auto simp: best_source_is_Some)

text \<open>An id is split at the longest discovery prefix it lies under: the source is one of the
  registry's, the prefix followed by the provider id is the id, the provider id is not empty, and no
  other source matches with a longer prefix. An id under no prefix is not a discovered member.\<close>

theorem discovered_member_longest_prefix:
  "case DiscoveredMember r i of
     None \<Rightarrow> filter (under_prefix i) (reg_Discovery r) = []
   | Some (s, pid) \<Rightarrow> s \<in> set (reg_Discovery r) \<and> i = s_Prefix s @ pid \<and> pid \<noteq> [] \<and> s_Prefix s \<noteq> []
       \<and> list_all (\<lambda>s'. length (s_Prefix s') \<le> length (s_Prefix s)) (filter (under_prefix i) (reg_Discovery r))"
proof (cases "best_source i None (reg_Discovery r)")
  case None
  then have "DiscoveredMember r i = None" by (simp add: DiscoveredMember_def)
  moreover from None have "filter (under_prefix i) (reg_Discovery r) = []"
    by (simp add: best_source_None filter_empty_conv)
  ultimately show ?thesis by simp
next
  case (Some s)
  from best_source_in[OF Some] have s: "s \<in> set (reg_Discovery r)" "under_prefix i s" by auto
  then have split: "s_Prefix s @ trim_prefix i (s_Prefix s) = i"
    by (simp add: under_prefix_def trim_prefix_restores)
  with s(2) have "trim_prefix i (s_Prefix s) \<noteq> []"
    by (metis append.right_neutral less_irrefl under_prefix_def)
  with s split best_source_longest[OF Some] show ?thesis
    by (auto simp: DiscoveredMember_def Some under_prefix_def list_all_iff)
qed

lemma Entry_tags: "\<exists>ts. m_Tags (Entry s lm) = TagDiscovered # ts"
  using add_new_extends[of "[TagDiscovered] @ (if \<not> (lm_InputCostPerMillion lm = Some 0
      \<and> lm_OutputCostPerMillion lm = Some 0) then [''paid''] else [])" "filter (\<lambda>t. t \<noteq> TagDiscovered) (s_Tags s)"]
  by (auto simp: Entry_def Let_def split: if_splits)

lemma Entry_simps [simp]:
  "m_APIBase (Entry s lm) = s_APIBase s" "m_Node (Entry s lm) = []" "m_MultiNode (Entry s lm) = None"
  "m_Backend (Entry s lm) = BackendExternal" "m_Fallbacks (Entry s lm) = []"
  "m_HFRepo (Entry s lm) = lm_ID lm" "m_APIClass (Entry s lm) = APIClassChat"
  "m_Enabled (Entry s lm)" "m_Aliases (Entry s lm) = []" "m_RequestDefaults (Entry s lm) = []"
  by (simp_all add: Entry_def default_model_def Let_def)

lemma Entry_not_local [simp]: "\<not> IsLocal (Entry s lm)"
  by (simp add: IsLocal_def)

lemma Entry_not_virtual [simp]: "\<not> IsVirtual (Entry s lm)"
  by (simp add: IsVirtual_def)

lemma Entry_discovered [simp]: "IsDiscovered (Entry s lm)"
  using Entry_tags[of s lm] by (auto simp: IsDiscovered_def)

lemma HasCapability_Entry:
  "HasCapability (Entry s lm) c \<longleftrightarrow>
     c = CapText \<or> (c = CapToolCalling \<and> lm_ToolCalling lm) \<or> (c = CapVision \<and> lm_Vision lm)
     \<or> c \<in> set (s_Capabilities s)"
  by (auto simp: HasCapability_def Entry_def set_add_new Let_def)

lemma paid_Entry:
  "''paid'' \<in> set (m_Tags (Entry s lm)) \<longleftrightarrow>
     \<not> (lm_InputCostPerMillion lm = Some 0 \<and> lm_OutputCostPerMillion lm = Some 0) \<or> ''paid'' \<in> set (s_Tags s)"
  by (auto simp: Entry_def set_add_new TagDiscovered_def Let_def)

text \<open>The entry built for an adopted id is an enabled external entry at the source's base,
  carries the discovery marker, is never local and never a chain, claims tool calling or vision only
  on the provider's word or the source's floor, and is tagged paid unless the provider priced it at
  zero both ways.\<close>

theorem entry_never_overclaims:
  "\<not> IsLocal (Entry s lm) \<and> \<not> IsVirtual (Entry s lm) \<and> IsDiscovered (Entry s lm)
   \<and> m_Enabled (Entry s lm) \<and> m_Backend (Entry s lm) = BackendExternal \<and> m_APIBase (Entry s lm) = s_APIBase s
   \<and> (HasCapability (Entry s lm) CapToolCalling \<longleftrightarrow> lm_ToolCalling lm \<or> CapToolCalling \<in> set (s_Capabilities s))
   \<and> (HasCapability (Entry s lm) CapVision \<longleftrightarrow> lm_Vision lm \<or> CapVision \<in> set (s_Capabilities s))
   \<and> (''paid'' \<in> set (m_Tags (Entry s lm)) \<longleftrightarrow>
        \<not> (lm_InputCostPerMillion lm = Some 0 \<and> lm_OutputCostPerMillion lm = Some 0) \<or> ''paid'' \<in> set (s_Tags s))"
  by (simp add: HasCapability_Entry paid_Entry)

end
