(* ===== verification/Registry_Validate.thy ===== *)
theory Registry_Validate
  imports Discovery
begin

text \<open>
  \<^verbatim>\<open>internal/config/config.go\<close> and \<^verbatim>\<open>discovery.go\<close>: load-time validation (\<open>Validate\<close>
  and everything it calls) and the mode filter on roles. The error value of the source is a list of
  \<open>val_error\<close>, empty for \<open>nil\<close>; the constructors stand for the messages.
\<close>

datatype member_kind = CandidateMember | OverflowMember

datatype zdr_err = NotEnforceable | ChainMemberUnresolved string | ChainMemberUnenforceable string

datatype member_err =
    UnknownMember | NeverAdopted | MemberNotLocal | MemberNotZdr zdr_err
  | MemberLacks ModelCapability | MemberClass

datatype role_err =
    RoleModelClash | RoleAliasClash string | OverflowUnused | OverflowMissing | BadOnEmpty | BadLocality
  | BadRoleClass | NoCandidates | MemberErr member_kind string member_err | BadBalance
  | GroupNotCandidate string | GroupDuplicate string

datatype model_err =
    BadModelClass | ReservedDefault string
  | FallbackSelf | FallbackUnknown string | FallbackNested string | FallbackClass string
  | EnvelopeTooWide | ExternalNoBase | NoPlacement | TwoPlacements
  | ModelNodeUnknown string | MultiNodeUnknown string | HeadNodeUnknown string

datatype source_err =
    SourceNoBase | SourceBadBase | SourceNoPrefix | SourceDupPrefix | SourceNoPolicy
  | SourceBadPattern string | SourceBadCapability ModelCapability

datatype val_error = ModelErr string model_err | RoleErr string role_err | SourceErr nat source_err

section \<open>Roles\<close>

definition zdrToleranceErr :: "ModelDefinition \<Rightarrow> ModelRegistry \<Rightarrow> zdr_err option" where
  "zdrToleranceErr m r =
     (if IsLocal m \<or> ZDREnforceable m then None
      else if \<not> IsVirtual m then Some NotEnforceable
      else find_map (\<lambda>fid. case lookup (reg_Models r) fid of
                             None \<Rightarrow> Some (ChainMemberUnresolved fid)
                           | Some fm \<Rightarrow> if \<not> IsLocal fm \<and> \<not> ZDREnforceable fm
                                         then Some (ChainMemberUnenforceable fid) else None)
             (m_Fallbacks m))"

text \<open>The listing \<open>roleMemberErrs\<close> imagines for a discovered member: the id alone.\<close>

definition bare_listed :: "string \<Rightarrow> ListedModel" where
  "bare_listed pid = \<lparr>lm_ID = pid, lm_ContextLength = 0, lm_MaxOutputTokens = 0,
     lm_InputCostPerMillion = None, lm_OutputCostPerMillion = None, lm_ToolCalling = False, lm_Vision = False\<rparr>"

definition member_contract_errs ::
    "RoleDefinition \<Rightarrow> ModelRegistry \<Rightarrow> bool \<Rightarrow> ModelDefinition \<Rightarrow> bool \<Rightarrow> member_err list" where
  "member_contract_errs rd r enforceLocality m discovered =
     (if enforceLocality then
        (case rq_Locality (r_Require rd) of
           LocalityLocal \<Rightarrow> if \<not> IsLocal m then [MemberNotLocal] else []
         | LocalityLocalOrZDR \<Rightarrow>
             (case zdrToleranceErr m r of None \<Rightarrow> [] | Some why \<Rightarrow> [MemberNotZdr why])
         | _ \<Rightarrow> [])
      else [])
     @ map MemberLacks
           (filter (\<lambda>want. \<not> discovered \<and> \<not> HasCapability m want) (rq_Capabilities (r_Require rd)))
     @ (if rq_APIClass (r_Require rd) \<noteq> APIClassUnset \<and> m_APIClass m \<noteq> rq_APIClass (r_Require rd)
        then [MemberClass] else [])"

definition roleMemberErrs ::
    "string \<Rightarrow> RoleDefinition \<Rightarrow> ModelRegistry \<Rightarrow> bool \<Rightarrow> member_err list" where
  "roleMemberErrs mid rd r enforceLocality =
     (case lookup (reg_Models r) mid of
        Some m \<Rightarrow> member_contract_errs rd r enforceLocality m False
      | None \<Rightarrow>
          (case DiscoveredMember r mid of
             None \<Rightarrow> [UnknownMember]
           | Some (src, pid) \<Rightarrow>
               if \<not> Adopts src pid then [NeverAdopted]
               else member_contract_errs rd r enforceLocality (Entry src (bare_listed pid)) True))"

text \<open>The double loop over the balance groups, carrying the ids seen so far.\<close>

fun groupErrs :: "string list \<Rightarrow> string list \<Rightarrow> string list \<Rightarrow> role_err list" where
  "groupErrs cand seen [] = []"
| "groupErrs cand seen (mid # ids) =
     (if mid \<notin> set cand then [GroupNotCandidate mid] else [])
     @ (if mid \<in> set seen then [GroupDuplicate mid] else [])
     @ groupErrs cand (mid # seen) ids"

definition validateRole :: "string \<Rightarrow> RoleDefinition \<Rightarrow> ModelRegistry \<Rightarrow> role_err list" where
  "validateRole name role r =
     (if lookup (reg_Models r) name \<noteq> None then [RoleModelClash] else [])
     @ concat (map (\<lambda>(mid, m). map (\<lambda>a. RoleAliasClash mid) (filter (\<lambda>a. a = name) (m_Aliases m)))
                   (reg_Models r))
     @ (case r_OnEmpty role of
          OnEmptyError \<Rightarrow> if length (r_Overflow role) > 0 then [OverflowUnused] else []
        | OnEmptyOverflow \<Rightarrow> if length (r_Overflow role) = 0 then [OverflowMissing] else []
        | OnEmptyOther _ \<Rightarrow> [BadOnEmpty])
     @ (case rq_Locality (r_Require role) of
          LocalityAny \<Rightarrow> [] | LocalityLocal \<Rightarrow> [] | LocalityLocalOrZDR \<Rightarrow> [] | _ \<Rightarrow> [BadLocality])
     @ (if rq_APIClass (r_Require role) \<noteq> APIClassUnset \<and> rq_APIClass (r_Require role) \<notin> set validAPIClasses
        then [BadRoleClass] else [])
     @ (if length (r_Candidates role) = 0 then [NoCandidates] else [])
     @ concat (map (\<lambda>mid. map (MemberErr CandidateMember mid) (roleMemberErrs mid role r True)) (r_Candidates role))
     @ concat (map (\<lambda>mid. map (MemberErr OverflowMember mid)
                             (roleMemberErrs mid role r (bindsOverflow (rq_Locality (r_Require role))))) (r_Overflow role))
     @ (case r_Balance role of
          BalanceUnset \<Rightarrow> [] | BalanceOrder \<Rightarrow> [] | BalancePressure \<Rightarrow> [] | BalanceOther _ \<Rightarrow> [BadBalance])
     @ groupErrs (r_Candidates role) [] (concat (r_BalanceGroups role))"

section \<open>Models\<close>

definition fallbackErrs :: "string \<Rightarrow> ModelDefinition \<Rightarrow> ModelRegistry \<Rightarrow> string \<Rightarrow> model_err list" where
  "fallbackErrs mid m r fid =
     (if fid = mid then [FallbackSelf]
      else case lookup (reg_Models r) fid of
             None \<Rightarrow> [FallbackUnknown fid]
           | Some fm \<Rightarrow>
               (if length (m_Fallbacks fm) > 0 then [FallbackNested fid] else [])
               @ (if m_APIClass fm \<noteq> m_APIClass m then [FallbackClass fid] else []))"

definition validateFallbacks :: "string \<Rightarrow> ModelDefinition \<Rightarrow> ModelRegistry \<Rightarrow> model_err list" where
  "validateFallbacks mid m r = concat (map (fallbackErrs mid m r) (m_Fallbacks m))"

text \<open>The placement half of \<open>validateModel\<close>, from the test for a virtual entry on.\<close>

definition validatePlacement :: "string \<Rightarrow> ModelDefinition \<Rightarrow> ModelRegistry \<Rightarrow> model_err list" where
  "validatePlacement mid m r =
     (if IsVirtual m then []
      else if m_Backend m = BackendExternal then
        (if m_APIBase m = [] then [ExternalNoBase] else [])
      else if m_Node m = [] \<and> m_MultiNode m = None then [NoPlacement]
      else if m_Node m \<noteq> [] \<and> m_MultiNode m \<noteq> None then [TwoPlacements]
      else if m_Node m \<noteq> [] \<and> lookup (reg_Nodes r) (m_Node m) = None then [ModelNodeUnknown (m_Node m)]
      else case m_MultiNode m of
             None \<Rightarrow> []
           | Some mn \<Rightarrow>
               (case find (\<lambda>n. lookup (reg_Nodes r) n = None) (mn_Nodes mn) of
                  Some n \<Rightarrow> [MultiNodeUnknown n]
                | None \<Rightarrow>
                    if mn_HeadNode mn \<noteq> [] \<and> lookup (reg_Nodes r) (mn_HeadNode mn) = None
                    then [HeadNodeUnknown (mn_HeadNode mn)] else []))"

definition validateModel :: "string \<Rightarrow> ModelDefinition \<Rightarrow> ModelRegistry \<Rightarrow> model_err list" where
  "validateModel mid m r =
     (if m_APIClass m \<notin> set validAPIClasses then [BadModelClass]
      else case validateRequestDefaults (m_RequestDefaults m) of
        Some k \<Rightarrow> [ReservedDefault k]
      | None \<Rightarrow>
          (case find_map (\<lambda>(alias, ov). validateRequestDefaults (ao_RequestDefaults ov)) (m_AliasOverrides m) of
             Some k \<Rightarrow> [ReservedDefault k]
           | None \<Rightarrow>
               if validateFallbacks mid m r \<noteq> [] then validateFallbacks mid m r
               else if m_EffectiveContext m > 0 \<and> m_ContextLength m > 0 \<and> m_EffectiveContext m > m_ContextLength m
               then [EnvelopeTooWide]
               else validatePlacement mid m r))"

section \<open>Discovery sources\<close>

definition absolute_url :: "string \<Rightarrow> bool" where
  "absolute_url u = (case url_parse u of None \<Rightarrow> False | Some (scheme, host) \<Rightarrow> scheme \<noteq> [] \<and> host \<noteq> [])"

definition knownCapabilities :: "ModelCapability list" where
  "knownCapabilities = [CapText, CapVision, CapAudio, CapImageGen, CapToolCalling]"

fun validateSources :: "string list \<Rightarrow> nat \<Rightarrow> DiscoverySource list \<Rightarrow> (nat \<times> source_err) list" where
  "validateSources seenPrefix i [] = []"
| "validateSources seenPrefix i (s # ss) =
     (if s_APIBase s = [] then [(i, SourceNoBase)]
      else if \<not> absolute_url (s_APIBase s) then [(i, SourceBadBase)] else [])
     @ (if s_Prefix s = [] then [(i, SourceNoPrefix)]
        else if s_Prefix s \<in> set seenPrefix then [(i, SourceDupPrefix)] else [])
     @ (if \<not> ap_All (s_Adopt s) \<and> length (ap_Patterns (s_Adopt s)) = 0 then [(i, SourceNoPolicy)] else [])
     @ map (\<lambda>p. (i, SourceBadPattern p)) (filter (\<lambda>pat. compileGlob pat = None) (ap_Patterns (s_Adopt s)))
     @ map (\<lambda>p. (i, SourceBadPattern p)) (filter (\<lambda>pat. compileGlob pat = None) (s_Exclude s))
     @ map (\<lambda>c. (i, SourceBadCapability c)) (filter (\<lambda>c. c \<notin> set knownCapabilities) (s_Capabilities s))
     @ validateSources (if s_Prefix s = [] then seenPrefix else s_Prefix s # seenPrefix) (Suc i) ss"

definition validateDiscovery :: "ModelRegistry \<Rightarrow> (nat \<times> source_err) list" where
  "validateDiscovery r = validateSources [] 0 (reg_Discovery r)"

text \<open>\<open>Validate\<close>: every model, every role in name order, the discovery block.\<close>

definition Validate :: "ModelRegistry \<Rightarrow> val_error list" where
  "Validate r =
     concat (map (\<lambda>(mid, m). map (ModelErr mid) (validateModel mid m r)) (reg_Models r))
     @ concat (map (\<lambda>name. case lookup (reg_Roles r) name of
                              None \<Rightarrow> [] | Some role \<Rightarrow> map (RoleErr name) (validateRole name role r))
                   (sort (map fst (reg_Roles r))))
     @ map (\<lambda>(i, e). SourceErr i e) (validateDiscovery r)"

section \<open>Roles of a mode\<close>

definition keep_member :: "ModelRegistry \<Rightarrow> string \<Rightarrow> string \<Rightarrow> bool" where
  "keep_member r mode mid \<longleftrightarrow>
     (lookup (ModelsForMode r mode) mid \<noteq> None \<or>
      (lookup (reg_Models r) mid = None \<and> DiscoveredMember r mid \<noteq> None))"

definition filter_role :: "ModelRegistry \<Rightarrow> string \<Rightarrow> RoleDefinition \<Rightarrow> RoleDefinition" where
  "filter_role r mode role =
     (let role1 = role\<lparr>r_Candidates := filter (keep_member r mode) (r_Candidates role),
                       r_Overflow := filter (keep_member r mode) (r_Overflow role)\<rparr>
      in if length (r_BalanceGroups role1) > 0
         then role1\<lparr>r_BalanceGroups :=
                filter (\<lambda>g. length g > 0)
                  (map (filter (\<lambda>mid. mid \<in> set (r_Candidates role1))) (r_BalanceGroups role1))\<rparr>
         else role1)"

definition RolesForMode :: "ModelRegistry \<Rightarrow> string \<Rightarrow> RoleDefinition gomap" where
  "RolesForMode r mode =
     filter (\<lambda>(name, role). \<not> (length (r_Candidates role) = 0 \<and> length (r_Overflow role) = 0))
       (map (\<lambda>(name, role). (name, filter_role r mode role)) (reg_Roles r))"

section \<open>What a validated registry guarantees\<close>

lemma concat_map_Nil: "concat (map f xs) = [] \<longleftrightarrow> (\<forall>x \<in> set xs. f x = [])"
  by auto

lemma Validate_model: "Validate r = [] \<Longrightarrow> lookup (reg_Models r) mid = Some m \<Longrightarrow> validateModel mid m r = []"
  by (auto simp: Validate_def dest!: map_of_SomeD)

lemma Validate_role: "Validate r = [] \<Longrightarrow> lookup (reg_Roles r) name = Some role \<Longrightarrow> validateRole name role r = []"
proof -
  assume v: "Validate r = []" and l: "lookup (reg_Roles r) name = Some role"
  from l have "name \<in> set (sort (map fst (reg_Roles r)))"
    by (auto dest!: map_of_SomeD intro: rev_image_eqI)
  with v l show ?thesis by (fastforce simp: Validate_def)
qed

lemma validateModel_fallbacks: "validateModel mid m r = [] \<Longrightarrow> validateFallbacks mid m r = []"
  by (auto simp: validateModel_def split: if_splits option.splits)

lemma validateModel_placement: "validateModel mid m r = [] \<Longrightarrow> validatePlacement mid m r = []"
  by (auto simp: validateModel_def split: if_splits option.splits)

lemma fallbackErrs_Nil:
  "fallbackErrs mid m r fid = [] \<longleftrightarrow>
     fid \<noteq> mid \<and> (\<exists>fm. lookup (reg_Models r) fid = Some fm \<and> m_Fallbacks fm = [] \<and> m_APIClass fm = m_APIClass m)"
  by (auto simp: fallbackErrs_def split: option.splits)

lemma validateRole_member:
  assumes "validateRole name role r = []" "mid \<in> set (r_Candidates role)"
  shows "roleMemberErrs mid role r True = []"
  using assms by (auto simp: validateRole_def)

lemma validateRole_overflow:
  assumes "validateRole name role r = []" "mid \<in> set (r_Overflow role)"
  shows "roleMemberErrs mid role r (bindsOverflow (rq_Locality (r_Require role))) = []"
  using assms by (auto simp: validateRole_def)

text \<open>The entry a role member stands for at load time: the written one, or what its discovery
  source would build for it.\<close>

definition member_entry :: "ModelRegistry \<Rightarrow> string \<Rightarrow> ModelDefinition option" where
  "member_entry r mid =
     (case lookup (reg_Models r) mid of
        Some m \<Rightarrow> Some m
      | None \<Rightarrow> (case DiscoveredMember r mid of
                   None \<Rightarrow> None
                 | Some (src, pid) \<Rightarrow> if Adopts src pid then Some (Entry src (bare_listed pid)) else None))"

text \<open>The tolerance a placement meets, as a predicate.\<close>

definition zdr_ok :: "ModelRegistry \<Rightarrow> ModelDefinition \<Rightarrow> bool" where
  "zdr_ok r m \<longleftrightarrow> IsLocal m \<or> ZDREnforceable m \<or>
     (IsVirtual m \<and> list_all (\<lambda>fid. case lookup (reg_Models r) fid of
                                     None \<Rightarrow> False | Some fm \<Rightarrow> IsLocal fm \<or> ZDREnforceable fm) (m_Fallbacks m))"

lemma zdrToleranceErr_None: "zdrToleranceErr m r = None \<longleftrightarrow> zdr_ok r m"
  by (auto simp: zdrToleranceErr_def zdr_ok_def find_map_None list_all_iff split: option.splits if_splits)

definition satisfies_locality :: "ModelRegistry \<Rightarrow> Locality \<Rightarrow> ModelDefinition \<Rightarrow> bool" where
  "satisfies_locality r l m =
     (case l of LocalityLocal \<Rightarrow> IsLocal m | LocalityLocalOrZDR \<Rightarrow> zdr_ok r m | _ \<Rightarrow> True)"

definition satisfies_class :: "RoleRequire \<Rightarrow> ModelDefinition \<Rightarrow> bool" where
  "satisfies_class rq m \<longleftrightarrow> rq_APIClass rq = APIClassUnset \<or> m_APIClass m = rq_APIClass rq"

definition satisfies_capabilities :: "RoleRequire \<Rightarrow> ModelDefinition \<Rightarrow> bool" where
  "satisfies_capabilities rq m \<longleftrightarrow> list_all (HasCapability m) (rq_Capabilities rq)"

lemma member_contract_Nil:
  "member_contract_errs rd r enf m disc = [] \<longleftrightarrow>
     (enf \<longrightarrow> satisfies_locality r (rq_Locality (r_Require rd)) m) \<and>
     (disc \<or> satisfies_capabilities (r_Require rd) m) \<and> satisfies_class (r_Require rd) m"
  by (auto simp: member_contract_errs_def satisfies_locality_def satisfies_class_def
      satisfies_capabilities_def zdrToleranceErr_None[symmetric] list_all_iff filter_empty_conv
      split: Locality.splits option.splits)

lemma roleMemberErrs_Nil:
  assumes "roleMemberErrs mid rd r enf = []"
  obtains m where "member_entry r mid = Some m"
    "enf \<longrightarrow> satisfies_locality r (rq_Locality (r_Require rd)) m"
    "satisfies_class (r_Require rd) m"
    "lookup (reg_Models r) mid \<noteq> None \<longrightarrow> satisfies_capabilities (r_Require rd) m"
  using assms
  by (auto simp: roleMemberErrs_def member_entry_def member_contract_Nil split: option.splits if_splits)

text \<open>In a registry that passes validation every candidate of every role is a known model or an
  id its discovery source would adopt, lives where the role requires (on fleet hardware for local;
  on fleet hardware, on a zero-retention endpoint, or behind a chain all of whose members are one of
  the two, for local_or_zdr) and serves the required endpoint class.\<close>

theorem validated_candidate_contract:
  assumes "Validate r = []" and "lookup (reg_Roles r) name = Some role"
    and "mid \<in> set (r_Candidates role)"
  shows "\<exists>m. member_entry r mid = Some m
           \<and> satisfies_locality r (rq_Locality (r_Require role)) m
           \<and> satisfies_class (r_Require role) m"
  using roleMemberErrs_Nil[OF validateRole_member[OF Validate_role[OF assms(1,2)] assms(3)]] by metis

text \<open>A small registry used by the witnesses: one node, one local model, one OpenRouter model.\<close>

definition node_a :: NodeDefinition where
  "node_a = \<lparr>n_Host = ''a.local'', n_GPU = GpuNvidia, n_VRAMGB = 24, n_AgentPort = 8100, n_Services = [], n_UnifiedMemory = False, n_Schedule = None\<rparr>"

definition model_local :: ModelDefinition where
  "model_local = default_model\<lparr>m_HFRepo := ''Qwen/Q'', m_Node := ''a''\<rparr>"

definition model_or :: ModelDefinition where
  "model_or = default_model\<lparr>m_HFRepo := ''z-ai/glm'', m_Backend := BackendExternal,
                            m_APIBase := ''https://openrouter.ai/api/v1''\<rparr>"

definition model_zen :: ModelDefinition where
  "model_zen = default_model\<lparr>m_HFRepo := ''glm'', m_Backend := BackendExternal,
                             m_APIBase := ''https://opencode.ai/zen/v1''\<rparr>"

definition model_chain :: ModelDefinition where
  "model_chain = default_model\<lparr>m_Fallbacks := [''or/glm'', ''zen/glm'']\<rparr>"

definition role_coder :: RoleDefinition where
  "role_coder = default_role\<lparr>r_Require := \<lparr>rq_Locality = LocalityLocalOrZDR, rq_Capabilities = [CapText],
                                          rq_APIClass = APIClassChat\<rparr>,
                             r_Candidates := [''or/glm'', ''q'']\<rparr>"

definition reg_small :: ModelRegistry where
  "reg_small =
     \<lparr>reg_Nodes = [(''a'', node_a)],
      reg_Models = [(''q'', model_local), (''or/glm'', model_or), (''zen/glm'', model_zen), (''glm'', model_chain)],
      reg_Roles = [(''coder'', role_coder)],
      reg_Pressure = \<lparr>pc_WindowS = 0, pc_GPUBuckets = []\<rparr>, reg_Discovery = [], reg_ToolProxyAddr = []\<rparr>"

lemma reg_small_valid: "Validate reg_small = []"
  by code_simp

lemma reg_small_wf: "wf_registry reg_small"
  by (simp add: reg_small_def wf_registry_def)

theorem validated_candidate_contract_witness:
  "\<exists>m. member_entry reg_small ''or/glm'' = Some m
     \<and> satisfies_locality reg_small LocalityLocalOrZDR m \<and> satisfies_class (r_Require role_coder) m"
  using validated_candidate_contract[OF reg_small_valid, of "''coder''" role_coder "''or/glm''"]
  by (simp add: reg_small_def role_coder_def)

text \<open>Under locality local_or_zdr the overflow list is bound too: every overflow entry of such a
  role in a validated registry is local, zero-retention enforceable, or a chain of such members.\<close>

theorem validated_overflow_keeps_retention:
  assumes "Validate r = []" and "lookup (reg_Roles r) name = Some role"
    and "rq_Locality (r_Require role) = LocalityLocalOrZDR" and "mid \<in> set (r_Overflow role)"
  shows "\<exists>m. member_entry r mid = Some m \<and> zdr_ok r m"
proof -
  have "bindsOverflow (rq_Locality (r_Require role))"
    using assms(3) by (simp add: bindsOverflow_def)
  with roleMemberErrs_Nil[OF validateRole_overflow[OF Validate_role[OF assms(1,2)] assms(4)]] assms(3)
  show ?thesis by (metis Locality.simps(24) satisfies_locality_def)
qed

definition role_overflow :: RoleDefinition where
  "role_overflow = role_coder\<lparr>r_Candidates := [''q''], r_OnEmpty := OnEmptyOverflow, r_Overflow := [''or/glm'']\<rparr>"

theorem validated_overflow_keeps_retention_witness:
  "\<exists>m. member_entry (reg_small\<lparr>reg_Roles := [(''thinker'', role_overflow)]\<rparr>) ''or/glm'' = Some m
     \<and> zdr_ok (reg_small\<lparr>reg_Roles := [(''thinker'', role_overflow)]\<rparr>) m"
proof -
  let ?r = "reg_small\<lparr>reg_Roles := [(''thinker'', role_overflow)]\<rparr>"
  have "Validate ?r = []" by code_simp
  moreover have "lookup (reg_Roles ?r) ''thinker'' = Some role_overflow" by simp
  moreover have "rq_Locality (r_Require role_overflow) = LocalityLocalOrZDR"
    by (simp add: role_overflow_def role_coder_def)
  moreover have "''or/glm'' \<in> set (r_Overflow role_overflow)" by (simp add: role_overflow_def)
  ultimately show ?thesis by (rule validated_overflow_keeps_retention)
qed

text \<open>C33: In a validated registry chains are flat: every fallback of a model is another known model,
  has no fallbacks of its own and serves the same endpoint class. One level of expansion therefore
  reaches concrete providers, and no chain can loop.\<close>

theorem validated_chains_flat:
  assumes "Validate r = []" and "lookup (reg_Models r) mid = Some m" and "fid \<in> set (m_Fallbacks m)"
  shows "fid \<noteq> mid \<and> (\<exists>fm. lookup (reg_Models r) fid = Some fm \<and> m_Fallbacks fm = []
                            \<and> m_APIClass fm = m_APIClass m)"
proof -
  from assms(1,2) have "validateFallbacks mid m r = []"
    by (intro validateModel_fallbacks Validate_model)
  with assms(3) have "fallbackErrs mid m r fid = []"
    by (simp add: validateFallbacks_def)
  then show ?thesis by (simp add: fallbackErrs_Nil)
qed

theorem validated_chains_flat_witness:
  "''or/glm'' \<noteq> ''glm'' \<and> (\<exists>fm. lookup (reg_Models reg_small) ''or/glm'' = Some fm \<and> m_Fallbacks fm = []
       \<and> m_APIClass fm = m_APIClass model_chain)"
  by (rule validated_chains_flat[OF reg_small_valid])
     (simp_all add: reg_small_def model_chain_def)

text \<open>Every model of a validated registry that is not a virtual chain has an upstream base,
  whatever tool-proxy override applies, provided a multi-node block names at least one node.\<close>

theorem validated_model_has_base:
  assumes "Validate r = []" and "lookup (reg_Models r) mid = Some m" and "\<not> IsVirtual m"
    and "\<forall>mn. m_MultiNode m = Some mn \<longrightarrow> mn_Nodes mn \<noteq> []"
  shows "\<exists>base. APIBase r mid ov = Inr base"
proof -
  from assms(1,2) have p: "validatePlacement mid m r = []"
    by (intro validateModel_placement Validate_model)
  show ?thesis
  proof (cases "m_APIBase m = []")
    case False
    with assms(2) show ?thesis by (simp add: APIBase_def)
  next
    case True
    with p assms(3) have not_ext: "m_Backend m \<noteq> BackendExternal"
      by (auto simp: validatePlacement_def)
    show ?thesis
    proof (cases "m_MultiNode m")
      case None
      with p assms(2,3) not_ext True show ?thesis
        by (auto simp: validatePlacement_def APIBase_def GetNode_def Let_def split: if_splits)
    next
      case (Some mn)
      with assms(4) have ne: "mn_Nodes mn \<noteq> []" by simp
      have "\<exists>n. lookup (reg_Nodes r) (head_node mn) = Some n"
      proof (cases "mn_HeadNode mn = []")
        case True
        with ne have "head_node mn \<in> set (mn_Nodes mn)" by (simp add: head_node_def)
        moreover from p assms(3) not_ext Some have "find (\<lambda>n. lookup (reg_Nodes r) n = None) (mn_Nodes mn) = None"
          by (auto simp: validatePlacement_def split: if_splits option.splits)
        ultimately show ?thesis by (auto simp: find_None_iff)
      next
        case False
        with p assms(3) not_ext Some show ?thesis
          by (auto simp: validatePlacement_def head_node_def split: if_splits option.splits)
      qed
      with assms(2) True Some show ?thesis by (auto simp: APIBase_def Let_def)
    qed
  qed
qed

theorem validated_model_has_base_witness:
  "\<exists>base. APIBase reg_small ''q'' None = Inr base"
  by (rule validated_model_has_base[OF reg_small_valid, of _ model_local])
     (simp_all add: reg_small_def model_local_def default_model_def IsVirtual_def)

text \<open>The proviso is needed: validation accepts a multi-node block with no nodes, and then no
  base can be derived for the model; and it does not look at the node of an external model, so a
  model pinned to a node the registry does not have passes.\<close>

theorem validation_gaps:
  "let empty_mn = default_model\<lparr>m_MultiNode := Some \<lparr>mn_Nodes = [], mn_TensorParallelSize = 0, mn_HeadNode = []\<rparr>\<rparr>;
       lost = model_or\<lparr>m_Node := ''gone''\<rparr>;
       r = reg_small\<lparr>reg_Models := [(''mn'', empty_mn), (''x'', lost)], reg_Roles := []\<rparr>
   in Validate r = [] \<and> APIBase r ''mn'' None = Inl (UnknownHeadNode ''mn'' [])
      \<and> IsLocal lost \<and> lookup (reg_Nodes r) (m_Node lost) = None"
  by code_simp

section \<open>Roles of a mode\<close>

lemma filter_role_simps [simp]:
  "r_Candidates (filter_role r mode role) = filter (keep_member r mode) (r_Candidates role)"
  "r_Overflow (filter_role r mode role) = filter (keep_member r mode) (r_Overflow role)"
  "r_Require (filter_role r mode role) = r_Require role"
  "r_OnEmpty (filter_role r mode role) = r_OnEmpty role"
  "r_Balance (filter_role r mode role) = r_Balance role"
  by (simp_all add: filter_role_def Let_def)

lemma lookup_map_snd: "lookup (map (\<lambda>(k, v). (k, f v)) xs) k = map_option f (lookup xs k)"
  by (induction xs) auto

lemma lookup_RolesForMode:
  assumes "wf_registry r"
  shows "lookup (RolesForMode r mode) name =
     (case lookup (reg_Roles r) name of
        None \<Rightarrow> None
      | Some role \<Rightarrow>
          let role' = filter_role r mode role
          in if r_Candidates role' = [] \<and> r_Overflow role' = [] then None else Some role')"
proof -
  have "wf_map (map (\<lambda>(name, role). (name, filter_role r mode role)) (reg_Roles r))"
    using assms by (simp add: wf_registry_def comp_def case_prod_unfold)
  then show ?thesis
    by (simp add: RolesForMode_def lookup_filter lookup_map_snd Let_def split: option.splits)
qed

text \<open>A role of a mode keeps the declared preference order, restricted to models routable in the
  mode and to discovered members; it keeps the contract of the declared role, its balance groups
  only name remaining candidates, and a role with nothing left is dropped.\<close>

theorem role_of_mode_restricts:
  assumes "wf_registry r" and "lookup (RolesForMode r mode) name = Some role'"
  shows "\<exists>role. lookup (reg_Roles r) name = Some role
     \<and> r_Candidates role' = filter (keep_member r mode) (r_Candidates role)
     \<and> r_Overflow role' = filter (keep_member r mode) (r_Overflow role)
     \<and> r_Require role' = r_Require role \<and> r_OnEmpty role' = r_OnEmpty role
     \<and> set (concat (r_BalanceGroups role')) \<subseteq> set (r_Candidates role')
     \<and> (r_Candidates role' \<noteq> [] \<or> r_Overflow role' \<noteq> [])"
proof -
  from assms obtain role where role: "lookup (reg_Roles r) name = Some role"
    and role': "role' = filter_role r mode role"
    and ne: "r_Candidates role' \<noteq> [] \<or> r_Overflow role' \<noteq> []"
    by (auto simp: lookup_RolesForMode Let_def split: option.splits if_splits)
  have "set (concat (r_BalanceGroups role')) \<subseteq> set (r_Candidates role')"
    by (auto simp: role' filter_role_def Let_def)
  with role role' ne show ?thesis by auto
qed

theorem role_of_mode_restricts_witness:
  "\<exists>role. lookup (reg_Roles (reg_small\<lparr>reg_Models := [(''q'', model_local)]\<rparr>)) ''coder'' = Some role
     \<and> r_Candidates (role_coder\<lparr>r_Candidates := [''q'']\<rparr>)
         = filter (keep_member (reg_small\<lparr>reg_Models := [(''q'', model_local)]\<rparr>) ''big'') (r_Candidates role)"
proof -
  let ?r = "reg_small\<lparr>reg_Models := [(''q'', model_local)]\<rparr>"
  have "lookup (RolesForMode ?r ''big'') ''coder'' = Some (role_coder\<lparr>r_Candidates := [''q'']\<rparr>)"
    by code_simp
  moreover have "wf_registry ?r" by (simp add: reg_small_def wf_registry_def)
  ultimately show ?thesis using role_of_mode_restricts[of ?r "''big''" "''coder''"] by blast
qed

end
