(* ===== verification/Schedule.thy ===== *)
theory Schedule
  imports Registry
begin

text \<open>
  \<^verbatim>\<open>internal/health/schedule.go\<close>: the expected-uptime windows of a node. A window is
  parsed from text such as \<^verbatim>\<open>Mon-Fri 07:00-19:00\<close>; the instant asked about is given by
  its weekday (0 is Sunday), hour and minute in its own location, which is all the code reads of it.
\<close>

record wall_time =
  t_Weekday :: nat
  t_Hour :: nat
  t_Minute :: nat

record window =
  w_days :: "nat list"
  w_from :: int
  w_to :: int

section \<open>Parsing\<close>

definition weekdayNames :: "nat gomap" where
  "weekdayNames = [(''sun'', 0), (''mon'', 1), (''tue'', 2), (''wed'', 3), (''thu'', 4), (''fri'', 5), (''sat'', 6)]"

definition parseDay :: "string \<Rightarrow> nat option" where
  "parseDay s = lookup weekdayNames (take 3 (to_lower (trim_space s)))"

lemma diff_mod7: "(a + 6 * b) mod 7 = 0 \<longleftrightarrow> a mod 7 = (b :: nat) mod 7"
proof -
  have "(a + 6 * b) mod 7 = 0 \<longleftrightarrow> (7::int) dvd int a + 6 * int b"
    by (metis dvd_eq_mod_eq_0 int_dvd_int_iff int_ops(7) of_nat_add of_nat_numeral)
  also have "int a + 6 * int b = (int a - int b) + 7 * int b" by (simp add: algebra_simps)
  also have "7 dvd (int a - int b) + 7 * int b \<longleftrightarrow> 7 dvd int a - int b"
    by (rule dvd_add_left_iff) simp
  also have "\<dots> \<longleftrightarrow> int a mod 7 = int b mod 7" by (rule mod_eq_dvd_iff[symmetric])
  also have "\<dots> \<longleftrightarrow> a mod 7 = b mod 7"    using of_nat_mod[of a 7, where 'a = int] of_nat_mod[of b 7, where 'a = int]
    by (simp only: of_nat_numeral flip: of_nat_eq_iff[where 'a = int])
  finally show ?thesis .
qed

lemma pred_mod7: "(n + 6) mod 7 = (if n mod 7 = 0 then 6 else n mod 7 - 1)" for n :: nat
proof -
  have "(n + 6) mod 7 = (n mod 7 + 6) mod 7" by (simp add: mod_simps)
  moreover have "(r + 6) mod 7 = (if r = 0 then 6 else r - 1)" if "r < 7" for r :: nat
  proof (cases r)
    case (Suc k)
    with that have "k < 7" "r + 6 = k + 7" by simp_all
    then show ?thesis by (simp add: Suc)
  qed simp
  ultimately show ?thesis by simp
qed

lemma step_mod7: "(a + 6 * (b + 1)) mod 7 = (if a mod 7 = b mod 7 then 6 else (a + 6 * b) mod 7 - 1)" for a b :: nat
proof -
  have "a + 6 * (b + 1) = a + 6 * b + 6" by simp
  then show ?thesis by (simp only: pred_mod7 diff_mod7)
qed

text \<open>The walk \<^verbatim>\<open>for d := start; ; d = (d+1) % 7\<close>, which stops at the end day.\<close>

function day_walk :: "nat \<Rightarrow> nat \<Rightarrow> nat list" where
  "day_walk d stop = d mod 7 # (if d mod 7 = stop mod 7 then [] else day_walk (d + 1) stop)"
  by pat_completeness auto
termination
proof (relation "measure (\<lambda>(d, stop). (stop + 6 * d) mod 7)")
  fix d stop :: nat
  assume "d mod 7 \<noteq> stop mod 7"
  then have "(stop + 6 * (d + 1)) mod 7 < (stop + 6 * d) mod 7"
    using diff_mod7[of stop d] by (simp only: step_mod7) auto
  then show "((d + 1, stop), d, stop) \<in> measure (\<lambda>(d, stop). (stop + 6 * d) mod 7)" by simp
qed simp

declare day_walk.simps [simp del]

definition parseDayPart :: "string \<Rightarrow> nat list option" where
  "parseDayPart part0 =
     (let part = trim_space part0 in
      case cut (CHR ''-'') part of
        Some (lo, hi) \<Rightarrow>
          (case parseDay lo of
             None \<Rightarrow> None
           | Some start \<Rightarrow> (case parseDay hi of None \<Rightarrow> None | Some stop \<Rightarrow> Some (day_walk start stop)))
      | None \<Rightarrow> map_option (\<lambda>d. [d]) (parseDay part))"

fun parseDayParts :: "string list \<Rightarrow> nat list option" where
  "parseDayParts [] = Some []"
| "parseDayParts (p # ps) =
     (case parseDayPart p of
        None \<Rightarrow> None
      | Some ds \<Rightarrow> map_option ((@) ds) (parseDayParts ps))"

definition parseDays :: "string \<Rightarrow> nat list option" where
  "parseDays spec = parseDayParts (split_on (CHR '','') spec)"

text \<open>\<open>strconv.Atoi\<close>; the parsers below bound the value anyway, so they read it before the check of 64 bits.\<close>

fun digits_value :: "nat \<Rightarrow> string \<Rightarrow> nat" where
  "digits_value acc [] = acc"
| "digits_value acc (c # cs) = digits_value (10 * acc + (of_char c - 48)) cs"

definition atoi :: "string \<Rightarrow> int option" where
  "atoi s =
     (let (neg, ds) = (case s of [] \<Rightarrow> (False, [])
                       | c # cs \<Rightarrow> if c = CHR ''-'' then (True, cs)
                                   else if c = CHR ''+'' then (False, cs) else (False, c # cs))
      in if ds = [] \<or> \<not> list_all is_digit ds then None
         else Some (if neg then - int (digits_value 0 ds) else int (digits_value 0 ds)))"

definition Atoi :: "string \<Rightarrow> int option" where
  "Atoi s = (case atoi s of Some n \<Rightarrow> if - (2 ^ 63) \<le> n \<and> n < 2 ^ 63 then Some n else None | None \<Rightarrow> None)"

definition parseClock :: "string \<Rightarrow> int option" where
  "parseClock s =
     (case cut (CHR '':'') (trim_space s) of
        None \<Rightarrow> None
      | Some (h, m) \<Rightarrow>
          (case atoi h of
             None \<Rightarrow> None
           | Some hh \<Rightarrow>
               if hh < 0 \<or> hh > 24 then None
               else (case atoi m of
                       None \<Rightarrow> None
                     | Some mm \<Rightarrow> if mm < 0 \<or> mm > 59 then None else Some (hh * 60 + mm))))"

definition parseTimeRange :: "string \<Rightarrow> (int \<times> int) option" where
  "parseTimeRange spec =
     (case cut (CHR ''-'') spec of
        None \<Rightarrow> None
      | Some (lo, hi) \<Rightarrow>
          (case parseClock lo of
             None \<Rightarrow> None
           | Some from \<Rightarrow> map_option (\<lambda>to. (from, to)) (parseClock hi)))"

text \<open>\<open>strings.Fields\<close>.\<close>

fun fields_acc :: "string \<Rightarrow> string \<Rightarrow> string list" where
  "fields_acc cur [] = (if cur = [] then [] else [rev cur])"
| "fields_acc cur (c # s) =
     (if is_space c then (if cur = [] then fields_acc [] s else rev cur # fields_acc [] s)
      else fields_acc (c # cur) s)"

definition fields :: "string \<Rightarrow> string list" where
  "fields s = fields_acc [] s"

definition parseWindow :: "string \<Rightarrow> window option" where
  "parseWindow spec =
     (case fields (trim_space spec) of
        [f0, f1] \<Rightarrow>
          (case parseDays f0 of
             None \<Rightarrow> None
           | Some days \<Rightarrow>
               map_option (\<lambda>(from, to). \<lparr>w_days = days, w_from = from, w_to = to\<rparr>) (parseTimeRange f1))
      | _ \<Rightarrow> None)"

section \<open>Membership\<close>

definition contains :: "window \<Rightarrow> wall_time \<Rightarrow> bool" where
  "contains w t =
     (let mins = int (t_Hour t) * 60 + int (t_Minute t) in
      if w_from w < w_to w then
        t_Weekday t \<in> set (w_days w) \<and> mins \<ge> w_from w \<and> mins < w_to w
      else if t_Weekday t \<in> set (w_days w) \<and> mins \<ge> w_from w then True
      else let prev = (t_Weekday t + 6) mod 7 in prev \<in> set (w_days w) \<and> mins < w_to w)"

fun expected_loop :: "wall_time \<Rightarrow> nat \<Rightarrow> string list \<Rightarrow> bool" where
  "expected_loop t parsed [] = (parsed > 0)"
| "expected_loop t parsed (spec # specs) =
     (case parseWindow spec of
        None \<Rightarrow> expected_loop t parsed specs
      | Some w \<Rightarrow> if contains w t then False else expected_loop t (parsed + 1) specs)"

definition ExpectedDown :: "NodeDefinition \<Rightarrow> wall_time \<Rightarrow> bool" where
  "ExpectedDown n t =
     (case n_Schedule n of
        None \<Rightarrow> False
      | Some specs \<Rightarrow> if length specs = 0 then False else expected_loop t 0 specs)"

definition ValidateSchedules :: "ModelRegistry \<Rightarrow> (string \<times> string) list" where
  "ValidateSchedules r =
     concat (map (\<lambda>(name, n). case n_Schedule n of
                     None \<Rightarrow> []
                   | Some specs \<Rightarrow> map (Pair name) (filter (\<lambda>spec. parseWindow spec = None) specs))
                 (reg_Nodes r))"

section \<open>Days and windows\<close>

lemma set_day_walk:
  "d' \<in> set (day_walk d stop) \<longleftrightarrow> d' < 7 \<and> (d' + 6 * d) mod 7 \<le> (stop + 6 * d) mod 7"
proof (induction d stop rule: day_walk.induct)
  case (1 d stop)
  have here: "d' = d mod 7 \<longleftrightarrow> d' < 7 \<and> (d' + 6 * d) mod 7 = 0"
    using diff_mod7[of d' d] by auto
  show ?case
  proof (cases "d mod 7 = stop mod 7")
    case True
    then have "(stop + 6 * d) mod 7 = 0" by (simp add: diff_mod7)
    with here True show ?thesis by (simp add: day_walk.simps[of d stop])
  next
    case False
    then have pos: "(stop + 6 * d) mod 7 > 0" using diff_mod7[of stop d] by auto
    have "d' = d mod 7 \<or> (d' < 7 \<and> (d' + 6 * (d + 1)) mod 7 \<le> (stop + 6 * (d + 1)) mod 7)
        \<longleftrightarrow> d' < 7 \<and> (d' + 6 * d) mod 7 \<le> (stop + 6 * d) mod 7"
    proof (cases "d' mod 7 = d mod 7")
      case True
      then show ?thesis using here diff_mod7[of d' d] by auto
    next
      case ne: False
      with False have "(d' + 6 * (d + 1)) mod 7 = (d' + 6 * d) mod 7 - 1"
        "(stop + 6 * (d + 1)) mod 7 = (stop + 6 * d) mod 7 - 1"
        by (simp_all only: step_mod7) auto
      moreover have "(d' + 6 * d) mod 7 > 0" using ne diff_mod7[of d' d] by auto
      ultimately have "(d' + 6 * (d + 1)) mod 7 \<le> (stop + 6 * (d + 1)) mod 7
          \<longleftrightarrow> (d' + 6 * d) mod 7 \<le> (stop + 6 * d) mod 7"
        using pos by linarith
      moreover have "d' \<noteq> d mod 7" using ne by auto
      ultimately show ?thesis by blast
    qed
    with False "1.IH" show ?thesis by (auto simp: day_walk.simps[of d stop])
  qed
qed

lemma parseDay_bound: "parseDay s = Some d \<Longrightarrow> d < 7"
  by (auto simp: parseDay_def weekdayNames_def split: if_splits)

lemma day_walk_bound: "d' \<in> set (day_walk d stop) \<Longrightarrow> d' < 7"
  by (simp add: set_day_walk)

lemma parseDayPart_bound: "parseDayPart p = Some ds \<Longrightarrow> set ds \<subseteq> {..<7}"
  by (auto simp: parseDayPart_def Let_def dest: parseDay_bound day_walk_bound split: option.splits)

lemma parseDayParts_bound: "parseDayParts ps = Some ds \<Longrightarrow> set ds \<subseteq> {..<7}"
  by (induction ps arbitrary: ds) (fastforce dest: parseDayPart_bound split: option.splits)+

lemma parseClock_bound: "parseClock s = Some c \<Longrightarrow> 0 \<le> c \<and> c \<le> 1499"
  by (auto simp: parseClock_def split: option.splits if_splits)

text \<open>A day range, as an offset from its first day; \<open>(d + 6 * a) mod 7\<close> is \<open>d - a\<close> modulo 7.\<close>

text \<open>A parsed window names weekdays 0 to 6 and times of day of at most 24 hours and 59 minutes.\<close>

theorem parsed_window_bounds:
  assumes "parseWindow spec = Some w"
  shows "set (w_days w) \<subseteq> {..<7} \<and> 0 \<le> w_from w \<and> w_from w \<le> 1499 \<and> 0 \<le> w_to w \<and> w_to w \<le> 1499"
proof -
  from assms obtain f0 f1 days f t where parts: "parseDays f0 = Some days"
    "parseTimeRange f1 = Some (f, t)" "w = \<lparr>w_days = days, w_from = f, w_to = t\<rparr>"
    by (auto simp: parseWindow_def split: list.splits option.splits)
  from parts(1) have "set days \<subseteq> {..<7}" by (auto simp: parseDays_def dest: parseDayParts_bound)
  moreover from parts(2) have "0 \<le> f \<and> f \<le> 1499 \<and> 0 \<le> t \<and> t \<le> 1499"
    by (auto simp: parseTimeRange_def dest: parseClock_bound split: option.splits)
  ultimately show ?thesis by (simp add: parts(3))
qed

theorem parsed_window_bounds_witness:
  "set (w_days \<lparr>w_days = [5, 6, 0, 1], w_from = 1320, w_to = 360\<rparr>) \<subseteq> {..<7}"
proof -
  have "parseWindow ''Fri-Mon 22:00-06:00'' = Some \<lparr>w_days = [5, 6, 0, 1], w_from = 1320, w_to = 360\<rparr>"
    by code_simp
  from parsed_window_bounds[OF this] show ?thesis by simp
qed

text \<open>The reference: a window covers a span of minutes from its start on each of its days, in a
  week of 10080 minutes that wraps from Saturday to Sunday.\<close>

definition window_span :: "window \<Rightarrow> int" where
  "window_span w = (if w_from w < w_to w then w_to w - w_from w else 1440 - w_from w + w_to w)"

definition minute_of_week :: "nat \<Rightarrow> int \<Rightarrow> int" where
  "minute_of_week d mins = int d * 1440 + mins"

definition covers :: "window \<Rightarrow> wall_time \<Rightarrow> bool" where
  "covers w t \<longleftrightarrow>
     list_ex (\<lambda>d. (minute_of_week (t_Weekday t) (int (t_Hour t) * 60 + int (t_Minute t))
                   - minute_of_week d (w_from w)) mod 10080 < window_span w) (w_days w)"

lemma week_offset:
  fixes m f :: int and wd d :: nat
  assumes "wd < 7" "d < 7" "0 \<le> m" "m < 1440" "0 \<le> f" "f < 1440"
  shows "(minute_of_week wd m - minute_of_week d f) mod 10080 =
           int ((wd + 6 * d) mod 7) * 1440 + (m - f) + (if wd = d \<and> m < f then 10080 else 0)"
proof -
  have wd: "wd = 0 \<or> wd = 1 \<or> wd = 2 \<or> wd = 3 \<or> wd = 4 \<or> wd = 5 \<or> wd = 6"
    and d: "d = 0 \<or> d = 1 \<or> d = 2 \<or> d = 3 \<or> d = 4 \<or> d = 5 \<or> d = 6" using assms(1,2) by linarith+
  let ?k = "int ((wd + 6 * d) mod 7)"
  have k: "?k * 1440 = (int wd - int d) * 1440 \<or> ?k * 1440 = (int wd - int d) * 1440 + 10080"
    "wd < d \<Longrightarrow> ?k * 1440 = (int wd - int d) * 1440 + 10080" "0 \<le> ?k" "?k \<le> 6" "?k = 0 \<longleftrightarrow> wd = d"
    using wd d by (elim disjE; simp)+
  let ?z = "?k * 1440 + (m - f) + (if wd = d \<and> m < f then 10080 else 0)"
  have range: "0 \<le> ?z" "?z < 10080" using k assms(3-6) by (auto split: if_splits)
  have "\<exists>j. (minute_of_week wd m - minute_of_week d f) = ?z + 10080 * j"
  proof (cases "?k * 1440 = (int wd - int d) * 1440")
    case True
    then show ?thesis
      by (intro exI[of _ "if wd = d \<and> m < f then -1 else 0"]) (simp add: minute_of_week_def algebra_simps)
  next
    case False
    with k(1,5) have "?k * 1440 = (int wd - int d) * 1440 + 10080" "wd \<noteq> d" by auto
    then show ?thesis
      by (intro exI[of _ "if wd = d \<and> m < f then -2 else -1"]) (simp add: minute_of_week_def algebra_simps)
  qed
  then obtain j where "(minute_of_week wd m - minute_of_week d f) = ?z + 10080 * j" by blast
  with range show ?thesis by (simp only:) simp
qed

lemma day_before: "wd < 7 \<Longrightarrow> d < 7 \<Longrightarrow> (wd + 6 * d) mod 7 = 1 \<longleftrightarrow> d = (wd + 6) mod 7" for wd d :: nat
proof -
  assume "wd < 7" "d < 7"
  then have "wd = 0 \<or> wd = 1 \<or> wd = 2 \<or> wd = 3 \<or> wd = 4 \<or> wd = 5 \<or> wd = 6"
    and "d = 0 \<or> d = 1 \<or> d = 2 \<or> d = 3 \<or> d = 4 \<or> d = 5 \<or> d = 6" by linarith+
  then show ?thesis by (elim disjE; simp)
qed



lemma expected_loop_eq:
  "expected_loop t n specs \<longleftrightarrow>
     (n > 0 \<or> List.map_filter parseWindow specs \<noteq> [])
     \<and> \<not> list_ex (\<lambda>w. contains w t) (List.map_filter parseWindow specs)"
  by (induction specs arbitrary: n) (auto simp: map_filter_simps split: option.splits)

text \<open>A node is expected down exactly when it has a schedule with at least one window that
  parses and the instant lies in none of those; windows that do not parse are ignored, and a
  schedule in which none parses never marks the node down.\<close>

theorem expected_down_spec:
  "ExpectedDown n t =
     (case n_Schedule n of
        None \<Rightarrow> False
      | Some specs \<Rightarrow> (let ws = List.map_filter parseWindow specs
                      in ws \<noteq> [] \<and> \<not> list_ex (\<lambda>w. contains w t) ws))"
  by (auto simp: ExpectedDown_def expected_loop_eq map_filter_simps Let_def split: option.splits)

end
