(* ===== verification/Tracker.thy ===== *)
theory Tracker
  imports Registry_Validate Schedule Upstream_Errors "HOL-Library.Multiset"
begin

text \<open>
  \<^verbatim>\<open>internal/health/tracker.go\<close> and the data of \<^verbatim>\<open>probe.go\<close>: which models can be routed to right
  now. Each model has a seat state fed by four signals (the node poll, the circuit breaker, the
  generation probe, the live listing); \<open>stateLocked\<close> layers them into one verdict.

  Every operation of \<open>Tracker\<close> holds the tracker's mutex, so an operation is a function from
  tracker to tracker; the clock it reads (\<open>t.now()\<close>) is an argument. A Go pointer into
  \<open>t.models\<close> is a lookup followed by a store of the updated seat. A seat transition is defined on
  the seat alone and lifted to the tracker, as the code's methods do after \<open>stateFor\<close>.

  The prober, the listing fetcher, the environment and the local time zone are the arguments they
  are in the code (\<open>Probe\<close>, \<open>GenerationProbe\<close>, \<open>List\<close>, \<open>Getenv\<close>, the zone of \<open>time.Now\<close>).
  Logging has no effect on the state and is left out.
\<close>

section \<open>Agent payloads (probe.go)\<close>

record AgentGPU =
  ag_Index :: int
  ag_PDev :: string
  ag_VRAMUsedGB :: rat
  ag_VRAMTotalGB :: rat
  ag_BusyPct :: "int option"
  ag_TempC :: "int option"
  ag_PowerW :: "rat option"

record AgentHealth =
  ah_TotalVRAMGB :: "rat option"
  ah_FreeVRAMGB :: "rat option"
  ah_GPUBusyPct :: "int option"
  ah_GPUTempC :: "int option"
  ah_GPUPowerW :: "rat option"
  ah_RAMUsedGB :: "rat option"
  ah_RAMTotalGB :: "rat option"
  ah_DiskFreeGB :: "rat option"
  ah_DiskTotalGB :: "rat option"
  ah_GPUs :: "AgentGPU list"
  ah_Services :: "json list"

record AgentModel =
  am_ModelID :: string
  am_State :: string
  am_RequestsRunning :: int
  am_RequestsWaiting :: int
  am_AvgTokPerS :: "rat option"
  am_TotalRequests :: int

record NodeSnapshot =
  sn_Reachable :: bool
  sn_Health :: "AgentHealth option"
  sn_Models :: "AgentModel list"
  sn_ProbedAt :: "time option"

definition StateRunning :: string where "StateRunning = ''running''"

definition ModelState :: "NodeSnapshot \<Rightarrow> string \<Rightarrow> string option" where
  "ModelState s modelID = map_option am_State (find (\<lambda>m. am_ModelID m = modelID) (sn_Models s))"

text \<open>\<open>SelfHostnames\<close> (its argument is what \<open>os.Hostname\<close> returned, empty on an error) and
  \<open>ProbeNode\<close>, whose two requests are arguments: \<^const>\<open>None\<close> is any failure of \<open>fetchJSON\<close>.\<close>

definition SelfHostnames :: "string \<Rightarrow> string list" where
  "SelfHostnames h = ''localhost'' # (if h \<noteq> [] then [h, h @ ''.local''] else [])"

definition ProbeNode ::
    "(string \<Rightarrow> AgentHealth option) \<Rightarrow> (string \<Rightarrow> AgentModel list option) \<Rightarrow> string \<Rightarrow> time
     \<Rightarrow> string \<Rightarrow> int \<Rightarrow> NodeSnapshot" where
  "ProbeNode getHealth getModels hostname now host agentPort =
     (let snap = \<lparr>sn_Reachable = False, sn_Health = None, sn_Models = [], sn_ProbedAt = Some now\<rparr>;
          h = (if host \<in> set (SelfHostnames hostname) then ''127.0.0.1'' else host);
          base = ''http://'' @ h @ '':'' @ show_int agentPort
      in case getHealth (base @ ''/health'') of
           None \<Rightarrow> snap
         | Some health \<Rightarrow>
             let snap1 = snap\<lparr>sn_Reachable := True, sn_Health := Some health\<rparr>
             in case getModels (base @ ''/models'') of
                  None \<Rightarrow> snap1
                | Some models \<Rightarrow> snap1\<lparr>sn_Models := models\<rparr>)"

section \<open>Verdicts and configuration\<close>

datatype Availability = Available | Unavailable | Warming | Absent | Unknown

datatype Source = SourcePoll | SourcePassive | SourceAssumed | SourceProbe | SourceInventory

definition availability_text :: "Availability \<Rightarrow> string" where
  "availability_text a =
     (case a of Available \<Rightarrow> ''available'' | Unavailable \<Rightarrow> ''unavailable'' | Warming \<Rightarrow> ''warming''
      | Absent \<Rightarrow> ''absent'' | Unknown \<Rightarrow> ''unknown'')"

definition source_text :: "Source \<Rightarrow> string" where
  "source_text s =
     (case s of SourcePoll \<Rightarrow> ''poll'' | SourcePassive \<Rightarrow> ''passive'' | SourceAssumed \<Rightarrow> ''assumed''
      | SourceProbe \<Rightarrow> ''probe'' | SourceInventory \<Rightarrow> ''inventory'')"

record TrackerConfig =
  c_Registry :: "ModelRegistry option"
  c_Interval :: duration
  c_DownAfter :: int
  c_BreakerTrip :: int
  c_BreakerCooldown :: duration
  c_MaxRetryAfter :: duration
  c_DisableGenerationProbe :: bool
  c_ProbeTimeout :: duration
  c_ProbeFilter :: "(string \<Rightarrow> bool) option"
  c_Getenv :: "string \<Rightarrow> string"
  c_InventoryInterval :: duration
  c_InventoryTimeout :: duration
  c_DisableInventory :: bool
  c_LocalTime :: "time \<Rightarrow> wall_time"

definition DefaultInterval :: duration where "DefaultInterval = 15 * second"
definition DefaultDownAfter :: int where "DefaultDownAfter = 2"
definition DefaultBreakerTrip :: int where "DefaultBreakerTrip = 3"
definition DefaultBreakerCooldown :: duration where "DefaultBreakerCooldown = 60 * second"
definition DefaultMaxRetryAfter :: duration where "DefaultMaxRetryAfter = 600 * second"
definition DefaultProbeTimeout :: duration where "DefaultProbeTimeout = 30 * second"
definition DefaultInventoryInterval :: duration where "DefaultInventoryInterval = 60 * second"
definition DefaultInventoryTimeout :: duration where "DefaultInventoryTimeout = 5 * second"

definition fill_config :: "TrackerConfig \<Rightarrow> TrackerConfig" where
  "fill_config cfg =
     cfg\<lparr>c_Interval := (if c_Interval cfg \<le> 0 then DefaultInterval else c_Interval cfg),
         c_DownAfter := (if c_DownAfter cfg \<le> 0 then DefaultDownAfter else c_DownAfter cfg),
         c_BreakerTrip := (if c_BreakerTrip cfg \<le> 0 then DefaultBreakerTrip else c_BreakerTrip cfg),
         c_BreakerCooldown :=
           (if c_BreakerCooldown cfg \<le> 0 then DefaultBreakerCooldown else c_BreakerCooldown cfg),
         c_MaxRetryAfter :=
           (if c_MaxRetryAfter cfg \<le> 0 then DefaultMaxRetryAfter else c_MaxRetryAfter cfg),
         c_ProbeTimeout := (if c_ProbeTimeout cfg \<le> 0 then DefaultProbeTimeout else c_ProbeTimeout cfg),
         c_InventoryInterval :=
           (if c_InventoryInterval cfg \<le> 0 then DefaultInventoryInterval else c_InventoryInterval cfg),
         c_InventoryTimeout :=
           (if c_InventoryTimeout cfg \<le> 0 then DefaultInventoryTimeout else c_InventoryTimeout cfg)\<rparr>"

section \<open>Seats and the tracker\<close>

record modelState =
  pollState :: Availability
  pollReason :: string
  pollFails :: int
  breakerFails :: int
  breakerOpen :: bool
  breakerOpenedAt :: time
  halfOpen :: bool
  breakerCooldown :: duration
  probe :: bool
  confirmed :: bool
  probeSeq :: "64 word"
  probeFails :: int
  probeErr :: string
  probeNextAt :: "time option"
  warmingSince :: "time option"
  absent :: bool
  absentReason :: string
  lastState :: "Availability option"
  since :: time

text \<open>The inventory's own records (inventory.go) are part of the tracker's state.\<close>

type_synonym Listing = "ListedModel gomap"

record baseInventory =
  b_root :: string
  b_bearer :: string
  b_header :: string
  b_members :: "string list"
  b_served :: "string list"
  b_sources :: "nat list"
  b_listing :: "Listing option"
  b_fetchedAt :: "time option"
  b_attemptedAt :: "time option"
  b_err :: string
  b_inflight :: bool

record discoveredEntry =
  d_def :: ModelDefinition
  d_root :: string
  d_source :: nat
  d_misses :: int
  d_firstSeen :: time

record Tracker =
  t_cfg :: TrackerConfig
  t_models :: "modelState gomap"
  t_nodes :: "NodeSnapshot gomap"
  t_polled :: bool
  t_inv :: "baseInventory gomap"
  t_discovered :: "discoveredEntry gomap"
  t_reserved :: "string list"

text \<open>An error value with the text its \<open>Error\<close> method returns.\<close>

type_synonym go_error = "upstream_err \<times> string"

section \<open>Polling\<close>

definition modelHead :: "ModelDefinition \<Rightarrow> string" where
  "modelHead m =
     (case m_MultiNode m of
        None \<Rightarrow> []
      | Some mn \<Rightarrow>
          if mn_HeadNode mn \<noteq> [] then mn_HeadNode mn
          else if length (mn_Nodes mn) > 0 then mn_Nodes mn ! 0
          else [])"

definition modelNodes :: "ModelDefinition \<Rightarrow> string list" where
  "modelNodes m =
     (case m_MultiNode m of
        Some mn \<Rightarrow> mn_Nodes mn
      | None \<Rightarrow> if m_Node m \<noteq> [] then [m_Node m] else [])"

text \<open>\<open>%q\<close> of a name that needs no escaping.\<close>

definition quoted :: "string \<Rightarrow> string" where
  "quoted s = [CHR 0x22] @ s @ [CHR 0x22]"

fun observe_nodes :: "string \<Rightarrow> string \<Rightarrow> NodeSnapshot gomap \<Rightarrow> string list \<Rightarrow> bool \<times> string" where
  "observe_nodes i head snaps [] = (True, [])"
| "observe_nodes i head snaps (n # ns) =
     (case lookup snaps n of
        None \<Rightarrow> (False, ''node '' @ quoted n @ '' is not in the registry'')
      | Some snap \<Rightarrow>
          if \<not> sn_Reachable snap then (False, ''node '' @ quoted n @ '' unreachable'')
          else if head \<noteq> [] \<and> n \<noteq> head then observe_nodes i head snaps ns
          else (case ModelState snap i of
                  Some state \<Rightarrow>
                    if state \<noteq> StateRunning
                    then (False, ''agent on '' @ quoted n @ '' reports state '' @ quoted state)
                    else observe_nodes i head snaps ns
                | None \<Rightarrow> observe_nodes i head snaps ns))"

definition observeModel :: "string \<Rightarrow> ModelDefinition \<Rightarrow> NodeSnapshot gomap \<Rightarrow> bool \<times> string" where
  "observeModel i m snaps =
     (let nodes = modelNodes m
      in if length nodes = 0 then (True, []) else observe_nodes i (modelHead m) snaps nodes)"

section \<open>Seat transitions\<close>

definition new_seat :: "TrackerConfig \<Rightarrow> time \<Rightarrow> string \<Rightarrow> modelState" where
  "new_seat cfg now i =
     \<lparr>pollState = Unknown, pollReason = [], pollFails = 0, breakerFails = 0, breakerOpen = False,
      breakerOpenedAt = 0, halfOpen = False, breakerCooldown = 0,
      probe =
        (case c_Registry cfg of
           None \<Rightarrow> False
         | Some reg \<Rightarrow>
             if c_DisableGenerationProbe cfg then False
             else case lookup (reg_Models reg) i of
                    None \<Rightarrow> False
                  | Some m \<Rightarrow>
                      ProbeEnabled m \<and> (case c_ProbeFilter cfg of None \<Rightarrow> True | Some f \<Rightarrow> f i)),
      confirmed = False, probeSeq = 0, probeFails = 0, probeErr = [], probeNextAt = None,
      warmingSince = None, absent = False, absentReason = [], lastState = None, since = now\<rparr>"

definition stateFor :: "Tracker \<Rightarrow> time \<Rightarrow> string \<Rightarrow> modelState" where
  "stateFor t now i =
     (case lookup (t_models t) i of Some st \<Rightarrow> st | None \<Rightarrow> new_seat (t_cfg t) now i)"

text \<open>The seat is a pointer in \<open>t.models\<close>: a change to it is a store.\<close>

definition set_seat :: "string \<Rightarrow> modelState \<Rightarrow> Tracker \<Rightarrow> Tracker" where
  "set_seat i st t = t\<lparr>t_models := store i st (t_models t)\<rparr>"

definition enterWarming :: "time \<Rightarrow> string \<Rightarrow> modelState \<Rightarrow> modelState" where
  "enterWarming now why st =
     st\<lparr>confirmed := False, probeSeq := probeSeq st + 1, probeFails := 0, probeErr := why,
        probeNextAt := None, warmingSince := Some now\<rparr>"

definition observe_seat :: "TrackerConfig \<Rightarrow> time \<Rightarrow> bool \<Rightarrow> string \<Rightarrow> modelState \<Rightarrow> modelState" where
  "observe_seat cfg now ok reason st =
     (if ok then
        let st1 = st\<lparr>pollFails := 0, pollReason := []\<rparr>;
            st2 = (if pollState st1 \<noteq> Available \<and> probe st1 then enterWarming now [] st1 else st1)
        in st2\<lparr>pollState := Available\<rparr>
      else
        let st1 = st\<lparr>pollFails := pollFails st + 1, pollReason := reason\<rparr>
        in if pollFails st1 \<ge> c_DownAfter cfg \<and> pollState st1 \<noteq> Unavailable
           then st1\<lparr>pollState := Unavailable\<rparr> else st1)"

definition applyObservation :: "time \<Rightarrow> string \<Rightarrow> bool \<Rightarrow> string \<Rightarrow> Tracker \<Rightarrow> Tracker" where
  "applyObservation now i ok reason t =
     set_seat i (observe_seat (t_cfg t) now ok reason (stateFor t now i)) t"

text \<open>\<open>backoff n\<close> is \<open>probeBackoff(n)\<close> in nanoseconds.\<close>

definition backoff :: "int \<Rightarrow> duration" where "backoff n = sint (probeBackoff n)"

definition retryAfterOf :: "TrackerConfig \<Rightarrow> go_error option \<Rightarrow> duration" where
  "retryAfterOf cfg err =
     (case errRetryAfter (map_option fst err) of
        None \<Rightarrow> 0
      | Some d \<Rightarrow> if d \<le> 0 then 0 else if d > c_MaxRetryAfter cfg then c_MaxRetryAfter cfg else d)"

definition cooldownOf :: "TrackerConfig \<Rightarrow> modelState \<Rightarrow> duration" where
  "cooldownOf cfg st = (if breakerCooldown st > 0 then breakerCooldown st else c_BreakerCooldown cfg)"

definition error_text :: "go_error option \<Rightarrow> string" where
  "error_text err = (case err of None \<Rightarrow> [] | Some (e, s) \<Rightarrow> s)"

definition fail_seat :: "TrackerConfig \<Rightarrow> time \<Rightarrow> go_error option \<Rightarrow> modelState \<Rightarrow> modelState" where
  "fail_seat cfg now err st =
     (if probe st \<and> isWarmingSignal (map_option fst err) then
        if confirmed st \<or> probeErr st = []
        then (enterWarming now (error_text err) st)\<lparr>probeFails := 1, probeNextAt := Some (now + backoff 1)\<rparr>
        else st
      else
        let trial = breakerOpen st \<and> halfOpen st;
            st1 = st\<lparr>halfOpen := False, breakerFails := breakerFails st + 1\<rparr>;
            after = retryAfterOf cfg err
        in if \<not> trial \<and> after = 0 \<and> (breakerOpen st1 \<or> breakerFails st1 < c_BreakerTrip cfg)
           then st1
           else st1\<lparr>breakerOpen := True, breakerOpenedAt := now, breakerCooldown := after\<rparr>)"

definition ReportFailure :: "time \<Rightarrow> string \<Rightarrow> go_error option \<Rightarrow> Tracker \<Rightarrow> Tracker" where
  "ReportFailure now i err t = set_seat i (fail_seat (t_cfg t) now err (stateFor t now i)) t"

definition success_seat :: "modelState \<Rightarrow> modelState" where
  "success_seat st =
     (let st1 = st\<lparr>breakerFails := 0, breakerOpen := False, halfOpen := False, breakerCooldown := 0\<rparr>
      in if probe st1 \<and> \<not> confirmed st1 then st1\<lparr>confirmed := True, probeErr := []\<rparr> else st1)"

definition ReportSuccess :: "string \<Rightarrow> Tracker \<Rightarrow> Tracker" where
  "ReportSuccess i t =
     (case lookup (t_models t) i of None \<Rightarrow> t | Some st \<Rightarrow> set_seat i (success_seat st) t)"

section \<open>Generation probes\<close>

record GenTarget =
  gt_Model :: string
  gt_Root :: string
  gt_BackendModel :: string
  gt_APIClass :: APIClass
  gt_Bearer :: string
  gt_BearerHeader :: string

datatype target_error = NotInRegistry string | TargetBase config_error | NilRegistry

record probeJob =
  pj_id :: string
  pj_seq :: "64 word"
  pj_target :: "target_error + GenTarget"

definition resolveKey :: "(string \<Rightarrow> string) \<Rightarrow> string \<Rightarrow> string" where
  "resolveKey getenv raw = (if has_prefix raw ''sk-'' then raw else getenv raw)"

definition genTarget :: "TrackerConfig \<Rightarrow> string \<Rightarrow> target_error + GenTarget" where
  "genTarget cfg i =
     (case c_Registry cfg of
        None \<Rightarrow> Inl NilRegistry
      | Some reg \<Rightarrow>
          (case lookup (reg_Models reg) i of
             None \<Rightarrow> Inl (NotInRegistry i)
           | Some m \<Rightarrow>
               (case APIBase reg i (Some False) of
                  Inl e \<Rightarrow> Inl (TargetBase e)
                | Inr base \<Rightarrow>
                    let tgt = \<lparr>gt_Model = i, gt_Root = trim_suffix base ''/v1'',
                               gt_BackendModel = BackendModelName m, gt_APIClass = m_APIClass m,
                               gt_Bearer = [], gt_BearerHeader = []\<rparr>
                    in Inr (if m_Backend m = BackendExternal \<and> m_APIKey m \<noteq> []
                            then tgt\<lparr>gt_Bearer := resolveKey (c_Getenv cfg) (m_APIKey m),
                                     gt_BearerHeader := m_APIKeyHeader m\<rparr>
                            else tgt))))"

definition probe_due :: "time \<Rightarrow> modelState \<Rightarrow> bool" where
  "probe_due now st \<longleftrightarrow>
     \<not> (\<not> probe st \<or> confirmed st \<or> pollState st \<noteq> Available)
     \<and> \<not> (case probeNextAt st of None \<Rightarrow> False | Some next \<Rightarrow> now < next)"

definition dueProbes :: "time \<Rightarrow> Tracker \<Rightarrow> probeJob list" where
  "dueProbes now t =
     (if c_DisableGenerationProbe (t_cfg t) then []
      else sort_key pj_id
             (map (\<lambda>(i, st). \<lparr>pj_id = i, pj_seq = probeSeq st, pj_target = genTarget (t_cfg t) i\<rparr>)
                  (filter (\<lambda>(i, st). probe_due now st) (t_models t))))"

record probeResult =
  pr_id :: string
  pr_seq :: "64 word"
  pr_err :: "go_error option"

definition probe_ok :: "go_error option \<Rightarrow> bool" where
  "probe_ok err \<longleftrightarrow>
     (case err of None \<Rightarrow> True | Some (ProbeRejected status body, s) \<Rightarrow> True | Some _ \<Rightarrow> False)"

definition probe_seat :: "time \<Rightarrow> go_error option \<Rightarrow> modelState \<Rightarrow> modelState" where
  "probe_seat now err st =
     (if probe_ok err then
        (if confirmed st then st else st\<lparr>confirmed := True, probeErr := []\<rparr>)
      else if confirmed st then st
      else st\<lparr>probeFails := probeFails st + 1, probeErr := error_text err,
              probeNextAt := Some (now + backoff (probeFails st + 1))\<rparr>)"

definition applyProbe :: "time \<Rightarrow> probeResult \<Rightarrow> Tracker \<Rightarrow> Tracker" where
  "applyProbe now r t =
     (case lookup (t_models t) (pr_id r) of
        None \<Rightarrow> t
      | Some st \<Rightarrow>
          if probeSeq st \<noteq> pr_seq r \<or> \<not> probe st then t
          else set_seat (pr_id r) (probe_seat now (pr_err r) st) t)"

text \<open>\<open>runProbes\<close>: the probes of a round run concurrently and each fills its own slot; a job whose
  target could not be built fails with that error (its text is an argument, as the prober is).\<close>

definition runProbes ::
    "(target_error \<Rightarrow> string) \<Rightarrow> (GenTarget \<Rightarrow> go_error option) \<Rightarrow> probeJob list \<Rightarrow> probeResult list" where
  "runProbes target_text genProbe jobs =
     map (\<lambda>job. \<lparr>pr_id = pj_id job, pr_seq = pj_seq job,
                 pr_err = (case pj_target job of
                             Inl e \<Rightarrow> Some (OtherErr (target_text e), target_text e)
                           | Inr tgt \<Rightarrow> genProbe tgt)\<rparr>) jobs"

section \<open>Verdicts\<close>

text \<open>\<open>time.Duration.String\<close>: hours, minutes and seconds with a trimmed fraction; below one second
  the unit is chosen so that the integer part is not zero.\<close>

definition pad_digits :: "nat \<Rightarrow> nat \<Rightarrow> string" where
  "pad_digits w n = replicate (w - length (show_nat n)) (CHR ''0'') @ show_nat n"

definition fraction :: "nat \<Rightarrow> nat \<Rightarrow> string" where
  "fraction w n =
     (let ds = rev (dropWhile (\<lambda>c. c = CHR ''0'') (rev (pad_digits w n)))
      in if ds = [] then [] else CHR ''.'' # ds)"

definition show_duration :: "duration \<Rightarrow> string" where
  "show_duration d =
     (let u = nat (abs d);
          s = u div 1000000000;
          body =
            (if u = 0 then ''0s''
             else if u < 1000 then show_nat u @ ''ns''
             else if u < 1000000 then show_nat (u div 1000) @ fraction 3 (u mod 1000) @ [CHR 0xC2, CHR 0xB5] @ ''s''
             else if u < 1000000000 then show_nat (u div 1000000) @ fraction 6 (u mod 1000000) @ ''ms''
             else (if s \<ge> 3600 then show_nat (s div 3600) @ ''h'' else [])
                  @ (if s \<ge> 60 then show_nat (s div 60 mod 60) @ ''m'' else [])
                  @ show_nat (s mod 60) @ fraction 9 (u mod 1000000000) @ ''s'')
      in if d < 0 then CHR ''-'' # body else body)"

definition warmingReason :: "modelState \<Rightarrow> string" where
  "warmingReason st =
     (if probeErr st = [] then ''generation probe pending'' else ''generation probe: '' @ probeErr st)"

type_synonym verdict = "Availability \<times> Source \<times> string"

text \<open>\<open>stateLocked\<close> on a seat: the verdict, and the seat after the call (a breaker whose cooldown is
  over becomes half-open).\<close>

definition seat_verdict :: "TrackerConfig \<Rightarrow> bool \<Rightarrow> time \<Rightarrow> modelState \<Rightarrow> verdict \<times> modelState" where
  "seat_verdict cfg polled now st =
     (if breakerOpen st then
        (if now - breakerOpenedAt st < cooldownOf cfg st then
           (if breakerCooldown st > 0
            then ((Unavailable, SourcePassive,
                   ''circuit breaker open (upstream asked for '' @ show_duration (breakerCooldown st) @ '')''), st)
            else ((Unavailable, SourcePassive,
                   ''circuit breaker open ('' @ show_int (breakerFails st) @ '' consecutive failures)''), st))
         else ((Available, SourcePassive, ''circuit breaker half-open''), st\<lparr>halfOpen := True\<rparr>))
      else if pollState st = Unavailable then ((Unavailable, SourcePoll, pollReason st), st)
      else if absent st then ((Absent, SourceInventory, absentReason st), st)
      else if pollState st = Available then
        (if probe st \<and> \<not> confirmed st then ((Warming, SourceProbe, warmingReason st), st)
         else ((Available, SourcePoll, []), st))
      else if \<not> polled then ((Unknown, SourceAssumed, ''not yet polled''), st)
      else ((Available, SourceAssumed, []), st))"

definition stateLocked :: "time \<Rightarrow> string \<Rightarrow> Tracker \<Rightarrow> verdict \<times> Tracker" where
  "stateLocked now i t =
     (case lookup (t_models t) i of
        None \<Rightarrow> if \<not> t_polled t then ((Unknown, SourceAssumed, ''not yet polled''), t)
                else ((Available, SourceAssumed, []), t)
      | Some st \<Rightarrow> (let (v, st') = seat_verdict (t_cfg t) (t_polled t) now st in (v, set_seat i st' t)))"

definition Routable :: "time \<Rightarrow> string \<Rightarrow> Tracker \<Rightarrow> bool \<times> Tracker" where
  "Routable now i t =
     (let ((state, _, _), t') = stateLocked now i t
      in (state \<noteq> Unavailable \<and> state \<noteq> Warming \<and> state \<noteq> Absent, t'))"

definition Reason :: "time \<Rightarrow> string \<Rightarrow> Tracker \<Rightarrow> string \<times> Tracker" where
  "Reason now i t =
     (let ((state, source, reason), t') = stateLocked now i t
      in (if reason = []
          then (availability_text state @ '' ('' @ source_text source @ '')'', t')
          else (availability_text state @ '' ('' @ source_text source @ '': '' @ reason @ '')'', t')))"

section \<open>Views\<close>

definition nodeExpectedDown :: "Tracker \<Rightarrow> time \<Rightarrow> string \<Rightarrow> bool" where
  "nodeExpectedDown t now node =
     (case c_Registry (t_cfg t) of
        None \<Rightarrow> False
      | Some reg \<Rightarrow>
          if node = [] then False
          else (case lookup (reg_Nodes reg) node of
                  None \<Rightarrow> False
                | Some n \<Rightarrow> ExpectedDown n (c_LocalTime (t_cfg t) now)))"

record WarmingInfo =
  wi_Since :: "time option"
  wi_Attempts :: int
  wi_LastError :: string
  wi_NextProbe :: "time option"

record Status =
  ss_Model :: string
  ss_State :: Availability
  ss_Reason :: string
  ss_Source :: Source
  ss_Node :: string
  ss_Since :: "time option"
  ss_ExpectedDown :: bool
  ss_Warming :: "WarmingInfo option"
  ss_Discovered :: bool

definition touch_state :: "Availability \<Rightarrow> time \<Rightarrow> modelState \<Rightarrow> modelState" where
  "touch_state state now st =
     (if lastState st \<noteq> Some state then st\<lparr>lastState := Some state, since := now\<rparr> else st)"

definition status_of :: "ModelRegistry \<Rightarrow> time \<Rightarrow> string \<Rightarrow> Tracker \<Rightarrow> Status \<times> Tracker" where
  "status_of reg now i t =
     (let ((state, source, reason), t1) = stateLocked now i t;
          (node, discovered) =
            (case lookup (t_discovered t1) i of
               Some e \<Rightarrow> (m_Node (d_def e), True)
             | None \<Rightarrow> (case lookup (reg_Models reg) i of None \<Rightarrow> [] | Some m \<Rightarrow> m_Node m, False));
          (t2, since', warming) =
            (case lookup (t_models t1) i of
               None \<Rightarrow> (t1, None, None)
             | Some st \<Rightarrow>
                 let st' = touch_state state now st
                 in (set_seat i st' t1, Some (since st'),
                     if state = Warming
                     then Some \<lparr>wi_Since = warmingSince st', wi_Attempts = probeFails st',
                                wi_LastError = probeErr st', wi_NextProbe = probeNextAt st'\<rparr>
                     else None))
      in (\<lparr>ss_Model = i, ss_State = state, ss_Reason = reason, ss_Source = source, ss_Node = node,
            ss_Since = since', ss_ExpectedDown = nodeExpectedDown t2 now node, ss_Warming = warming,
            ss_Discovered = discovered\<rparr>, t2))"

fun statuses :: "ModelRegistry \<Rightarrow> time \<Rightarrow> string list \<Rightarrow> Tracker \<Rightarrow> Status list \<times> Tracker" where
  "statuses reg now [] t = ([], t)"
| "statuses reg now (i # is) t =
     (let (s, t1) = status_of reg now i t; (ss, t2) = statuses reg now is t1 in (s # ss, t2))"

text \<open>A tracker without a registry panics here: \<^const>\<open>None\<close>.\<close>

definition Snapshot :: "time \<Rightarrow> Tracker \<Rightarrow> (Status list \<times> Tracker) option" where
  "Snapshot now t =
     (case c_Registry (t_cfg t) of
        None \<Rightarrow> None
      | Some reg \<Rightarrow> Some (statuses reg now (sort (map fst (reg_Models reg) @ map fst (t_discovered t))) t))"

definition Counts :: "time \<Rightarrow> Tracker \<Rightarrow> ((Availability \<Rightarrow> nat) \<times> Tracker) option" where
  "Counts now t =
     map_option (\<lambda>(ss, t'). (\<lambda>a. length (filter (\<lambda>s. ss_State s = a) ss), t')) (Snapshot now t)"

record NodeStatus =
  ns_Node :: string
  ns_Host :: string
  ns_Reachable :: bool
  ns_ProbedAt :: "time option"
  ns_ExpectedDown :: bool

definition empty_snapshot :: NodeSnapshot where
  "empty_snapshot = \<lparr>sn_Reachable = False, sn_Health = None, sn_Models = [], sn_ProbedAt = None\<rparr>"

definition snapshot_of :: "Tracker \<Rightarrow> string \<Rightarrow> NodeSnapshot" where
  "snapshot_of t n = (case lookup (t_nodes t) n of None \<Rightarrow> empty_snapshot | Some s \<Rightarrow> s)"

definition NodeStatuses :: "time \<Rightarrow> Tracker \<Rightarrow> NodeStatus list option" where
  "NodeStatuses now t =
     (case c_Registry (t_cfg t) of
        None \<Rightarrow> None
      | Some reg \<Rightarrow>
          Some (map (\<lambda>(n, node). let snap = snapshot_of t n in
                       \<lparr>ns_Node = n, ns_Host = n_Host node, ns_Reachable = sn_Reachable snap,
                        ns_ProbedAt = sn_ProbedAt snap, ns_ExpectedDown = nodeExpectedDown t now n\<rparr>)
                    (sort_key fst (reg_Nodes reg))))"

record SeatLoad =
  sl_Running :: int
  sl_Waiting :: int
  sl_GPUBusyPct :: int
  sl_Node :: string

fun busiest :: "int \<Rightarrow> AgentGPU list \<Rightarrow> int" where
  "busiest busy [] = busy"
| "busiest busy (g # gs) =
     (case ag_BusyPct g of
        Some p \<Rightarrow> busiest (if p > busy then p else busy) gs
      | None \<Rightarrow> busiest busy gs)"

definition nodeGPUBusy :: "AgentHealth \<Rightarrow> int" where
  "nodeGPUBusy h = (case ah_GPUBusyPct h of Some p \<Rightarrow> p | None \<Rightarrow> busiest (-1) (ah_GPUs h))"

definition seat_load :: "Tracker \<Rightarrow> string \<Rightarrow> ModelDefinition \<Rightarrow> SeatLoad option" where
  "seat_load t i m =
     (let nodes = modelNodes m in
      if length nodes = 0 then None
      else
        let node = nodes ! 0;
            snap = snapshot_of t node;
            load = \<lparr>sl_Running = 0, sl_Waiting = 0,
                    sl_GPUBusyPct = (case sn_Health snap of None \<Rightarrow> -1 | Some h \<Rightarrow> nodeGPUBusy h), sl_Node = node\<rparr>
        in Some (case find (\<lambda>am. am_ModelID am = i) (sn_Models snap) of
                   None \<Rightarrow> load
                 | Some am \<Rightarrow> load\<lparr>sl_Running := am_RequestsRunning am, sl_Waiting := am_RequestsWaiting am\<rparr>))"

definition SeatLoads :: "Tracker \<Rightarrow> SeatLoad gomap" where
  "SeatLoads t =
     (case c_Registry (t_cfg t) of
        None \<Rightarrow> []
      | Some reg \<Rightarrow>
          List.map_filter (\<lambda>(i, m). map_option (Pair i) (seat_load t i m)) (reg_Models reg))"

section \<open>Lookup facts\<close>

named_theorems seat_ops \<open>the definitions of the seat transitions\<close>

lemmas [seat_ops] = enterWarming_def observe_seat_def fail_seat_def success_seat_def probe_seat_def
  touch_state_def Let_def

lemma lookup_set_seat [simp]:
  "lookup (t_models (set_seat i st t)) j = (if j = i then Some st else lookup (t_models t) j)"
  by (simp add: set_seat_def)

lemma set_seat_other [simp]:
  "t_cfg (set_seat i st t) = t_cfg t" "t_polled (set_seat i st t) = t_polled t"
  "t_nodes (set_seat i st t) = t_nodes t" "t_inv (set_seat i st t) = t_inv t"
  "t_discovered (set_seat i st t) = t_discovered t" "t_reserved (set_seat i st t) = t_reserved t"
  by (simp_all add: set_seat_def)

lemma stateFor_Some: "lookup (t_models t) i = Some st \<Longrightarrow> stateFor t now i = st"
  by (simp add: stateFor_def)

lemma Routable_some:
  "lookup (t_models t) i = Some st \<Longrightarrow>
     Routable now i t =
       (case seat_verdict (t_cfg t) (t_polled t) now st of
          ((a, s, r), st') \<Rightarrow> (a \<noteq> Unavailable \<and> a \<noteq> Warming \<and> a \<noteq> Absent, set_seat i st' t))"
  by (simp add: Routable_def stateLocked_def Let_def split: prod.splits)

lemma Routable_none: "lookup (t_models t) i = None \<Longrightarrow> Routable now i t = (True, t)"
  by (simp add: Routable_def stateLocked_def)

definition seat_routable :: "TrackerConfig \<Rightarrow> time \<Rightarrow> modelState \<Rightarrow> bool" where
  "seat_routable cfg now st \<longleftrightarrow>
     (if breakerOpen st then breakerOpenedAt st + cooldownOf cfg st \<le> now
      else pollState st \<noteq> Unavailable \<and> \<not> absent st
           \<and> \<not> (pollState st = Available \<and> probe st \<and> \<not> confirmed st))"

lemma seat_verdict_routable:
  "seat_verdict cfg polled now st = ((a, s, r), st') \<Longrightarrow>
     (a \<noteq> Unavailable \<and> a \<noteq> Warming \<and> a \<noteq> Absent) = seat_routable cfg now st"
  by (auto simp: seat_verdict_def seat_routable_def split: if_splits)

lemma fst_Routable:
  "fst (Routable now i t) =
     (case lookup (t_models t) i of None \<Rightarrow> True | Some st \<Rightarrow> seat_routable (t_cfg t) now st)"
proof (cases "lookup (t_models t) i")
  case (Some st)
  obtain a s r st' where v: "seat_verdict (t_cfg t) (t_polled t) now st = ((a, s, r), st')"
    by (metis prod_cases3 surj_pair)
  from seat_verdict_routable[OF v] show ?thesis by (simp add: Some Routable_some v)
qed (simp add: Routable_none)

lemma seat_verdict_seat:
  "snd (seat_verdict cfg polled now st) =
     (if breakerOpen st \<and> breakerOpenedAt st + cooldownOf cfg st \<le> now
      then st\<lparr>halfOpen := True\<rparr> else st)"
  by (auto simp: seat_verdict_def)

lemma lookup_after_query:
  "lookup (t_models (snd (stateLocked now i t))) j =
     (if j = i then map_option (\<lambda>st. snd (seat_verdict (t_cfg t) (t_polled t) now st)) (lookup (t_models t) i)
      else lookup (t_models t) j)"
  by (auto simp: stateLocked_def Let_def split: option.splits prod.splits)

lemma snd_Routable [simp]: "snd (Routable now i t) = snd (stateLocked now i t)"
  by (simp add: Routable_def Let_def split: prod.splits)

lemma snd_Reason [simp]: "snd (Reason now i t) = snd (stateLocked now i t)"
  by (simp add: Reason_def Let_def split: prod.splits)

lemma query_frame [simp]:
  "t_cfg (snd (stateLocked now i t)) = t_cfg t" "t_polled (snd (stateLocked now i t)) = t_polled t"
  "t_discovered (snd (stateLocked now i t)) = t_discovered t"
  "t_inv (snd (stateLocked now i t)) = t_inv t"
  by (simp_all add: stateLocked_def Let_def split: option.splits prod.splits)

lemma cooldownOf_halfOpen [simp]: "cooldownOf cfg (st\<lparr>halfOpen := b\<rparr>) = cooldownOf cfg st"
  by (simp add: cooldownOf_def)

lemma seat_routable_halfOpen [simp]: "seat_routable cfg now (st\<lparr>halfOpen := b\<rparr>) = seat_routable cfg now st"
  by (simp add: seat_routable_def)

text \<open>Asking about one model never changes the answer about any model.\<close>

lemma query_keeps_verdicts:
  "fst (Routable now' j (snd (stateLocked now i t))) = fst (Routable now' j t)"
  by (auto simp: fst_Routable lookup_after_query seat_verdict_seat split: option.splits)

lemma retryAfterOf_bounds:
  "0 < c_MaxRetryAfter cfg \<Longrightarrow> 0 \<le> retryAfterOf cfg err \<and> retryAfterOf cfg err \<le> c_MaxRetryAfter cfg"
  by (auto simp: retryAfterOf_def split: option.splits)

lemma fill_config_positive:
  "0 < c_DownAfter (fill_config cfg)" "0 < c_BreakerTrip (fill_config cfg)"
  "0 < c_BreakerCooldown (fill_config cfg)" "0 < c_MaxRetryAfter (fill_config cfg)"
  "0 < c_Interval (fill_config cfg)" "0 < c_InventoryInterval (fill_config cfg)"
  by (simp_all add: fill_config_def DefaultDownAfter_def DefaultBreakerTrip_def
      DefaultBreakerCooldown_def DefaultMaxRetryAfter_def DefaultInterval_def
      DefaultInventoryInterval_def)

text \<open>What every operation needs of a configuration: the thresholds \<open>NewTracker\<close> fills in.\<close>

definition good_config :: "TrackerConfig \<Rightarrow> bool" where
  "good_config cfg \<longleftrightarrow> 0 < c_DownAfter cfg \<and> 0 < c_BreakerTrip cfg \<and> 0 < c_BreakerCooldown cfg
     \<and> 0 < c_MaxRetryAfter cfg"

lemma fill_config_good: "good_config (fill_config cfg)"
  by (simp add: good_config_def fill_config_positive)

section \<open>The seat invariant\<close>

definition seat_ok :: "TrackerConfig \<Rightarrow> modelState \<Rightarrow> bool" where
  "seat_ok cfg st \<longleftrightarrow>
     (halfOpen st \<longrightarrow> breakerOpen st)
     \<and> 0 \<le> breakerCooldown st \<and> breakerCooldown st \<le> c_MaxRetryAfter cfg
     \<and> 0 \<le> breakerFails st \<and> (\<not> breakerOpen st \<longrightarrow> breakerFails st < c_BreakerTrip cfg \<and> breakerCooldown st = 0)
     \<and> 0 \<le> pollFails st
     \<and> (pollState st = Unavailable \<longrightarrow> c_DownAfter cfg \<le> pollFails st)
     \<and> (pollState st \<noteq> Unavailable \<longrightarrow> pollFails st < c_DownAfter cfg)
     \<and> pollState st \<in> {Available, Unavailable, Unknown}
     \<and> (confirmed st \<longrightarrow> probe st \<and> probeErr st = [])
     \<and> (pollState st = Available \<and> probe st \<longrightarrow> warmingSince st \<noteq> None)
     \<and> (absent st \<longleftrightarrow> absentReason st \<noteq> [])"

lemma new_seat_ok: "good_config cfg \<Longrightarrow> seat_ok cfg (new_seat cfg now i)"
  by (simp add: seat_ok_def new_seat_def good_config_def)

lemma enterWarming_simps [simp]:
  "pollState (enterWarming now why st) = pollState st" "breakerOpen (enterWarming now why st) = breakerOpen st"
  "probe (enterWarming now why st) = probe st" "confirmed (enterWarming now why st) = False"
  by (simp_all add: enterWarming_def)

lemma observe_seat_ok: "good_config cfg \<Longrightarrow> seat_ok cfg st \<Longrightarrow> seat_ok cfg (observe_seat cfg now ok reason st)"
  by (cases ok; cases "pollState st = Unavailable"; cases "pollState st = Available"; cases "probe st")
     (simp_all add: seat_ok_def observe_seat_def enterWarming_def Let_def good_config_def)

text \<open>The four ways \<open>ReportFailure\<close> ends.\<close>

lemma fail_seat_demote:
  "probe st \<Longrightarrow> isWarmingSignal (map_option fst err) \<Longrightarrow> confirmed st \<or> probeErr st = [] \<Longrightarrow>
     fail_seat cfg now err st =
       (enterWarming now (error_text err) st)\<lparr>probeFails := 1, probeNextAt := Some (now + backoff 1)\<rparr>"
  by (simp add: fail_seat_def)

lemma fail_seat_already_warming:
  "probe st \<Longrightarrow> isWarmingSignal (map_option fst err) \<Longrightarrow> \<not> confirmed st \<Longrightarrow> probeErr st \<noteq> [] \<Longrightarrow>
     fail_seat cfg now err st = st"
  by (simp add: fail_seat_def)

abbreviation counts_to_breaker :: "go_error option \<Rightarrow> modelState \<Rightarrow> bool" where
  "counts_to_breaker err st \<equiv> \<not> (probe st \<and> isWarmingSignal (map_option fst err))"

lemma fail_seat_counted:
  "counts_to_breaker err st \<Longrightarrow> \<not> (breakerOpen st \<and> halfOpen st) \<Longrightarrow> retryAfterOf cfg err = 0 \<Longrightarrow>
     breakerOpen st \<or> breakerFails st + 1 < c_BreakerTrip cfg \<Longrightarrow>
     fail_seat cfg now err st = st\<lparr>halfOpen := False, breakerFails := breakerFails st + 1\<rparr>"
  unfolding fail_seat_def Let_def by (simp only: if_False) auto

lemma fail_seat_opens:
  "counts_to_breaker err st \<Longrightarrow>
     (breakerOpen st \<and> halfOpen st) \<or> retryAfterOf cfg err \<noteq> 0
     \<or> (\<not> breakerOpen st \<and> c_BreakerTrip cfg \<le> breakerFails st + 1) \<Longrightarrow>
     fail_seat cfg now err st =
       st\<lparr>halfOpen := False, breakerFails := breakerFails st + 1, breakerOpen := True,
          breakerOpenedAt := now, breakerCooldown := retryAfterOf cfg err\<rparr>"
  by (auto simp: fail_seat_def Let_def)

lemma fail_seat_ok:
  assumes g: "good_config cfg" and st: "seat_ok cfg st"
  shows "seat_ok cfg (fail_seat cfg now err st)"
proof (cases "counts_to_breaker err st")
  case False
  then show ?thesis
    using st by (cases "confirmed st \<or> probeErr st = []")
      (auto simp: fail_seat_demote fail_seat_already_warming seat_ok_def enterWarming_def)
next
  case c: True
  have "0 < c_MaxRetryAfter cfg" using g by (simp add: good_config_def)
  note after = retryAfterOf_bounds[OF this, of err]
  show ?thesis
  proof (cases "(breakerOpen st \<and> halfOpen st) \<or> retryAfterOf cfg err \<noteq> 0
     \<or> (\<not> breakerOpen st \<and> c_BreakerTrip cfg \<le> breakerFails st + 1)")
    case True
    show ?thesis unfolding fail_seat_opens[OF c True] using st after by (simp add: seat_ok_def)
  next
    case False
    then have "fail_seat cfg now err st = st\<lparr>halfOpen := False, breakerFails := breakerFails st + 1\<rparr>"
      using c by (intro fail_seat_counted) auto
    moreover from False have "\<not> breakerOpen st \<longrightarrow> breakerFails st + 1 < c_BreakerTrip cfg" by auto
    ultimately show ?thesis using st by (simp add: seat_ok_def)
  qed
qed

lemma success_seat_ok: "good_config cfg \<Longrightarrow> seat_ok cfg st \<Longrightarrow> seat_ok cfg (success_seat st)"
  by (simp add: seat_ok_def success_seat_def Let_def good_config_def)

lemma probe_seat_ok: "probe st \<Longrightarrow> seat_ok cfg st \<Longrightarrow> seat_ok cfg (probe_seat now err st)"
  by (auto simp: seat_ok_def probe_seat_def)

lemma touch_seat_ok: "seat_ok cfg st \<Longrightarrow> seat_ok cfg (touch_state a now st)"
  by (auto simp: seat_ok_def touch_state_def)

lemma verdict_seat_ok: "seat_ok cfg st \<Longrightarrow> seat_ok cfg (snd (seat_verdict cfg polled now st))"
  by (auto simp: seat_ok_def seat_verdict_seat)

definition tracker_ok :: "Tracker \<Rightarrow> bool" where
  "tracker_ok t \<longleftrightarrow> good_config (t_cfg t) \<and>
     (\<forall>i st. lookup (t_models t) i = Some st \<longrightarrow> seat_ok (t_cfg t) st)"

lemma tracker_okD: "tracker_ok t \<Longrightarrow> lookup (t_models t) i = Some st \<Longrightarrow> seat_ok (t_cfg t) st"
  by (auto simp: tracker_ok_def)

lemma stateFor_ok: "tracker_ok t \<Longrightarrow> seat_ok (t_cfg t) (stateFor t now i)"
  by (auto simp: tracker_ok_def stateFor_def new_seat_ok split: option.splits)

lemma set_seat_ok: "tracker_ok t \<Longrightarrow> seat_ok (t_cfg t) st \<Longrightarrow> tracker_ok (set_seat i st t)"
  by (auto simp: tracker_ok_def)

lemma tracker_ok_config: "tracker_ok t \<Longrightarrow> good_config (t_cfg t)"
  by (simp add: tracker_ok_def)

lemma applyObservation_ok: "tracker_ok t \<Longrightarrow> tracker_ok (applyObservation now i ok reason t)"
  by (simp add: applyObservation_def set_seat_ok observe_seat_ok stateFor_ok tracker_ok_config)

lemma ReportFailure_ok: "tracker_ok t \<Longrightarrow> tracker_ok (ReportFailure now i err t)"
  by (simp add: ReportFailure_def set_seat_ok fail_seat_ok stateFor_ok tracker_ok_config)

lemma ReportSuccess_ok: "tracker_ok t \<Longrightarrow> tracker_ok (ReportSuccess i t)"
  using tracker_okD[of t i]
  by (simp add: ReportSuccess_def set_seat_ok success_seat_ok tracker_ok_config split: option.split)

lemma applyProbe_ok: "tracker_ok t \<Longrightarrow> tracker_ok (applyProbe now r t)"
  using tracker_okD[of t "pr_id r"]
  by (simp add: applyProbe_def set_seat_ok probe_seat_ok split: option.split)

lemma query_ok: "tracker_ok t \<Longrightarrow> tracker_ok (snd (stateLocked now i t))"
  using tracker_okD[of t i] verdict_seat_ok[of "t_cfg t"]
  by (simp add: stateLocked_def case_prod_beta Let_def set_seat_ok split: option.split)

section \<open>What one report does\<close>

lemma lookup_ReportFailure:
  "lookup (t_models (ReportFailure now i err t)) j =
     (if j = i then Some (fail_seat (t_cfg t) now err (stateFor t now i)) else lookup (t_models t) j)"
  by (simp add: ReportFailure_def)

lemma lookup_ReportSuccess:
  "lookup (t_models (ReportSuccess i t)) j =
     (if j = i then map_option success_seat (lookup (t_models t) i) else lookup (t_models t) j)"
  by (simp add: ReportSuccess_def split: option.split)

lemma lookup_applyObservation:
  "lookup (t_models (applyObservation now i ok reason t)) j =
     (if j = i then Some (observe_seat (t_cfg t) now ok reason (stateFor t now i)) else lookup (t_models t) j)"
  by (simp add: applyObservation_def)

lemma lookup_applyProbe:
  "lookup (t_models (applyProbe now r t)) j =
     (if j = pr_id r then
        map_option (\<lambda>st. if probeSeq st \<noteq> pr_seq r \<or> \<not> probe st then st else probe_seat now (pr_err r) st)
          (lookup (t_models t) j)
      else lookup (t_models t) j)"
  by (simp add: applyProbe_def split: option.split)

lemma report_cfg [simp]:
  "t_cfg (ReportFailure now i err t) = t_cfg t" "t_polled (ReportFailure now i err t) = t_polled t"
  "t_discovered (ReportFailure now i err t) = t_discovered t"
  "t_cfg (ReportSuccess i t) = t_cfg t" "t_polled (ReportSuccess i t) = t_polled t"
  "t_discovered (ReportSuccess i t) = t_discovered t"
  "t_cfg (applyObservation now i ok reason t) = t_cfg t"
  "t_polled (applyObservation now i ok reason t) = t_polled t"
  "t_inv (applyObservation now i ok reason t) = t_inv t"
  "t_discovered (applyObservation now i ok reason t) = t_discovered t"
  "t_nodes (applyObservation now i ok reason t) = t_nodes t"
  "t_cfg (applyProbe now r t) = t_cfg t" "t_inv (applyProbe now r t) = t_inv t"
  "t_discovered (applyProbe now r t) = t_discovered t"
  by (simp_all add: ReportFailure_def ReportSuccess_def applyObservation_def applyProbe_def
      split: option.split)

text \<open>A seat the breaker has just opened is out exactly until its cooldown ends.\<close>

lemma opened_seat_routable:
  "seat_routable cfg now2
     (st\<lparr>halfOpen := b, breakerFails := n, breakerOpen := True, breakerOpenedAt := now, breakerCooldown := d\<rparr>)
   \<longleftrightarrow> now + (if d > 0 then d else c_BreakerCooldown cfg) \<le> now2"
  by (simp add: seat_routable_def cooldownOf_def)

abbreviation fail_run :: "TrackerConfig \<Rightarrow> (time \<times> go_error) list \<Rightarrow> modelState \<Rightarrow> modelState" where
  "fail_run cfg fs st \<equiv> fold (\<lambda>(now, e). fail_seat cfg now (Some e)) fs st"

definition plain_failure :: "TrackerConfig \<Rightarrow> bool \<Rightarrow> go_error \<Rightarrow> bool" where
  "plain_failure cfg probed e \<longleftrightarrow>
     \<not> (probed \<and> isWarmingSignal (Some (fst e))) \<and> retryAfterOf cfg (Some e) = 0"

lemma fail_run_below:
  "\<not> breakerOpen st \<Longrightarrow> list_all (\<lambda>(now, e). plain_failure cfg (probe st) e) fs \<Longrightarrow>
     breakerFails st + int (length fs) < c_BreakerTrip cfg \<Longrightarrow>
     fail_run cfg fs st = st\<lparr>halfOpen := (if fs = [] then halfOpen st else False),
                            breakerFails := breakerFails st + int (length fs)\<rparr>"
proof (induction fs arbitrary: st)
  case Nil
  then show ?case by simp
next
  case (Cons f fs)
  obtain now e where f: "f = (now, e)" by (rule prod.exhaust)
  have one: "fail_seat cfg now (Some e) st = st\<lparr>halfOpen := False, breakerFails := breakerFails st + 1\<rparr>"
    using Cons.prems by (intro fail_seat_counted) (auto simp: f plain_failure_def)
  show ?case
    using Cons.prems by (simp add: f one Cons.IH)
qed

lemma lookup_fail_run:
  "lookup (t_models t) i = Some st \<Longrightarrow>
     lookup (t_models (fold (\<lambda>(now, e). ReportFailure now i (Some e)) fs t)) i
       = Some (fail_run (t_cfg t) fs st)
     \<and> t_cfg (fold (\<lambda>(now, e). ReportFailure now i (Some e)) fs t) = t_cfg t"
proof (induction fs arbitrary: t st)
  case (Cons f fs)
  obtain now e where f: "f = (now, e)" by (rule prod.exhaust)
  have "lookup (t_models (ReportFailure now i (Some e) t)) i = Some (fail_seat (t_cfg t) now (Some e) st)"
    using Cons.prems by (simp add: lookup_ReportFailure stateFor_def)
  from Cons.IH[OF this] show ?case by (simp add: f)
qed simp

section \<open>Properties\<close>

text \<open>A model is routable exactly when nothing has been recorded about it; or its breaker is open
  and the cooldown of this opening is over; or its breaker is closed, the node poll has not marked it
  down, its base's listing does not lack it, and, for a seat that is listed up and has a generation
  probe, a generation has succeeded since it came up.\<close>

theorem routable_exactly:
  "fst (Routable now i t) =
     (case lookup (t_models t) i of
        None \<Rightarrow> True
      | Some st \<Rightarrow>
          if breakerOpen st
          then breakerOpenedAt st
               + (if breakerCooldown st > 0 then breakerCooldown st else c_BreakerCooldown (t_cfg t)) \<le> now
          else pollState st \<noteq> Unavailable \<and> \<not> absent st
               \<and> \<not> (pollState st = Available \<and> probe st \<and> \<not> confirmed st))"
  by (simp add: fst_Routable seat_routable_def cooldownOf_def split: option.split)

text \<open>Failures that carry no Retry-After and are not a probed seat's warming signal leave a closed
  breaker closed, and the model as routable as it was, until the configured number of them has come in
  a row; the failure that completes the run takes the model out for exactly the configured cooldown.\<close>

theorem breaker_trips_exactly:
  assumes "lookup (t_models t) i = Some st" and "\<not> breakerOpen st" and "breakerFails st = 0"
    and plain: "list_all (\<lambda>(now, e). plain_failure (t_cfg t) (probe st) e) (fs @ [(tm, e)])"
    and "int (length fs) + 1 = c_BreakerTrip (t_cfg t)" and "now < tm + c_BreakerCooldown (t_cfg t)"
  defines "t1 \<equiv> fold (\<lambda>(now, e). ReportFailure now i (Some e)) fs t"
  defines "t2 \<equiv> ReportFailure tm i (Some e) t1"
  shows "fst (Routable now i t1) = fst (Routable now i t)
       \<and> \<not> fst (Routable now i t2)
       \<and> fst (Routable (tm + c_BreakerCooldown (t_cfg t)) i t2)"
proof -
  let ?cfg = "t_cfg t"
  let ?s1 = "st\<lparr>halfOpen := (if fs = [] then halfOpen st else False), breakerFails := int (length fs)\<rparr>"
  have t1: "lookup (t_models t1) i = Some ?s1" "t_cfg t1 = ?cfg"
    using lookup_fail_run[OF assms(1), of fs] fail_run_below[of st ?cfg fs] assms
    by (auto simp: t1_def)
  have p: "plain_failure ?cfg (probe st) e" using plain by simp
  have "fail_seat ?cfg tm (Some e) ?s1 =
      ?s1\<lparr>halfOpen := False, breakerFails := breakerFails ?s1 + 1, breakerOpen := True,
          breakerOpenedAt := tm, breakerCooldown := retryAfterOf ?cfg (Some e)\<rparr>"
    using p assms by (intro fail_seat_opens) (auto simp: plain_failure_def)
  then have t2: "lookup (t_models t2) i = Some (?s1\<lparr>halfOpen := False, breakerFails := breakerFails ?s1 + 1,
      breakerOpen := True, breakerOpenedAt := tm, breakerCooldown := 0\<rparr>)" "t_cfg t2 = ?cfg"
    using p t1 by (simp_all add: t2_def lookup_ReportFailure stateFor_Some plain_failure_def)
  show ?thesis
    using assms(1,2,6) by (simp add: fst_Routable t1 t2 seat_routable_def cooldownOf_def)
qed

text \<open>A failure that carries the upstream's own Retry-After takes the model out at once, for that
  long capped at the configured maximum, whatever the breaker's state was: it is routable again from
  that instant on and at no earlier one.\<close>

theorem retry_after_honoured:
  assumes "0 < after" and "0 < c_MaxRetryAfter (t_cfg t)"
    and "\<not> (probe (stateFor t now i) \<and> status = 503)"
  shows "fst (Routable now2 i (ReportFailure now i (Some (UpstreamStatus status after, txt)) t))
       \<longleftrightarrow> now + min after (c_MaxRetryAfter (t_cfg t)) \<le> now2"
proof -
  let ?cfg = "t_cfg t" and ?e = "Some (UpstreamStatus status after, txt)" and ?st = "stateFor t now i"
  have ra: "retryAfterOf ?cfg ?e = min after (c_MaxRetryAfter ?cfg)"
    using assms(1) by (simp add: retryAfterOf_def errRetryAfter_def)
  have "fail_seat ?cfg now ?e ?st = ?st\<lparr>halfOpen := False, breakerFails := breakerFails ?st + 1,
      breakerOpen := True, breakerOpenedAt := now, breakerCooldown := retryAfterOf ?cfg ?e\<rparr>"
    using assms by (intro fail_seat_opens) (auto simp: isWarmingSignal_def ra)
  then show ?thesis
    using assms(1,2) by (simp add: fst_Routable lookup_ReportFailure opened_seat_routable ra)
qed

text \<open>A failed trial reopens the breaker: when a seat whose cooldown is over has been asked about
  (and so is half-open) and the request then fails, the seat is out for a fresh cooldown counted from
  that failure, the upstream's own if it named one.\<close>

theorem failed_trial_reopens:
  assumes "lookup (t_models t) i = Some st" and "breakerOpen st"
    and "breakerOpenedAt st + cooldownOf (t_cfg t) st \<le> asked" and "good_config (t_cfg t)"
    and "counts_to_breaker err st"
  shows "fst (Routable now2 i (ReportFailure now i err (snd (Routable asked i t))))
       \<longleftrightarrow> now + (if retryAfterOf (t_cfg t) err > 0 then retryAfterOf (t_cfg t) err
                  else c_BreakerCooldown (t_cfg t)) \<le> now2"
proof -
  let ?cfg = "t_cfg t" and ?h = "st\<lparr>halfOpen := True\<rparr>"
  have "lookup (t_models (snd (Routable asked i t))) i = Some ?h"
    using assms by (simp add: lookup_after_query seat_verdict_seat)
  moreover have "fail_seat ?cfg now err ?h = ?h\<lparr>halfOpen := False, breakerFails := breakerFails ?h + 1,
      breakerOpen := True, breakerOpenedAt := now, breakerCooldown := retryAfterOf ?cfg err\<rparr>"
    using assms by (intro fail_seat_opens) auto
  ultimately show ?thesis
    by (simp add: fst_Routable lookup_ReportFailure stateFor_Some opened_seat_routable)
qed

text \<open>While the breaker is open and no trial is under way, a further failure without a Retry-After
  does not extend the cooldown: requests already in flight when the breaker opened cannot push the
  recovery out.\<close>

theorem late_failures_do_not_extend:
  assumes "lookup (t_models t) i = Some st" and "breakerOpen st" and "\<not> halfOpen st"
    and "plain_failure (t_cfg t) (probe st) e"
  shows "fst (Routable now2 i (ReportFailure now i (Some e) t)) = fst (Routable now2 i t)"
proof -
  have "fail_seat (t_cfg t) now (Some e) st = st\<lparr>halfOpen := False, breakerFails := breakerFails st + 1\<rparr>"
    using assms by (intro fail_seat_counted) (auto simp: plain_failure_def)
  then show ?thesis
    using assms(1,2)
    by (simp add: fst_Routable lookup_ReportFailure stateFor_Some seat_routable_def cooldownOf_def)
qed

text \<open>A running tracker over the small registry, for the witnesses: seat \<open>q\<close> is up and confirmed.\<close>

definition cfg_small :: TrackerConfig where
  "cfg_small = fill_config
     \<lparr>c_Registry = Some reg_small, c_Interval = 0, c_DownAfter = 0, c_BreakerTrip = 0, c_BreakerCooldown = 0,
      c_MaxRetryAfter = 0, c_DisableGenerationProbe = False, c_ProbeTimeout = 0, c_ProbeFilter = None,
      c_Getenv = (\<lambda>k. ''secret''), c_InventoryInterval = 0, c_InventoryTimeout = 0,
      c_DisableInventory = False,
      c_LocalTime = (\<lambda>t. \<lparr>t_Weekday = 0, t_Hour = 0, t_Minute = 0\<rparr>)\<rparr>"

definition seat_up :: modelState where
  "seat_up = (new_seat cfg_small 0 ''q'')\<lparr>pollState := Available, confirmed := True, warmingSince := Some 0\<rparr>"

definition tracker_up :: Tracker where
  "tracker_up = \<lparr>t_cfg = cfg_small, t_models = [(''q'', seat_up)], t_nodes = [], t_polled = True,
                 t_inv = [], t_discovered = [], t_reserved = []\<rparr>"

lemma probe_q: "probe (new_seat cfg_small now ''q'')" by code_simp

lemma cfg_small_simps [simp]:
  "c_BreakerTrip cfg_small = 3" "c_BreakerCooldown cfg_small = 60 * second" "c_DownAfter cfg_small = 2"
  "c_MaxRetryAfter cfg_small = 600 * second" "c_Registry cfg_small = Some reg_small"
  "\<not> c_DisableGenerationProbe cfg_small" "\<not> c_DisableInventory cfg_small" "c_ProbeFilter cfg_small = None"
  by (simp_all add: cfg_small_def fill_config_def DefaultBreakerTrip_def DefaultBreakerCooldown_def
      DefaultDownAfter_def DefaultMaxRetryAfter_def)

lemma seat_up_simps [simp]:
  "pollState seat_up = Available" "confirmed seat_up" "probe seat_up" "\<not> breakerOpen seat_up"
  "breakerFails seat_up = 0" "\<not> halfOpen seat_up" "\<not> absent seat_up" "probeErr seat_up = []"
  "breakerCooldown seat_up = 0"
  using probe_q[of 0] by (simp_all add: seat_up_def new_seat_def)

lemma tracker_up_simps [simp]:
  "t_cfg tracker_up = cfg_small" "lookup (t_models tracker_up) i = (if i = ''q'' then Some seat_up else None)"
  "t_polled tracker_up"
  by (simp_all add: tracker_up_def)

lemma cfg_small_good: "good_config cfg_small"
  by (simp add: good_config_def)

definition transport_failure :: go_error where
  "transport_failure = (OtherErr ''EOF'', ''EOF'')"

lemma transport_plain: "plain_failure cfg p transport_failure"
  by (simp add: plain_failure_def transport_failure_def isWarmingSignal_def retryAfterOf_def errRetryAfter_def)

theorem breaker_trips_exactly_witness:
  "\<not> fst (Routable (40 * second) ''q'' (ReportFailure (3 * second) ''q'' (Some transport_failure)
       (fold (\<lambda>(now, e). ReportFailure now ''q'' (Some e))
          [(1 * second, transport_failure), (2 * second, transport_failure)] tracker_up)))"
  using breaker_trips_exactly[of tracker_up "''q''" seat_up
      "[(1 * second, transport_failure), (2 * second, transport_failure)]" "3 * second" transport_failure
      "40 * second"]
  by (simp add: transport_plain)

theorem retry_after_honoured_witness:
  "\<not> fst (Routable (35 * second) ''or/glm''
       (ReportFailure (5 * second) ''or/glm'' (Some (UpstreamStatus 429 (31 * second), ''429'')) tracker_up))
   \<and> fst (Routable (36 * second) ''or/glm''
       (ReportFailure (5 * second) ''or/glm'' (Some (UpstreamStatus 429 (31 * second), ''429'')) tracker_up))"
  using retry_after_honoured[of "31 * second" tracker_up "5 * second" "''or/glm''" 429 "35 * second" "''429''"]
    retry_after_honoured[of "31 * second" tracker_up "5 * second" "''or/glm''" 429 "36 * second" "''429''"]
  by (simp only: tracker_up_simps cfg_small_simps) (simp add: min_def)

definition seat_tripped :: modelState where
  "seat_tripped = seat_up\<lparr>breakerFails := 3, breakerOpen := True, breakerOpenedAt := 10 * second\<rparr>"

definition tracker_tripped :: Tracker where
  "tracker_tripped = set_seat ''q'' seat_tripped tracker_up"

lemma tracker_tripped_simps [simp]:
  "t_cfg tracker_tripped = cfg_small"
  "lookup (t_models tracker_tripped) i = (if i = ''q'' then Some seat_tripped else None)"
  by (simp_all add: tracker_tripped_def)

theorem failed_trial_reopens_witness:
  "\<not> fst (Routable (130 * second) ''q''
       (ReportFailure (71 * second) ''q'' (Some transport_failure) (snd (Routable (70 * second) ''q'' tracker_tripped))))"
  using failed_trial_reopens[of tracker_tripped "''q''" seat_tripped "70 * second" "Some transport_failure"
      "130 * second" "71 * second"] transport_plain[of cfg_small True]
  by (simp add: seat_tripped_def cooldownOf_def cfg_small_good plain_failure_def)

theorem late_failures_do_not_extend_witness:
  "fst (Routable (70 * second) ''q'' (ReportFailure (69 * second) ''q'' (Some transport_failure) tracker_tripped))
     = fst (Routable (70 * second) ''q'' tracker_tripped)"
  by (rule late_failures_do_not_extend[of _ _ seat_tripped])
     (simp_all add: seat_tripped_def transport_plain)

text \<open>Success ends an outage of the breaker: after a served request the model's breaker is closed
  with no failures counted, a warming seat is confirmed, and so the model is routable exactly when the
  poll has not marked it down and its base lists it.\<close>

theorem success_restores:
  assumes "lookup (t_models t) i = Some st"
  shows "fst (Routable now i (ReportSuccess i t)) \<longleftrightarrow> pollState st \<noteq> Unavailable \<and> \<not> absent st"
  using assms
  by (auto simp: fst_Routable lookup_ReportSuccess seat_routable_def success_seat_def Let_def)

theorem success_restores_witness:
  "fst (Routable (11 * second) ''q'' (ReportSuccess ''q'' tracker_tripped))"
  using success_restores[of tracker_tripped "''q''" seat_tripped "11 * second"]
  by (simp add: seat_tripped_def)

text \<open>A probed seat whose served request hit a 503 or a refused connection goes back to warming:
  with its breaker closed it is not routable, its breaker is untouched, its next probe is due five
  seconds later and no earlier, and a probe launched before the demotion can no longer confirm it.\<close>

theorem reloading_seat_is_demoted:
  fixes now :: time
  assumes "lookup (t_models t) i = Some st" and "probe st" and "confirmed st" and "\<not> breakerOpen st"
    and "pollState st = Available" and "isWarmingSignal (Some (fst e))"
  defines "t' \<equiv> ReportFailure now i (Some e) t"
  shows "\<not> fst (Routable now2 i t')
       \<and> (\<exists>st'. lookup (t_models t') i = Some st' \<and> breakerFails st' = breakerFails st
             \<and> \<not> breakerOpen st' \<and> (probe_due now2 st' \<longleftrightarrow> now + 5 * second \<le> now2))
       \<and> applyProbe now2 \<lparr>pr_id = i, pr_seq = probeSeq st, pr_err = err\<rparr> t' = t'"
proof -
  have b: "backoff 1 = 5 * second"
    by (simp add: backoff_def probeBackoff_def probeBackoffBase_def probeBackoffCap_def Let_def)
  have d: "fail_seat (t_cfg t) now (Some e) st =
      (enterWarming now (snd e) st)\<lparr>probeFails := 1, probeNextAt := Some (now + 5 * second)\<rparr>"
    using fail_seat_demote[of st "Some e" "t_cfg t" now] assms
    by (cases e) (simp add: b error_text_def)
  have l: "lookup (t_models t') i = Some (fail_seat (t_cfg t) now (Some e) st)"
    using assms by (simp add: t'_def lookup_ReportFailure stateFor_Some)
  have "probeSeq st + 1 \<noteq> probeSeq st" by simp
  then show ?thesis
    using assms(2,4,5)
    by (auto simp: fst_Routable l d seat_routable_def probe_due_def applyProbe_def enterWarming_def)
qed

theorem reloading_seat_is_demoted_witness:
  "\<not> fst (Routable (9 * second) ''q''
        (ReportFailure (1 * second) ''q'' (Some (UpstreamStatus 503 0, ''503'')) tracker_up))"
  using reloading_seat_is_demoted[of tracker_up "''q''" seat_up "(UpstreamStatus 503 0, ''503'')"
      "9 * second" "1 * second" None]
  by (simp add: isWarmingSignal_def)

text \<open>A half-open breaker does not admit one trial only: once the cooldown is over, every question
  about the model is answered routable, however many have been asked before, until an outcome is
  reported.\<close>

theorem half_open_admits_every_request:
  assumes "lookup (t_models t) i = Some st" and "breakerOpen st"
    and "list_all (\<lambda>tm. breakerOpenedAt st + cooldownOf (t_cfg t) st \<le> tm) (tms @ [now])"
  shows "fst (Routable now i (fold (\<lambda>tm s. snd (Routable tm i s)) tms t))"
proof -
  have "fst (Routable now i (fold (\<lambda>tm s. snd (Routable tm i s)) tms t)) = fst (Routable now i t)"
    by (induction tms arbitrary: t) (simp_all add: query_keeps_verdicts)
  also have "\<dots>" using assms by (simp add: fst_Routable seat_routable_def)
  finally show ?thesis by blast
qed

theorem half_open_admits_every_request_witness:
  "fst (Routable (72 * second) ''q''
     (fold (\<lambda>tm s. snd (Routable tm ''q'' s)) [70 * second, 71 * second] tracker_tripped))"
  by (rule half_open_admits_every_request[of _ _ seat_tripped])
     (simp_all add: seat_tripped_def cooldownOf_def)

lemma observe_run_below:
  "pollState st = Available \<Longrightarrow> pollFails st + int (length rs) < c_DownAfter cfg \<Longrightarrow>
     \<exists>why. fold (\<lambda>(now, r). observe_seat cfg now False r) rs st
       = st\<lparr>pollFails := pollFails st + int (length rs), pollReason := why\<rparr>"
proof (induction rs arbitrary: st)
  case Nil
  show ?case by (rule exI[of _ "pollReason st"]) simp
next
  case (Cons x rs)
  obtain now r where x: "x = (now, r)" by (rule prod.exhaust)
  have one: "observe_seat cfg now False r st = st\<lparr>pollFails := pollFails st + 1, pollReason := r\<rparr>"
    using Cons.prems by (simp add: observe_seat_def)
  obtain why where "fold (\<lambda>(now, r). observe_seat cfg now False r) rs
        (st\<lparr>pollFails := pollFails st + 1, pollReason := r\<rparr>)
      = (st\<lparr>pollFails := pollFails st + 1, pollReason := r\<rparr>)
          \<lparr>pollFails := pollFails st + 1 + int (length rs), pollReason := why\<rparr>"
    using Cons.IH[of "st\<lparr>pollFails := pollFails st + 1, pollReason := r\<rparr>"] Cons.prems by auto
  then show ?case by (intro exI[of _ why]) (simp add: x one)
qed

lemma lookup_observe_run:
  "lookup (t_models t) i = Some st \<Longrightarrow>
     lookup (t_models (fold (\<lambda>(now, r). applyObservation now i False r) rs t)) i
       = Some (fold (\<lambda>(now, r). observe_seat (t_cfg t) now False r) rs st)
     \<and> t_cfg (fold (\<lambda>(now, r). applyObservation now i False r) rs t) = t_cfg t"
proof (induction rs arbitrary: t st)
  case (Cons x rs)
  obtain now r where x: "x = (now, r)" by (rule prod.exhaust)
  have "lookup (t_models (applyObservation now i False r t)) i = Some (observe_seat (t_cfg t) now False r st)"
    using Cons.prems by (simp add: lookup_applyObservation stateFor_Some)
  from Cons.IH[OF this] show ?case by (simp add: x)
qed simp

text \<open>Hysteresis of the poll: fewer than the configured number of failed rounds in a row never
  change whether a listed model is routable, the round that completes the number takes it out, and one
  good round then brings it back at once, to warming if it has a generation probe.\<close>

theorem poll_hysteresis:
  fixes now1 now2 now :: time and why :: string
  assumes "lookup (t_models t) i = Some st" and "pollState st = Available" and "pollFails st = 0"
    and "\<not> breakerOpen st" and "int (length rs) + 1 = c_DownAfter (t_cfg t)"
  defines "t1 \<equiv> fold (\<lambda>(now, r). applyObservation now i False r) rs t"
  defines "t2 \<equiv> applyObservation now1 i False why t1"
  defines "t3 \<equiv> applyObservation now2 i True [] t2"
  shows "fst (Routable now i t1) = fst (Routable now i t)
       \<and> \<not> fst (Routable now i t2)
       \<and> (fst (Routable now i t3) \<longleftrightarrow> \<not> absent st \<and> \<not> probe st)"
proof -
  let ?cfg = "t_cfg t"
  have "pollFails st + int (length rs) < c_DownAfter ?cfg" using assms by simp
  from observe_run_below[OF assms(2) this] obtain w where
    run: "fold (\<lambda>(now, r). observe_seat ?cfg now False r) rs st
            = st\<lparr>pollFails := int (length rs), pollReason := w\<rparr>"
    using assms(3) by auto
  let ?s1 = "st\<lparr>pollFails := int (length rs), pollReason := w\<rparr>"
  have t1: "lookup (t_models t1) i = Some ?s1" "t_cfg t1 = ?cfg"
    using lookup_observe_run[OF assms(1), of rs] run by (simp_all add: t1_def)
  let ?s2 = "st\<lparr>pollFails := int (length rs) + 1, pollReason := why, pollState := Unavailable\<rparr>"
  have "observe_seat ?cfg now1 False why ?s1 = ?s2"
    using assms(2,5) by (simp add: observe_seat_def)
  then have t2: "lookup (t_models t2) i = Some ?s2" "t_cfg t2 = ?cfg"
    using t1 by (simp_all add: t2_def lookup_applyObservation stateFor_Some)
  have t3: "lookup (t_models t3) i = Some (observe_seat ?cfg now2 True [] ?s2)"
    using t2 by (simp add: t3_def lookup_applyObservation stateFor_Some)
  show ?thesis
    using assms(1,2,4)
    by (auto simp: fst_Routable t1 t2 t3 seat_routable_def cooldownOf_def observe_seat_def enterWarming_def Let_def)
qed

theorem poll_hysteresis_witness:
  "fst (Routable 0 ''q'' (applyObservation 0 ''q'' False ''node'' tracker_up))
   \<and> \<not> fst (Routable 0 ''q'' (applyObservation 1 ''q'' False ''node'' (applyObservation 0 ''q'' False ''node'' tracker_up)))"
  using poll_hysteresis[of tracker_up "''q''" seat_up "[(0, ''node'')]" 0 1 "''node''" 2]
  by (simp add: fst_Routable seat_routable_def seat_up_def new_seat_def)

text \<open>A poll round says yes to a model exactly when every node it needs is in the registry's round
  and reachable, and the agent that speaks for it (the head's for a multi-node model, its node's
  otherwise) does not list it in a state other than running; a nodeless model is always said yes to.\<close>

theorem observation_exactly:
  "fst (observeModel i m snaps) =
     list_all (\<lambda>n. case lookup snaps n of
                     None \<Rightarrow> False
                   | Some snap \<Rightarrow> sn_Reachable snap
                       \<and> (if modelHead m = [] \<or> n = modelHead m
                          then ModelState snap i \<in> {None, Some StateRunning} else True)) (modelNodes m)"
proof -
  have "fst (observe_nodes i h snaps ns) =
     list_all (\<lambda>n. case lookup snaps n of
                     None \<Rightarrow> False
                   | Some snap \<Rightarrow> sn_Reachable snap
                       \<and> (if h = [] \<or> n = h then ModelState snap i \<in> {None, Some StateRunning} else True)) ns"
    for h ns
    by (induction ns) (auto split: option.splits)
  then show ?thesis by (simp add: observeModel_def Let_def)
qed

text \<open>The probes of a round go, in the order of their ids, to exactly the seats that are listed up,
  not confirmed and past their backoff, each carrying the seat's current warm-up number.\<close>

theorem due_probes_exactly:
  "sorted (map pj_id (dueProbes now t))
   \<and> mset (map (\<lambda>j. (pj_id j, pj_seq j)) (dueProbes now t))
       = (if c_DisableGenerationProbe (t_cfg t) then {#}
          else mset (map (\<lambda>(i, st). (i, probeSeq st))
                 (filter (\<lambda>(i, st). probe st \<and> \<not> confirmed st \<and> pollState st = Available
                    \<and> (case probeNextAt st of None \<Rightarrow> True | Some next \<Rightarrow> next \<le> now)) (t_models t))))"
proof -
  have "probe_due now st \<longleftrightarrow> probe st \<and> \<not> confirmed st \<and> pollState st = Available
      \<and> (case probeNextAt st of None \<Rightarrow> True | Some next \<Rightarrow> next \<le> now)" for st
    by (auto simp: probe_due_def split: option.split)
  then show ?thesis
    by (simp add: dueProbes_def case_prod_unfold comp_def multiset.map_comp)
qed

end
