(* ===== verification/Inventory.thy ===== *)
theory Inventory
  imports Tracker
begin

text \<open>
  \<^verbatim>\<open>internal/health/inventory.go\<close> and the parts of \<^verbatim>\<open>tracker.go\<close> that tie the tracker together
  (\<open>NewTracker\<close>, \<open>PollOnce\<close>). The inventory keeps one record per distinct upstream root with the last
  listing the root answered, marks registry members absent that their root does not list, and adopts
  and retires discovered entries.

  Listing fetches run on their own and each is applied under the lock when it lands, so \<open>startInventory\<close>
  is the interleaving of \<open>applyInventory\<close> with the other operations. The outcome of a fetch is the
  text of an error or the listing; decoding the listing's JSON body is not modelled.
\<close>

definition DiscoveryRetireAfter :: int where "DiscoveryRetireAfter = 2"

definition rootOf :: "string \<Rightarrow> string" where
  "rootOf apiBase = trim_suffix (trim_suffix apiBase ''/'') ''/v1''"

section \<open>The base table\<close>

definition base_of :: "string \<Rightarrow> baseInventory gomap \<Rightarrow> baseInventory" where
  "base_of base tab =
     (case lookup tab base of
        Some b \<Rightarrow> b
      | None \<Rightarrow> \<lparr>b_root = base, b_bearer = [], b_header = [], b_members = [], b_served = [], b_sources = [],
                 b_listing = None, b_fetchedAt = None, b_attemptedAt = None, b_err = [], b_inflight = False\<rparr>)"

text \<open>The three passes of \<open>buildInventory\<close>: members, discovery sources, served names.\<close>

definition add_member ::
    "TrackerConfig \<Rightarrow> ModelRegistry \<Rightarrow> string \<Rightarrow> baseInventory gomap \<Rightarrow> baseInventory gomap" where
  "add_member cfg reg i tab =
     (case lookup (reg_Models reg) i of
        None \<Rightarrow> tab
      | Some m \<Rightarrow>
          if \<not> InventoryEnabled m then tab
          else if (case c_ProbeFilter cfg of None \<Rightarrow> False | Some f \<Rightarrow> \<not> f i) then tab
          else (case APIBase reg i (Some False) of
                  Inl e \<Rightarrow> tab
                | Inr apiBase \<Rightarrow>
                    let base = rootOf apiBase;
                        b = base_of base tab;
                        b1 = b\<lparr>b_members := b_members b @ [i]\<rparr>;
                        b2 = (if b_bearer b1 = [] \<and> m_Backend m = BackendExternal \<and> m_APIKey m \<noteq> []
                              then b1\<lparr>b_bearer := resolveKey (c_Getenv cfg) (m_APIKey m),
                                      b_header := m_APIKeyHeader m\<rparr>
                              else b1)
                    in store base b2 tab))"

definition add_source ::
    "TrackerConfig \<Rightarrow> nat \<times> DiscoverySource \<Rightarrow> baseInventory gomap \<Rightarrow> baseInventory gomap" where
  "add_source cfg p tab =
     (case p of (n, src) \<Rightarrow>
        let base = SourceRoot src;
            b = base_of base tab;
            b1 = b\<lparr>b_sources := b_sources b @ [n]\<rparr>;
            b2 = (if s_APIKey src \<noteq> []
                  then b1\<lparr>b_bearer := resolveKey (c_Getenv cfg) (s_APIKey src), b_header := s_APIKeyHeader src\<rparr>
                  else b1)
        in store base b2 tab)"

definition add_served :: "ModelRegistry \<Rightarrow> string \<Rightarrow> baseInventory gomap \<Rightarrow> baseInventory gomap" where
  "add_served reg i tab =
     (case lookup (reg_Models reg) i of
        None \<Rightarrow> tab
      | Some m \<Rightarrow>
          if IsVirtual m then tab
          else (case APIBase reg i (Some False) of
                  Inl e \<Rightarrow> tab
                | Inr apiBase \<Rightarrow>
                    (case lookup tab (rootOf apiBase) of
                       None \<Rightarrow> tab
                     | Some b \<Rightarrow> store (rootOf apiBase) (b\<lparr>b_served := BackendModelName m # b_served b\<rparr>) tab)))"

definition base_table :: "TrackerConfig \<Rightarrow> ModelRegistry \<Rightarrow> baseInventory gomap" where
  "base_table cfg reg =
     (let ids = sort (map fst (reg_Models reg))
      in fold (add_served reg) ids
           (fold (add_source cfg) (enumerate 0 (reg_Discovery reg))
             (fold (add_member cfg reg) ids [])))"

definition buildInventory :: "Tracker \<Rightarrow> Tracker" where
  "buildInventory t =
     (let t0 = t\<lparr>t_inv := [], t_discovered := [], t_reserved := []\<rparr>
      in case c_Registry (t_cfg t) of
           None \<Rightarrow> t0
         | Some reg \<Rightarrow>
             if c_DisableInventory (t_cfg t) then t0
             else t0\<lparr>t_reserved := ReservedNames reg, t_inv := base_table (t_cfg t) reg\<rparr>)"

definition NewTracker :: "TrackerConfig \<Rightarrow> Tracker" where
  "NewTracker cfg =
     buildInventory \<lparr>t_cfg = fill_config cfg, t_models = [], t_nodes = [], t_polled = False,
                     t_inv = [], t_discovered = [], t_reserved = []\<rparr>"

section \<open>Due fetches\<close>

record invJob =
  ij_root :: string
  ij_bearer :: string
  ij_header :: string

definition inv_due :: "TrackerConfig \<Rightarrow> time \<Rightarrow> baseInventory \<Rightarrow> bool" where
  "inv_due cfg now b \<longleftrightarrow>
     \<not> b_inflight b
     \<and> \<not> (case b_attemptedAt b of None \<Rightarrow> False | Some prev \<Rightarrow> now - prev < c_InventoryInterval cfg)"

definition dueInventory :: "time \<Rightarrow> Tracker \<Rightarrow> invJob list \<times> Tracker" where
  "dueInventory now t =
     (if c_DisableInventory (t_cfg t) then ([], t)
      else (sort_key ij_root
              (map (\<lambda>(base, b). \<lparr>ij_root = base, ij_bearer = b_bearer b, ij_header = b_header b\<rparr>)
                (filter (\<lambda>(base, b). inv_due (t_cfg t) now b) (t_inv t))),
            t\<lparr>t_inv := map (\<lambda>(base, b).
                 (base, if inv_due (t_cfg t) now b then b\<lparr>b_inflight := True, b_attemptedAt := Some now\<rparr> else b))
                 (t_inv t)\<rparr>))"

text \<open>The part of \<open>RefreshInventory\<close> under the lock; the fetches then land like any other.\<close>

definition refreshDue :: "time \<Rightarrow> Tracker \<Rightarrow> invJob list \<times> Tracker" where
  "refreshDue now t =
     dueInventory now
       (t\<lparr>t_inv := map (\<lambda>(base, b). (base, if \<not> b_inflight b then b\<lparr>b_attemptedAt := None\<rparr> else b)) (t_inv t)\<rparr>)"

section \<open>Applying a listing\<close>

definition absentReason_text :: "string \<Rightarrow> string \<Rightarrow> Listing \<Rightarrow> string" where
  "absentReason_text base want l =
     (let reason = quoted want @ '' is not in the live listing at '' @ base
      in if length l = 0 then reason @ '' (it lists nothing)''
         else if length l \<le> 3 then reason @ '' (it serves: '' @ join '', '' (sort (map fst l)) @ '')''
         else reason @ '' ('' @ show_nat (length l) @ '' ids listed)'')"

definition mark_seat :: "string \<Rightarrow> string \<Rightarrow> Listing \<Rightarrow> modelState \<Rightarrow> modelState" where
  "mark_seat base name l st =
     (let listed = (lookup l name \<noteq> None)
      in if \<not> listed \<and> \<not> absent st
         then st\<lparr>absent := True, absentReason := absentReason_text base name l\<rparr>
         else if listed \<and> absent st then st\<lparr>absent := False, absentReason := []\<rparr>
         else st)"

text \<open>A member id is a key of the registry; \<open>reg.Models[id]\<close> of another id is the zero entry.\<close>

definition member_name :: "ModelRegistry \<Rightarrow> string \<Rightarrow> string" where
  "member_name reg i =
     (case lookup (reg_Models reg) i of None \<Rightarrow> [] | Some m \<Rightarrow> BackendModelName m)"

definition mark_member :: "time \<Rightarrow> ModelRegistry \<Rightarrow> string \<Rightarrow> Listing \<Rightarrow> string \<Rightarrow> Tracker \<Rightarrow> Tracker" where
  "mark_member now reg base l i t =
     set_seat i (mark_seat base (member_name reg i) l (stateFor t now i)) t"

definition adopt_one ::
    "time \<Rightarrow> string \<Rightarrow> string list \<Rightarrow> string list \<Rightarrow> nat \<Rightarrow> DiscoverySource
     \<Rightarrow> string \<times> ListedModel \<Rightarrow> discoveredEntry gomap \<Rightarrow> discoveredEntry gomap" where
  "adopt_one now base served reserved n src p disc =
     (case p of (i, lm) \<Rightarrow>
        if \<not> Adopts src i then disc
        else if i \<in> set served then disc
        else
          let full = s_Prefix src @ i in
          if full \<in> set reserved then disc
          else (case lookup disc full of
                  Some e \<Rightarrow> store full (e\<lparr>d_def := Entry src lm, d_misses := 0\<rparr>) disc
                | None \<Rightarrow> store full \<lparr>d_def = Entry src lm, d_root = base, d_source = n, d_misses = 0,
                                      d_firstSeen = now\<rparr> disc))"

definition still_listed :: "DiscoverySource \<Rightarrow> string list \<Rightarrow> Listing \<Rightarrow> string \<Rightarrow> bool" where
  "still_listed src served l full \<longleftrightarrow>
     (let pid = trim_prefix full (s_Prefix src)
      in lookup l pid \<noteq> None \<and> Adopts src pid \<and> pid \<notin> set served)"

definition retire_one ::
    "string list \<Rightarrow> Listing \<Rightarrow> nat \<Rightarrow> DiscoverySource \<Rightarrow> string \<times> discoveredEntry
     \<Rightarrow> (string \<times> discoveredEntry) option" where
  "retire_one served l n src p =
     (case p of (full, e) \<Rightarrow>
        if d_source e \<noteq> n then Some (full, e)
        else if still_listed src served l full then Some (full, e)
        else
          let e' = e\<lparr>d_misses := d_misses e + 1\<rparr>
          in if d_misses e' \<ge> DiscoveryRetireAfter then None else Some (full, e'))"

definition apply_source ::
    "time \<Rightarrow> string \<Rightarrow> string list \<Rightarrow> string list \<Rightarrow> Listing \<Rightarrow> ModelRegistry \<Rightarrow> nat
     \<Rightarrow> discoveredEntry gomap \<Rightarrow> discoveredEntry gomap" where
  "apply_source now base served reserved l reg n disc =
     (let src = reg_Discovery reg ! n;
          disc1 = fold (adopt_one now base served reserved n src) l disc
      in List.map_filter (retire_one served l n src) disc1)"

definition applyInventory :: "time \<Rightarrow> string \<Rightarrow> string + Listing \<Rightarrow> Tracker \<Rightarrow> Tracker" where
  "applyInventory now base res t =
     (case lookup (t_inv t) base of
        None \<Rightarrow> t
      | Some b \<Rightarrow>
          let b0 = b\<lparr>b_inflight := False\<rparr> in
          case res of
            Inl err \<Rightarrow> t\<lparr>t_inv := store base (b0\<lparr>b_err := err\<rparr>) (t_inv t)\<rparr>
          | Inr l \<Rightarrow>
              let t1 = t\<lparr>t_inv := store base (b0\<lparr>b_err := [], b_listing := Some l, b_fetchedAt := Some now\<rparr>) (t_inv t)\<rparr>
              in case c_Registry (t_cfg t) of
                   None \<Rightarrow> t1
                 | Some reg \<Rightarrow>
                     let t2 = fold (mark_member now reg base l) (b_members b) t1
                     in t2\<lparr>t_discovered :=
                          fold (apply_source now base (b_served b) (t_reserved t2) l reg) (b_sources b)
                            (t_discovered t2)\<rparr>)"

section \<open>Views\<close>

definition Discovered :: "Tracker \<Rightarrow> ModelDefinition gomap" where
  "Discovered t = map (\<lambda>(i, e). (i, d_def e)) (t_discovered t)"

record BaseInventoryView =
  bi_Base :: string
  bi_Members :: "string list"
  bi_IDs :: nat
  bi_Listed :: "string list"
  bi_FetchedAt :: "time option"
  bi_Age :: "duration option"
  bi_Error :: string
  bi_Stale :: bool
  bi_Absent :: "string list"
  bi_Discovered :: "string list"

definition is_absent :: "Tracker \<Rightarrow> string \<Rightarrow> bool" where
  "is_absent t i = (case lookup (t_models t) i of None \<Rightarrow> False | Some st \<Rightarrow> absent st)"

definition Inventory :: "time \<Rightarrow> bool \<Rightarrow> Tracker \<Rightarrow> BaseInventoryView list" where
  "Inventory now withListed t =
     map (\<lambda>(r, b).
            \<lparr>bi_Base = r, bi_Members = b_members b,
             bi_IDs = (case b_listing b of None \<Rightarrow> 0 | Some l \<Rightarrow> length l),
             bi_Listed = (case b_listing b of
                            None \<Rightarrow> [] | Some l \<Rightarrow> if withListed then sort (map fst l) else []),
             bi_FetchedAt = (case b_listing b of None \<Rightarrow> None | Some l \<Rightarrow> b_fetchedAt b),
             bi_Age = (case b_listing b of
                         None \<Rightarrow> None | Some l \<Rightarrow> map_option (\<lambda>f. now - f) (b_fetchedAt b)),
             bi_Error = b_err b,
             bi_Stale = (b_listing b \<noteq> None \<and> b_err b \<noteq> []),
             bi_Absent = filter (is_absent t) (b_members b),
             bi_Discovered = sort (map fst (filter (\<lambda>(i, e). d_root e = r) (t_discovered t)))\<rparr>)
         (sort_key fst (t_inv t))"

section \<open>A poll round\<close>

text \<open>\<open>PollOnce\<close> takes the lock twice. The nodes are probed first; under the first lock the snapshots
  are folded into the seats and the due generation probes and fetches are collected; the probes run;
  under the second lock their results are applied. Anything may happen in between.\<close>

definition probe_nodes :: "(string \<Rightarrow> int \<Rightarrow> NodeSnapshot) \<Rightarrow> ModelRegistry \<Rightarrow> NodeSnapshot gomap" where
  "probe_nodes prober reg = map (\<lambda>(name, node). (name, prober (n_Host node) (n_AgentPort node))) (reg_Nodes reg)"

definition observe_models ::
    "time \<Rightarrow> NodeSnapshot gomap \<Rightarrow> (string \<times> ModelDefinition) list \<Rightarrow> Tracker \<Rightarrow> Tracker" where
  "observe_models now snaps ms t =
     fold (\<lambda>(i, m) t. let (ok, reason) = observeModel i m snaps in applyObservation now i ok reason t) ms t"

definition poll_begin ::
    "time \<Rightarrow> NodeSnapshot gomap \<Rightarrow> Tracker \<Rightarrow> probeJob list \<times> invJob list \<times> Tracker" where
  "poll_begin now snaps t =
     (case c_Registry (t_cfg t) of
        None \<Rightarrow> ([], [], t)
      | Some reg \<Rightarrow>
          let t1 = observe_models now snaps (reg_Models reg) (t\<lparr>t_nodes := snaps\<rparr>);
              due = dueProbes now t1;
              (jobs, t2) = dueInventory now t1
          in (due, jobs, t2))"

definition poll_end :: "time \<Rightarrow> probeResult list \<Rightarrow> Tracker \<Rightarrow> Tracker" where
  "poll_end now results t =
     (case c_Registry (t_cfg t) of
        None \<Rightarrow> t
      | Some reg \<Rightarrow> (fold (applyProbe now) results t)\<lparr>t_polled := True\<rparr>)"

section \<open>Lemmas about a round\<close>

lemma stateFor_cong:
  "t_cfg t = t_cfg t' \<Longrightarrow> lookup (t_models t) i = lookup (t_models t') i \<Longrightarrow> stateFor t now i = stateFor t' now i"
  by (simp add: stateFor_def split: option.split)

lemma stateFor_tracker_up: "stateFor tracker_up now ''q'' = seat_up"
  by (simp add: stateFor_def)

lemma observe_models_other [simp]:
  "t_cfg (observe_models now snaps ms t) = t_cfg t \<and> t_discovered (observe_models now snaps ms t) = t_discovered t
   \<and> t_inv (observe_models now snaps ms t) = t_inv t \<and> t_reserved (observe_models now snaps ms t) = t_reserved t"
  unfolding observe_models_def
  by (induction ms arbitrary: t) (simp_all add: case_prod_beta Let_def applyObservation_def)

lemma observe_models_notin:
  "i \<notin> fst ` set ms \<Longrightarrow> lookup (t_models (observe_models now snaps ms t)) i = lookup (t_models t) i"
  unfolding observe_models_def
  by (induction ms arbitrary: t) (simp_all add: case_prod_beta Let_def lookup_applyObservation)

lemma observe_models_in:
  "wf_map ms \<Longrightarrow> lookup ms i = Some m \<Longrightarrow>
     lookup (t_models (observe_models now snaps ms t)) i =
       Some (observe_seat (t_cfg t) now (fst (observeModel i m snaps)) (snd (observeModel i m snaps)) (stateFor t now i))"
proof (induction ms arbitrary: t)
  case Nil
  then show ?case by simp
next
  case (Cons p ms)
  obtain j n where p: "p = (j, n)" by (rule prod.exhaust)
  let ?t = "applyObservation now j (fst (observeModel j n snaps)) (snd (observeModel j n snaps)) t"
  have step: "observe_models now snaps (p # ms) t = observe_models now snaps ms ?t"
    by (simp add: observe_models_def p case_prod_beta Let_def)
  show ?case
  proof (cases "j = i")
    case True
    with Cons.prems have "i \<notin> fst ` set ms" "n = m" by (auto simp: p)
    with True show ?thesis
      by (simp add: step observe_models_notin lookup_applyObservation)
  next
    case False
    then have "lookup ms i = Some m" "stateFor ?t now i = stateFor t now i"
      using Cons.prems by (auto simp add: p lookup_applyObservation intro: stateFor_cong)
    with Cons show ?thesis by (simp add: step)
  qed
qed

lemma dueInventory_other [simp]:
  "t_cfg (snd (dueInventory now t)) = t_cfg t" "t_models (snd (dueInventory now t)) = t_models t"
  "t_discovered (snd (dueInventory now t)) = t_discovered t" "t_reserved (snd (dueInventory now t)) = t_reserved t"
  "t_polled (snd (dueInventory now t)) = t_polled t"
  by (simp_all add: dueInventory_def)

text \<open>A poll round applies to every model of the registry its own observation and nothing else,
  whatever the order in which the models are visited: each seat becomes what the hysteresis makes of
  its own seat, and the seats of models outside the registry are untouched.\<close>

theorem poll_round_pointwise:
  assumes "c_Registry (t_cfg t) = Some reg" and "wf_registry reg"
  shows "lookup (t_models (snd (snd (poll_begin now snaps t)))) i =
     (case lookup (reg_Models reg) i of
        None \<Rightarrow> lookup (t_models t) i
      | Some m \<Rightarrow> Some (observe_seat (t_cfg t) now (fst (observeModel i m snaps)) (snd (observeModel i m snaps))
                         (stateFor t now i)))"
proof -
  let ?t1 = "observe_models now snaps (reg_Models reg) (t\<lparr>t_nodes := snaps\<rparr>)"
  have "t_models (snd (snd (poll_begin now snaps t))) = t_models ?t1"
    using assms(1) by (simp add: poll_begin_def Let_def case_prod_beta)
  moreover have "wf_map (reg_Models reg)" using assms(2) by (simp add: wf_registry_def)
  ultimately show ?thesis
    using observe_models_notin[of i "reg_Models reg" now snaps "t\<lparr>t_nodes := snaps\<rparr>"]
      stateFor_cong[of "t\<lparr>t_nodes := snaps\<rparr>" t i now]
    by (auto simp: observe_models_in map_of_eq_None_iff split: option.split)
qed

theorem poll_round_pointwise_witness:
  "lookup (t_models (snd (snd (poll_begin 5 [(''a'', empty_snapshot)] tracker_up)))) ''q''
     = Some (observe_seat cfg_small 5 (fst (observeModel ''q'' model_local [(''a'', empty_snapshot)]))
               (snd (observeModel ''q'' model_local [(''a'', empty_snapshot)])) seat_up)"
  using poll_round_pointwise[of tracker_up reg_small 5 "[(''a'', empty_snapshot)]" "''q''"] reg_small_wf
  by (simp add: reg_small_def stateFor_tracker_up)

section \<open>Lemmas about a landed listing\<close>

lemma mark_seat_absent: "absent (mark_seat base name l st) \<longleftrightarrow> lookup l name = None"
  by (auto simp: mark_seat_def Let_def)

lemma mark_seat_other [simp]:
  "pollState (mark_seat base name l st) = pollState st" "breakerOpen (mark_seat base name l st) = breakerOpen st"
  "probe (mark_seat base name l st) = probe st" "confirmed (mark_seat base name l st) = confirmed st"
  by (simp_all add: mark_seat_def Let_def)

lemma absentReason_text_nonempty: "absentReason_text base want l \<noteq> []"
  by (simp add: absentReason_text_def Let_def quoted_def)

lemma mark_seat_ok: "seat_ok cfg st \<Longrightarrow> seat_ok cfg (mark_seat base name l st)"
  using absentReason_text_nonempty[of base name l] by (auto simp: seat_ok_def mark_seat_def Let_def)

abbreviation mark_all :: "time \<Rightarrow> ModelRegistry \<Rightarrow> string \<Rightarrow> Listing \<Rightarrow> string list \<Rightarrow> Tracker \<Rightarrow> Tracker" where
  "mark_all now reg base l ms t \<equiv> fold (mark_member now reg base l) ms t"

lemma mark_member_other [simp]:
  "t_cfg (mark_member now reg base l i t) = t_cfg t" "t_inv (mark_member now reg base l i t) = t_inv t"
  "t_discovered (mark_member now reg base l i t) = t_discovered t"
  "t_reserved (mark_member now reg base l i t) = t_reserved t"
  by (simp_all add: mark_member_def)

lemma mark_all_other [simp]:
  "t_cfg (mark_all now reg base l ms t) = t_cfg t \<and> t_inv (mark_all now reg base l ms t) = t_inv t
   \<and> t_discovered (mark_all now reg base l ms t) = t_discovered t
   \<and> t_reserved (mark_all now reg base l ms t) = t_reserved t"
  by (induction ms arbitrary: t) simp_all

lemma is_absent_mark_member:
  "is_absent (mark_member now reg base l j t) i =
     (if i = j then lookup l (member_name reg i) = None else is_absent t i)"
  by (simp add: is_absent_def mark_member_def mark_seat_absent)

lemma is_absent_mark_all:
  "is_absent (mark_all now reg base l ms t) i =
     (if i \<in> set ms then lookup l (member_name reg i) = None else is_absent t i)"
  by (induction ms arbitrary: t) (auto simp: is_absent_mark_member)

text \<open>The effect of a successful listing on the seats and on the adopted entries.\<close>

lemma applyInventory_success:
  assumes "lookup (t_inv t) base = Some b" and "c_Registry (t_cfg t) = Some reg"
  shows "t_models (applyInventory now base (Inr l) t)
           = t_models (mark_all now reg base l (b_members b)
               (t\<lparr>t_inv := store base (b\<lparr>b_inflight := False, b_err := [], b_listing := Some l, b_fetchedAt := Some now\<rparr>) (t_inv t)\<rparr>))"
    and "t_discovered (applyInventory now base (Inr l) t)
           = fold (apply_source now base (b_served b) (t_reserved t) l reg) (b_sources b) (t_discovered t)"
    and "t_inv (applyInventory now base (Inr l) t)
           = store base (b\<lparr>b_inflight := False, b_err := [], b_listing := Some l, b_fetchedAt := Some now\<rparr>) (t_inv t)"
  using assms by (simp_all add: applyInventory_def Let_def)

lemma applyInventory_other [simp]:
  "t_cfg (applyInventory now base res t) = t_cfg t" "t_reserved (applyInventory now base res t) = t_reserved t"
  by (simp_all add: applyInventory_def Let_def split: option.split sum.split)

lemma lookup_map_filter:
  assumes "wf_map xs" and "\<And>k v k' v'. f (k, v) = Some (k', v') \<Longrightarrow> k' = k"
  shows "lookup (List.map_filter f xs) k = Option.bind (lookup xs k) (\<lambda>v. map_option snd (f (k, v)))
       \<and> wf_map (List.map_filter f xs)"
  using assms(1)
proof (induction xs)
  case Nil
  then show ?case by (simp add: List.map_filter_simps)
next
  case (Cons p xs)
  obtain a v where p: "p = (a, v)" by (rule prod.exhaust)
  have keys: "fst ` set (List.map_filter f xs) \<subseteq> fst ` set xs"
    using assms(2) by (force simp: List.map_filter_def)
  have notin: "a \<notin> fst ` set xs" and wf: "wf_map xs" using Cons.prems by (simp_all add: p)
  then have none: "lookup xs a = None" by (simp add: map_of_eq_None_iff)
  show ?case
  proof (cases "f (a, v)")
    case None
    with Cons.IH[OF wf] none show ?thesis by (auto simp: p List.map_filter_simps)
  next
    case (Some q)
    then obtain w where q: "q = (a, w)" using assms(2) by (cases q) blast
    with Some Cons.IH[OF wf] none notin keys show ?thesis by (auto simp: p List.map_filter_simps)
  qed
qed

lemma retire_one_key: "retire_one served l n src (k, v) = Some (k', v') \<Longrightarrow> k' = k"
  by (auto simp: retire_one_def Let_def split: if_splits)

lemma lookup_retire_all:
  "wf_map disc \<Longrightarrow> lookup (List.map_filter (retire_one served l n src) disc) k =
     Option.bind (lookup disc k) (\<lambda>e. map_option snd (retire_one served l n src (k, e)))"
  by (rule lookup_map_filter[THEN conjunct1]) (auto dest: retire_one_key)

lemma wf_retire_all: "wf_map disc \<Longrightarrow> wf_map (List.map_filter (retire_one served l n src) disc)"
  by (rule lookup_map_filter[THEN conjunct2]) (auto dest: retire_one_key)

lemma adopt_one_other:
  "\<not> still_listed src served l full \<Longrightarrow> p \<in> set l \<Longrightarrow>
     lookup (adopt_one now base served reserved n src p disc) full = lookup disc full"
  using weak_map_of_SomeI[of "fst p" "snd p" l]
  by (cases p) (auto simp: adopt_one_def still_listed_def Let_def split: option.split)

lemma wf_adopt_one [simp]: "wf_map disc \<Longrightarrow> wf_map (adopt_one now base served reserved n src p disc)"
  by (simp add: adopt_one_def Let_def split: prod.split option.split)

lemma adopt_fold_other:
  "\<not> still_listed src served l full \<Longrightarrow> set ps \<subseteq> set l \<Longrightarrow>
     lookup (fold (adopt_one now base served reserved n src) ps disc) full = lookup disc full"
  by (induction ps arbitrary: disc) (auto simp: adopt_one_other)

lemma wf_adopt_fold: "wf_map disc \<Longrightarrow> wf_map (fold (adopt_one now base served reserved n src) ps disc)"
  by (induction ps arbitrary: disc) simp_all

lemma apply_source_unlisted:
  assumes "wf_map disc" and "\<not> still_listed (reg_Discovery reg ! n) served l full"
  shows "lookup (apply_source now base served reserved l reg n disc) full =
     (case lookup disc full of
        None \<Rightarrow> None
      | Some e \<Rightarrow> if d_source e \<noteq> n then Some e
                  else if d_misses e + 1 \<ge> DiscoveryRetireAfter then None
                  else Some (e\<lparr>d_misses := d_misses e + 1\<rparr>))"
  using assms
  by (simp add: apply_source_def Let_def lookup_retire_all wf_adopt_fold adopt_fold_other[OF _ subset_refl]
      retire_one_def split: option.split)

lemma wf_apply_source: "wf_map disc \<Longrightarrow> wf_map (apply_source now base served reserved l reg n disc)"
  by (simp add: apply_source_def Let_def wf_retire_all wf_adopt_fold)

text \<open>When a base's listing lands, each of its members is absent exactly when the listing lacks the
  name the base knows it by, and the absent mark of every other model is untouched.\<close>

theorem listing_decides_absent:
  assumes "lookup (t_inv t) base = Some b" and "c_Registry (t_cfg t) = Some reg"
  shows "is_absent (applyInventory now base (Inr l) t) i =
     (if i \<in> set (b_members b) then lookup l (member_name reg i) = None else is_absent t i)"
  using applyInventory_success(1)[OF assms, of now l]
    is_absent_mark_all[of now reg base l "b_members b"]
  by (simp add: is_absent_def)

text \<open>A failed fetch changes no verdict and drops no knowledge: the seats, the adopted entries and
  every base's last known listing stay as they were.\<close>

theorem failed_fetch_keeps_everything:
  "t_models (applyInventory now base (Inl err) t) = t_models t
   \<and> t_discovered (applyInventory now base (Inl err) t) = t_discovered t
   \<and> map_option b_listing (lookup (t_inv (applyInventory now base (Inl err) t)) r)
       = map_option b_listing (lookup (t_inv t) r)"
  by (simp add: applyInventory_def Let_def split: option.split)

text \<open>A discovered id is retired by exactly the second listing in a row that lacks it: one miss
  keeps the entry as it was but for the count, the second one removes it.\<close>

theorem retired_on_second_miss:
  fixes now1 now2 :: time
  assumes "lookup (t_inv t) base = Some b" and "c_Registry (t_cfg t) = Some reg" and "b_sources b = [n]"
    and "wf_map (t_discovered t)" and "lookup (t_discovered t) full = Some e" and "d_source e = n"
    and "d_misses e = 0" and "\<not> still_listed (reg_Discovery reg ! n) (b_served b) l1 full"
    and "\<not> still_listed (reg_Discovery reg ! n) (b_served b) l2 full"
  defines "t1 \<equiv> applyInventory now1 base (Inr l1) t"
  shows "lookup (t_discovered t1) full = Some (e\<lparr>d_misses := 1\<rparr>)
       \<and> lookup (t_discovered (applyInventory now2 base (Inr l2) t1)) full = None"
proof -
  let ?apply = "\<lambda>now l. apply_source now base (b_served b) (t_reserved t) l reg n"
  have t1: "t_discovered t1 = ?apply now1 l1 (t_discovered t)"
    using applyInventory_success(2)[OF assms(1,2)] assms(3) by (simp add: t1_def)
  have d1: "lookup (t_discovered t1) full = Some (e\<lparr>d_misses := 1\<rparr>)"
    using apply_source_unlisted[OF assms(4,8)] assms(5-7) by (simp add: t1 DiscoveryRetireAfter_def)
  have wf: "wf_map (t_discovered t1)" using assms(4) by (simp add: t1 wf_apply_source)
  have "lookup (t_inv t1) base = Some (b\<lparr>b_inflight := False, b_err := [], b_listing := Some l1, b_fetchedAt := Some now1\<rparr>)"
    "c_Registry (t_cfg t1) = Some reg"
    using applyInventory_success(3)[OF assms(1,2)] assms(2) by (simp_all add: t1_def)
  from applyInventory_success(2)[OF this, of now2 l2]
  have "t_discovered (applyInventory now2 base (Inr l2) t1) = ?apply now2 l2 (t_discovered t1)"
    using assms(3) by (simp add: t1_def)
  then show ?thesis
    using apply_source_unlisted[OF wf assms(9), of now2] d1 assms(6) by (simp add: DiscoveryRetireAfter_def)
qed

section \<open>Steps and reachable trackers\<close>

text \<open>Every operation that changes a tracker, one lock at a time. A reachable tracker is what any
  interleaving of them makes of a new one: rounds, probes, landings, requests and readers in any
  order, with any clock readings and any answers of the fleet.\<close>

inductive tracker_step :: "Tracker \<Rightarrow> Tracker \<Rightarrow> bool" where
  begun: "tracker_step t (snd (snd (poll_begin now snaps t)))"
| ended: "tracker_step t (poll_end now results t)"
| failed: "tracker_step t (ReportFailure now i err t)"
| succeeded: "tracker_step t (ReportSuccess i t)"
| asked: "tracker_step t (snd (stateLocked now i t))"
| viewed: "Snapshot now t = Some (ss, t') \<Longrightarrow> tracker_step t t'"
| refreshed: "tracker_step t (snd (refreshDue now t))"
| landed: "tracker_step t (applyInventory now base res t)"

inductive tracker_reachable :: "TrackerConfig \<Rightarrow> Tracker \<Rightarrow> bool" for cfg where
  start: "tracker_reachable cfg (NewTracker cfg)"
| step: "tracker_reachable cfg t \<Longrightarrow> tracker_step t t' \<Longrightarrow> tracker_reachable cfg t'"

text \<open>The adopted entries: each sits under a source's prefix, is what the source builds of an id it
  adopts, never has a reserved name, and has missed fewer listings than retire it.\<close>

definition adopted_def :: "ModelRegistry \<Rightarrow> string \<Rightarrow> ModelDefinition \<Rightarrow> bool" where
  "adopted_def reg full m \<longleftrightarrow>
     (\<exists>src \<in> set (reg_Discovery reg). \<exists>i lm. full = s_Prefix src @ i \<and> Adopts src i \<and> m = Entry src lm)"

definition entry_ok :: "ModelRegistry \<Rightarrow> string list \<Rightarrow> string \<Rightarrow> discoveredEntry \<Rightarrow> bool" where
  "entry_ok reg reserved full e \<longleftrightarrow>
     full \<notin> set reserved \<and> 0 \<le> d_misses e \<and> d_misses e < DiscoveryRetireAfter
     \<and> adopted_def reg full (d_def e)"

definition discovered_ok :: "ModelRegistry \<Rightarrow> string list \<Rightarrow> discoveredEntry gomap \<Rightarrow> bool" where
  "discovered_ok reg reserved disc \<longleftrightarrow>
     wf_map disc \<and> (\<forall>full e. lookup disc full = Some e \<longrightarrow> entry_ok reg reserved full e)"

lemma discovered_ok_store:
  "discovered_ok reg reserved disc \<Longrightarrow> entry_ok reg reserved full e \<Longrightarrow> discovered_ok reg reserved (store full e disc)"
  by (simp add: discovered_ok_def)

lemma adopt_one_ok:
  assumes "discovered_ok reg reserved disc" and "src \<in> set (reg_Discovery reg)"
  shows "discovered_ok reg reserved (adopt_one now base served reserved n src p disc)"
proof -
  obtain i lm where p: "p = (i, lm)" by (rule prod.exhaust)
  have "entry_ok reg reserved (s_Prefix src @ i) e"
    if "Adopts src i" "s_Prefix src @ i \<notin> set reserved" "d_misses e = 0" "d_def e = Entry src lm" for e
    using that assms(2) by (auto simp: entry_ok_def adopted_def_def DiscoveryRetireAfter_def)
  with assms(1) show ?thesis
    by (auto simp: p adopt_one_def Let_def split: option.split intro!: discovered_ok_store)
qed

lemma adopt_fold_ok:
  "discovered_ok reg reserved disc \<Longrightarrow> src \<in> set (reg_Discovery reg) \<Longrightarrow>
     discovered_ok reg reserved (fold (adopt_one now base served reserved n src) ps disc)"
  by (induction ps arbitrary: disc) (simp_all add: adopt_one_ok)

lemma retire_one_ok:
  "retire_one served l n src (full, e) = Some (full', e') \<Longrightarrow> entry_ok reg reserved full e \<Longrightarrow>
     entry_ok reg reserved full' e'"
  by (auto simp: retire_one_def Let_def entry_ok_def split: if_splits)

lemma retire_all_ok:
  assumes "discovered_ok reg reserved disc"
  shows "discovered_ok reg reserved (List.map_filter (retire_one served l n src) disc)"
proof -
  have wf: "wf_map disc" using assms by (simp add: discovered_ok_def)
  have "entry_ok reg reserved full e'"
    if "lookup (List.map_filter (retire_one served l n src) disc) full = Some e'" for full e'
  proof -
    from that obtain e full' where "lookup disc full = Some e"
      and "retire_one served l n src (full, e) = Some (full', e')"
      unfolding lookup_retire_all[OF wf] by (auto split: bind_splits)
    with assms retire_one_key retire_one_ok show ?thesis by (metis discovered_ok_def)
  qed
  with wf show ?thesis by (simp add: discovered_ok_def wf_retire_all)
qed

lemma apply_source_ok:
  "discovered_ok reg reserved disc \<Longrightarrow> n < length (reg_Discovery reg) \<Longrightarrow>
     discovered_ok reg reserved (apply_source now base served reserved l reg n disc)"
  by (simp add: apply_source_def Let_def retire_all_ok adopt_fold_ok)

lemma apply_sources_ok:
  "discovered_ok reg reserved disc \<Longrightarrow> list_all (\<lambda>n. n < length (reg_Discovery reg)) ns \<Longrightarrow>
     discovered_ok reg reserved (fold (apply_source now base served reserved l reg) ns disc)"
  by (induction ns arbitrary: disc) (simp_all add: apply_source_ok)

text \<open>The base table only names sources of the registry.\<close>

definition table_ok :: "ModelRegistry \<Rightarrow> baseInventory gomap \<Rightarrow> bool" where
  "table_ok reg tab \<longleftrightarrow> (\<forall>base b. lookup tab base = Some b \<longrightarrow> list_all (\<lambda>n. n < length (reg_Discovery reg)) (b_sources b))"

lemma table_okD:
  "table_ok reg tab \<Longrightarrow> lookup tab base = Some b \<Longrightarrow> list_all (\<lambda>n. n < length (reg_Discovery reg)) (b_sources b)"
  by (simp add: table_ok_def)

lemma table_ok_store:
  "table_ok reg tab \<Longrightarrow> list_all (\<lambda>n. n < length (reg_Discovery reg)) (b_sources b) \<Longrightarrow> table_ok reg (store base b tab)"
  by (simp add: table_ok_def)

lemma base_of_sources:
  "table_ok reg tab \<Longrightarrow> list_all (\<lambda>n. n < length (reg_Discovery reg)) (b_sources (base_of base tab))"
  by (auto simp: base_of_def dest: table_okD split: option.split)

lemma add_member_ok: "table_ok reg tab \<Longrightarrow> table_ok reg (add_member cfg reg i tab)"
  by (auto simp: add_member_def Let_def base_of_sources intro!: table_ok_store split: option.split sum.split)

lemma add_source_ok:
  "table_ok reg tab \<Longrightarrow> fst p < length (reg_Discovery reg) \<Longrightarrow> table_ok reg (add_source cfg p tab)"
  by (cases p) (simp add: add_source_def Let_def base_of_sources table_ok_store)

lemma add_served_ok: "table_ok reg tab \<Longrightarrow> table_ok reg (add_served reg i tab)"
  by (auto simp: add_served_def intro!: table_ok_store dest: table_okD split: option.split sum.split)

lemma fold_keeps:
  "P x \<Longrightarrow> (\<And>a x. a \<in> set as \<Longrightarrow> P x \<Longrightarrow> P (f a x)) \<Longrightarrow> P (fold f as x)"
  by (induction as arbitrary: x) auto

lemma base_table_ok: "table_ok reg (base_table cfg reg)"
proof -
  have "table_ok reg []" by (simp add: table_ok_def)
  then have "table_ok reg (fold (add_member cfg reg) ids [])" for ids
    by (rule fold_keeps) (rule add_member_ok)
  then have "table_ok reg (fold (add_source cfg) (enumerate 0 (reg_Discovery reg)) (fold (add_member cfg reg) ids []))" for ids
    by (rule fold_keeps) (simp add: add_source_ok in_set_enumerate_eq)
  then show ?thesis unfolding base_table_def Let_def
    by (rule fold_keeps) (rule add_served_ok)
qed

lemma lookup_map_values: "lookup (map (\<lambda>(k, b). (k, f k b)) tab) k = map_option (f k) (lookup tab k)"
  by (induction tab) auto

lemma table_ok_map:
  "table_ok reg tab \<Longrightarrow> (\<And>k b. b_sources (f k b) = b_sources b) \<Longrightarrow> table_ok reg (map (\<lambda>(k, b). (k, f k b)) tab)"
  by (auto simp: table_ok_def lookup_map_values)

section \<open>The tracker invariant\<close>

definition tracker_inv :: "TrackerConfig \<Rightarrow> Tracker \<Rightarrow> bool" where
  "tracker_inv cfg t \<longleftrightarrow>
     tracker_ok t \<and> t_cfg t = fill_config cfg
     \<and> (c_Registry cfg = None \<longrightarrow> t_discovered t = [])
     \<and> (\<forall>reg. c_Registry cfg = Some reg \<longrightarrow>
          discovered_ok reg (t_reserved t) (t_discovered t) \<and> table_ok reg (t_inv t)
          \<and> t_reserved t = (if c_DisableInventory cfg then [] else ReservedNames reg))"

lemma new_tracker_inv: "tracker_inv cfg (NewTracker cfg)"
proof -
  have "c_Registry (fill_config cfg) = c_Registry cfg" "c_DisableInventory (fill_config cfg) = c_DisableInventory cfg"
    by (simp_all add: fill_config_def)
  then show ?thesis
    using base_table_ok[of _ "fill_config cfg"]
    by (simp add: tracker_inv_def NewTracker_def buildInventory_def Let_def tracker_ok_def fill_config_good
        discovered_ok_def table_ok_def[of _ "[]"] split: option.split)
qed

text \<open>An operation that only changes seats keeps the invariant if it keeps the seats in order.\<close>

lemma inv_seats_only:
  "tracker_inv cfg t \<Longrightarrow> tracker_ok t' \<Longrightarrow> t_cfg t' = t_cfg t \<Longrightarrow> t_discovered t' = t_discovered t \<Longrightarrow>
     t_inv t' = t_inv t \<Longrightarrow> t_reserved t' = t_reserved t \<Longrightarrow> tracker_inv cfg t'"
  unfolding tracker_inv_def by metis

lemma tracker_inv_ok: "tracker_inv cfg t \<Longrightarrow> tracker_ok t"
  by (simp add: tracker_inv_def)

lemma tracker_ok_other_fields:
  "t_cfg t' = t_cfg t \<Longrightarrow> t_models t' = t_models t \<Longrightarrow> tracker_ok t' = tracker_ok t"
  by (simp add: tracker_ok_def)

lemma inv_polled: "tracker_inv cfg t \<Longrightarrow> tracker_inv cfg (t\<lparr>t_polled := b\<rparr>)"
  using inv_seats_only[of cfg t "t\<lparr>t_polled := b\<rparr>"] tracker_inv_ok[of cfg t]
    tracker_ok_other_fields[of "t\<lparr>t_polled := b\<rparr>" t] by simp

lemma inv_entries:
  "tracker_inv cfg t \<Longrightarrow> c_Registry cfg = Some r \<Longrightarrow> discovered_ok r (t_reserved t) disc \<Longrightarrow>
     tracker_inv cfg (t\<lparr>t_discovered := disc\<rparr>)"
  using tracker_ok_other_fields[of "t\<lparr>t_discovered := disc\<rparr>" t] by (simp add: tracker_inv_def)

lemma report_tables [simp]:
  "t_inv (ReportFailure now i err t) = t_inv t" "t_reserved (ReportFailure now i err t) = t_reserved t"
  "t_inv (ReportSuccess i t) = t_inv t" "t_reserved (ReportSuccess i t) = t_reserved t"
  "t_reserved (applyProbe now r t) = t_reserved t"
  "t_reserved (snd (stateLocked now i t)) = t_reserved t"
  by (simp_all add: ReportFailure_def ReportSuccess_def applyProbe_def stateLocked_def case_prod_beta Let_def
      split: option.split)

lemma observe_models_ok: "tracker_ok t \<Longrightarrow> tracker_ok (observe_models now snaps ms t)"
  unfolding observe_models_def
  by (rule fold_keeps) (auto simp: case_prod_beta Let_def applyObservation_ok)

lemma inv_table_map:
  "tracker_inv cfg t \<Longrightarrow> (\<And>k b. b_sources (f k b) = b_sources b) \<Longrightarrow>
     tracker_inv cfg (t\<lparr>t_inv := map (\<lambda>(k, b). (k, f k b)) (t_inv t)\<rparr>)"
  by (auto simp: tracker_inv_def table_ok_map tracker_ok_other_fields[of "t\<lparr>t_inv := _\<rparr>" t] split: option.splits)

lemma dueInventory_inv: "tracker_inv cfg t \<Longrightarrow> tracker_inv cfg (snd (dueInventory now t))"
  unfolding dueInventory_def by (simp add: inv_table_map)

lemma poll_begin_inv:
  assumes "tracker_inv cfg t" shows "tracker_inv cfg (snd (snd (poll_begin now snaps t)))"
proof (cases "c_Registry (t_cfg t)")
  case None
  then show ?thesis using assms by (simp add: poll_begin_def)
next
  case (Some reg)
  have "tracker_ok (t\<lparr>t_nodes := snaps\<rparr>)"
    using tracker_inv_ok[OF assms] by (simp add: tracker_ok_def)
  then have "tracker_inv cfg (observe_models now snaps (reg_Models reg) (t\<lparr>t_nodes := snaps\<rparr>))"
    using assms by (intro inv_seats_only[OF assms] observe_models_ok) simp_all
  then show ?thesis
    by (simp add: poll_begin_def Some Let_def case_prod_beta dueInventory_inv)
qed

lemma applyProbe_inv: "tracker_inv cfg t \<Longrightarrow> tracker_inv cfg (applyProbe now r t)"
  by (rule inv_seats_only) (auto simp: applyProbe_ok tracker_inv_ok)

lemma poll_end_inv: "tracker_inv cfg t \<Longrightarrow> tracker_inv cfg (poll_end now results t)"
proof -
  assume inv: "tracker_inv cfg t"
  then have "tracker_inv cfg (fold (applyProbe now) results t)"
    by (rule fold_keeps) (rule applyProbe_inv)
  then have "tracker_inv cfg ((fold (applyProbe now) results t)\<lparr>t_polled := True\<rparr>)"
    by (rule inv_polled)
  with inv show ?thesis by (simp add: poll_end_def split: option.split)
qed

lemma status_of_inv:
  assumes "tracker_inv cfg t" shows "tracker_inv cfg (snd (status_of reg now i t))"
proof -
  let ?t1 = "snd (stateLocked now i t)"
  have t1: "tracker_inv cfg ?t1"
    by (rule inv_seats_only[OF assms]) (auto simp: query_ok tracker_inv_ok[OF assms])
  have "snd (status_of reg now i t) =
      (case lookup (t_models ?t1) i of
         None \<Rightarrow> ?t1
       | Some st \<Rightarrow> set_seat i (touch_state (fst (fst (stateLocked now i t))) now st) ?t1)"
    by (simp add: status_of_def Let_def case_prod_beta split: option.split)
  moreover have "tracker_inv cfg (set_seat i (touch_state a now st) ?t1)"
    if "lookup (t_models ?t1) i = Some st" for st a
    by (rule inv_seats_only[OF t1])
      (auto intro: set_seat_ok touch_seat_ok tracker_okD[OF tracker_inv_ok[OF t1] that] tracker_inv_ok[OF t1])
  ultimately show ?thesis using t1 by (simp split: option.split)
qed

lemma statuses_inv: "tracker_inv cfg t \<Longrightarrow> tracker_inv cfg (snd (statuses reg now is t))"
proof (induction "is" arbitrary: t)
  case (Cons i "is")
  show ?case using Cons.IH[OF status_of_inv[OF Cons.prems]] by (simp add: case_prod_beta Let_def)
qed simp

lemma mark_member_ok: "tracker_ok t \<Longrightarrow> tracker_ok (mark_member now reg base l i t)"
  by (simp add: mark_member_def set_seat_ok mark_seat_ok stateFor_ok)

lemma mark_all_ok: "tracker_ok t \<Longrightarrow> tracker_ok (mark_all now reg base l ms t)"
  by (rule fold_keeps) (simp_all add: mark_member_ok)

lemma applyInventory_inv:
  assumes inv: "tracker_inv cfg t" shows "tracker_inv cfg (applyInventory now base res t)"
proof (cases "lookup (t_inv t) base")
  case None
  then show ?thesis using inv by (simp add: applyInventory_def)
next
  case b: (Some b)
  have reg: "c_Registry (t_cfg t) = c_Registry cfg"
    using inv by (simp add: tracker_inv_def fill_config_def)
  have upd: "tracker_inv cfg (t\<lparr>t_inv := store base b' (t_inv t)\<rparr>)" if "b_sources b' = b_sources b" for b'
    using inv that table_okD[OF _ b]
    by (auto simp: tracker_inv_def table_ok_store tracker_ok_other_fields[of "t\<lparr>t_inv := _\<rparr>" t] split: option.splits)
  show ?thesis
  proof (cases res)
    case (Inl err)
    then show ?thesis by (simp add: applyInventory_def b upd)
  next
    case (Inr l)
    let ?t1 = "t\<lparr>t_inv := store base (b\<lparr>b_inflight := False, b_err := [], b_listing := Some l, b_fetchedAt := Some now\<rparr>) (t_inv t)\<rparr>"
    have t1: "tracker_inv cfg ?t1" by (rule upd) simp
    show ?thesis
    proof (cases "c_Registry cfg")
      case None
      with reg t1 show ?thesis by (simp add: applyInventory_def b Inr)
    next
      case (Some r)
      let ?t2 = "mark_all now r base l (b_members b) ?t1"
      have t2: "tracker_inv cfg ?t2"
        by (rule inv_seats_only[OF t1]) (simp_all add: mark_all_ok tracker_inv_ok[OF t1])
      have "discovered_ok r (t_reserved t) (fold (apply_source now base (b_served b) (t_reserved t) l r) (b_sources b) (t_discovered t))"
        using inv Some table_okD[OF _ b] by (intro apply_sources_ok) (auto simp: tracker_inv_def)
      with inv_entries[OF t2 Some] show ?thesis
        using reg Some by (simp add: applyInventory_def b Inr Let_def)
    qed
  qed
qed

inductive_cases tracker_stepE: "tracker_step t t'"

lemma tracker_step_inv: "tracker_step t t' \<Longrightarrow> tracker_inv cfg t \<Longrightarrow> tracker_inv cfg t'"
proof (erule tracker_stepE)
  fix now i assume inv: "tracker_inv cfg t" and t': "t' = snd (stateLocked now i t)"
  show "tracker_inv cfg t'"
    unfolding t' by (rule inv_seats_only[OF inv]) (auto simp: query_ok tracker_inv_ok[OF inv])
next
  fix now ss assume "tracker_inv cfg t" "Snapshot now t = Some (ss, t')"
  then show "tracker_inv cfg t'"
    using statuses_inv by (auto simp: Snapshot_def split: option.splits) (metis snd_conv)
next
  fix now assume "tracker_inv cfg t" "t' = snd (refreshDue now t)"
  then show "tracker_inv cfg t'" unfolding refreshDue_def by (simp add: dueInventory_inv inv_table_map)
next
  fix now i err assume inv: "tracker_inv cfg t" and t': "t' = ReportFailure now i err t"
  show "tracker_inv cfg t'"
    unfolding t' by (rule inv_seats_only[OF inv]) (auto simp: ReportFailure_ok tracker_inv_ok[OF inv])
next
  fix i assume inv: "tracker_inv cfg t" and t': "t' = ReportSuccess i t"
  show "tracker_inv cfg t'"
    unfolding t' by (rule inv_seats_only[OF inv]) (auto simp: ReportSuccess_ok tracker_inv_ok[OF inv])
qed (auto intro: poll_begin_inv poll_end_inv applyInventory_inv)

lemma reachable_inv: "tracker_reachable cfg t \<Longrightarrow> tracker_inv cfg t"
  by (induction rule: tracker_reachable.induct) (auto intro: new_tracker_inv tracker_step_inv)


text \<open>C20: In every reachable tracker an adopted entry never takes a name the registry file owns: it is
  not the id of a written model, an alias or a role; it is an external entry built from what a source
  of the registry adopts, under that source's prefix, and so neither local nor a chain.\<close>

theorem adopted_never_shadow:
  assumes "tracker_reachable cfg t" and "c_Registry cfg = Some reg" and "\<not> c_DisableInventory cfg"
    and "lookup (Discovered t) full = Some m"
  shows "full \<notin> set (ReservedNames reg) \<and> \<not> IsLocal m \<and> \<not> IsVirtual m \<and> IsDiscovered m
    \<and> (\<exists>src \<in> set (reg_Discovery reg). \<exists>i lm. full = s_Prefix src @ i \<and> Adopts src i \<and> m = Entry src lm)"
proof -
  have "discovered_ok reg (ReservedNames reg) (t_discovered t)"
    using reachable_inv[OF assms(1)] assms(2,3) by (auto simp: tracker_inv_def)
  moreover obtain e where "lookup (t_discovered t) full = Some e" "m = d_def e"
    using assms(4) by (auto simp: Discovered_def lookup_map_values)
  ultimately have e: "full \<notin> set (ReservedNames reg)" "adopted_def reg full m"
    by (simp_all add: discovered_ok_def entry_ok_def)
  then show ?thesis by (auto simp: adopted_def_def)
qed

text \<open>A registry with one discovery source, and a tracker over it after its first listing.\<close>

definition source_zen :: DiscoverySource where
  "source_zen = \<lparr>s_APIBase = ''https://opencode.ai/zen/v1'', s_Prefix = ''zen/'', s_APIKey = [], s_APIKeyHeader = [],
                 s_Adopt = \<lparr>ap_All = True, ap_Patterns = []\<rparr>, s_Exclude = [], s_Tags = [], s_ContextLength = 0,
                 s_MaxOutputTokens = 0, s_Capabilities = []\<rparr>"

definition reg_disc :: ModelRegistry where
  "reg_disc = reg_small\<lparr>reg_Models := [(''zen/glm'', model_zen)], reg_Roles := [], reg_Discovery := [source_zen]\<rparr>"

definition cfg_disc :: TrackerConfig where
  "cfg_disc = cfg_small\<lparr>c_Registry := Some reg_disc\<rparr>"

definition listed_k2 :: ListedModel where
  "listed_k2 = \<lparr>lm_ID = ''k2'', lm_ContextLength = 0, lm_MaxOutputTokens = 0, lm_InputCostPerMillion = None,
                lm_OutputCostPerMillion = None, lm_ToolCalling = False, lm_Vision = False\<rparr>"

definition zen_root :: string where "zen_root = ''https://opencode.ai/zen''"

definition tracker_listed :: Tracker where
  "tracker_listed = applyInventory 1 zen_root (Inr [(''glm'', listed_k2\<lparr>lm_ID := ''glm''\<rparr>), (''k2'', listed_k2)]) (NewTracker cfg_disc)"

lemma tracker_listed_reachable: "tracker_reachable cfg_disc tracker_listed"
  unfolding tracker_listed_def by (rule tracker_reachable.step[OF tracker_reachable.start tracker_step.landed])

lemma tracker_listed_base:
  "map_option (\<lambda>b. (b_members b, b_served b, b_sources b)) (lookup (t_inv tracker_listed) zen_root)
     = Some ([''zen/glm''], [''glm''], [0])"
  by code_simp

lemma tracker_listed_k2:
  "map_option (\<lambda>e. (d_source e, d_misses e)) (lookup (t_discovered tracker_listed) ''zen/k2'') = Some (0, 0)"
  by code_simp


theorem adopted_never_shadow_witness:
  "\<exists>m. lookup (Discovered tracker_listed) ''zen/k2'' = Some m \<and> ''zen/k2'' \<notin> set (ReservedNames reg_disc)
     \<and> \<not> IsLocal m"
proof -
  have "map_option (\<lambda>m. ()) (lookup (Discovered tracker_listed) ''zen/k2'') = Some ()" by code_simp
  then obtain m where "lookup (Discovered tracker_listed) ''zen/k2'' = Some m" by auto
  then show ?thesis
    using adopted_never_shadow[OF tracker_listed_reachable, of reg_disc "''zen/k2''" m]
    by (simp add: cfg_disc_def)
qed

theorem listing_decides_absent_witness:
  "is_absent (applyInventory 2 zen_root (Inr [(''k2'', listed_k2)]) tracker_listed) ''zen/glm''"
proof -
  obtain b where "lookup (t_inv tracker_listed) zen_root = Some b" "b_members b = [''zen/glm'']"
    using tracker_listed_base by auto
  moreover have "c_Registry (t_cfg tracker_listed) = Some reg_disc" by code_simp
  moreover have "member_name reg_disc ''zen/glm'' = ''glm''" by code_simp
  ultimately show ?thesis using listing_decides_absent[of tracker_listed zen_root b reg_disc] by simp
qed

theorem retired_on_second_miss_witness:
  "lookup (t_discovered (applyInventory 3 zen_root (Inr [])
      (applyInventory 2 zen_root (Inr []) tracker_listed))) ''zen/k2'' = None"
proof -
  obtain b where b: "lookup (t_inv tracker_listed) zen_root = Some b" "b_sources b = [0]"
    using tracker_listed_base by auto
  obtain e where e: "lookup (t_discovered tracker_listed) ''zen/k2'' = Some e" "d_source e = 0" "d_misses e = 0"
    using tracker_listed_k2 by auto
  have reg: "c_Registry (t_cfg tracker_listed) = Some reg_disc" by code_simp
  have "wf_map (t_discovered tracker_listed)"
    using reachable_inv[OF tracker_listed_reachable] by (simp add: tracker_inv_def cfg_disc_def discovered_ok_def)
  from retired_on_second_miss[OF b(1) reg b(2) this e, of "[]" "[]"] show ?thesis
    by (simp add: still_listed_def Let_def)
qed

end
