(* ===== verification/Pressure.thy ===== *)
theory Pressure
  imports Tracker "HOL-Library.Product_Lexorder"
begin

text \<open>
  \<^verbatim>\<open>internal/router/pressure.go\<close>: the per-seat load table and the reordering of a role's preference list
  by load. The candidates and the overflow flag are those of \<^verbatim>\<open>roles.go\<close>.

  The comparison the source sorts by is lexicographic on rank and effective pressure and its sort is
  stable, as \<^const>\<open>sort_key\<close> on pairs is. Whether a candidate is routable is an argument here; the
  questions to the health tracker are asked, its state threaded and \<open>pressureNote\<close> written, in \<open>Resolve\<close>.
\<close>

record roleCandidate =
  rc_ModelID :: string
  rc_Overflow :: bool
  rc_Chain :: string

section \<open>The load table\<close>

record pressureTracker =
  pt_cfg :: PressureConfig
  pt_inflight :: "int gomap"
  pt_lastServed :: "time gomap"
  pt_loads :: "SeatLoad gomap"

definition newPressureTracker :: "PressureConfig \<Rightarrow> pressureTracker" where
  "newPressureTracker cfg = \<lparr>pt_cfg = cfg, pt_inflight = [], pt_lastServed = [], pt_loads = []\<rparr>"

definition inflight_of :: "pressureTracker \<Rightarrow> string \<Rightarrow> int" where
  "inflight_of p i = (case lookup (pt_inflight p) i of None \<Rightarrow> 0 | Some n \<Rightarrow> n)"

definition addInflight :: "string \<Rightarrow> pressureTracker \<Rightarrow> pressureTracker" where
  "addInflight i p = p\<lparr>pt_inflight := store i (inflight_of p i + 1) (pt_inflight p)\<rparr>"

definition doneInflight :: "string \<Rightarrow> pressureTracker \<Rightarrow> pressureTracker" where
  "doneInflight i p =
     (if inflight_of p i > 0 then p\<lparr>pt_inflight := store i (inflight_of p i - 1) (pt_inflight p)\<rparr> else p)"

definition markServed :: "time \<Rightarrow> string \<Rightarrow> pressureTracker \<Rightarrow> pressureTracker" where
  "markServed now i p = p\<lparr>pt_lastServed := store i now (pt_lastServed p)\<rparr>"

definition setLoads :: "SeatLoad gomap \<Rightarrow> pressureTracker \<Rightarrow> pressureTracker" where
  "setLoads loads p = p\<lparr>pt_loads := loads\<rparr>"

definition load_of :: "pressureTracker \<Rightarrow> string \<Rightarrow> SeatLoad" where
  "load_of p i =
     (case lookup (pt_loads p) i of
        Some l \<Rightarrow> l
      | None \<Rightarrow> \<lparr>sl_Running = 0, sl_Waiting = 0, sl_GPUBusyPct = 0, sl_Node = []\<rparr>)"

definition pressure :: "time \<Rightarrow> pressureTracker \<Rightarrow> string \<Rightarrow> int" where
  "pressure now p i =
     (let load = load_of p i;
          base = (if sl_Running load > inflight_of p i then sl_Running load else inflight_of p i);
          score = base + sl_Waiting load + GPUBucket (pt_cfg p) (sl_GPUBusyPct load)
      in case lookup (pt_lastServed p) i of
           Some prev \<Rightarrow> if now - prev < Window (pt_cfg p) * second then score - 1 else score
         | None \<Rightarrow> score)"

section \<open>Ranks\<close>

definition declared_ranks :: "string list \<Rightarrow> int gomap" where
  "declared_ranks ids = fold (\<lambda>(n, i) m. store i (int n) m) (enumerate 0 ids) []"

fun group_rep :: "int gomap \<Rightarrow> int \<Rightarrow> string list \<Rightarrow> int" where
  "group_rep idx rep [] = rep"
| "group_rep idx rep (i # is) =
     group_rep idx
       (case lookup idx i of
          Some n \<Rightarrow> if rep < 0 \<or> n < rep then n else rep
        | None \<Rightarrow> rep) is"

definition tie_group :: "int gomap \<Rightarrow> string list \<Rightarrow> int gomap \<Rightarrow> int gomap" where
  "tie_group idx g rank =
     (let rep = group_rep idx (-1) g in
      if rep < 0 then rank
      else fold (\<lambda>i r. if lookup idx i \<noteq> None then store i rep r else r) g rank)"

definition candidateRanks :: "RoleDefinition \<Rightarrow> int gomap" where
  "candidateRanks rd =
     (let idx = declared_ranks (r_Candidates rd)
      in fold (tie_group idx) (r_BalanceGroups rd) idx)"

section \<open>Ordering\<close>

definition unroutablePressure :: int where "unroutablePressure = 2 ^ 30"

text \<open>The three maps of \<open>orderByPressure\<close>; \<open>n\<close> is the position in the list given.\<close>

definition rankOf :: "RoleDefinition \<Rightarrow> roleCandidate list \<Rightarrow> int gomap" where
  "rankOf rd base =
     fold (\<lambda>(n, c) m. store (rc_ModelID c)
             (case lookup (candidateRanks rd) (rc_ModelID c) of
                Some r \<Rightarrow> r
              | None \<Rightarrow> int (length (r_Candidates rd)) + int n) m)
       (enumerate 0 base) []"

definition get :: "int gomap \<Rightarrow> string \<Rightarrow> int" where
  "get m i = (case lookup m i of None \<Rightarrow> 0 | Some n \<Rightarrow> n)"

definition pressures :: "time \<Rightarrow> pressureTracker \<Rightarrow> roleCandidate list \<Rightarrow> int gomap" where
  "pressures now p base = fold (\<lambda>c m. store (rc_ModelID c) (pressure now p (rc_ModelID c)) m) base []"

definition effective :: "(string \<Rightarrow> bool) \<Rightarrow> int gomap \<Rightarrow> string \<Rightarrow> int" where
  "effective routable pr i = (if routable i then get pr i else unroutablePressure)"

definition promotable ::
    "int gomap \<Rightarrow> (string \<Rightarrow> int) \<Rightarrow> int gomap \<Rightarrow> roleCandidate \<Rightarrow> roleCandidate \<Rightarrow> bool" where
  "promotable rank eff pr head c \<longleftrightarrow>
     \<not> (rc_Overflow c \<noteq> rc_Overflow head)
     \<and> \<not> (get rank (rc_ModelID c) \<le> get rank (rc_ModelID head))
     \<and> \<not> (eff (rc_ModelID c) \<ge> unroutablePressure \<or> get pr (rc_ModelID c) > 1)"

definition applyRankOverride ::
    "int gomap \<Rightarrow> (string \<Rightarrow> int) \<Rightarrow> int gomap \<Rightarrow> roleCandidate list \<Rightarrow> roleCandidate list" where
  "applyRankOverride rank eff pr out =
     (case out of
        [] \<Rightarrow> out
      | [c] \<Rightarrow> out
      | head # rest \<Rightarrow>
          if eff (rc_ModelID head) \<ge> unroutablePressure \<or> get pr (rc_ModelID head) < 3 then out
          else case List.extract (promotable rank eff pr head) rest of
                 None \<Rightarrow> out
               | Some (us, c, vs) \<Rightarrow> c # (head # us @ vs))"

definition sort_by_rank ::
    "int gomap \<Rightarrow> (string \<Rightarrow> int) \<Rightarrow> roleCandidate list \<Rightarrow> roleCandidate list" where
  "sort_by_rank rank eff base =
     sort_key (\<lambda>c. (get rank (rc_ModelID c), eff (rc_ModelID c))) base"

definition orderByPressure ::
    "time \<Rightarrow> pressureTracker \<Rightarrow> RoleDefinition \<Rightarrow> (string \<Rightarrow> bool) \<Rightarrow> roleCandidate list
     \<Rightarrow> roleCandidate list \<times> int gomap" where
  "orderByPressure now p rd routable base =
     (let rank = rankOf rd base;
          pr = pressures now p base;
          eff = effective routable pr
      in (applyRankOverride rank eff pr (sort_by_rank rank eff base), pr))"

section \<open>Lemmas\<close>

lemma applyRankOverride_cases:
  "applyRankOverride rank eff pr out = out
   \<or> (\<exists>head us c vs. out = head # us @ c # vs \<and> applyRankOverride rank eff pr out = c # head # us @ vs
        \<and> promotable rank eff pr head c \<and> eff (rc_ModelID head) < unroutablePressure \<and> 3 \<le> get pr (rc_ModelID head))"
proof (cases out)
  case (Cons head l)
  show ?thesis
  proof (cases l)
    case Nil
    then show ?thesis by (simp add: Cons applyRankOverride_def)
  next
    case (Cons b rest)
    note out = \<open>out = head # l\<close>[unfolded Cons]
    show ?thesis
    proof (cases "eff (rc_ModelID head) \<ge> unroutablePressure \<or> get pr (rc_ModelID head) < 3
        \<or> List.extract (promotable rank eff pr head) (b # rest) = None")
      case True
      then have "applyRankOverride rank eff pr out = out"
        unfolding applyRankOverride_def out by (simp only: list.case) (auto split: option.split)
      then show ?thesis by blast
    next
      case False
      then obtain us c vs where q: "List.extract (promotable rank eff pr head) (b # rest) = Some (us, c, vs)"
        by (metis option.exhaust prod.exhaust)
      then have "b # rest = us @ c # vs" "promotable rank eff pr head c"
        by (simp_all only: extract_Some_iff)
      moreover have "applyRankOverride rank eff pr out = c # head # us @ vs"
        using False unfolding applyRankOverride_def out by (simp only: list.case q) simp
      ultimately have "out = head # us @ c # vs \<and> applyRankOverride rank eff pr out = c # head # us @ vs
        \<and> promotable rank eff pr head c \<and> eff (rc_ModelID head) < unroutablePressure \<and> 3 \<le> get pr (rc_ModelID head)"
        using False by (simp add: out)
      then show ?thesis by blast
    qed
  qed
qed (simp add: applyRankOverride_def)

lemma mset_override: "mset (applyRankOverride rank eff pr out) = mset out"
  using applyRankOverride_cases[of rank eff pr out] by auto

text \<open>Balancing by pressure neither adds nor drops a candidate: the reordered list is a permutation of
  the role's own preference list, overflow marks included.\<close>

theorem pressure_order_permutes:
  "mset (fst (orderByPressure now p rd routable base)) = mset base"
  by (simp add: orderByPressure_def Let_def mset_override sort_by_rank_def)

text \<open>Load never outranks preference, with one exception. Unless a seat is promoted, a candidate that
  comes before another has a better rank, or the same rank and no higher pressure, a seat that cannot
  be routed to counting as higher than any other. A promotion happens only past a routable seat under
  pressure three or more, and moves to the front a routable seat of lower rank, the same locality side
  and pressure at most one, leaving the order of all others as it was.\<close>

theorem pressure_order_respects_rank:
  fixes rd :: RoleDefinition and base :: "roleCandidate list" and p :: pressureTracker and now :: time
    and routable :: "string \<Rightarrow> bool"
  defines "rank \<equiv> rankOf rd base" and "pr \<equiv> pressures now p base"
  defines "srt \<equiv> sort_by_rank rank (effective routable pr) base"
  shows "sorted (map (\<lambda>c. (get rank (rc_ModelID c), effective routable pr (rc_ModelID c))) srt) \<and> mset srt = mset base
   \<and> (fst (orderByPressure now p rd routable base) = srt
      \<or> (\<exists>head us c vs. srt = head # us @ c # vs \<and> fst (orderByPressure now p rd routable base) = c # head # us @ vs
           \<and> rc_Overflow c = rc_Overflow head \<and> get rank (rc_ModelID head) < get rank (rc_ModelID c)
           \<and> effective routable pr (rc_ModelID c) < unroutablePressure \<and> get pr (rc_ModelID c) \<le> 1
           \<and> effective routable pr (rc_ModelID head) < unroutablePressure \<and> 3 \<le> get pr (rc_ModelID head)))"
proof -
  have "fst (orderByPressure now p rd routable base) = applyRankOverride rank (effective routable pr) pr srt"
    by (simp add: orderByPressure_def rank_def pr_def srt_def Let_def)
  moreover have "sorted (map (\<lambda>c. (get rank (rc_ModelID c), effective routable pr (rc_ModelID c))) srt)"
    unfolding srt_def sort_by_rank_def by simp
  moreover have "mset srt = mset base" by (simp add: srt_def sort_by_rank_def)
  ultimately show ?thesis
    using applyRankOverride_cases[of rank "effective routable pr" pr srt] by (fastforce simp: promotable_def)
qed

section \<open>In-flight counts\<close>

text \<open>A request counts itself in on the seat it is sent to and out when its upstream answers; several
  requests interleave. The run of a sequence of such events, \<open>True\<close> for in.\<close>

primrec inflight_run :: "(bool \<times> string) list \<Rightarrow> pressureTracker \<Rightarrow> pressureTracker" where
  "inflight_run [] p = p"
| "inflight_run (e # es) p =
     inflight_run es (if fst e then addInflight (snd e) p else doneInflight (snd e) p)"

lemma inflight_run_snoc:
  "inflight_run (es @ [e]) p =
     (if fst e then addInflight (snd e) (inflight_run es p) else doneInflight (snd e) (inflight_run es p))"
  by (induction es arbitrary: p) simp_all

lemma inflight_of_simps [simp]:
  "inflight_of (newPressureTracker cfg) i = 0"
  "inflight_of (addInflight j p) i = (if i = j then inflight_of p i + 1 else inflight_of p i)"
  "inflight_of (doneInflight j p) i =
     (if i = j \<and> inflight_of p i > 0 then inflight_of p i - 1 else inflight_of p i)"
  by (auto simp: newPressureTracker_def addInflight_def doneInflight_def inflight_of_def)

text \<open>The load the router counts for itself is exact under any interleaving: when every completion
  belongs to an earlier start of its seat, the count of a seat is the number of its requests started
  and not yet completed, and is never negative.\<close>

theorem inflight_balanced:
  assumes "\<forall>n. count_list (take n es) (False, i) \<le> count_list (take n es) (True, i)"
  shows "inflight_of (inflight_run es (newPressureTracker cfg)) i =
           int (count_list es (True, i)) - int (count_list es (False, i))
       \<and> 0 \<le> inflight_of (inflight_run es (newPressureTracker cfg)) i"
proof -
  have main: "inflight_of (inflight_run es (newPressureTracker cfg)) i =
           int (count_list es (True, i)) - int (count_list es (False, i))"
    if "\<forall>n. count_list (take n es) (False, i) \<le> count_list (take n es) (True, i)" for es
    using that
  proof (induction es rule: rev_induct)
    case (snoc e es)
    have pre: "\<forall>n. count_list (take n es) (False, i) \<le> count_list (take n es) (True, i)"
    proof
      fix n
      show "count_list (take n es) (False, i) \<le> count_list (take n es) (True, i)"
        using snoc.prems[THEN spec, of "min n (length es)"] by (cases "n \<le> length es") simp_all
    qed
    have all: "count_list (es @ [e]) (False, i) \<le> count_list (es @ [e]) (True, i)"
      using snoc.prems[THEN spec, of "Suc (length es)"] by simp
    obtain b j where e: "e = (b, j)" by (rule prod.exhaust)
    show ?case using snoc.IH[OF pre] all by (cases b) (auto simp: e inflight_run_snoc)
  qed simp
  from main[OF assms] assms[THEN spec, of "length es"] show ?thesis by simp
qed

theorem inflight_balanced_witness:
  "inflight_of (inflight_run [(True, ''q''), (True, ''q''), (False, ''q'')]
     (newPressureTracker \<lparr>pc_WindowS = 0, pc_GPUBuckets = []\<rparr>)) ''q'' = 1"
  using inflight_balanced[of "[(True, ''q''), (True, ''q''), (False, ''q'')]" "''q''"
      "\<lparr>pc_WindowS = 0, pc_GPUBuckets = []\<rparr>"]
  by (auto simp: take_Cons' split: if_splits)

end
