(* ===== verification/Auth.thy ===== *)
theory Auth
  imports Go_Url
begin

text \<open>
  \<^verbatim>\<open>internal/auth/auth.go\<close> and \<^verbatim>\<open>scopes.go\<close>: the wire format of a personal access token, the identity
  it resolves to, its life cycle, and the closed vocabulary of model scopes.

  SHA-256 (with its hex encoding) is an argument \<open>hash\<close> of the functions that use it: nothing here
  depends on more of it than that it is a function. The random bytes of \<open>Generate\<close> are arguments;
  \<^const>\<open>None\<close> is a failed read of the system's random source.
\<close>

datatype auth_error =
    ErrMalformed | ErrUnknown | ErrRevoked | ErrExpired
  | ErrStoreUnavailable string
  | ErrRandom
  | ErrPrincipalRequired
  | ErrReservedPrincipal string
  | ErrUnknownScope string
  | ErrInsert string
  | ErrNoStore

section \<open>Encodings\<close>

definition hex_digit :: "nat \<Rightarrow> char" where
  "hex_digit n = ''0123456789abcdef'' ! n"

definition hex_encode :: "char list \<Rightarrow> string" where
  "hex_encode bs = concat (map (\<lambda>b. let n = (of_char b :: nat) in [hex_digit (n div 16), hex_digit (n mod 16)]) bs)"

text \<open>\<open>base64.RawURLEncoding\<close>.\<close>

definition b64_digit :: "nat \<Rightarrow> char" where
  "b64_digit n = ''ABCDEFGHIJKLMNOPQRSTUVWXYZabcdefghijklmnopqrstuvwxyz0123456789-_'' ! n"

fun b64_encode :: "char list \<Rightarrow> string" where
  "b64_encode [] = []"
| "b64_encode [a] =
     (let x = (of_char a :: nat) in [b64_digit (x div 4), b64_digit (x mod 4 * 16)])"
| "b64_encode [a, b] =
     (let x = (of_char a :: nat); y = (of_char b :: nat)
      in [b64_digit (x div 4), b64_digit (x mod 4 * 16 + y div 16), b64_digit (y mod 16 * 4)])"
| "b64_encode (a # b # c # rest) =
     (let x = (of_char a :: nat); y = (of_char b :: nat); z = (of_char c :: nat)
      in [b64_digit (x div 4), b64_digit (x mod 4 * 16 + y div 16),
          b64_digit (y mod 16 * 4 + z div 64), b64_digit (z mod 64)] @ b64_encode rest)"

section \<open>Tokens (auth.go)\<close>

definition Prefix :: string where "Prefix = ''pat_''"
definition idBytes :: nat where "idBytes = 6"
definition secretBytes :: nat where "secretBytes = 32"

record Identity =
  id_Principal :: string
  id_TokenID :: string
  id_Scopes :: "string list"

definition LegacyPrincipalPrefix :: string where "LegacyPrincipalPrefix = ''legacy:''"
definition AnthropicKeyPrincipalPrefix :: string where "AnthropicKeyPrincipalPrefix = ''anthropic:''"
definition AnthropicOAuthPrincipalPrefix :: string where "AnthropicOAuthPrincipalPrefix = ''anthropic-oauth:''"

definition ReservedPrincipalPrefixes :: "string list" where
  "ReservedPrincipalPrefixes = [LegacyPrincipalPrefix, AnthropicKeyPrincipalPrefix, AnthropicOAuthPrincipalPrefix]"

definition Reserved :: "string \<Rightarrow> bool" where
  "Reserved princ \<longleftrightarrow> list_ex (has_prefix princ) ReservedPrincipalPrefixes"

definition Legacy :: "Identity \<Rightarrow> bool" where
  "Legacy i \<longleftrightarrow> has_prefix (id_Principal i) LegacyPrincipalPrefix"

record Token =
  tk_ID :: string
  tk_Principal :: string
  tk_Label :: string
  tk_SecretHash :: string
  tk_Scopes :: "string list"
  tk_CreatedAt :: time
  tk_LastUsedAt :: "time option"
  tk_ExpiresAt :: "time option"
  tk_RevokedAt :: "time option"

text \<open>\<open>Token.Active\<close> reads two fields; \<open>Verify\<close> calls it on a token holding just these.\<close>

definition Active :: "time option \<Rightarrow> time option \<Rightarrow> time \<Rightarrow> auth_error option" where
  "Active expires revoked now =
     (if revoked \<noteq> None then Some ErrRevoked
      else case expires of
             Some e \<Rightarrow> if \<not> now < e then Some ErrExpired else None
           | None \<Rightarrow> None)"

definition Generate ::
    "(string \<Rightarrow> string) \<Rightarrow> char list option \<Rightarrow> char list option \<Rightarrow> auth_error + (string \<times> string \<times> string)" where
  "Generate hash idRaw secretRaw =
     (case idRaw of
        None \<Rightarrow> Inl ErrRandom
      | Some ib \<Rightarrow>
          (case secretRaw of
             None \<Rightarrow> Inl ErrRandom
           | Some sb \<Rightarrow>
               let i = hex_encode ib; secret = b64_encode sb
               in Inr (Prefix @ i @ ''_'' @ secret, i, hash secret)))"

definition Split :: "string \<Rightarrow> auth_error + (string \<times> string)" where
  "Split wire =
     (if \<not> has_prefix wire Prefix then Inl ErrMalformed
      else case cut (CHR ''_'') (drop (length Prefix) wire) of
             None \<Rightarrow> Inl ErrMalformed
           | Some (i, secret) \<Rightarrow>
               if i = [] \<or> secret = [] then Inl ErrMalformed
               else if length i \<noteq> idBytes * 2 then Inl ErrMalformed
               else if \<not> list_all is_hex i then Inl ErrMalformed
               else Inr (i, secret))"

definition SecretMatches :: "(string \<Rightarrow> string) \<Rightarrow> string \<Rightarrow> string \<Rightarrow> bool" where
  "SecretMatches hash presented storedHash \<longleftrightarrow> hash presented = storedHash"

definition LooksLikePAT :: "string \<Rightarrow> bool" where
  "LooksLikePAT bearer \<longleftrightarrow> has_prefix bearer Prefix"

definition Fingerprint :: "(string \<Rightarrow> string) \<Rightarrow> string \<Rightarrow> string" where
  "Fingerprint hash cred = take 8 (hash cred)"

definition LegacyIdentity :: "(string \<Rightarrow> string) \<Rightarrow> string \<Rightarrow> Identity" where
  "LegacyIdentity hash key =
     (let fp = Fingerprint hash key
      in \<lparr>id_Principal = LegacyPrincipalPrefix @ fp, id_TokenID = ''legacy-'' @ fp, id_Scopes = []\<rparr>)"

definition AnthropicKeyIdentity :: "(string \<Rightarrow> string) \<Rightarrow> string \<Rightarrow> string \<Rightarrow> Identity" where
  "AnthropicKeyIdentity hash apiKey override =
     (let fp = Fingerprint hash apiKey
      in \<lparr>id_Principal = (if override \<noteq> [] then override else AnthropicKeyPrincipalPrefix @ fp),
          id_TokenID = ''anthropic-'' @ fp, id_Scopes = []\<rparr>)"

definition AnthropicOAuthIdentity :: "(string \<Rightarrow> string) \<Rightarrow> string \<Rightarrow> string \<Rightarrow> Identity" where
  "AnthropicOAuthIdentity hash token override =
     (let fp = Fingerprint hash token
      in \<lparr>id_Principal = (if override \<noteq> [] then override else AnthropicOAuthPrincipalPrefix @ fp),
          id_TokenID = ''anthropic-oauth-'' @ fp, id_Scopes = []\<rparr>)"

section \<open>Scopes (scopes.go)\<close>

definition ScopeModelsAll :: string where "ScopeModelsAll = ''models:*''"
definition ScopeModelsLocalOrZDR :: string where "ScopeModelsLocalOrZDR = ''models:local_or_zdr''"
definition ScopeModelsLocal :: string where "ScopeModelsLocal = ''models:local''"

definition modelScopeRank :: "string \<Rightarrow> nat option" where
  "modelScopeRank s =
     map_of [(ScopeModelsAll, 0), (ScopeModelsLocalOrZDR, 1), (ScopeModelsLocal, 2)] s"

definition KnownScopes :: "string list" where
  "KnownScopes = [ScopeModelsAll, ScopeModelsLocalOrZDR, ScopeModelsLocal]"

definition ValidateScopes :: "string list \<Rightarrow> auth_error option" where
  "ValidateScopes scopes =
     map_option ErrUnknownScope (find (\<lambda>s. modelScopeRank (trim_space s) = None) scopes)"

text \<open>The loop of \<open>ModelScope\<close>: note that it keeps the scope as written and ranks it trimmed.\<close>

fun strictest :: "string \<Rightarrow> nat \<Rightarrow> string list \<Rightarrow> string" where
  "strictest best rank [] = best"
| "strictest best rank (s # ss) =
     (case modelScopeRank (trim_space s) of
        Some r \<Rightarrow> if r > rank then strictest s r ss else strictest best rank ss
      | None \<Rightarrow> strictest best rank ss)"

definition ModelScope :: "Identity \<Rightarrow> string" where
  "ModelScope i = strictest ScopeModelsAll 0 (id_Scopes i)"

definition ScopeAtMost :: "string \<Rightarrow> string \<Rightarrow> bool" where
  "ScopeAtMost scope limit =
     (case modelScopeRank scope of
        None \<Rightarrow> False
      | Some rs \<Rightarrow> (case modelScopeRank limit of None \<Rightarrow> False | Some rl \<Rightarrow> rs \<ge> rl))"

section \<open>Lemmas\<close>

lemma nibbles: "(of_char (c :: char) :: nat) div 16 < 16" "(of_char c :: nat) mod 16 < 16"
proof -
  have "(of_char c :: nat) = of_char c mod 256" by simp
  also have "\<dots> < 256" by (rule mod_less_divisor) simp
  finally show "(of_char c :: nat) div 16 < 16" by (simp add: less_mult_imp_div_less)
qed simp

lemma hex_digit_is_hex: "n < 16 \<Longrightarrow> is_hex (hex_digit n) \<and> hex_digit n \<noteq> CHR ''_''"
proof -
  assume "n < 16"
  then have "n \<in> {0,1,2,3,4,5,6,7,8,9,10,11,12,13,14,15}" unfolding insert_iff empty_iff by arith
  then show ?thesis by (auto simp: hex_digit_def is_hex_def is_digit_def)
qed

lemma length_hex_encode [simp]: "length (hex_encode bs) = 2 * length bs"
  by (induction bs) (simp_all add: hex_encode_def Let_def)

lemma hex_encode_hex: "list_all (\<lambda>c. is_hex c \<and> c \<noteq> CHR ''_'') (hex_encode bs)"
  by (induction bs) (simp_all add: hex_encode_def Let_def hex_digit_is_hex nibbles)

lemma b64_encode_nonempty: "bs \<noteq> [] \<Longrightarrow> b64_encode bs \<noteq> []"
  by (cases bs rule: b64_encode.cases) (simp_all add: Let_def)

lemma Generate_Split:
  assumes "length ib = idBytes" and "length sb = secretBytes"
    and "Generate hash (Some ib) (Some sb) = Inr (wire, i, h)"
  shows "\<exists>secret. Split wire = Inr (i, secret) \<and> h = hash secret \<and> LooksLikePAT wire"
proof -
  let ?i = "hex_encode ib" and ?s = "b64_encode sb"
  have g: "wire = Prefix @ ?i @ ''_'' @ ?s" "i = ?i" "h = hash ?s"
    using assms(3) by (auto simp: Generate_def Let_def)
  have hex: "list_all is_hex ?i" "CHR ''_'' \<notin> set ?i"
    using hex_encode_hex[of ib] by (auto simp: list_all_iff)
  have "?s \<noteq> []" using assms(2) by (intro b64_encode_nonempty) (auto simp: secretBytes_def)
  moreover have "?i \<noteq> []" "length ?i = 12" using assms(1) by (auto simp: idBytes_def simp flip: length_0_conv)
  moreover have "cut (CHR ''_'') (drop (length Prefix) wire) = Some (?i, ?s)"
    using hex(2) by (simp add: g cut_append)
  ultimately have "Split wire = Inr (?i, ?s)"
    using hex(1) by (simp add: Split_def g(1) idBytes_def)
  then show ?thesis by (auto simp: g LooksLikePAT_def)
qed

text \<open>A minted token parses back into its own two halves: for any random bytes of the sizes the
  code draws, \<open>Split\<close> of the wire token returns exactly the id stored and the secret hashed, although
  the secret may itself contain the separator.\<close>

theorem generated_token_splits:
  assumes "length ib = idBytes" and "length sb = secretBytes"
    and "Generate hash (Some ib) (Some sb) = Inr (wire, i, h)"
  shows "\<exists>secret. Split wire = Inr (i, secret) \<and> h = hash secret \<and> LooksLikePAT wire"
  using assms by (rule Generate_Split)

theorem generated_token_splits_witness:
  "\<exists>w secret. Split w = Inr (hex_encode (replicate 6 (CHR ''a'')), secret) \<and> LooksLikePAT w"
  using generated_token_splits[of "replicate 6 (CHR ''a'')" "replicate 32 (CHR ''b'')" "\<lambda>s. s"]
  by (auto simp: Generate_def Let_def idBytes_def secretBytes_def)

section \<open>Strictest scope\<close>

definition scope_rank :: "string \<Rightarrow> nat" where
  "scope_rank s = (case modelScopeRank (trim_space s) of None \<Rightarrow> 0 | Some r \<Rightarrow> r)"

lemma strictest_rank:
  "scope_rank best = rank \<Longrightarrow> scope_rank (strictest best rank ss) = Max (insert rank (scope_rank ` set ss))"
proof (induction ss arbitrary: best rank)
  case Nil
  then show ?case by simp
next
  case (Cons s ss)
  have fin: "finite (scope_rank ` set ss)" by simp
  show ?case
  proof (cases "scope_rank s > rank")
    case True
    then have "strictest best rank (s # ss) = strictest s (scope_rank s) ss"
      by (auto simp: scope_rank_def split: option.splits)
    moreover have "Max (insert rank (insert (scope_rank s) (scope_rank ` set ss)))
        = Max (insert (scope_rank s) (scope_rank ` set ss))"
      using True fin by (cases "scope_rank ` set ss = {}") (auto simp: max_def)
    ultimately show ?thesis using Cons.IH[of s "scope_rank s"] by simp
  next
    case False
    then have "strictest best rank (s # ss) = strictest best rank ss"
      by (auto simp: scope_rank_def split: option.splits)
    moreover have "Max (insert rank (insert (scope_rank s) (scope_rank ` set ss)))
        = Max (insert rank (scope_rank ` set ss))"
      using False fin by (cases "scope_rank ` set ss = {}") (auto simp: max_def)
    ultimately show ?thesis by (simp only: Cons.IH[OF Cons.prems] list.simps image_insert)
  qed
qed

end
