(* ===== verification/Token_Store.thy ===== *)
theory Token_Store
  imports Auth
begin

text \<open>
  \<^verbatim>\<open>internal/auth/store.go\<close>: minting, verifying, revoking and listing personal access tokens.

  The table \<open>pat_tokens\<close> is the list of its rows, in insertion order, with the primary key \<open>id\<close>. Each
  statement either runs (argument \<open>db\<close> is \<^const>\<open>True\<close>) or fails because the database cannot be
  reached. The write of \<open>last_used_at\<close> happens off the request path and is a step of its own.
  Opening and closing the database is not modelled.
\<close>

record row =
  rw_id :: string
  rw_princ :: string
  rw_label :: string
  rw_secret_hash :: string
  rw_scopes :: string
  rw_created_at :: time
  rw_last_used_at :: "time option"
  rw_expires_at :: "time option"
  rw_revoked_at :: "time option"

record Store =
  so_rows :: "row list"
  so_lastSeen :: "time gomap"

definition LastUsedInterval :: duration where "LastUsedInterval = 60 * second"

definition encodeScopes :: "string list \<Rightarrow> string" where
  "encodeScopes scopes = (if length scopes = 0 then [] else join '','' (sort scopes))"

definition decodeScopes :: "string \<Rightarrow> string list" where
  "decodeScopes s = (if s = [] then [] else split_on (CHR '','') s)"

definition row_of :: "Store \<Rightarrow> string \<Rightarrow> row option" where
  "row_of s i = find (\<lambda>r. rw_id r = i) (so_rows s)"

section \<open>Mint\<close>

definition Mint ::
    "(string \<Rightarrow> string) \<Rightarrow> bool \<Rightarrow> time \<Rightarrow> char list option \<Rightarrow> char list option \<Rightarrow> string \<Rightarrow> string \<Rightarrow> string list
     \<Rightarrow> time option \<Rightarrow> Store \<Rightarrow> (auth_error + (string \<times> Token)) \<times> Store" where
  "Mint hash db now idRaw secretRaw princ0 label scopes expires s =
     (let princ = trim_space princ0 in
      if princ = [] then (Inl ErrPrincipalRequired, s)
      else if Reserved princ then (Inl (ErrReservedPrincipal princ), s)
      else case ValidateScopes scopes of
             Some e \<Rightarrow> (Inl e, s)
           | None \<Rightarrow>
               (case Generate hash idRaw secretRaw of
                  Inl e \<Rightarrow> (Inl e, s)
                | Inr (wire, i, h) \<Rightarrow>
                    let tok = \<lparr>tk_ID = i, tk_Principal = princ, tk_Label = trim_space label, tk_SecretHash = h,
                               tk_Scopes = scopes, tk_CreatedAt = now, tk_LastUsedAt = None,
                               tk_ExpiresAt = expires, tk_RevokedAt = None\<rparr>;
                        r = \<lparr>rw_id = i, rw_princ = princ, rw_label = tk_Label tok, rw_secret_hash = h,
                             rw_scopes = encodeScopes scopes, rw_created_at = now, rw_last_used_at = None,
                             rw_expires_at = expires, rw_revoked_at = None\<rparr>
                    in if \<not> db \<or> row_of s i \<noteq> None then (Inl (ErrInsert i), s)
                       else (Inr (wire, tok), s\<lparr>so_rows := so_rows s @ [r]\<rparr>)))"

section \<open>Verify\<close>

definition touch :: "time \<Rightarrow> string \<Rightarrow> Store \<Rightarrow> Store" where
  "touch now i s =
     (case lookup (so_lastSeen s) i of
        Some seen \<Rightarrow> if now - seen < LastUsedInterval then s else s\<lparr>so_lastSeen := store i now (so_lastSeen s)\<rparr>
      | None \<Rightarrow> s\<lparr>so_lastSeen := store i now (so_lastSeen s)\<rparr>)"

definition write_last_used :: "bool \<Rightarrow> time \<Rightarrow> string \<Rightarrow> Store \<Rightarrow> Store" where
  "write_last_used db now i s =
     (if db then s\<lparr>so_rows := map (\<lambda>r. if rw_id r = i then r\<lparr>rw_last_used_at := Some now\<rparr> else r) (so_rows s)\<rparr>
      else s)"

definition Verify ::
    "(string \<Rightarrow> string) \<Rightarrow> bool \<Rightarrow> time \<Rightarrow> string \<Rightarrow> Store \<Rightarrow> (auth_error + Identity) \<times> Store" where
  "Verify hash db now wire s =
     (case Split wire of
        Inl e \<Rightarrow> (Inl e, s)
      | Inr (i, secret) \<Rightarrow>
          if \<not> db then (Inl (ErrStoreUnavailable i), s)
          else case row_of s i of
                 None \<Rightarrow> (Inl ErrUnknown, s)
               | Some r \<Rightarrow>
                   if \<not> SecretMatches hash secret (rw_secret_hash r) then (Inl ErrUnknown, s)
                   else case Active (rw_expires_at r) (rw_revoked_at r) now of
                          Some e \<Rightarrow> (Inl e, s)
                        | None \<Rightarrow>
                            (Inr \<lparr>id_Principal = rw_princ r, id_TokenID = i, id_Scopes = decodeScopes (rw_scopes r)\<rparr>,
                             touch now i s))"

section \<open>Revoke and list\<close>

text \<open>The update and the count run over the rows a predicate selects; \<open>Revoke\<close> selects by id,
  \<open>RevokeOwned\<close> by id and owner. \<^const>\<open>None\<close> is success.\<close>

definition revoke_where :: "bool \<Rightarrow> time \<Rightarrow> string \<Rightarrow> (row \<Rightarrow> bool) \<Rightarrow> Store \<Rightarrow> auth_error option \<times> Store" where
  "revoke_where db now i sel s =
     (if \<not> db then (Some (ErrInsert i), s)
      else
        let hit = (\<lambda>r. sel r \<and> rw_revoked_at r = None);
            s' = s\<lparr>so_rows := map (\<lambda>r. if hit r then r\<lparr>rw_revoked_at := Some now\<rparr> else r) (so_rows s)\<rparr>
        in if length (filter hit (so_rows s)) = 0 \<and> length (filter sel (so_rows s')) = 0
           then (Some ErrUnknown, s') else (None, s'))"

definition Revoke :: "bool \<Rightarrow> time \<Rightarrow> string \<Rightarrow> Store \<Rightarrow> auth_error option \<times> Store" where
  "Revoke db now i s = revoke_where db now i (\<lambda>r. rw_id r = i) s"

definition RevokeOwned :: "bool \<Rightarrow> time \<Rightarrow> string \<Rightarrow> string \<Rightarrow> Store \<Rightarrow> auth_error option \<times> Store" where
  "RevokeOwned db now i princ s = revoke_where db now i (\<lambda>r. rw_id r = i \<and> rw_princ r = princ) s"

definition token_of :: "row \<Rightarrow> Token" where
  "token_of r = \<lparr>tk_ID = rw_id r, tk_Principal = rw_princ r, tk_Label = rw_label r, tk_SecretHash = rw_secret_hash r,
                 tk_Scopes = decodeScopes (rw_scopes r), tk_CreatedAt = rw_created_at r,
                 tk_LastUsedAt = rw_last_used_at r, tk_ExpiresAt = rw_expires_at r, tk_RevokedAt = rw_revoked_at r\<rparr>"

definition ListTokens :: "bool \<Rightarrow> string \<Rightarrow> Store \<Rightarrow> Token list option" where
  "ListTokens db princ s =
     (if \<not> db then None
      else Some (map token_of
                  (sort_key (\<lambda>r. - rw_created_at r)
                    (if princ \<noteq> [] then filter (\<lambda>r. rw_princ r = princ) (so_rows s) else so_rows s))))"

section \<open>RedactDSN\<close>

fun index_of :: "string \<Rightarrow> string \<Rightarrow> nat option" where
  "index_of p [] = (if p = [] then Some 0 else None)"
| "index_of p (c # cs) = (if has_prefix (c # cs) p then Some 0 else map_option Suc (index_of p cs))"

definition RedactDSN :: "string \<Rightarrow> string" where
  "RedactDSN dsn =
     (if CHR ''@'' \<notin> set dsn then
        (case cut (CHR '' '') dsn of Some (a, b) \<Rightarrow> a @ '' ...'' | None \<Rightarrow> dsn)
      else
        let (scheme, rest) =
              (case index_of ''://'' dsn of
                 Some n \<Rightarrow> (take (n + 3) dsn, drop (n + 3) dsn)
               | None \<Rightarrow> ([], dsn))
        in case cut_last (CHR ''@'') rest of
             None \<Rightarrow> ''postgres://<redacted>''
           | Some (userinfo, hostpart) \<Rightarrow>
               scheme @ before_char (CHR '':'') userinfo @ ''@'' @ before_char (CHR ''?'') hostpart)"

section \<open>Lemmas\<close>

lemma find_append:
  "find P (xs @ ys) = (case find P xs of Some x \<Rightarrow> Some x | None \<Rightarrow> find P ys)"
  by (induction xs) auto

lemma row_of_append: "row_of (s\<lparr>so_rows := so_rows s @ [r]\<rparr>) i =
    (case row_of s i of Some r' \<Rightarrow> Some r' | None \<Rightarrow> if rw_id r = i then Some r else None)"
  by (simp add: row_of_def find_append split: option.split)

lemma row_of_id: "row_of s i = Some r \<Longrightarrow> rw_id r = i"
  by (auto simp: row_of_def find_Some_iff)

lemma row_of_touch [simp]: "row_of (touch now i s) j = row_of s j"
  by (simp add: touch_def row_of_def split: option.split)

lemma find_map_rows:
  "(\<And>r. rw_id (f r) = rw_id r) \<Longrightarrow> find (\<lambda>r. rw_id r = i) (map f rs) = map_option f (find (\<lambda>r. rw_id r = i) rs)"
  by (induction rs) auto

lemma row_of_write [simp]:
  "row_of (write_last_used db now i s) j =
     map_option (\<lambda>r. if db \<and> j = i then r\<lparr>rw_last_used_at := Some now\<rparr> else r) (row_of s j)"
proof (cases db)
  case True
  let ?f = "\<lambda>r. if rw_id r = i then r\<lparr>rw_last_used_at := Some now\<rparr> else r"
  have "row_of (write_last_used db now i s) j = map_option ?f (row_of s j)"
    unfolding write_last_used_def row_of_def using True find_map_rows[of ?f j "so_rows s"] by simp
  moreover have "map_option ?f (row_of s j)
      = map_option (\<lambda>r. if db \<and> j = i then r\<lparr>rw_last_used_at := Some now\<rparr> else r) (row_of s j)"
    using True by (intro option.map_cong refl) (simp add: row_of_id)
  ultimately show ?thesis by simp
qed (simp add: write_last_used_def option.map_id0[unfolded id_def] option.map_ident)

lemma row_of_revoke:
  "row_of (snd (revoke_where db now i sel s)) j =
     map_option (\<lambda>r. if db \<and> sel r \<and> rw_revoked_at r = None then r\<lparr>rw_revoked_at := Some now\<rparr> else r) (row_of s j)"
proof (cases db)
  case True
  have "find (\<lambda>r. rw_id r = j) (map (\<lambda>r. if sel r \<and> rw_revoked_at r = None then r\<lparr>rw_revoked_at := Some now\<rparr> else r) (so_rows s))
      = map_option (\<lambda>r. if sel r \<and> rw_revoked_at r = None then r\<lparr>rw_revoked_at := Some now\<rparr> else r) (find (\<lambda>r. rw_id r = j) (so_rows s))"
    by (rule find_map_rows) simp
  with True show ?thesis by (simp add: revoke_where_def row_of_def Let_def)
qed (simp add: revoke_where_def option.map_ident)

lemma row_of_verify [simp]: "row_of (snd (Verify hash db now wire s)) j = row_of s j"
  by (simp add: Verify_def split: sum.split option.split)

text \<open>What \<open>Mint\<close> leaves behind when it succeeds.\<close>

lemma Mint_success:
  assumes "Mint hash db now idRaw secretRaw princ0 label scopes expires s = (Inr (wire, tok), s')"
  shows "db \<and> Generate hash idRaw secretRaw = Inr (wire, tk_ID tok, tk_SecretHash tok)
       \<and> tk_Principal tok = trim_space princ0 \<and> trim_space princ0 \<noteq> [] \<and> \<not> Reserved (trim_space princ0)
       \<and> ValidateScopes scopes = None \<and> row_of s (tk_ID tok) = None
       \<and> (\<exists>r. row_of s' (tk_ID tok) = Some r \<and> rw_princ r = trim_space princ0 \<and> rw_secret_hash r = tk_SecretHash tok
             \<and> rw_scopes r = encodeScopes scopes \<and> rw_expires_at r = expires \<and> rw_revoked_at r = None)"
  using assms
  by (auto simp: Mint_def Let_def row_of_append split: if_splits option.splits sum.splits)

section \<open>The scopes column\<close>

lemma split_on_no_sep: "c \<notin> set x \<Longrightarrow> split_on c x = [x]"
  by (induction x) auto

lemma split_on_chunk: "c \<notin> set x \<Longrightarrow> split_on c (x @ c # ys) = x # split_on c ys"
  by (induction x) auto

lemma split_join: "xs \<noteq> [] \<Longrightarrow> list_all (\<lambda>x. c \<notin> set x) xs \<Longrightarrow> split_on c (join [c] xs) = xs"
  by (induction "[c]" xs rule: join.induct) (simp_all add: split_on_no_sep split_on_chunk)

lemma set_trim_space: "set s \<subseteq> set (trim_space s) \<union> {c. is_space c}"
proof
  fix c assume c: "c \<in> set s"
  have "c \<in> set (dropWhile is_space s) \<or> is_space c"
    using c by (metis Un_iff set_append set_takeWhileD takeWhile_dropWhile_id)
  moreover have "c \<in> set (trim_space s) \<or> is_space c" if "c \<in> set (dropWhile is_space s)"
    using that unfolding trim_space_def
    by (metis Un_iff set_append set_rev set_takeWhileD takeWhile_dropWhile_id)
  ultimately show "c \<in> set (trim_space s) \<union> {c. is_space c}" by auto
qed

lemma known_scope_chars: "modelScopeRank t \<noteq> None \<Longrightarrow> CHR '','' \<notin> set t \<and> t \<noteq> []"
  by (auto simp: modelScopeRank_def ScopeModelsAll_def ScopeModelsLocalOrZDR_def ScopeModelsLocal_def split: if_splits)

lemma validated_scope_chars:
  assumes "modelScopeRank (trim_space s) \<noteq> None" shows "CHR '','' \<notin> set s" "s \<noteq> []"
  using known_scope_chars[OF assms] set_trim_space[of s] by (auto simp: is_space_def trim_space_def)

lemma ValidateScopes_None: "ValidateScopes scopes = None \<longleftrightarrow> (\<forall>s \<in> set scopes. modelScopeRank (trim_space s) \<noteq> None)"
  by (auto simp: ValidateScopes_def find_None_iff)

lemma join_nonempty: "xs \<noteq> [] \<Longrightarrow> list_all (\<lambda>x. x \<noteq> []) xs \<Longrightarrow> join sep xs \<noteq> []"
  by (cases xs rule: remdups_adj.cases) auto

lemma decode_encode_scopes:
  assumes "ValidateScopes scopes = None" shows "decodeScopes (encodeScopes scopes) = sort scopes"
proof (cases "scopes = []")
  case False
  have all: "list_all (\<lambda>x. CHR '','' \<notin> set x) (sort scopes)" "list_all (\<lambda>x. x \<noteq> []) (sort scopes)"
    using assms validated_scope_chars by (auto simp: ValidateScopes_None list_all_iff)
  have ne: "sort scopes \<noteq> []" using False by (metis length_0_conv length_sort)
  then have "join '','' (sort scopes) \<noteq> []" using all(2) by (rule join_nonempty)
  with False split_join[OF ne all(1)] show ?thesis by (simp add: encodeScopes_def decodeScopes_def)
qed (simp add: encodeScopes_def decodeScopes_def)

section \<open>Properties\<close>

lemma Verify_iff:
  "fst (Verify hash True now wire s) = Inr ident \<longleftrightarrow>
     (\<exists>i secret r. Split wire = Inr (i, secret) \<and> row_of s i = Some r \<and> hash secret = rw_secret_hash r
        \<and> rw_revoked_at r = None \<and> (case rw_expires_at r of None \<Rightarrow> True | Some e \<Rightarrow> now < e)
        \<and> ident = \<lparr>id_Principal = rw_princ r, id_TokenID = i, id_Scopes = decodeScopes (rw_scopes r)\<rparr>)"
  by (auto simp: Verify_def Active_def SecretMatches_def split: sum.splits option.splits if_splits)

text \<open>A presented token is accepted exactly when it parses, its id is in the table, its secret hashes
  to the stored hash, and the row is neither revoked nor expired at that instant; the identity is the
  row's principal, the token's public id, and the stored scopes.\<close>

theorem verify_exactly:
  "fst (Verify hash True now wire s) = Inr ident \<longleftrightarrow>
     (\<exists>i secret r. Split wire = Inr (i, secret) \<and> row_of s i = Some r \<and> hash secret = rw_secret_hash r
        \<and> rw_revoked_at r = None \<and> (case rw_expires_at r of None \<Rightarrow> True | Some e \<Rightarrow> now < e)
        \<and> ident = \<lparr>id_Principal = rw_princ r, id_TokenID = i, id_Scopes = decodeScopes (rw_scopes r)\<rparr>)"
  by (rule Verify_iff)

text \<open>Without the secret nothing about a token leaks: whatever wrong secret is presented with an id,
  the answer is the one for an id that does not exist, whether the id is unknown, active, revoked or
  expired, and the store does not change.\<close>

theorem wrong_secret_learns_nothing:
  assumes "Split wire = Inr (i, secret)"
    and "map_option rw_secret_hash (row_of s i) \<noteq> Some (hash secret)"
  shows "Verify hash True now wire s = (Inl ErrUnknown, s)"
  using assms by (auto simp: Verify_def SecretMatches_def split: option.splits)

text \<open>An outage of the database is never reported as a bad credential: with the store out of reach a
  well-formed token is answered with the store error, and no token is accepted.\<close>

theorem outage_is_not_a_credential_error:
  "fst (Verify hash False now wire s) =
     (case Split wire of Inl e \<Rightarrow> Inl ErrMalformed | Inr (i, secret) \<Rightarrow> Inl (ErrStoreUnavailable i))"
proof -
  have "e = ErrMalformed" if "Split wire = Inl e" for e
    using that by (auto simp: Split_def split: if_splits option.splits)
  then show ?thesis by (auto simp: Verify_def split: sum.splits)
qed

text \<open>C22: A minted token verifies until it expires: presented to the store it was minted into, it
  resolves to the trimmed principal, its own id, and exactly the scopes it was minted with, in sorted
  order.\<close>

theorem minted_token_verifies:
  assumes "Mint hash db now idRaw secretRaw princ0 label scopes expires s = (Inr (wire, tok), s')"
    and "map_option length idRaw = Some idBytes" and "map_option length secretRaw = Some secretBytes"
    and "case expires of None \<Rightarrow> True | Some e \<Rightarrow> later < e"
  shows "fst (Verify hash True later wire s') =
     Inr \<lparr>id_Principal = trim_space princ0, id_TokenID = tk_ID tok, id_Scopes = sort scopes\<rparr>"
proof -
  note m = Mint_success[OF assms(1)]
  obtain ib sb where raw: "idRaw = Some ib" "secretRaw = Some sb" "length ib = idBytes" "length sb = secretBytes"
    using assms(2,3) by auto
  with m obtain secret where "Split wire = Inr (tk_ID tok, secret)" "tk_SecretHash tok = hash secret"
    using Generate_Split by blast
  with m assms(4) show ?thesis
    using decode_encode_scopes[of scopes] unfolding Verify_iff by auto
qed

text \<open>The operations that change the store, in any order.\<close>

inductive store_step :: "Store \<Rightarrow> Store \<Rightarrow> bool" where
  minted: "store_step s (snd (Mint hash db now idRaw secretRaw princ0 label scopes expires s))"
| verified: "store_step s (snd (Verify hash db now wire s))"
| used: "store_step s (write_last_used db now i s)"
| revoked: "store_step s (snd (Revoke db now i s))"
| revoked_owned: "store_step s (snd (RevokeOwned db now i princ s))"

definition revoked_row :: "Store \<Rightarrow> string \<Rightarrow> bool" where
  "revoked_row s i \<longleftrightarrow> (case row_of s i of None \<Rightarrow> False | Some r \<Rightarrow> rw_revoked_at r \<noteq> None)"

lemma row_of_mint:
  "row_of s j = Some r \<Longrightarrow> row_of (snd (Mint hash db now idRaw secretRaw princ0 label scopes expires s)) j = Some r"
  by (auto simp: Mint_def Let_def row_of_append split: option.splits sum.splits)

lemma store_step_keeps_revoked: "store_step s s' \<Longrightarrow> revoked_row s j \<Longrightarrow> revoked_row s' j"
proof (induction rule: store_step.induct)
  case (minted s hash db now idRaw secretRaw princ0 label scopes expires)
  then show ?case
    by (cases "row_of s j") (auto simp: revoked_row_def row_of_mint)
next
  case (revoked s db now i)
  then show ?case by (auto simp: revoked_row_def Revoke_def row_of_revoke split: option.splits)
next
  case (revoked_owned s db now i princ)
  then show ?case by (auto simp: revoked_row_def RevokeOwned_def row_of_revoke split: option.splits)
qed (auto simp: revoked_row_def split: option.splits)

lemma store_steps_keep_revoked: "store_step\<^sup>*\<^sup>* s s' \<Longrightarrow> revoked_row s j \<Longrightarrow> revoked_row s' j"
  by (induction rule: rtranclp_induct) (auto dest: store_step_keeps_revoked)

lemma find_None_filter: "find P xs = None \<longleftrightarrow> filter P xs = []"
  by (induction xs) auto

lemma Revoke_success:
  assumes "fst (Revoke True now i s) = None" shows "revoked_row (snd (Revoke True now i s)) i"
proof -
  have "row_of s i \<noteq> None"
  proof
    assume "row_of s i = None"
    then have "filter (\<lambda>r. rw_id r = i) (so_rows s) = []" by (simp add: row_of_def find_None_filter)
    then have none: "r \<in> set (so_rows s) \<Longrightarrow> rw_id r \<noteq> i" for r by (auto simp: filter_empty_conv)
    then have "filter (\<lambda>r. rw_id r = i \<and> rw_revoked_at r = None) (so_rows s) = []"
      "filter (\<lambda>r. rw_id r = i) (map (\<lambda>r. if rw_id r = i \<and> rw_revoked_at r = None then r\<lparr>rw_revoked_at := Some now\<rparr> else r) (so_rows s)) = []"
      by (auto simp: filter_empty_conv)
    with assms show False by (simp add: Revoke_def revoke_where_def Let_def)
  qed
  then obtain r where r: "row_of s i = Some r" by blast
  then show ?thesis by (auto simp: revoked_row_def Revoke_def row_of_revoke row_of_id[OF r] r)
qed

text \<open>C23: Revocation is immediate and permanent: once \<open>Revoke\<close> of an id has succeeded, no token with
  that id is accepted by any later verification, whatever mints, verifications, last-used writes and
  revocations happen in between.\<close>

theorem revocation_is_permanent:
  assumes "fst (Revoke True now i s) = None" and "store_step\<^sup>*\<^sup>* (snd (Revoke True now i s)) s'"
    and "Split wire = Inr (i, secret)"
  shows "fst (Verify hash db later wire s') \<noteq> Inr ident"
proof -
  have "revoked_row s' i" using store_steps_keep_revoked[OF assms(2) Revoke_success[OF assms(1)]] .
  then show ?thesis using assms(3)
    by (auto simp: Verify_def Active_def revoked_row_def split: option.splits if_splits)
qed

lemma row_distinct: "wf_map (map (\<lambda>r. (rw_id r, r)) rs) \<Longrightarrow> r \<in> set rs \<Longrightarrow> find (\<lambda>q. rw_id q = rw_id r) rs = Some r"
  by (induction rs) (auto simp: image_iff)

text \<open>Self-service revocation tells nothing about other people's tokens: for an id that belongs to
  someone else the answer is the one for an id that does not exist, and no row changes.\<close>

theorem revoke_owned_hides_foreign_ids:
  assumes "list_all (\<lambda>r. rw_id r = i \<longrightarrow> rw_princ r \<noteq> princ) (so_rows s)"
  shows "RevokeOwned True now i princ s = (Some ErrUnknown, s)"
proof -
  have "filter (\<lambda>r. (rw_id r = i \<and> rw_princ r = princ) \<and> rw_revoked_at r = None) (so_rows s) = []"
    "filter (\<lambda>r. rw_id r = i \<and> rw_princ r = princ) (so_rows s) = []"
    using assms by (auto simp: list_all_iff filter_empty_conv)
  moreover have "map (\<lambda>r. if (rw_id r = i \<and> rw_princ r = princ) \<and> rw_revoked_at r = None
      then r\<lparr>rw_revoked_at := Some now\<rparr> else r) (so_rows s) = so_rows s"
    using assms by (auto simp: list_all_iff intro!: map_idI)
  ultimately show ?thesis by (simp add: RevokeOwned_def revoke_where_def Let_def)
qed

text \<open>A store for the witnesses, with the identity as the hash.\<close>

definition mint_example :: "(auth_error + (string \<times> Token)) \<times> Store" where
  "mint_example = Mint (\<lambda>s. s) True 0 (Some (replicate 6 (CHR ''a''))) (Some (replicate 32 (CHR ''b''))) '' steven ''
     ''laptop'' [''models:local''] None \<lparr>so_rows = [], so_lastSeen = []\<rparr>"

lemma mint_example_ok:
  "(case fst mint_example of Inl e \<Rightarrow> False | Inr (wire, tok) \<Rightarrow> tk_ID tok = ''616161616161'')
   \<and> trim_space '' steven '' = ''steven''"
  by code_simp

theorem minted_token_verifies_witness:
  "\<exists>wire s'. fst (Verify (\<lambda>s. s) True 5 wire s') =
     Inr \<lparr>id_Principal = ''steven'', id_TokenID = ''616161616161'', id_Scopes = [''models:local'']\<rparr>"
proof -
  obtain res s' where p: "mint_example = (res, s')" by (rule prod.exhaust)
  have ok: "case res of Inl e \<Rightarrow> False | Inr (wire, tok) \<Rightarrow> tk_ID tok = ''616161616161''"
    using mint_example_ok unfolding p fst_conv by blast
  obtain wire tok where "res = Inr (wire, tok)" "tk_ID tok = ''616161616161''"
    using ok by (auto split: sum.splits prod.splits)
  then have m: "mint_example = (Inr (wire, tok), s')" "tk_ID tok = ''616161616161''"
    "trim_space '' steven '' = ''steven''"
    using mint_example_ok by (simp_all add: p)
  from minted_token_verifies[OF m(1)[unfolded mint_example_def], of 5] m(2,3) show ?thesis
    by (auto simp: idBytes_def secretBytes_def)
qed

theorem wrong_secret_learns_nothing_witness:
  "Verify (\<lambda>s. s) True 5 ''pat_616161616161_x'' \<lparr>so_rows = [], so_lastSeen = []\<rparr>
     = (Inl ErrUnknown, \<lparr>so_rows = [], so_lastSeen = []\<rparr>)"
  by (rule wrong_secret_learns_nothing[of _ "''616161616161''" "''x''"])
     (simp_all add: Split_def Prefix_def has_prefix_def idBytes_def is_hex_def is_digit_def row_of_def)

definition store_one :: Store where
  "store_one = \<lparr>so_rows = [\<lparr>rw_id = ''616161616161'', rw_princ = ''steven'', rw_label = [], rw_secret_hash = ''x'',
     rw_scopes = [], rw_created_at = 0, rw_last_used_at = None, rw_expires_at = None, rw_revoked_at = None\<rparr>],
     so_lastSeen = []\<rparr>"

theorem revocation_is_permanent_witness:
  "fst (Verify (\<lambda>s. s) True 9 ''pat_616161616161_x'' (snd (Revoke True 7 ''616161616161'' store_one)))
     \<noteq> Inr \<lparr>id_Principal = ''steven'', id_TokenID = ''616161616161'', id_Scopes = []\<rparr>"
proof -
  have "fst (Revoke True 7 ''616161616161'' store_one) = None"
    by (simp add: Revoke_def revoke_where_def Let_def store_one_def)
  moreover have "Split ''pat_616161616161_x'' = Inr (''616161616161'', ''x'')"
    by (simp add: Split_def Prefix_def has_prefix_def idBytes_def is_hex_def is_digit_def)
  ultimately show ?thesis by (rule revocation_is_permanent[OF _ rtranclp.rtrancl_refl])
qed

theorem revoke_owned_hides_foreign_ids_witness:
  "RevokeOwned True 7 ''616161616161'' ''eve'' store_one = (Some ErrUnknown, store_one)"
  by (rule revoke_owned_hides_foreign_ids) (simp add: store_one_def)

end
