(* ===== verification/Privacy.thy ===== *)
theory Privacy
  imports Registry_Validate Token_Store
begin

text \<open>
  \<^verbatim>\<open>internal/router/privacy.go\<close> and \<^verbatim>\<open>scope.go\<close>: the retention tiers, the demand a request makes (its
  own header and its token's scope, the stricter of the two), the gate a candidate has to pass, the
  directive that holds an endpoint to zero retention, and the refusal that is written otherwise.
\<close>

section \<open>Tiers\<close>

datatype privacyTier = TierNone | TierZDR | TierLocal

text \<open>The constants of the source are numbered by strictness; the order is that of the numbers.\<close>

primrec tier_num :: "privacyTier \<Rightarrow> nat" where
  "tier_num TierNone = 0"
| "tier_num TierZDR = 1"
| "tier_num TierLocal = 2"

instantiation privacyTier :: linorder
begin

definition less_eq_privacyTier :: "privacyTier \<Rightarrow> privacyTier \<Rightarrow> bool" where
  "less_eq_privacyTier a b \<longleftrightarrow> tier_num a \<le> tier_num b"

definition less_privacyTier :: "privacyTier \<Rightarrow> privacyTier \<Rightarrow> bool" where
  "less_privacyTier a b \<longleftrightarrow> tier_num a < tier_num b"

instance
proof
  fix x y z :: privacyTier
  show "(x < y) = (x \<le> y \<and> \<not> y \<le> x)" by (auto simp: less_eq_privacyTier_def less_privacyTier_def)
  show "x \<le> x" by (simp add: less_eq_privacyTier_def)
  show "x \<le> y \<Longrightarrow> y \<le> z \<Longrightarrow> x \<le> z" by (simp add: less_eq_privacyTier_def)
  show "x \<le> y \<Longrightarrow> y \<le> x \<Longrightarrow> x = y" by (cases x; cases y) (simp_all add: less_eq_privacyTier_def)
  show "x \<le> y \<or> y \<le> x" by (auto simp: less_eq_privacyTier_def)
qed

end

lemma tier_order [simp]:
  "TierNone \<le> t" "t \<le> TierLocal" "TierZDR \<le> t \<longleftrightarrow> t \<noteq> TierNone" "TierLocal \<le> t \<longleftrightarrow> t = TierLocal"
  "t < TierZDR \<longleftrightarrow> t = TierNone" "t \<le> TierNone \<longleftrightarrow> t = TierNone"
  by (cases t; simp add: less_eq_privacyTier_def less_privacyTier_def)+

definition PrivacyHeader :: string where "PrivacyHeader = ''X-Router-Privacy''"
definition PrivacyAny :: string where "PrivacyAny = ''any''"
definition PrivacyZDR :: string where "PrivacyZDR = ''zdr''"
definition PrivacyLocal :: string where "PrivacyLocal = ''local''"

definition tier_String :: "privacyTier \<Rightarrow> string" where
  "tier_String t = (case t of TierZDR \<Rightarrow> PrivacyZDR | TierLocal \<Rightarrow> PrivacyLocal | TierNone \<Rightarrow> [])"

text \<open>The tier, the prose naming its source, and a refusal (empty when there is none).\<close>

definition parsePrivacyHeader :: "string \<Rightarrow> privacyTier \<times> string \<times> string" where
  "parsePrivacyHeader header =
     (let v = trim_space (to_lower header) in
      if v = [] \<or> v = PrivacyAny then (TierNone, [], [])
      else if v = PrivacyZDR then
        (TierZDR, ''request header '' @ PrivacyHeader @ '': '' @ PrivacyZDR, [])
      else if v = PrivacyLocal then
        (TierLocal, ''request header '' @ PrivacyHeader @ '': '' @ PrivacyLocal, [])
      else (TierNone, [],
            ''request header '' @ PrivacyHeader @ '': '' @ [CHR 0x22] @ v @ [CHR 0x22]
              @ '' is not a recognised privacy tier''))"

definition effectiveTier :: "RoleDefinition \<Rightarrow> privacyTier \<Rightarrow> privacyTier" where
  "effectiveTier rd caller =
     (if rq_Locality (r_Require rd) = LocalityLocalOrZDR \<and> caller < TierZDR then TierZDR else caller)"

text \<open>The reason a candidate fails a tier, empty when it passes.\<close>

definition privacyGate :: "ModelDefinition \<Rightarrow> privacyTier \<Rightarrow> string" where
  "privacyGate m tier =
     (if tier = TierNone \<or> IsLocal m then []
      else if tier = TierLocal then ''not on fleet hardware (privacy: local)''
      else if \<not> ZDREnforceable m then ''neither local nor a zero-retention-enforceable endpoint (privacy: zdr)''
      else [])"

section \<open>The directive\<close>

definition setZDRDirective :: "obj \<Rightarrow> string + obj" where
  "setZDRDirective body =
     (case lookup body ''provider'' of
        None \<Rightarrow> Inr (store ''provider'' (JObj [(''zdr'', JBool True)]) body)
      | Some JNull \<Rightarrow> Inr (store ''provider'' (JObj [(''zdr'', JBool True)]) body)
      | Some (JObj existing) \<Rightarrow> Inr (store ''provider'' (JObj (store ''zdr'' (JBool True) existing)) body)
      | Some _ \<Rightarrow> Inl ''request field provider is not an object'')"

text \<open>\<open>applyPrivacy\<close>, given what \<open>lookupModel\<close> finds: a refusal, or the body to send.\<close>

definition applyPrivacy ::
    "ModelDefinition option \<Rightarrow> string \<Rightarrow> obj \<Rightarrow> privacyTier \<Rightarrow> string \<Rightarrow> string + obj" where
  "applyPrivacy found modelID body tier source =
     (case found of
        None \<Rightarrow> Inl (source @ '', but '' @ modelID @ '' is not a known model'')
      | Some m \<Rightarrow>
          let why = privacyGate m tier in
          if why \<noteq> [] then Inl (source @ '', but '' @ modelID @ '' is '' @ why)
          else if IsLocal m then Inr body
          else case setZDRDirective body of
                 Inl err \<Rightarrow> Inl (source @ '', but the directive could not be attached: '' @ err)
               | Inr body' \<Rightarrow> Inr body')"

section \<open>The demand of a request (scope.go)\<close>

record privacyDemand =
  pd_tier :: privacyTier
  pd_source :: string
  pd_scope :: string
  pd_tokenID :: string

definition scopeTier :: "string \<Rightarrow> privacyTier" where
  "scopeTier scope =
     (if scope = ScopeModelsLocal then TierLocal
      else if scope = ScopeModelsLocalOrZDR then TierZDR
      else TierNone)"

definition privacyDemandFor :: "string \<Rightarrow> Identity option \<Rightarrow> privacyDemand \<times> string" where
  "privacyDemandFor header ident =
     (let (tier, source, refuse) = parsePrivacyHeader header in
      if refuse \<noteq> [] then (\<lparr>pd_tier = TierNone, pd_source = [], pd_scope = [], pd_tokenID = []\<rparr>, refuse)
      else
        let d = \<lparr>pd_tier = tier, pd_source = source, pd_scope = [], pd_tokenID = []\<rparr>
        in case ident of
             None \<Rightarrow> (d, [])
           | Some i \<Rightarrow>
               let scope = ModelScope i; st = scopeTier scope
               in if st \<noteq> TierNone \<and> st \<ge> tier
                  then (\<lparr>pd_tier = st, pd_source = ''token scope '' @ scope @ '' (token '' @ id_TokenID i @ '')'',
                         pd_scope = scope, pd_tokenID = id_TokenID i\<rparr>, [])
                  else (d, []))"

text \<open>The 403 that refuses a request, by the caller's header or by the token's scope.\<close>

record refusal =
  rf_status :: nat
  rf_header :: string
  rf_type :: string
  rf_code :: string
  rf_scope :: string
  rf_tokenID :: string
  rf_reason :: string
  rf_tier :: string
  rf_excluded :: "string list"

definition writePrivacyRefusal :: "privacyTier \<Rightarrow> string \<Rightarrow> string list \<Rightarrow> refusal" where
  "writePrivacyRefusal tier reason excluded =
     \<lparr>rf_status = 403, rf_header = tier_String tier, rf_type = ''privacy_policy_violation'',
      rf_code = ''privacy_tier_unavailable'', rf_scope = [], rf_tokenID = [],
      rf_reason = ''router refused: '' @ reason,
      rf_tier = (if length excluded > 0 then tier_String tier else []), rf_excluded = excluded\<rparr>"

definition writeScopeRefusal :: "privacyDemand \<Rightarrow> privacyTier \<Rightarrow> string \<Rightarrow> string list \<Rightarrow> refusal" where
  "writeScopeRefusal d tier reason excluded =
     \<lparr>rf_status = 403, rf_header = tier_String tier, rf_type = ''permission_error'',
      rf_code = ''token_scope_denied'', rf_scope = pd_scope d, rf_tokenID = pd_tokenID d,
      rf_reason = ''router refused: '' @ reason,
      rf_tier = (if length excluded > 0 then tier_String tier else []), rf_excluded = excluded\<rparr>"

definition writeRefusal :: "privacyDemand \<Rightarrow> privacyTier \<Rightarrow> string \<Rightarrow> string list \<Rightarrow> refusal" where
  "writeRefusal d tier reason excluded =
     (if pd_scope d = [] then writePrivacyRefusal tier reason excluded
      else writeScopeRefusal d tier reason excluded)"

section \<open>Lemmas\<close>

text \<open>What a tier means for a placement.\<close>

definition satisfies_tier :: "ModelDefinition \<Rightarrow> privacyTier \<Rightarrow> bool" where
  "satisfies_tier m tier \<longleftrightarrow>
     (case tier of TierNone \<Rightarrow> True | TierZDR \<Rightarrow> IsLocal m \<or> ZDREnforceable m | TierLocal \<Rightarrow> IsLocal m)"

lemma privacyGate_iff: "privacyGate m tier = [] \<longleftrightarrow> satisfies_tier m tier"
  by (cases tier) (simp_all add: privacyGate_def satisfies_tier_def)

lemma satisfies_tier_mono: "t1 \<le> t2 \<Longrightarrow> satisfies_tier m t2 \<Longrightarrow> satisfies_tier m t1"
  by (cases t1; cases t2) (auto simp: satisfies_tier_def less_eq_privacyTier_def)

lemma effectiveTier_ge: "caller \<le> effectiveTier rd caller"
  by (cases caller) (simp_all add: effectiveTier_def)

lemma setZDR_sets:
  assumes "setZDRDirective body = Inr body'"
  shows "\<exists>p. lookup body' ''provider'' = Some (JObj p) \<and> lookup p ''zdr'' = Some (JBool True)
           \<and> (\<forall>k. k \<noteq> ''provider'' \<longrightarrow> lookup body' k = lookup body k)
           \<and> (\<forall>old k. lookup body ''provider'' = Some (JObj old) \<and> k \<noteq> ''zdr'' \<longrightarrow> lookup p k = lookup old k)"
  using assms by (auto simp: setZDRDirective_def split: option.splits json.splits)

text \<open>The gate of a tier: a candidate passes no requirement at all, or zdr when it is on fleet hardware
  or on an endpoint the router can hold to zero retention, or local when it is on fleet hardware; so
  whatever passes a tier passes every looser one.\<close>

theorem gate_is_tier:
  "(privacyGate m tier = [] \<longleftrightarrow>
      (case tier of TierNone \<Rightarrow> True | TierZDR \<Rightarrow> IsLocal m \<or> ZDREnforceable m | TierLocal \<Rightarrow> IsLocal m))
   \<and> (privacyGate m (max t tier) = [] \<longrightarrow> privacyGate m tier = [])"
  using satisfies_tier_mono[of tier "max t tier" m] by (simp add: privacyGate_iff satisfies_tier_def)

theorem gate_is_tier_witness:
  "privacyGate model_or (max TierNone TierZDR) = [] \<and> privacyGate model_or TierZDR = []
   \<and> privacyGate model_zen TierZDR \<noteq> []"
proof -
  have "privacyGate model_or (max TierNone TierZDR) = []" "privacyGate model_zen TierZDR \<noteq> []" by code_simp+
  with gate_is_tier[of model_or TierZDR TierNone] show ?thesis by blast
qed

text \<open>A request is held to the stricter of what its header asks and what its token's scope allows: the
  header can tighten beyond the scope and never loosen it, and a header value the router does not know
  is refused instead of being read as some tier.\<close>

theorem demand_takes_stricter:
  "(let v = trim_space (to_lower header);
        known = v \<in> {[], ''any'', ''zdr'', ''local''};
        asked = (if v = ''zdr'' then TierZDR else if v = ''local'' then TierLocal else TierNone);
        allowed = (case ident of None \<Rightarrow> TierNone | Some i \<Rightarrow> scopeTier (ModelScope i));
        (d, refuse) = privacyDemandFor header ident
    in (refuse = [] \<longleftrightarrow> known) \<and> (known \<longrightarrow> pd_tier d = max asked allowed))"
proof -
  have *: "max a b = (if b \<noteq> TierNone \<and> a \<le> b then b else a)" for a b :: privacyTier
    by (cases a; cases b) (simp_all add: max_def less_eq_privacyTier_def)
  show ?thesis
    by (simp add: Let_def privacyDemandFor_def parsePrivacyHeader_def PrivacyAny_def PrivacyZDR_def PrivacyLocal_def *
        split: option.split)
qed

theorem demand_takes_stricter_witness:
  "pd_tier (fst (privacyDemandFor ''any'' (Some \<lparr>id_Principal = ''kid'', id_TokenID = ''t'', id_Scopes = [''models:local'']\<rparr>)))
     = TierLocal"
proof -
  have t: "trim_space (to_lower ''any'') = ''any''" by code_simp
  have "scopeTier (ModelScope \<lparr>id_Principal = ''kid'', id_TokenID = ''t'', id_Scopes = [''models:local'']\<rparr>) = TierLocal"
    by code_simp
  then show ?thesis
    using demand_takes_stricter[of "''any''" "Some \<lparr>id_Principal = ''kid'', id_TokenID = ''t'', id_Scopes = [''models:local'']\<rparr>"]
    by (simp add: Let_def t case_prod_beta max_def)
qed

text \<open>C7: A body that leaves for a seat under a tier either goes to fleet hardware unchanged, or to an
  endpoint held to zero retention with the directive set to true whatever the caller wrote there, the
  caller's other provider preferences and every other field kept; under the local tier only the first
  can happen.\<close>

theorem directive_on_the_wire:
  assumes "applyPrivacy (Some m) mid body tier source = Inr body'" and "tier \<noteq> TierNone"
  shows "(IsLocal m \<and> body' = body)
       \<or> (tier = TierZDR \<and> ZDREnforceable m
          \<and> (\<exists>p. lookup body' ''provider'' = Some (JObj p) \<and> lookup p ''zdr'' = Some (JBool True)
               \<and> (\<forall>k. k \<noteq> ''provider'' \<longrightarrow> lookup body' k = lookup body k)
               \<and> (\<forall>old k. lookup body ''provider'' = Some (JObj old) \<and> k \<noteq> ''zdr'' \<longrightarrow> lookup p k = lookup old k)))"
proof (cases "IsLocal m")
  case True
  with assms(1) show ?thesis by (auto simp: applyPrivacy_def Let_def split: if_splits)
next
  case False
  from assms(1) have "satisfies_tier m tier"
    by (auto simp: applyPrivacy_def Let_def privacyGate_iff split: if_splits)
  with False assms(2) have "tier = TierZDR" "ZDREnforceable m"
    by (cases tier; simp add: satisfies_tier_def)+
  moreover have "setZDRDirective body = Inr body'"
    using assms(1) False by (auto simp: applyPrivacy_def Let_def split: if_splits sum.splits)
  ultimately show ?thesis using setZDR_sets by blast
qed

theorem directive_on_the_wire_witness:
  "\<exists>body'. applyPrivacy (Some model_or) ''or/glm'' [(''provider'', JObj [(''zdr'', JBool False), (''order'', JStr ''x'')])]
      TierZDR [] = Inr body'
    \<and> (\<exists>p. lookup body' ''provider'' = Some (JObj p) \<and> lookup p ''zdr'' = Some (JBool True) \<and> lookup p ''order'' = Some (JStr ''x''))"
proof -
  let ?body = "[(''provider'', JObj [(''zdr'', JBool False), (''order'', JStr ''x'')])]"
  have g: "privacyGate model_or TierZDR = []" "\<not> IsLocal model_or" by code_simp+
  then obtain body' where b: "applyPrivacy (Some model_or) ''or/glm'' ?body TierZDR [] = Inr body'"
    by (auto simp: applyPrivacy_def Let_def setZDRDirective_def)
  from directive_on_the_wire[OF b] g(2) obtain p where
    "lookup body' ''provider'' = Some (JObj p)" "lookup p ''zdr'' = Some (JBool True)"
    "\<forall>old k. lookup ?body ''provider'' = Some (JObj old) \<and> k \<noteq> ''zdr'' \<longrightarrow> lookup p k = lookup old k"
    by auto
  with b show ?thesis by auto
qed

text \<open>A scope written with surrounding space passes the check at mint time but is not enforced: the
  token carries models:local, ranks as the strictest scope, and yet makes no demand on a request.\<close>

theorem padded_scope_is_unenforced:
  "ValidateScopes ['' models:local''] = None
   \<and> scope_rank (ModelScope \<lparr>id_Principal = p, id_TokenID = t, id_Scopes = decodeScopes (encodeScopes ['' models:local''])\<rparr>) = 2
   \<and> pd_tier (fst (privacyDemandFor [] (Some \<lparr>id_Principal = p, id_TokenID = t,
          id_Scopes = decodeScopes (encodeScopes ['' models:local''])\<rparr>))) = TierNone"
proof -
  have v: "ValidateScopes ['' models:local''] = None" "decodeScopes (encodeScopes ['' models:local'']) = ['' models:local'']"
    "scope_rank '' models:local'' = 2" "scopeTier '' models:local'' = TierNone"
    "modelScopeRank (trim_space '' models:local'') = Some 2"
    "snd (snd (parsePrivacyHeader [])) = []" "fst (parsePrivacyHeader []) = TierNone"
    by code_simp+
  show ?thesis
    unfolding privacyDemandFor_def Let_def ModelScope_def by (simp add: v case_prod_beta)
qed

end
