(* ===== verification/Availability.thy ===== *)
theory Availability
  imports Inventory Envelope Pressure Privacy
begin

text \<open>
  \<^verbatim>\<open>internal/router/roles.go\<close> and \<^verbatim>\<open>availability.go\<close>: the router's view of the health tracker. The
  interface is a record of operations over a state \<open>'s\<close>; a question may change the state (a verdict on
  an open breaker does), so every question returns it. \<open>tracker_avail\<close> is the tracker at one instant,
  \<open>alwaysRoutable\<close> the stub of a router without tracking. The optional interfaces the router probes for
  with a type assertion (\<open>discoverySource\<close>, \<open>stateReporter\<close>) are operations the stub answers with the
  empty catalogue and \<open>False\<close>, as the code does where the assertion fails.

  The locale states what resolution relies on: asking changes no answer and no catalogue, and a report
  about one model changes no answer about another. It is interpreted on both providers.
\<close>

record 's availability =
  av_Routable :: "string \<Rightarrow> 's \<Rightarrow> bool \<times> 's"
  av_Reason :: "string \<Rightarrow> 's \<Rightarrow> string \<times> 's"
  av_ReportFailure :: "string \<Rightarrow> go_error option \<Rightarrow> 's \<Rightarrow> 's"
  av_ReportSuccess :: "string \<Rightarrow> 's \<Rightarrow> 's"
  av_Discovered :: "'s \<Rightarrow> ModelDefinition gomap"
  av_Absent :: "string \<Rightarrow> 's \<Rightarrow> bool \<times> 's"

definition tracker_avail :: "time \<Rightarrow> Tracker availability" where
  "tracker_avail now =
     \<lparr>av_Routable = Routable now, av_Reason = Reason now,
      av_ReportFailure = ReportFailure now, av_ReportSuccess = ReportSuccess,
      av_Discovered = Discovered,
      av_Absent = (\<lambda>i t. let ((state, _, _), t') = stateLocked now i t in (state = Absent, t'))\<rparr>"

definition alwaysRoutable :: "'s availability" where
  "alwaysRoutable =
     \<lparr>av_Routable = (\<lambda>i s. (True, s)), av_Reason = (\<lambda>i s. (''availability tracking disabled'', s)),
      av_ReportFailure = (\<lambda>i e s. s), av_ReportSuccess = (\<lambda>i s. s),
      av_Discovered = (\<lambda>s. []), av_Absent = (\<lambda>i s. (False, s))\<rparr>"

section \<open>The contract\<close>

locale availability_view =
  fixes av :: "'s availability"
  assumes routable_stable: "fst (av_Routable av j (snd (av_Routable av i s))) = fst (av_Routable av j s)"
    and reason_stable: "fst (av_Routable av j (snd (av_Reason av i s))) = fst (av_Routable av j s)"
    and absent_stable: "fst (av_Routable av j (snd (av_Absent av i s))) = fst (av_Routable av j s)"
    and discovered_routable: "av_Discovered av (snd (av_Routable av i s)) = av_Discovered av s"
    and discovered_reason: "av_Discovered av (snd (av_Reason av i s)) = av_Discovered av s"
    and discovered_absent: "av_Discovered av (snd (av_Absent av i s)) = av_Discovered av s"
    and failure_local: "j \<noteq> i \<Longrightarrow> fst (av_Routable av j (av_ReportFailure av i e s)) = fst (av_Routable av j s)"
    and success_local: "j \<noteq> i \<Longrightarrow> fst (av_Routable av j (av_ReportSuccess av i s)) = fst (av_Routable av j s)"
    and discovered_failure: "av_Discovered av (av_ReportFailure av i e s) = av_Discovered av s"
    and discovered_success: "av_Discovered av (av_ReportSuccess av i s) = av_Discovered av s"
begin

text \<open>Two states give the same answers.\<close>

definition same_view :: "'s \<Rightarrow> 's \<Rightarrow> bool" where
  "same_view s s' \<longleftrightarrow>
     (\<forall>j. fst (av_Routable av j s') = fst (av_Routable av j s)) \<and> av_Discovered av s' = av_Discovered av s"

lemma same_view_refl [simp]: "same_view s s"
  by (simp add: same_view_def)

lemma same_view_trans: "same_view s s1 \<Longrightarrow> same_view s1 s2 \<Longrightarrow> same_view s s2"
  by (simp add: same_view_def)

lemma same_view_queries [simp]:
  "same_view s (snd (av_Routable av i s))" "same_view s (snd (av_Reason av i s))"
  "same_view s (snd (av_Absent av i s))"
  by (simp_all add: same_view_def routable_stable reason_stable absent_stable discovered_routable
      discovered_reason discovered_absent)

end

interpretation tracker: availability_view "tracker_avail now" for now
proof
  fix i j :: string and s :: Tracker and e :: "go_error option"
  have absent: "snd (av_Absent (tracker_avail now) i s) = snd (stateLocked now i s)"
    by (simp add: tracker_avail_def Let_def split: prod.splits)
  show "fst (av_Routable (tracker_avail now) j (snd (av_Routable (tracker_avail now) i s))) = fst (av_Routable (tracker_avail now) j s)"
    and "fst (av_Routable (tracker_avail now) j (snd (av_Reason (tracker_avail now) i s))) = fst (av_Routable (tracker_avail now) j s)"
    and "fst (av_Routable (tracker_avail now) j (snd (av_Absent (tracker_avail now) i s))) = fst (av_Routable (tracker_avail now) j s)"
    unfolding absent by (simp_all add: tracker_avail_def query_keeps_verdicts)
  show "av_Discovered (tracker_avail now) (snd (av_Routable (tracker_avail now) i s)) = av_Discovered (tracker_avail now) s"
    and "av_Discovered (tracker_avail now) (snd (av_Reason (tracker_avail now) i s)) = av_Discovered (tracker_avail now) s"
    and "av_Discovered (tracker_avail now) (snd (av_Absent (tracker_avail now) i s)) = av_Discovered (tracker_avail now) s"
    unfolding absent by (simp_all add: tracker_avail_def Discovered_def)
  show "av_Discovered (tracker_avail now) (av_ReportFailure (tracker_avail now) i e s) = av_Discovered (tracker_avail now) s"
    and "av_Discovered (tracker_avail now) (av_ReportSuccess (tracker_avail now) i s) = av_Discovered (tracker_avail now) s"
    by (simp_all add: tracker_avail_def Discovered_def ReportFailure_def ReportSuccess_def split: option.splits)
  show "fst (av_Routable (tracker_avail now) j (av_ReportFailure (tracker_avail now) i e s)) = fst (av_Routable (tracker_avail now) j s)"
    and "fst (av_Routable (tracker_avail now) j (av_ReportSuccess (tracker_avail now) i s)) = fst (av_Routable (tracker_avail now) j s)"
    if "j \<noteq> i"
    using that by (simp_all add: tracker_avail_def fst_Routable ReportFailure_def ReportSuccess_def split: option.splits)
qed

interpretation untracked: availability_view alwaysRoutable
  by unfold_locales (simp_all add: alwaysRoutable_def)

end
