(* ===== verification/Resolve.thy ===== *)
theory Resolve
  imports Availability
begin

text \<open>
  \<^verbatim>\<open>internal/router/resolve.go\<close>, \<^verbatim>\<open>roles.go\<close> and the lookups of \<^verbatim>\<open>availability.go\<close>: from the name a caller
  sent to the upstream it is forwarded to. A name is a registry key, a repository, a role, an alias, or
  a model with an egress suffix; roles and fallback chains walk a preference order and take the first
  candidate that passes the privacy tier, the role's capabilities, the tracker and the context envelope.

  Go ranges over a map in an unspecified order; here a range follows the list that represents the map,
  which is any list with its entries, so what holds for every list holds for every order. A built router
  has a registry (\<open>New\<close> dereferences it), so the nil case is not a value of \<open>Router\<close>. Names are quoted
  without escapes.
\<close>

section \<open>Data\<close>

record Router =
  rt_registry :: ModelRegistry
  rt_active :: "ModelDefinition gomap"
  rt_roles :: "RoleDefinition gomap"
  rt_mode :: string
  rt_getenv :: "string \<Rightarrow> string"

definition NewRouter :: "ModelRegistry \<Rightarrow> string \<Rightarrow> (string \<Rightarrow> string) \<Rightarrow> Router" where
  "NewRouter reg mode getenv =
     \<lparr>rt_registry = reg, rt_active = ModelsForMode reg mode, rt_roles = RolesForMode reg mode,
      rt_mode = mode, rt_getenv = getenv\<rparr>"

record resolveResult =
  rr_BackendURL :: string
  rr_BackendModel :: string
  rr_AuthBearer :: string
  rr_AuthHeader :: string
  rr_ModelID :: string
  rr_ResolvedFrom :: string
  rr_ViaToolProxy :: bool
  rr_APIClass :: APIClass
  rr_Egress :: string
  rr_Role :: string
  rr_Chain :: string
  rr_Overflowed :: bool
  rr_Remaining :: "roleCandidate list"
  rr_PromptTokens :: int
  rr_PrivacyTier :: privacyTier
  rr_Downshift :: string
  rr_PressureNote :: string
  rr_CandidatePressure :: "int option"
  rr_Discovered :: bool
  rr_RequestDefaults :: obj

datatype resolve_error =
    EmptyModel
  | UnknownName string
  | UnknownRole string
  | UnknownEgressBase string
  | BuildFailed string config_error
  | PrivacyRefused string privacyTier "string list"
  | RoleUnavailable string "string list"
  | ChainUnavailable string "string list"

definition config_error_text :: "config_error \<Rightarrow> string" where
  "config_error_text e =
     (case e of
        UnknownModel i \<Rightarrow> ''config: unknown model '' @ quoted i
      | IsMultiNode i \<Rightarrow> ''config: model '' @ quoted i @ '' is multi-node''
      | UnknownNode i n \<Rightarrow> ''config: model '' @ quoted i @ '' references unknown node '' @ quoted n
      | UnknownHeadNode i n \<Rightarrow> ''config: model '' @ quoted i @ '' head node '' @ quoted n @ '' unknown'')"

definition role_error_text :: "string \<Rightarrow> string list \<Rightarrow> string" where
  "role_error_text role reasons =
     (if length reasons = 0 then ''role '' @ quoted role @ '' has no candidates routable in this mode''
      else ''role '' @ quoted role @ '' has no available model: '' @ join ''; '' reasons)"

definition chain_error_text :: "string \<Rightarrow> string list \<Rightarrow> string" where
  "chain_error_text chain reasons =
     (if length reasons = 0 then ''model '' @ quoted chain @ '' has no providers routable in this mode''
      else ''model '' @ quoted chain @ '' has no available provider: '' @ join ''; '' reasons)"

definition privacy_error_text :: "string \<Rightarrow> privacyTier \<Rightarrow> string list \<Rightarrow> string" where
  "privacy_error_text subject tier excluded =
     quoted subject @ '' has no candidate that satisfies privacy tier '' @ quoted (tier_String tier)
       @ '': '' @ join ''; '' excluded"

definition resolve_error_text :: "resolve_error \<Rightarrow> string" where
  "resolve_error_text e =
     (case e of
        EmptyModel \<Rightarrow> ''router: empty model''
      | UnknownName n \<Rightarrow> ''router: unknown model '' @ quoted n
      | UnknownRole n \<Rightarrow> ''router: unknown role '' @ quoted n
      | UnknownEgressBase n \<Rightarrow> ''router: unknown egress base '' @ quoted n
      | BuildFailed i err \<Rightarrow> ''router: resolve '' @ quoted i @ '': '' @ config_error_text err
      | PrivacyRefused subject tier excluded \<Rightarrow> privacy_error_text subject tier excluded
      | RoleUnavailable role reasons \<Rightarrow> role_error_text role reasons
      | ChainUnavailable chain reasons \<Rightarrow> chain_error_text chain reasons)"

section \<open>Lookups\<close>

definition lookupModel :: "Router \<Rightarrow> ModelDefinition gomap \<Rightarrow> string \<Rightarrow> ModelDefinition option" where
  "lookupModel rt disc i = (case lookup (rt_active rt) i of Some m \<Rightarrow> Some m | None \<Rightarrow> lookup disc i)"

definition repo_matches :: "string \<Rightarrow> ModelDefinition \<Rightarrow> bool" where
  "repo_matches want m \<longleftrightarrow> before_char (CHR ''#'') (m_HFRepo m) = want \<or> m_HFRepo m = want"

definition lookupConcrete ::
    "Router \<Rightarrow> ModelDefinition gomap \<Rightarrow> string \<Rightarrow> (string \<times> ModelDefinition) option" where
  "lookupConcrete rt disc want =
     (case lookup (rt_active rt) want of
        Some m \<Rightarrow> Some (want, m)
      | None \<Rightarrow>
          (case find (\<lambda>(i, m). repo_matches want m) (rt_active rt) of
             Some (i, m) \<Rightarrow> Some (i, m)
           | None \<Rightarrow> map_option (Pair want) (lookup disc want)))"

definition lookupAlias :: "Router \<Rightarrow> string \<Rightarrow> (string \<times> ModelDefinition \<times> string) option" where
  "lookupAlias rt want =
     map_option (\<lambda>(i, m). (i, m, want)) (find (\<lambda>(i, m). want \<in> set (m_Aliases m)) (rt_active rt))"

text \<open>\<open>catalog\<close>: every entry a caller can name, the static ones winning, with the ids sorted.\<close>

definition catalog :: "Router \<Rightarrow> ModelDefinition gomap \<Rightarrow> ModelDefinition gomap \<times> string list" where
  "catalog rt disc =
     (let out = fold (\<lambda>(i, m). store i m) (rt_active rt) (fold (\<lambda>(i, m). store i m) disc [])
      in (out, sort (map fst out)))"

definition RoleNames :: "Router \<Rightarrow> string list" where
  "RoleNames rt = sort (map fst (rt_roles rt))"

section \<open>The forwarding decision\<close>

definition Router_resolveKey :: "Router \<Rightarrow> string \<Rightarrow> string" where
  "Router_resolveKey rt raw =
     (if raw = [] then []
      else if has_prefix raw ''sk-'' then raw
      else rt_getenv rt raw)"

definition tool_proxy_override :: "ModelDefinition \<Rightarrow> string \<Rightarrow> bool \<Rightarrow> bool option" where
  "tool_proxy_override m matchedAlias forceDirect =
     (if forceDirect then Some False
      else if matchedAlias \<noteq> [] then
        (case lookup (m_AliasOverrides m) matchedAlias of Some ov \<Rightarrow> ao_ToolProxy ov | None \<Rightarrow> None)
      else None)"

definition upstream_base :: "Router \<Rightarrow> string \<Rightarrow> ModelDefinition \<Rightarrow> bool option \<Rightarrow> config_error + string" where
  "upstream_base rt i m override =
     (if m_APIBase m = [] then APIBase (rt_registry rt) i override else Inr (m_APIBase m))"

definition buildResult ::
    "Router \<Rightarrow> string \<Rightarrow> ModelDefinition \<Rightarrow> string \<Rightarrow> string \<Rightarrow> bool \<Rightarrow> string \<Rightarrow> resolve_error + resolveResult" where
  "buildResult rt i m matchedAlias original forceDirect egress =
     (let override = tool_proxy_override m matchedAlias forceDirect in
      case upstream_base rt i m override of
        Inl e \<Rightarrow> Inl (BuildFailed i e)
      | Inr base \<Rightarrow>
          let effectiveToolProxy = (case override of None \<Rightarrow> m_ToolProxy m | Some b \<Rightarrow> b);
              viaToolProxy = (m_Backend m \<noteq> BackendExternal \<and> effectiveToolProxy);
              external = (m_Backend m = BackendExternal)
          in Inr \<lparr>rr_BackendURL = trim_suffix base ''/v1'',
                  rr_BackendModel = (if viaToolProxy then i else BackendModelName m),
                  rr_AuthBearer = (if external then Router_resolveKey rt (m_APIKey m) else []),
                  rr_AuthHeader = (if external then m_APIKeyHeader m else []),
                  rr_ModelID = i, rr_ResolvedFrom = original, rr_ViaToolProxy = viaToolProxy,
                  rr_APIClass = m_APIClass m, rr_Egress = egress, rr_Role = [], rr_Chain = [],
                  rr_Overflowed = False, rr_Remaining = [], rr_PromptTokens = 0,
                  rr_PrivacyTier = TierNone, rr_Downshift = [], rr_PressureNote = [],
                  rr_CandidatePressure = None, rr_Discovered = IsDiscovered m,
                  rr_RequestDefaults = RequestDefaultsFor m matchedAlias\<rparr>)"

section \<open>Preference orders (roles.go)\<close>

definition roleOrder :: "RoleDefinition \<Rightarrow> roleCandidate list" where
  "roleOrder rd =
     map (\<lambda>i. \<lparr>rc_ModelID = i, rc_Overflow = False, rc_Chain = []\<rparr>) (r_Candidates rd)
     @ (if r_OnEmpty rd = OnEmptyOverflow
        then map (\<lambda>i. \<lparr>rc_ModelID = i, rc_Overflow = True, rc_Chain = []\<rparr>) (r_Overflow rd)
        else [])"

definition expand_one :: "Router \<Rightarrow> ModelDefinition gomap \<Rightarrow> roleCandidate \<Rightarrow> roleCandidate list" where
  "expand_one rt disc cand =
     (case lookupModel rt disc (rc_ModelID cand) of
        None \<Rightarrow> [cand]
      | Some m \<Rightarrow>
          if length (m_Fallbacks m) = 0 then [cand]
          else (if \<not> IsVirtual m
                then [\<lparr>rc_ModelID = rc_ModelID cand, rc_Overflow = rc_Overflow cand, rc_Chain = rc_ModelID cand\<rparr>]
                else [])
               @ map (\<lambda>fid. \<lparr>rc_ModelID = fid, rc_Overflow = rc_Overflow cand, rc_Chain = rc_ModelID cand\<rparr>)
                   (m_Fallbacks m))"

definition expandChains :: "Router \<Rightarrow> ModelDefinition gomap \<Rightarrow> roleCandidate list \<Rightarrow> roleCandidate list" where
  "expandChains rt disc order = concat (map (expand_one rt disc) order)"

definition capability_text :: "ModelCapability \<Rightarrow> string" where
  "capability_text c =
     (case c of
        CapText \<Rightarrow> ''text'' | CapVision \<Rightarrow> ''vision'' | CapAudio \<Rightarrow> ''audio''
      | CapImageGen \<Rightarrow> ''image_gen'' | CapToolCalling \<Rightarrow> ''tool_calling'' | CapOther s \<Rightarrow> s)"

text \<open>The dash of the message, in UTF-8.\<close>

definition em_dash :: string where "em_dash = [CHR 0xE2, CHR 0x80, CHR 0x94]"

definition capabilityGap :: "ModelDefinition \<Rightarrow> RoleDefinition \<Rightarrow> string" where
  "capabilityGap m rd =
     (if \<not> IsDiscovered m then []
      else case find (\<lambda>want. \<not> HasCapability m want) (rq_Capabilities (r_Require rd)) of
             None \<Rightarrow> []
           | Some want \<Rightarrow>
               ''lacks required capability '' @ quoted (capability_text want)
                 @ '' (its listing does not say; set capabilities on the discovery source)'')"

definition unlistedReason :: "Router \<Rightarrow> string \<Rightarrow> string" where
  "unlistedReason rt i =
     (case DiscoveredMember (rt_registry rt) i of
        None \<Rightarrow> []
      | Some (src, pid) \<Rightarrow>
          ''not listed by '' @ s_Prefix src @ '' ('' @ s_APIBase src
            @ '') '' @ em_dash @ '' it becomes routable when the listing includes '' @ quoted pid)"

section \<open>Balancing by load\<close>

text \<open>The questions of \<open>orderByPressure\<close> to the tracker: one per entry of the list, the last answer about
  an id standing; then one per in-contract entry for the note.\<close>

fun ask_all :: "'s availability \<Rightarrow> roleCandidate list \<Rightarrow> bool gomap \<Rightarrow> 's \<Rightarrow> bool gomap \<times> 's" where
  "ask_all av [] ans s = (ans, s)"
| "ask_all av (c # cs) ans s =
     (let (b, s') = av_Routable av (rc_ModelID c) s in ask_all av cs (store (rc_ModelID c) b ans) s')"

fun note_entries :: "'s availability \<Rightarrow> int gomap \<Rightarrow> roleCandidate list \<Rightarrow> 's \<Rightarrow> string list \<times> 's" where
  "note_entries av pr [] s = ([], s)"
| "note_entries av pr (c # cs) s =
     (if rc_Overflow c then note_entries av pr cs s
      else
        let (b, s1) = av_Routable av (rc_ModelID c) s;
            (es, s2) = note_entries av pr cs s1
        in (if b then (rc_ModelID c @ ''='' @ show_int (get pr (rc_ModelID c))) # es else es, s2))"

definition balance_order ::
    "'s availability \<Rightarrow> time \<Rightarrow> pressureTracker \<Rightarrow> RoleDefinition \<Rightarrow> roleCandidate list \<Rightarrow> 's
     \<Rightarrow> (roleCandidate list \<times> int gomap \<times> string) \<times> 's" where
  "balance_order av now p rd base s =
     (let (ans, s1) = ask_all av base [] s;
          (order, pr) = orderByPressure now p rd (\<lambda>i. lookup ans i = Some True) base;
          (note, s2) = note_entries av pr order s1
      in ((order, pr, join '','' note), s2))"

section \<open>The walk of a role\<close>

text \<open>What the walk is held to, and what it has collected: the reasons, the privacy exclusions kept apart
  from them, and the first candidate the envelope passed over.\<close>

record role_ask =
  ra_name :: string
  ra_original :: string
  ra_forceDirect :: bool
  ra_promptTokens :: int
  ra_tier :: privacyTier
  ra_role :: RoleDefinition
  ra_note :: string
  ra_pressure :: "int gomap option"

record walked =
  wk_reasons :: "string list"
  wk_excluded :: "string list"
  wk_gatedOut :: string

definition add_reason :: "string \<Rightarrow> string \<Rightarrow> walked \<Rightarrow> walked" where
  "add_reason i why w = w\<lparr>wk_reasons := wk_reasons w @ [i @ '': '' @ why]\<rparr>"

definition add_excluded :: "string \<Rightarrow> string \<Rightarrow> walked \<Rightarrow> walked" where
  "add_excluded i why w = w\<lparr>wk_excluded := wk_excluded w @ [i @ '': '' @ why]\<rparr>"

definition gate_out :: "string \<Rightarrow> walked \<Rightarrow> walked" where
  "gate_out i w = (if wk_gatedOut w = [] then w\<lparr>wk_gatedOut := i\<rparr> else w)"

definition stamp_role :: "role_ask \<Rightarrow> walked \<Rightarrow> roleCandidate \<Rightarrow> roleCandidate list \<Rightarrow> resolveResult \<Rightarrow> resolveResult" where
  "stamp_role q w cand rest res =
     res\<lparr>rr_Role := ra_name q, rr_Chain := rc_Chain cand, rr_Overflowed := rc_Overflow cand,
         rr_Remaining := rest, rr_PromptTokens := ra_promptTokens q, rr_Downshift := wk_gatedOut w,
         rr_PrivacyTier := ra_tier q, rr_PressureNote := ra_note q,
         rr_CandidatePressure := (case ra_pressure q of None \<Rightarrow> None | Some pr \<Rightarrow> lookup pr (rc_ModelID cand))\<rparr>"

fun role_walk ::
    "'s availability \<Rightarrow> Router \<Rightarrow> role_ask \<Rightarrow> roleCandidate list \<Rightarrow> walked \<Rightarrow> 's
     \<Rightarrow> (walked + resolveResult) \<times> 's" where
  "role_walk av rt q [] w s = (Inl w, s)"
| "role_walk av rt q (cand # rest) w s =
     (let i = rc_ModelID cand in
      case lookupModel rt (av_Discovered av s) i of
        None \<Rightarrow>
          (let why = unlistedReason rt i
           in role_walk av rt q rest (if why \<noteq> [] then add_reason i why w else w) s)
      | Some m \<Rightarrow>
          if privacyGate m (ra_tier q) \<noteq> []
          then role_walk av rt q rest (add_excluded i (privacyGate m (ra_tier q)) w) s
          else if capabilityGap m (ra_role q) \<noteq> []
          then role_walk av rt q rest (add_reason i (capabilityGap m (ra_role q)) w) s
          else
            (case av_Routable av i s of
               (False, s1) \<Rightarrow>
                 (case av_Reason av i s1 of (why, s2) \<Rightarrow> role_walk av rt q rest (add_reason i why w) s2)
             | (True, s1) \<Rightarrow>
                 if contextGate (rt_active rt) m (ra_promptTokens q) \<noteq> []
                 then role_walk av rt q rest
                        (gate_out i (add_reason i (contextGate (rt_active rt) m (ra_promptTokens q)) w)) s1
                 else
                   (case buildResult rt i m [] (ra_original q) (ra_forceDirect q) [] of
                      Inl e \<Rightarrow> role_walk av rt q rest (add_reason i (resolve_error_text e) w) s1
                    | Inr res \<Rightarrow> (Inr (stamp_role q w cand rest res), s1))))"

definition no_walk :: walked where
  "no_walk = \<lparr>wk_reasons = [], wk_excluded = [], wk_gatedOut = []\<rparr>"

text \<open>The preference order of a role as it is walked, with the balancer's scores and note.\<close>

definition role_order ::
    "'s availability \<Rightarrow> time \<Rightarrow> pressureTracker \<Rightarrow> Router \<Rightarrow> RoleDefinition \<Rightarrow> 's
     \<Rightarrow> (roleCandidate list \<times> int gomap option \<times> string) \<times> 's" where
  "role_order av now p rt rd s =
     (if r_Balance rd = BalancePressure then
        (let ((base, pr, note), s') = balance_order av now p rd (roleOrder rd) s
         in ((expandChains rt (av_Discovered av s') base, Some pr, note), s'))
      else ((expandChains rt (av_Discovered av s) (roleOrder rd), None, []), s))"

definition resolveRole ::
    "'s availability \<Rightarrow> time \<Rightarrow> pressureTracker \<Rightarrow> Router \<Rightarrow> string \<Rightarrow> string \<Rightarrow> bool \<Rightarrow> int \<Rightarrow> privacyTier \<Rightarrow> 's
     \<Rightarrow> (resolve_error + resolveResult) \<times> 's" where
  "resolveRole av now p rt name original forceDirect promptTokens caller s =
     (case lookup (rt_roles rt) name of
        None \<Rightarrow> (Inl (UnknownRole name), s)
      | Some rd \<Rightarrow>
          let tier = effectiveTier rd caller;
              ((order, pr, note), s1) = role_order av now p rt rd s;
              q = \<lparr>ra_name = name, ra_original = original, ra_forceDirect = forceDirect,
                   ra_promptTokens = promptTokens, ra_tier = tier, ra_role = rd, ra_note = note,
                   ra_pressure = pr\<rparr>
          in case role_walk av rt q order no_walk s1 of
               (Inr res, s2) \<Rightarrow> (Inr res, s2)
             | (Inl w, s2) \<Rightarrow>
                 if length (wk_excluded w) > 0 \<and> length (wk_reasons w) = 0
                 then (Inl (PrivacyRefused name tier (wk_excluded w)), s2)
                 else
                   (Inl (RoleUnavailable name
                      (wk_reasons w @ wk_excluded w
                       @ (if r_OnEmpty rd = OnEmptyError \<and> length (r_Overflow rd) = 0
                          then [''role is on_empty=error (no overflow configured)''] else []))), s2))"

section \<open>The walk of a chain\<close>

definition chain_order :: "string \<Rightarrow> ModelDefinition \<Rightarrow> roleCandidate list" where
  "chain_order i m =
     (if \<not> IsVirtual m then [\<lparr>rc_ModelID = i, rc_Overflow = False, rc_Chain = i\<rparr>] else [])
     @ map (\<lambda>fid. \<lparr>rc_ModelID = fid, rc_Overflow = False, rc_Chain = i\<rparr>) (m_Fallbacks m)"

fun chain_walk ::
    "'s availability \<Rightarrow> Router \<Rightarrow> string \<Rightarrow> bool \<Rightarrow> privacyTier \<Rightarrow> roleCandidate list \<Rightarrow> walked \<Rightarrow> 's
     \<Rightarrow> (walked + resolveResult) \<times> 's" where
  "chain_walk av rt original forceDirect caller [] w s = (Inl w, s)"
| "chain_walk av rt original forceDirect caller (cand # rest) w s =
     (let i = rc_ModelID cand in
      case lookup (rt_active rt) i of
        None \<Rightarrow> chain_walk av rt original forceDirect caller rest (add_reason i ''not routable in this mode'' w) s
      | Some cm \<Rightarrow>
          if privacyGate cm caller \<noteq> []
          then chain_walk av rt original forceDirect caller rest (add_excluded i (privacyGate cm caller) w) s
          else
            (case av_Routable av i s of
               (False, s1) \<Rightarrow>
                 (case av_Reason av i s1 of
                    (why, s2) \<Rightarrow> chain_walk av rt original forceDirect caller rest (add_reason i why w) s2)
             | (True, s1) \<Rightarrow>
                 (case buildResult rt i cm [] original forceDirect [] of
                    Inl e \<Rightarrow>
                      chain_walk av rt original forceDirect caller rest (add_reason i (resolve_error_text e) w) s1
                  | Inr res \<Rightarrow>
                      (Inr (res\<lparr>rr_Chain := rc_Chain cand, rr_Remaining := rest, rr_PrivacyTier := caller\<rparr>), s1))))"

definition resolveChain ::
    "'s availability \<Rightarrow> Router \<Rightarrow> string \<Rightarrow> ModelDefinition \<Rightarrow> string \<Rightarrow> bool \<Rightarrow> privacyTier \<Rightarrow> 's
     \<Rightarrow> (resolve_error + resolveResult) \<times> 's" where
  "resolveChain av rt i m original forceDirect caller s =
     (case chain_walk av rt original forceDirect caller (chain_order i m) no_walk s of
        (Inr res, s1) \<Rightarrow> (Inr res, s1)
      | (Inl w, s1) \<Rightarrow>
          if length (wk_excluded w) > 0 \<and> length (wk_reasons w) = 0
          then (Inl (PrivacyRefused i caller (wk_excluded w)), s1)
          else (Inl (ChainUnavailable i (wk_reasons w @ wk_excluded w)), s1))"

section \<open>Names\<close>

definition resolveEgressBase ::
    "'s availability \<Rightarrow> time \<Rightarrow> pressureTracker \<Rightarrow> Router \<Rightarrow> string \<Rightarrow> string \<Rightarrow> string \<Rightarrow> int \<Rightarrow> privacyTier \<Rightarrow> 's
     \<Rightarrow> (resolve_error + resolveResult) \<times> 's" where
  "resolveEgressBase av now p rt base original egress promptTokens caller s =
     (case lookupConcrete rt (av_Discovered av s) base of
        Some (i, m) \<Rightarrow> (buildResult rt i m [] original False egress, s)
      | None \<Rightarrow>
          if lookup (rt_roles rt) base \<noteq> None then
            (case resolveRole av now p rt base original False promptTokens caller s of
               (Inl e, s1) \<Rightarrow> (Inl e, s1)
             | (Inr res, s1) \<Rightarrow> (Inr (res\<lparr>rr_Egress := egress\<rparr>), s1))
          else
            (case lookupAlias rt base of
               Some (i, m, alias) \<Rightarrow> (buildResult rt i m alias original False egress, s)
             | None \<Rightarrow> (Inl (UnknownEgressBase base), s)))"

text \<open>The bases and suffixes the loop of \<open>resolveEgressAlias\<close> tries: a split at every hyphen but a leading
  one, the last hyphen first.\<close>

definition egress_splits :: "string \<Rightarrow> (string \<times> string) list" where
  "egress_splits want =
     map (\<lambda>n. (take n want, drop (Suc n) want))
       (rev (filter (\<lambda>n. want ! n = CHR ''-'' \<and> 0 < n) [0..<length want]))"

fun try_egress ::
    "'s availability \<Rightarrow> time \<Rightarrow> pressureTracker \<Rightarrow> Router \<Rightarrow> string \<Rightarrow> int \<Rightarrow> privacyTier
     \<Rightarrow> (string \<times> string) list \<Rightarrow> 's \<Rightarrow> resolveResult option \<times> 's" where
  "try_egress av now p rt original promptTokens caller [] s = (None, s)"
| "try_egress av now p rt original promptTokens caller ((base, egress) # splits) s =
     (case resolveEgressBase av now p rt base original egress promptTokens caller s of
        (Inl e, s1) \<Rightarrow> try_egress av now p rt original promptTokens caller splits s1
      | (Inr res, s1) \<Rightarrow>
          if \<not> rr_ViaToolProxy res then try_egress av now p rt original promptTokens caller splits s1
          else (Some res, s1))"

definition resolveEgressAlias ::
    "'s availability \<Rightarrow> time \<Rightarrow> pressureTracker \<Rightarrow> Router \<Rightarrow> string \<Rightarrow> string \<Rightarrow> int \<Rightarrow> privacyTier \<Rightarrow> 's
     \<Rightarrow> resolveResult option \<times> 's" where
  "resolveEgressAlias av now p rt want original promptTokens caller s =
     try_egress av now p rt original promptTokens caller (egress_splits want) s"

definition resolveModel ::
    "'s availability \<Rightarrow> time \<Rightarrow> pressureTracker \<Rightarrow> Router \<Rightarrow> string \<Rightarrow> bool \<Rightarrow> int \<Rightarrow> privacyTier \<Rightarrow> 's
     \<Rightarrow> (resolve_error + resolveResult) \<times> 's" where
  "resolveModel av now p rt model forceDirect promptTokens caller s =
     (if model = [] then (Inl EmptyModel, s)
      else
        let want = trim_prefix model ''openai/'' in
        case lookupConcrete rt (av_Discovered av s) want of
          Some (i, m) \<Rightarrow>
            if length (m_Fallbacks m) > 0 then resolveChain av rt i m model forceDirect caller s
            else (buildResult rt i m [] model forceDirect [], s)
        | None \<Rightarrow>
            if lookup (rt_roles rt) want \<noteq> None
            then resolveRole av now p rt want model forceDirect promptTokens caller s
            else
              (case lookupAlias rt want of
                 Some (i, m, alias) \<Rightarrow>
                   if length (m_Fallbacks m) > 0 then resolveChain av rt i m model forceDirect caller s
                   else (buildResult rt i m alias model forceDirect [], s)
               | None \<Rightarrow>
                   if forceDirect then (Inl (UnknownName model), s)
                   else
                     (case resolveEgressAlias av now p rt want model promptTokens caller s of
                        (Some res, s1) \<Rightarrow> (Inr res, s1)
                      | (None, s1) \<Rightarrow> (Inl (UnknownName model), s1))))"

section \<open>Failover\<close>

fun next_candidate ::
    "'s availability \<Rightarrow> Router \<Rightarrow> resolveResult \<Rightarrow> bool \<Rightarrow> RoleDefinition \<Rightarrow> roleCandidate list \<Rightarrow> 's
     \<Rightarrow> resolveResult option \<times> 's" where
  "next_candidate av rt res forceDirect rd [] s = (None, s)"
| "next_candidate av rt res forceDirect rd (cand # rest) s =
     (let i = rc_ModelID cand in
      case lookupModel rt (av_Discovered av s) i of
        None \<Rightarrow> next_candidate av rt res forceDirect rd rest s
      | Some m \<Rightarrow>
          (case av_Routable av i s of (up, s1) \<Rightarrow>
             if \<not> up \<or> capabilityGap m rd \<noteq> [] then next_candidate av rt res forceDirect rd rest s1
             else if privacyGate m (rr_PrivacyTier res) \<noteq> [] then next_candidate av rt res forceDirect rd rest s1
             else if contextGate (rt_active rt) m (rr_PromptTokens res) \<noteq> []
             then next_candidate av rt res forceDirect rd rest s1
             else
               (case buildResult rt i m [] (rr_ResolvedFrom res) forceDirect (rr_Egress res) of
                  Inl e \<Rightarrow> next_candidate av rt res forceDirect rd rest s1
                | Inr next \<Rightarrow>
                    (Some (next\<lparr>rr_Role := rr_Role res, rr_Chain := rc_Chain cand,
                                rr_Overflowed := rc_Overflow cand, rr_Remaining := rest,
                                rr_PromptTokens := rr_PromptTokens res, rr_Downshift := rr_Downshift res,
                                rr_PrivacyTier := rr_PrivacyTier res\<rparr>), s1))))"

text \<open>A missing role reads as the zero \<open>RoleDefinition\<close>, which requires no capability.\<close>

definition role_of :: "Router \<Rightarrow> string \<Rightarrow> RoleDefinition" where
  "role_of rt name =
     (case lookup (rt_roles rt) name of
        Some rd \<Rightarrow> rd
      | None \<Rightarrow> default_role)"

definition nextRoleCandidate ::
    "'s availability \<Rightarrow> Router \<Rightarrow> resolveResult \<Rightarrow> bool \<Rightarrow> 's \<Rightarrow> resolveResult option \<times> 's" where
  "nextRoleCandidate av rt res forceDirect s =
     next_candidate av rt res forceDirect (role_of rt (rr_Role res)) (rr_Remaining res) s"

end
