(* ===== verification/Resolve_Walk.thy ===== *)
theory Resolve_Walk
  imports Resolve
begin

text \<open>
  What the walks of \<open>Resolve\<close> do. The lemmas of the \<open>availability_view\<close> context show that a walk reads one
  snapshot of the tracker: its own questions change no later answer, so it binds to the first candidate
  that is ready to serve in that snapshot. The properties after them are stated over the tracker.
\<close>

section \<open>What a walk does, on a snapshot\<close>

lemma find_SomeD: "find P xs = Some x \<Longrightarrow> x \<in> set xs \<and> P x"
  by (auto simp: find_Some_iff)

lemma buildResult_Inr:
  "buildResult rt i m alias orig fd eg = Inr res \<Longrightarrow>
     rr_ModelID res = i \<and> rr_ResolvedFrom res = orig \<and> rr_Role res = [] \<and> rr_Chain res = []
     \<and> rr_Remaining res = [] \<and> rr_PrivacyTier res = TierNone \<and> rr_Egress res = eg
     \<and> rr_APIClass res = m_APIClass m \<and> \<not> rr_Overflowed res"
  by (auto simp: buildResult_def Let_def split: sum.splits)

lemma capabilityGap_iff:
  "capabilityGap m rd = [] \<longleftrightarrow> (IsDiscovered m \<longrightarrow> (\<forall>c \<in> set (rq_Capabilities (r_Require rd)). HasCapability m c))"
  by (auto simp: capabilityGap_def find_None_iff find_Some_iff split: option.split)

text \<open>How a candidate stands: unknown and not worth a word, excluded by the tier, held back for another
  reason, or ready to serve.\<close>

datatype standing = Silent | Excluded | Held | Serves resolveResult

definition standing_of :: "Router \<Rightarrow> ModelDefinition gomap \<Rightarrow> (string \<Rightarrow> bool) \<Rightarrow> role_ask \<Rightarrow> roleCandidate \<Rightarrow> standing" where
  "standing_of rt disc up q c =
     (case lookupModel rt disc (rc_ModelID c) of
        None \<Rightarrow> if unlistedReason rt (rc_ModelID c) \<noteq> [] then Held else Silent
      | Some m \<Rightarrow>
          if privacyGate m (ra_tier q) \<noteq> [] then Excluded
          else if capabilityGap m (ra_role q) \<noteq> [] \<or> \<not> up (rc_ModelID c)
                  \<or> contextGate (rt_active rt) m (ra_promptTokens q) \<noteq> [] then Held
          else case buildResult rt (rc_ModelID c) m [] (ra_original q) (ra_forceDirect q) [] of
                 Inl e \<Rightarrow> Held
               | Inr res \<Rightarrow> Serves res)"

lemma walked_simps [simp]:
  "wk_reasons (add_reason i why w) = wk_reasons w @ [i @ '': '' @ why]"
  "wk_excluded (add_reason i why w) = wk_excluded w"
  "wk_reasons (add_excluded i why w) = wk_reasons w"
  "wk_excluded (add_excluded i why w) = wk_excluded w @ [i @ '': '' @ why]"
  "wk_reasons (gate_out i w) = wk_reasons w" "wk_excluded (gate_out i w) = wk_excluded w"
  by (simp_all add: add_reason_def add_excluded_def gate_out_def)

text \<open>A candidate that can take a request of this size, held to this tier: it is known, passes the tier,
  has the capabilities its listing must show, the tracker routes to it, the prompt fits and its upstream
  base exists.\<close>

definition servable ::
    "Router \<Rightarrow> ModelDefinition gomap \<Rightarrow> (string \<Rightarrow> bool) \<Rightarrow> RoleDefinition \<Rightarrow> privacyTier \<Rightarrow> bool \<Rightarrow> int
     \<Rightarrow> roleCandidate \<Rightarrow> bool" where
  "servable rt disc up rd tier forceDirect tokens c \<longleftrightarrow>
     (case lookupModel rt disc (rc_ModelID c) of
        None \<Rightarrow> False
      | Some m \<Rightarrow>
          satisfies_tier m tier \<and> capabilityGap m rd = [] \<and> up (rc_ModelID c)
          \<and> contextGate (rt_active rt) m tokens = []
          \<and> (case upstream_base rt (rc_ModelID c) m (tool_proxy_override m [] forceDirect) of
               Inl e \<Rightarrow> False | Inr base \<Rightarrow> True))"

text \<open>A candidate that leaves no word but the tier's: unknown without a reason, or excluded.\<close>

definition policy_only :: "Router \<Rightarrow> ModelDefinition gomap \<Rightarrow> privacyTier \<Rightarrow> roleCandidate \<Rightarrow> bool" where
  "policy_only rt disc tier c \<longleftrightarrow>
     (case lookupModel rt disc (rc_ModelID c) of
        None \<Rightarrow> unlistedReason rt (rc_ModelID c) = []
      | Some m \<Rightarrow> \<not> satisfies_tier m tier)"

definition excluded_by :: "Router \<Rightarrow> ModelDefinition gomap \<Rightarrow> privacyTier \<Rightarrow> roleCandidate \<Rightarrow> bool" where
  "excluded_by rt disc tier c \<longleftrightarrow>
     (case lookupModel rt disc (rc_ModelID c) of None \<Rightarrow> False | Some m \<Rightarrow> \<not> satisfies_tier m tier)"

lemma standing_servable:
  "(\<exists>res. standing_of rt disc up q c = Serves res) \<longleftrightarrow>
     servable rt disc up (ra_role q) (ra_tier q) (ra_forceDirect q) (ra_promptTokens q) c"
  by (auto simp: standing_of_def servable_def privacyGate_iff buildResult_def Let_def split: option.splits sum.splits)

lemma standing_policy:
  assumes "\<not> servable rt disc up (ra_role q) (ra_tier q) (ra_forceDirect q) (ra_promptTokens q) c"
  shows "standing_of rt disc up q c \<noteq> Held \<longleftrightarrow> policy_only rt disc (ra_tier q) c"
    and "standing_of rt disc up q c = Excluded \<longleftrightarrow> excluded_by rt disc (ra_tier q) c"
  using assms
  by (auto simp: standing_of_def servable_def policy_only_def excluded_by_def privacyGate_iff buildResult_def Let_def
      split: option.splits sum.splits if_splits)

lemma standing_Serves:
  "standing_of rt disc up q c = Serves res \<Longrightarrow>
     \<exists>m. lookupModel rt disc (rc_ModelID c) = Some m
       \<and> buildResult rt (rc_ModelID c) m [] (ra_original q) (ra_forceDirect q) [] = Inr res"
  by (auto simp: standing_of_def split: option.splits sum.splits if_splits)

text \<open>The same for a provider of a chain.\<close>

definition chain_servable ::
    "Router \<Rightarrow> (string \<Rightarrow> bool) \<Rightarrow> privacyTier \<Rightarrow> bool \<Rightarrow> roleCandidate \<Rightarrow> bool" where
  "chain_servable rt up tier forceDirect c \<longleftrightarrow>
     (case lookup (rt_active rt) (rc_ModelID c) of
        None \<Rightarrow> False
      | Some m \<Rightarrow>
          satisfies_tier m tier \<and> up (rc_ModelID c)
          \<and> (case upstream_base rt (rc_ModelID c) m (tool_proxy_override m [] forceDirect) of
               Inl e \<Rightarrow> False | Inr base \<Rightarrow> True))"

lemma buildResult_defined:
  "(case upstream_base rt i m (tool_proxy_override m alias fd) of Inl e \<Rightarrow> False | Inr base \<Rightarrow> True) \<longleftrightarrow>
     (\<exists>res. buildResult rt i m alias orig fd eg = Inr res)"
  by (auto simp: buildResult_def Let_def split: sum.split)

text \<open>What a placement promises: its target is known and meets the tier it carries, and either nothing was
  walked for it or the tier is at least the caller's and the tracker routes to the target.\<close>

definition placed ::
    "Router \<Rightarrow> ModelDefinition gomap \<Rightarrow> (string \<Rightarrow> bool) \<Rightarrow> privacyTier \<Rightarrow> resolveResult \<Rightarrow> bool" where
  "placed rt disc up caller res \<longleftrightarrow>
     (\<exists>m. lookupModel rt disc (rr_ModelID res) = Some m \<and> satisfies_tier m (rr_PrivacyTier res)
        \<and> rr_APIClass res = m_APIClass m
        \<and> (rr_Role res = [] \<and> rr_Chain res = [] \<and> rr_Remaining res = [] \<and> rr_PrivacyTier res = TierNone
           \<or> caller \<le> rr_PrivacyTier res \<and> up (rr_ModelID res)))"

lemma lookupConcrete_known:
  "wf_map (rt_active rt) \<Longrightarrow> lookupConcrete rt disc want = Some (i, m) \<Longrightarrow> lookupModel rt disc i = Some m"
  using map_of_is_SomeI[of "rt_active rt" i m]
  by (auto simp: lookupConcrete_def lookupModel_def simp del: map_of_eq_Some_iff
      split: option.splits dest!: find_SomeD)

lemma lookupAlias_known:
  "wf_map (rt_active rt) \<Longrightarrow> lookupAlias rt want = Some (i, m, a) \<Longrightarrow> lookup (rt_active rt) i = Some m \<and> a = want"
  by (auto simp: lookupAlias_def dest!: find_SomeD intro!: map_of_is_SomeI)

lemma direct_placed:
  "lookupModel rt disc i = Some m \<Longrightarrow> buildResult rt i m alias orig fd eg = Inr res \<Longrightarrow> placed rt disc up caller res"
  by (auto simp: placed_def satisfies_tier_def dest!: buildResult_Inr)

text \<open>The preference order of a role on a snapshot.\<close>

definition preference ::
    "time \<Rightarrow> pressureTracker \<Rightarrow> Router \<Rightarrow> ModelDefinition gomap \<Rightarrow> (string \<Rightarrow> bool) \<Rightarrow> RoleDefinition
     \<Rightarrow> roleCandidate list" where
  "preference now p rt disc up rd =
     expandChains rt disc
       (if r_Balance rd = BalancePressure
        then fst (orderByPressure now p rd (\<lambda>i. i \<in> rc_ModelID ` set (roleOrder rd) \<and> up i) (roleOrder rd))
        else roleOrder rd)"

context availability_view
begin

abbreviation up :: "'s \<Rightarrow> string \<Rightarrow> bool" where
  "up s i \<equiv> fst (av_Routable av i s)"

abbreviation stands :: "Router \<Rightarrow> 's \<Rightarrow> role_ask \<Rightarrow> roleCandidate \<Rightarrow> standing" where
  "stands rt s \<equiv> standing_of rt (av_Discovered av s) (up s)"

lemma same_view_up: "same_view s s' \<Longrightarrow> up s' = up s" "same_view s s' \<Longrightarrow> av_Discovered av s' = av_Discovered av s"
  by (auto simp: same_view_def)

lemma same_view_up_at: "same_view s s' \<Longrightarrow> up s' i = up s i"
  by (simp add: same_view_def)

lemma same_view_Routable: "same_view s (snd (av_Routable av i s))"
  "av_Routable av i s = (b, s') \<Longrightarrow> same_view s s'"
  using same_view_queries(1)[of s i] by simp_all

lemma same_view_Reason: "av_Reason av i s = (r, s') \<Longrightarrow> same_view s s'"
  using same_view_queries(2)[of s i] by simp

lemma role_walk_serves:
  assumes "stands rt s q c = Serves res"
  shows "\<exists>s'. role_walk av rt q (c # rest) w s = (Inr (stamp_role q w c rest res), s') \<and> same_view s s'"
proof -
  obtain b s1 where r: "av_Routable av (rc_ModelID c) s = (b, s1)" by (rule prod.exhaust)
  from assms r have "role_walk av rt q (c # rest) w s = (Inr (stamp_role q w c rest res), s1)"
    by (auto simp: standing_of_def Let_def split: option.splits if_splits sum.splits bool.splits)
  with same_view_Routable(2)[OF r] show ?thesis by blast
qed

lemma role_walk_skips:
  assumes "\<And>res. stands rt s q c \<noteq> Serves res"
  shows "\<exists>w' s'. role_walk av rt q (c # rest) w s = role_walk av rt q rest w' s' \<and> same_view s s'
           \<and> (wk_reasons w' = [] \<longleftrightarrow> wk_reasons w = [] \<and> stands rt s q c \<noteq> Held)
           \<and> (wk_excluded w' = [] \<longleftrightarrow> wk_excluded w = [] \<and> stands rt s q c \<noteq> Excluded)"
proof -
  let ?i = "rc_ModelID c"
  obtain b s1 where r: "av_Routable av ?i s = (b, s1)" by (rule prod.exhaust)
  obtain why s2 where y: "av_Reason av ?i s1 = (why, s2)" by (rule prod.exhaust)
  have v1: "same_view s s1" by (rule same_view_Routable(2)[OF r])
  have v2: "same_view s s2" by (rule same_view_trans[OF v1 same_view_Reason[OF y]])
  show ?thesis
  proof (cases "lookupModel rt (av_Discovered av s) ?i")
    case None
    then show ?thesis
      by (intro exI[of _ "if unlistedReason rt ?i \<noteq> [] then add_reason ?i (unlistedReason rt ?i) w else w"] exI[of _ s])
         (simp add: standing_of_def Let_def)
  next
    case (Some m)
    consider (gate) "privacyGate m (ra_tier q) \<noteq> []"
      | (gap) "privacyGate m (ra_tier q) = []" "capabilityGap m (ra_role q) \<noteq> []"
      | (down) "privacyGate m (ra_tier q) = []" "capabilityGap m (ra_role q) = []" "\<not> b"
      | (big) "privacyGate m (ra_tier q) = []" "capabilityGap m (ra_role q) = []" "b"
          "contextGate (rt_active rt) m (ra_promptTokens q) \<noteq> []"
      | (build) "privacyGate m (ra_tier q) = []" "capabilityGap m (ra_role q) = []" "b"
          "contextGate (rt_active rt) m (ra_promptTokens q) = []" by blast
    then show ?thesis
    proof cases
      case gate
      with Some show ?thesis
        by (intro exI[of _ "add_excluded ?i (privacyGate m (ra_tier q)) w"] exI[of _ s])
           (simp add: standing_of_def Let_def)
    next
      case gap
      with Some show ?thesis
        by (intro exI[of _ "add_reason ?i (capabilityGap m (ra_role q)) w"] exI[of _ s])
           (simp add: standing_of_def Let_def)
    next
      case down
      with Some r y v2 show ?thesis
        by (intro exI[of _ "add_reason ?i why w"] exI[of _ s2]) (simp add: standing_of_def Let_def)
    next
      case big
      with Some r v1 show ?thesis
        by (intro exI[of _ "gate_out ?i (add_reason ?i (contextGate (rt_active rt) m (ra_promptTokens q)) w)"] exI[of _ s1])
           (simp add: standing_of_def Let_def)
    next
      case build
      with assms Some r obtain e where "buildResult rt ?i m [] (ra_original q) (ra_forceDirect q) [] = Inl e"
        by (cases "buildResult rt ?i m [] (ra_original q) (ra_forceDirect q) []") (auto simp: standing_of_def)
      with build Some r v1 show ?thesis
        by (intro exI[of _ "add_reason ?i (resolve_error_text e) w"] exI[of _ s1]) (simp add: standing_of_def Let_def)
    qed
  qed
qed

text \<open>The walk binds to the first candidate ready to serve; with none, what it collected says whether
  every known candidate was excluded.\<close>

lemma role_walk_first:
  assumes "\<forall>u \<in> set us. \<forall>res. stands rt s q u \<noteq> Serves res" and "stands rt s q c = Serves res"
  shows "\<exists>w' s'. role_walk av rt q (us @ c # vs) w s = (Inr (stamp_role q w' c vs res), s') \<and> same_view s s'"
  using assms
proof (induction us arbitrary: w s)
  case Nil
  then show ?case using role_walk_serves[of rt s q c res vs w] by auto
next
  case (Cons u us)
  from Cons.prems(1) have "\<And>res. stands rt s q u \<noteq> Serves res" by simp
  from role_walk_skips[OF this, of "us @ c # vs" w] obtain w1 s1
    where step: "role_walk av rt q (u # us @ c # vs) w s = role_walk av rt q (us @ c # vs) w1 s1"
      and v: "same_view s s1" by blast
  have "\<exists>w' s'. role_walk av rt q (us @ c # vs) w1 s1 = (Inr (stamp_role q w' c vs res), s') \<and> same_view s1 s'"
    using Cons.prems by (intro Cons.IH) (simp_all add: same_view_up[OF v])
  then obtain w' s' where "role_walk av rt q (us @ c # vs) w1 s1 = (Inr (stamp_role q w' c vs res), s')" "same_view s1 s'" by blast
  then show ?case using step same_view_trans[OF v] by (intro exI[of _ w'] exI[of _ s']) simp
qed

lemma role_walk_nothing:
  assumes "\<forall>u \<in> set us. \<forall>res. stands rt s q u \<noteq> Serves res"
  shows "\<exists>w' s'. role_walk av rt q us w s = (Inl w', s') \<and> same_view s s'
           \<and> (wk_reasons w' = [] \<longleftrightarrow> wk_reasons w = [] \<and> (\<forall>u \<in> set us. stands rt s q u \<noteq> Held))
           \<and> (wk_excluded w' = [] \<longleftrightarrow> wk_excluded w = [] \<and> (\<forall>u \<in> set us. stands rt s q u \<noteq> Excluded))"
  using assms
proof (induction us arbitrary: w s)
  case (Cons u us)
  from Cons.prems have "\<And>res. stands rt s q u \<noteq> Serves res" by simp
  from role_walk_skips[OF this, of us w] obtain w1 s1
    where step: "role_walk av rt q (u # us) w s = role_walk av rt q us w1 s1" and v: "same_view s s1"
      and c1: "wk_reasons w1 = [] \<longleftrightarrow> wk_reasons w = [] \<and> stands rt s q u \<noteq> Held"
      and c2: "wk_excluded w1 = [] \<longleftrightarrow> wk_excluded w = [] \<and> stands rt s q u \<noteq> Excluded" by blast
  from Cons.prems have "\<forall>u \<in> set us. \<forall>res. stands rt s1 q u \<noteq> Serves res" by (simp add: same_view_up[OF v])
  from Cons.IH[OF this, of w1] obtain w2 s2 where w2: "role_walk av rt q us w1 s1 = (Inl w2, s2)" "same_view s1 s2"
    and d1: "wk_reasons w2 = [] \<longleftrightarrow> wk_reasons w1 = [] \<and> (\<forall>u \<in> set us. stands rt s1 q u \<noteq> Held)"
    and d2: "wk_excluded w2 = [] \<longleftrightarrow> wk_excluded w1 = [] \<and> (\<forall>u \<in> set us. stands rt s1 q u \<noteq> Excluded)" by blast
  have "same_view s s2" by (rule same_view_trans[OF v w2(2)])
  with step w2(1) c1 c2 d1 d2 show ?case by (simp add: same_view_up[OF v] del: role_walk.simps)
qed simp

lemma ask_all_snapshot:
  "same_view s (snd (ask_all av cs ans s))
   \<and> lookup (fst (ask_all av cs ans s)) i = (if i \<in> rc_ModelID ` set cs then Some (up s i) else lookup ans i)"
proof (induction cs arbitrary: ans s)
  case (Cons c cs)
  obtain b s1 where r: "av_Routable av (rc_ModelID c) s = (b, s1)" by (rule prod.exhaust)
  note v = same_view_Routable(2)[OF r]
  from Cons.IH[of s1 "store (rc_ModelID c) b ans"] same_view_up_at[OF v] r same_view_trans[OF v]
  show ?case by (auto simp: image_iff)
qed simp

lemma note_entries_snapshot: "same_view s (snd (note_entries av pr cs s))"
proof (induction cs arbitrary: s)
  case (Cons c cs)
  obtain b s1 where r: "av_Routable av (rc_ModelID c) s = (b, s1)" by (rule prod.exhaust)
  from Cons.IH[of s] Cons.IH[of s1] same_view_trans[OF same_view_Routable(2)[OF r]] r
  show ?case by (auto simp: Let_def split: prod.splits)
qed simp

lemma role_order_snapshot:
  "\<exists>pr nt s'. role_order av now p rt rd s
      = ((preference now p rt (av_Discovered av s) (up s) rd, pr, nt), s') \<and> same_view s s'"
proof (cases "r_Balance rd = BalancePressure")
  case True
  let ?base = "roleOrder rd"
  obtain ans s1 where a: "ask_all av ?base [] s = (ans, s1)" by (rule prod.exhaust)
  have v1: "same_view s s1" using ask_all_snapshot[of s ?base "[]"] a by simp
  have up: "(\<lambda>i. lookup ans i = Some True) = (\<lambda>i. i \<in> rc_ModelID ` set ?base \<and> up s i)"
    using ask_all_snapshot[of s ?base "[]"] a by auto
  obtain order pr where o: "orderByPressure now p rd (\<lambda>i. lookup ans i = Some True) ?base = (order, pr)"
    by (rule prod.exhaust)
  obtain nt s2 where n: "note_entries av pr order s1 = (nt, s2)" by (rule prod.exhaust)
  have v2: "same_view s s2"
    using note_entries_snapshot[of s1 pr order] n by (auto intro: same_view_trans[OF v1])
  have "role_order av now p rt rd s = ((expandChains rt (av_Discovered av s) order, Some pr, join '','' nt), s2)"
    by (simp add: role_order_def balance_order_def True a o n same_view_up[OF v2])
  moreover have "preference now p rt (av_Discovered av s) (up s) rd = expandChains rt (av_Discovered av s) order"
    using o by (simp add: preference_def True up)
  ultimately show ?thesis using v2 by auto
qed (simp add: role_order_def preference_def)

text \<open>\<open>resolveRole\<close> on the snapshot: the first servable candidate of the preference order, or a refusal that
  is the policy's exactly when nothing but the policy stood in the way.\<close>

lemma resolveRole_first:
  assumes role: "lookup (rt_roles rt) name = Some rd"
    and split: "preference now p rt (av_Discovered av s) (up s) rd = us @ c # vs"
    and before: "\<forall>u \<in> set us. \<not> servable rt (av_Discovered av s) (up s) rd (effectiveTier rd caller) fd tokens u"
    and here: "servable rt (av_Discovered av s) (up s) rd (effectiveTier rd caller) fd tokens c"
  shows "\<exists>m res0 res s'. resolveRole av now p rt name original fd tokens caller s = (Inr res, s') \<and> same_view s s'
     \<and> lookupModel rt (av_Discovered av s) (rc_ModelID c) = Some m
     \<and> buildResult rt (rc_ModelID c) m [] original fd [] = Inr res0
     \<and> rr_APIClass res = rr_APIClass res0 \<and> rr_BackendURL res = rr_BackendURL res0 \<and> rr_AuthBearer res = rr_AuthBearer res0
     \<and> rr_ModelID res = rc_ModelID c \<and> rr_Role res = name \<and> rr_Chain res = rc_Chain c
     \<and> rr_Overflowed res = rc_Overflow c \<and> rr_Remaining res = vs
     \<and> rr_PrivacyTier res = effectiveTier rd caller \<and> rr_PromptTokens res = tokens"
proof -
  obtain pr nt s1 where o: "role_order av now p rt rd s = ((us @ c # vs, pr, nt), s1)" and v1: "same_view s s1"
    using role_order_snapshot[of now p rt rd s] split by auto
  let ?q = "\<lparr>ra_name = name, ra_original = original, ra_forceDirect = fd, ra_promptTokens = tokens,
     ra_tier = effectiveTier rd caller, ra_role = rd, ra_note = nt, ra_pressure = pr\<rparr>"
  have b: "\<forall>u \<in> set us. \<forall>res. stands rt s1 ?q u \<noteq> Serves res"
    using before standing_servable[of rt "av_Discovered av s" "up s" ?q]
    by (simp add: same_view_up[OF v1]) blast
  obtain res0 where r0: "stands rt s1 ?q c = Serves res0"
    using here standing_servable[of rt "av_Discovered av s" "up s" ?q c] by (auto simp: same_view_up[OF v1])
  obtain w s2 where w: "role_walk av rt ?q (us @ c # vs) no_walk s1 = (Inr (stamp_role ?q w c vs res0), s2)"
    and v2: "same_view s1 s2" using role_walk_first[OF b r0] by blast
  obtain m where m: "lookupModel rt (av_Discovered av s) (rc_ModelID c) = Some m"
    and build: "buildResult rt (rc_ModelID c) m [] original fd [] = Inr res0"
    using standing_Serves[OF r0] by (auto simp: same_view_up[OF v1])
  have "resolveRole av now p rt name original fd tokens caller s = (Inr (stamp_role ?q w c vs res0), s2)"
    by (simp add: resolveRole_def role o Let_def w)
  moreover note same_view_trans[OF v1 v2] m build buildResult_Inr[OF build]
  ultimately show ?thesis by (auto simp: stamp_role_def)
qed

lemma resolveRole_nothing:
  assumes role: "lookup (rt_roles rt) name = Some rd"
    and none: "\<forall>u \<in> set (preference now p rt (av_Discovered av s) (up s) rd).
        \<not> servable rt (av_Discovered av s) (up s) rd (effectiveTier rd caller) fd tokens u"
  shows "\<exists>e s'. resolveRole av now p rt name original fd tokens caller s = (Inl e, s') \<and> same_view s s'
     \<and> (if (\<forall>u \<in> set (preference now p rt (av_Discovered av s) (up s) rd).
               policy_only rt (av_Discovered av s) (effectiveTier rd caller) u)
            \<and> (\<exists>u \<in> set (preference now p rt (av_Discovered av s) (up s) rd).
                 excluded_by rt (av_Discovered av s) (effectiveTier rd caller) u)
         then \<exists>ex. e = PrivacyRefused name (effectiveTier rd caller) ex
         else \<exists>rs. e = RoleUnavailable name rs)"
proof -
  let ?us = "preference now p rt (av_Discovered av s) (up s) rd"
  obtain pr nt s1 where o: "role_order av now p rt rd s = ((?us, pr, nt), s1)" and v1: "same_view s s1"
    using role_order_snapshot[of now p rt rd s] by auto
  let ?q = "\<lparr>ra_name = name, ra_original = original, ra_forceDirect = fd, ra_promptTokens = tokens,
     ra_tier = effectiveTier rd caller, ra_role = rd, ra_note = nt, ra_pressure = pr\<rparr>"
  have b: "\<forall>u \<in> set ?us. \<forall>res. stands rt s1 ?q u \<noteq> Serves res"
    using none standing_servable[of rt "av_Discovered av s" "up s" ?q]
    by (simp add: same_view_up[OF v1]) blast
  obtain w s2 where w: "role_walk av rt ?q ?us no_walk s1 = (Inl w, s2)" and v2: "same_view s1 s2"
    and held: "wk_reasons w = [] \<longleftrightarrow> (\<forall>u \<in> set ?us. stands rt s1 ?q u \<noteq> Held)"
    and exc: "wk_excluded w = [] \<longleftrightarrow> (\<forall>u \<in> set ?us. stands rt s1 ?q u \<noteq> Excluded)"
    using role_walk_nothing[OF b, of no_walk] by (auto simp: no_walk_def)
  have "wk_reasons w = [] \<longleftrightarrow> (\<forall>u \<in> set ?us. policy_only rt (av_Discovered av s) (effectiveTier rd caller) u)"
    using none standing_policy(1)[of rt "av_Discovered av s" "up s" ?q] by (simp add: held same_view_up[OF v1])
  moreover have "wk_excluded w \<noteq> [] \<longleftrightarrow> (\<exists>u \<in> set ?us. excluded_by rt (av_Discovered av s) (effectiveTier rd caller) u)"
    using none standing_policy(2)[of rt "av_Discovered av s" "up s" ?q] by (simp add: exc same_view_up[OF v1])
  ultimately show ?thesis
    using same_view_trans[OF v1 v2] by (simp add: resolveRole_def role o Let_def w)
qed

lemma next_candidate_first:
  "\<exists>s'. same_view s s' \<and>
     (case List.extract (servable rt (av_Discovered av s) (up s) rd (rr_PrivacyTier res) fd (rr_PromptTokens res)) cands of
        None \<Rightarrow> next_candidate av rt res fd rd cands s = (None, s')
      | Some (us, c, vs) \<Rightarrow>
          \<exists>m res0. lookupModel rt (av_Discovered av s) (rc_ModelID c) = Some m
            \<and> buildResult rt (rc_ModelID c) m [] (rr_ResolvedFrom res) fd (rr_Egress res) = Inr res0
            \<and> next_candidate av rt res fd rd cands s =
                (Some (res0\<lparr>rr_Role := rr_Role res, rr_Chain := rc_Chain c, rr_Overflowed := rc_Overflow c,
                            rr_Remaining := vs, rr_PromptTokens := rr_PromptTokens res,
                            rr_Downshift := rr_Downshift res, rr_PrivacyTier := rr_PrivacyTier res\<rparr>), s'))"
  (is "\<exists>s'. _ \<and> ?goal cands s s'")
proof (induction cands arbitrary: s)
  case Nil
  then show ?case by (auto simp: extract_Nil_code)
next
  case (Cons c cs)
  let ?P = "\<lambda>s. servable rt (av_Discovered av s) (up s) rd (rr_PrivacyTier res) fd (rr_PromptTokens res)"
  obtain b s1 where r: "av_Routable av (rc_ModelID c) s = (b, s1)" by (rule prod.exhaust)
  note v = same_view_Routable(2)[OF r]
  show ?case
  proof (cases "?P s c")
    case True
    then obtain m where m: "lookupModel rt (av_Discovered av s) (rc_ModelID c) = Some m"
      by (auto simp: servable_def split: option.splits)
    from True m obtain res0 where "buildResult rt (rc_ModelID c) m [] (rr_ResolvedFrom res) fd (rr_Egress res) = Inr res0"
      using buildResult_defined[of rt "rc_ModelID c" m "[]" fd "rr_ResolvedFrom res" "rr_Egress res"]
      by (auto simp: servable_def)
    with True m r v show ?thesis
      by (intro exI[of _ s1]) (simp add: extract_Cons_code servable_def privacyGate_iff Let_def)
  next
    case False
    define s0 where "s0 = (if lookupModel rt (av_Discovered av s) (rc_ModelID c) = None then s else s1)"
    have v0: "same_view s s0" using v by (simp add: s0_def)
    have step: "next_candidate av rt res fd rd (c # cs) s = next_candidate av rt res fd rd cs s0"
    proof (cases "lookupModel rt (av_Discovered av s) (rc_ModelID c)")
      case (Some m)
      with False r show ?thesis
        using buildResult_defined[of rt "rc_ModelID c" m "[]" fd "rr_ResolvedFrom res" "rr_Egress res"]
        by (auto simp: s0_def servable_def privacyGate_iff Let_def split: sum.splits)
    qed (simp add: s0_def Let_def)
    from Cons.IH[of s0] obtain s' where s': "same_view s0 s'" "?goal cs s0 s'" by blast
    have "?P s0 = ?P s" using same_view_up[OF v0] by simp
    with s'(2) have "?goal (c # cs) s s'"
      unfolding step by (auto simp: extract_Cons_code False same_view_up(2)[OF v0] split: option.splits)
    with same_view_trans[OF v0 s'(1)] show ?thesis by blast
  qed
qed

lemma chain_walk_first:
  "\<exists>r s'. chain_walk av rt orig fd caller cands w s = (r, s') \<and> same_view s s' \<and>
     (case List.extract (chain_servable rt (up s) caller fd) cands of
        None \<Rightarrow> \<exists>w'. r = Inl w'
      | Some (us, c, vs) \<Rightarrow>
          \<exists>m res0. lookup (rt_active rt) (rc_ModelID c) = Some m
            \<and> buildResult rt (rc_ModelID c) m [] orig fd [] = Inr res0
            \<and> r = Inr (res0\<lparr>rr_Chain := rc_Chain c, rr_Remaining := vs, rr_PrivacyTier := caller\<rparr>))"
  (is "\<exists>r s'. _ \<and> _ \<and> ?goal cands s r")
proof (induction cands arbitrary: w s)
  case Nil
  then show ?case by (auto simp: extract_Nil_code)
next
  case (Cons c cs)
  let ?P = "\<lambda>s. chain_servable rt (up s) caller fd"
  obtain b s1 where r: "av_Routable av (rc_ModelID c) s = (b, s1)" by (rule prod.exhaust)
  obtain why s2 where y: "av_Reason av (rc_ModelID c) s1 = (why, s2)" by (rule prod.exhaust)
  note v1 = same_view_Routable(2)[OF r]
  note v2 = same_view_trans[OF v1 same_view_Reason[OF y]]
  show ?case
  proof (cases "?P s c")
    case True
    then obtain m where m: "lookup (rt_active rt) (rc_ModelID c) = Some m"
      by (auto simp: chain_servable_def split: option.splits)
    from True m obtain res0 where "buildResult rt (rc_ModelID c) m [] orig fd [] = Inr res0"
      using buildResult_defined[of rt "rc_ModelID c" m "[]" fd orig "[]"] by (auto simp: chain_servable_def)
    with True m r v1 show ?thesis
      by (intro exI[of _ "Inr (res0\<lparr>rr_Chain := rc_Chain c, rr_Remaining := cs, rr_PrivacyTier := caller\<rparr>)"] exI[of _ s1])
         (simp add: extract_Cons_code chain_servable_def privacyGate_iff Let_def)
  next
    case False
    have "\<exists>w0 s0. chain_walk av rt orig fd caller (c # cs) w s = chain_walk av rt orig fd caller cs w0 s0 \<and> same_view s s0"
    proof (cases "lookup (rt_active rt) (rc_ModelID c)")
      case None
      then show ?thesis
        by (intro exI[of _ "add_reason (rc_ModelID c) ''not routable in this mode'' w"] exI[of _ s]) (simp add: Let_def)
    next
      case (Some m)
      consider "\<not> satisfies_tier m caller" | "satisfies_tier m caller" "\<not> b"
        | e where "satisfies_tier m caller" b "buildResult rt (rc_ModelID c) m [] orig fd [] = Inl e"
        using False Some r buildResult_defined[of rt "rc_ModelID c" m "[]" fd orig "[]"]
        by (cases "buildResult rt (rc_ModelID c) m [] orig fd []") (auto simp: chain_servable_def)
      then show ?thesis
      proof cases
        case 1
        with Some show ?thesis
          by (intro exI[of _ "add_excluded (rc_ModelID c) (privacyGate m caller) w"] exI[of _ s])
             (simp add: privacyGate_iff Let_def)
      next
        case 2
        with Some r y v2 show ?thesis
          by (intro exI[of _ "add_reason (rc_ModelID c) why w"] exI[of _ s2]) (simp add: privacyGate_iff Let_def)
      next
        case 3
        with Some r v1 show ?thesis
          by (intro exI[of _ "add_reason (rc_ModelID c) (resolve_error_text e) w"] exI[of _ s1])
             (simp add: privacyGate_iff Let_def)
      qed
    qed
    then obtain w0 s0 where step: "chain_walk av rt orig fd caller (c # cs) w s = chain_walk av rt orig fd caller cs w0 s0"
      and v0: "same_view s s0" by blast
    from Cons.IH[of w0 s0] obtain r' s' where s': "chain_walk av rt orig fd caller cs w0 s0 = (r', s')"
      "same_view s0 s'" "?goal cs s0 r'" by blast
    have "?P s0 = ?P s" using same_view_up[OF v0] by simp
    with s'(3) have "?goal (c # cs) s r'"
      by (auto simp: extract_Cons_code False split: option.splits)
    with step s'(1) same_view_trans[OF v0 s'(2)] show ?thesis by auto
  qed
qed

lemma resolveRole_placed:
  assumes "resolveRole av now p rt name orig fd tokens caller s = (Inr res, s')"
  shows "placed rt (av_Discovered av s) (up s) caller res" and "same_view s s'"
proof -
  from assms obtain rd where role: "lookup (rt_roles rt) name = Some rd"
    by (cases "lookup (rt_roles rt) name") (auto simp: resolveRole_def)
  let ?P = "servable rt (av_Discovered av s) (up s) rd (effectiveTier rd caller) fd tokens"
  have "placed rt (av_Discovered av s) (up s) caller res \<and> same_view s s'"
  proof (cases "List.extract ?P (preference now p rt (av_Discovered av s) (up s) rd)")
    case None
    then show ?thesis
      using resolveRole_nothing[OF role, of now p s caller fd tokens orig] assms by (auto simp: extract_None_iff)
  next
    case (Some q)
    obtain us c vs where q: "q = (us, c, vs)" by (rule prod_cases3)
    from Some have split: "preference now p rt (av_Discovered av s) (up s) rd = us @ c # vs"
      and here: "?P c" and before: "\<forall>u \<in> set us. \<not> ?P u" by (auto simp: q extract_Some_iff)
    from resolveRole_first[OF role split before here, of orig] assms here effectiveTier_ge[of caller rd]
    show ?thesis by (auto simp: placed_def servable_def dest!: buildResult_Inr)
  qed
  then show "placed rt (av_Discovered av s) (up s) caller res" and "same_view s s'" by blast+
qed

lemma resolveRole_same_view: "same_view s (snd (resolveRole av now p rt name orig fd tokens caller s))"
proof (cases "lookup (rt_roles rt) name")
  case (Some rd)
  let ?P = "servable rt (av_Discovered av s) (up s) rd (effectiveTier rd caller) fd tokens"
  show ?thesis
  proof (cases "\<exists>u \<in> set (preference now p rt (av_Discovered av s) (up s) rd). ?P u")
    case True
    from split_list_first_prop[OF this] obtain us c vs where
      "preference now p rt (av_Discovered av s) (up s) rd = us @ c # vs" "?P c" "\<forall>u \<in> set us. \<not> ?P u" by blast
    from resolveRole_first[OF Some this(1,3,2), of orig] obtain res s' where
      "resolveRole av now p rt name orig fd tokens caller s = (Inr res, s')" "same_view s s'" by blast
    then show ?thesis by simp
  next
    case False
    with resolveRole_nothing[OF Some, of now p s caller fd tokens orig] show ?thesis by auto
  qed
qed (simp add: resolveRole_def)

lemma resolveChain_placed:
  assumes "resolveChain av rt i m orig fd caller s = (Inr res, s')"
  shows "placed rt (av_Discovered av s) (up s) caller res"
proof -
  obtain r s1 where w: "chain_walk av rt orig fd caller (chain_order i m) no_walk s = (r, s1)"
    and g: "case List.extract (chain_servable rt (up s) caller fd) (chain_order i m) of
        None \<Rightarrow> \<exists>w'. r = Inl w'
      | Some (us, c, vs) \<Rightarrow>
          \<exists>m res0. lookup (rt_active rt) (rc_ModelID c) = Some m
            \<and> buildResult rt (rc_ModelID c) m [] orig fd [] = Inr res0
            \<and> r = Inr (res0\<lparr>rr_Chain := rc_Chain c, rr_Remaining := vs, rr_PrivacyTier := caller\<rparr>)"
    using chain_walk_first[of rt orig fd caller "chain_order i m" no_walk s] by blast
  from assms w have r: "r = Inr res" by (auto simp: resolveChain_def split: sum.splits if_splits)
  obtain us c vs where x: "List.extract (chain_servable rt (up s) caller fd) (chain_order i m) = Some (us, c, vs)"
    using g r by (cases "List.extract (chain_servable rt (up s) caller fd) (chain_order i m)") auto
  then have "chain_servable rt (up s) caller fd c" by (simp add: extract_Some_iff)
  with g r x show ?thesis
    by (auto simp: placed_def chain_servable_def lookupModel_def dest!: buildResult_Inr)
qed

lemma egress_placed:
  assumes "wf_map (rt_active rt)" and "try_egress av now p rt orig tokens caller splits s = (Some res, s')"
  shows "placed rt (av_Discovered av s) (up s) caller res"
  using assms(2)
proof (induction splits arbitrary: s)
  case (Cons sp splits)
  obtain base eg where sp: "sp = (base, eg)" by (rule prod.exhaust)
  obtain r s1 where b: "resolveEgressBase av now p rt base orig eg tokens caller s = (r, s1)" by (rule prod.exhaust)
  have "same_view s s1 \<and> (\<forall>x. r = Inr x \<longrightarrow> placed rt (av_Discovered av s) (up s) caller x)"
  proof (cases "lookupConcrete rt (av_Discovered av s) base")
    case (Some im)
    obtain i m where im: "im = (i, m)" by (rule prod.exhaust)
    from b Some direct_placed[OF lookupConcrete_known[OF assms(1) Some[unfolded im]]] show ?thesis
      by (auto simp: resolveEgressBase_def im)
  next
    case None
    show ?thesis
    proof (cases "lookup (rt_roles rt) base")
      case (Some rd)
      obtain r2 s2 where r2: "resolveRole av now p rt base orig False tokens caller s = (r2, s2)" by (rule prod.exhaust)
      have v: "same_view s s2" using resolveRole_same_view[of s now p rt base orig False tokens caller] r2 by simp
      show ?thesis
      proof (cases r2)
        case (Inl e)
        with b None Some r2 v show ?thesis by (auto simp: resolveEgressBase_def)
      next
        case (Inr x)
        with b None Some r2 v resolveRole_placed(1)[OF r2[unfolded Inr]] show ?thesis
          by (auto simp: resolveEgressBase_def placed_def)
      qed
    next
      case role: None
      show ?thesis
      proof (cases "lookupAlias rt base")
        case (Some ima)
        obtain i m a where ima: "ima = (i, m, a)" by (rule prod_cases3)
        have "lookupModel rt (av_Discovered av s) i = Some m"
          using lookupAlias_known[OF assms(1) Some[unfolded ima]] by (simp add: lookupModel_def)
        from b None role Some direct_placed[OF this] show ?thesis by (auto simp: resolveEgressBase_def ima)
      next
        case None
        with b \<open>lookupConcrete rt (av_Discovered av s) base = None\<close> role show ?thesis
          by (auto simp: resolveEgressBase_def)
      qed
    qed
  qed
  then have v: "same_view s s1" and pl: "\<And>x. r = Inr x \<Longrightarrow> placed rt (av_Discovered av s) (up s) caller x" by blast+
  from Cons.prems have "(\<exists>x. r = Inr x \<and> x = res) \<or> try_egress av now p rt orig tokens caller splits s1 = (Some res, s')"
    by (cases r) (auto simp: sp b split: if_splits)
  then show ?case using pl Cons.IH[of s1] by (auto simp: same_view_up[OF v])
qed simp

lemma resolveModel_placed:
  assumes wf: "wf_map (rt_active rt)"
    and res: "fst (resolveModel av now p rt model fd tokens caller s) = Inr res"
  shows "placed rt (av_Discovered av s) (up s) caller res"
proof -
  let ?want = "trim_prefix model ''openai/''"
  from res have m0: "model \<noteq> []" by (auto simp: resolveModel_def)
  show ?thesis
  proof (cases "lookupConcrete rt (av_Discovered av s) ?want")
    case (Some im)
    obtain i m where im: "im = (i, m)" by (rule prod.exhaust)
    note known = lookupConcrete_known[OF wf Some[unfolded im]]
    show ?thesis
    proof (cases "m_Fallbacks m = []")
      case True
      with res m0 Some show ?thesis
        by (intro direct_placed[OF known]) (auto simp: resolveModel_def im Let_def)
    next
      case False
      obtain r s1 where c: "resolveChain av rt i m model fd caller s = (r, s1)" by (rule prod.exhaust)
      from False res m0 Some c have "r = Inr res" by (simp add: resolveModel_def im Let_def)
      with resolveChain_placed[of rt i m model fd caller s res s1] c show ?thesis by simp
    qed
  next
    case None
    show ?thesis
    proof (cases "lookup (rt_roles rt) ?want")
      case (Some rd)
      obtain r s1 where c: "resolveRole av now p rt ?want model fd tokens caller s = (r, s1)" by (rule prod.exhaust)
      from res m0 None Some c have "r = Inr res" by (simp add: resolveModel_def Let_def)
      with resolveRole_placed(1)[of now p rt ?want model fd tokens caller s res s1] c show ?thesis by simp
    next
      case role: None
      show ?thesis
      proof (cases "lookupAlias rt ?want")
        case (Some ima)
        obtain i m a where ima: "ima = (i, m, a)" by (rule prod_cases3)
        have known: "lookupModel rt (av_Discovered av s) i = Some m"
          using lookupAlias_known[OF wf Some[unfolded ima]] by (simp add: lookupModel_def)
        show ?thesis
        proof (cases "m_Fallbacks m = []")
          case True
          with res m0 None role Some show ?thesis
            by (intro direct_placed[OF known]) (auto simp: resolveModel_def ima Let_def)
        next
          case False
          obtain r s1 where c: "resolveChain av rt i m model fd caller s = (r, s1)" by (rule prod.exhaust)
          from False res m0 None role Some c have "r = Inr res" by (simp add: resolveModel_def ima Let_def)
          with resolveChain_placed[of rt i m model fd caller s res s1] c show ?thesis by simp
        qed
      next
        case noalias: None
        obtain r s1 where e: "try_egress av now p rt model tokens caller (egress_splits ?want) s = (r, s1)"
          by (rule prod.exhaust)
        from res m0 None role noalias e have "r = Some res"
          by (cases r) (auto simp: resolveModel_def resolveEgressAlias_def Let_def split: if_splits)
        with e show ?thesis by (auto intro: egress_placed[OF wf])
      qed
    qed
  qed
qed

end

end
