(* ===== verification/Resolve_Props.thy ===== *)
theory Resolve_Props
  imports Resolve_Walk
begin

text \<open>
  Properties of resolution and failover over the health tracker, from the walk lemmas of
  \<open>Resolve_Walk\<close> at the interpretation \<open>tracker\<close>. \<open>live now t\<close> is the tracker's answer about every model at
  one instant.
\<close>

definition live :: "time \<Rightarrow> Tracker \<Rightarrow> string \<Rightarrow> bool" where
  "live now t i = fst (Routable now i t)"

lemma tracker_views [simp]:
  "av_Discovered (tracker_avail now) = Discovered"
  "(\<lambda>i. fst (av_Routable (tracker_avail now) i t)) = live now t"
  "fst (av_Routable (tracker_avail now) i t) = live now t i"
  by (simp_all add: tracker_avail_def live_def fun_eq_iff)

text \<open>The small registry in a router without a mode, and a tracker with nothing against any seat.\<close>

definition rt_small :: Router where
  "rt_small = NewRouter reg_small [] (\<lambda>k. ''secret'')"

definition idle_pressure :: pressureTracker where
  "idle_pressure = newPressureTracker (reg_Pressure reg_small)"

lemma rt_small_active [simp]:
  "rt_active rt_small = reg_Models reg_small" "rt_registry rt_small = reg_small"
proof -
  have "in_mode [] m = m_Enabled m" for m by (simp add: in_mode_def)
  then show "rt_active rt_small = reg_Models reg_small"
    by (simp add: rt_small_def NewRouter_def ModelsForMode_def reg_small_def model_local_def model_or_def
        model_zen_def model_chain_def default_model_def)
qed (simp add: rt_small_def NewRouter_def)

lemma rt_small_roles: "lookup (rt_roles rt_small) ''coder'' = Some role_coder"
  by code_simp

lemma rt_small_wf: "wf_map (rt_active rt_small)"
  using reg_small_wf by (simp add: wf_registry_def)

lemma live_up: "live 0 tracker_up = (\<lambda>i. True)"
  by (auto simp: live_def fst_Routable seat_routable_def fun_eq_iff)

lemma discovered_up [simp]: "Discovered tracker_up = []"
  by (simp add: Discovered_def tracker_up_def)

section \<open>Roles\<close>

text \<open>C1: A role binds to the first servable candidate of its preference order: the first that is known,
  passes the stricter of the role's and the caller's tier, shows the capabilities, is routable, fits the
  prompt and has an upstream. The rest of the order becomes the failover tail. When none is servable the
  caller gets the policy refusal exactly when at least one candidate was excluded by the tier and every
  other one is silently unknown or excluded too, and the unavailable error otherwise.\<close>

theorem role_binds_first_servable:
  assumes "lookup (rt_roles rt) name = Some rd"
  shows "case List.extract (servable rt (Discovered t) (live now t) rd (effectiveTier rd caller) fd tokens)
                (preference now p rt (Discovered t) (live now t) rd) of
      Some (us, c, vs) \<Rightarrow>
        (\<exists>res. fst (resolveRole (tracker_avail now) now p rt name original fd tokens caller t) = Inr res
           \<and> rr_ModelID res = rc_ModelID c \<and> rr_Role res = name \<and> rr_Chain res = rc_Chain c
           \<and> rr_Overflowed res = rc_Overflow c \<and> rr_Remaining res = vs
           \<and> rr_PrivacyTier res = effectiveTier rd caller \<and> rr_PromptTokens res = tokens)
    | None \<Rightarrow>
        (let order = preference now p rt (Discovered t) (live now t) rd; tier = effectiveTier rd caller in
         if list_all (policy_only rt (Discovered t) tier) order \<and> list_ex (excluded_by rt (Discovered t) tier) order
         then \<exists>ex. fst (resolveRole (tracker_avail now) now p rt name original fd tokens caller t)
                     = Inl (PrivacyRefused name tier ex)
         else \<exists>rs. fst (resolveRole (tracker_avail now) now p rt name original fd tokens caller t)
                     = Inl (RoleUnavailable name rs))"
  (is "case List.extract ?P ?order of Some x \<Rightarrow> ?found x | None \<Rightarrow> ?none")
proof (cases "List.extract ?P ?order")
  case None
  then have "\<forall>u \<in> set ?order. \<not> ?P u" by (simp add: extract_None_iff)
  with tracker.resolveRole_nothing[OF assms, of now p now t caller fd tokens original] obtain e s' where
    "resolveRole (tracker_avail now) now p rt name original fd tokens caller t = (Inl e, s')"
    "if (\<forall>u \<in> set ?order. policy_only rt (Discovered t) (effectiveTier rd caller) u)
        \<and> (\<exists>u \<in> set ?order. excluded_by rt (Discovered t) (effectiveTier rd caller) u)
     then \<exists>ex. e = PrivacyRefused name (effectiveTier rd caller) ex
     else \<exists>rs. e = RoleUnavailable name rs"
    by (auto simp only: tracker_views simp_thms)
  with None show ?thesis by (simp add: list_all_iff list_ex_iff Let_def)
next
  case (Some q)
  obtain us c vs where q: "q = (us, c, vs)" by (rule prod_cases3)
  from Some have "?order = us @ c # vs" "\<forall>u \<in> set us. \<not> ?P u" "?P c" by (auto simp: q extract_Some_iff)
  then have "?found (us, c, vs)"
    using tracker.resolveRole_first[OF assms, of now p now t us c vs caller fd tokens original] by (auto simp: q)
  then show ?thesis by (simp add: Some q)
qed

theorem role_binds_first_servable_witness:
  "\<exists>res. fst (resolveRole (tracker_avail 0) 0 idle_pressure rt_small ''coder'' ''coder'' False 0 TierNone tracker_up) = Inr res
     \<and> rr_ModelID res = ''or/glm'' \<and> rr_PrivacyTier res = TierZDR
     \<and> map rc_ModelID (rr_Remaining res) = [''q'']"
proof -
  let ?order = "preference 0 idle_pressure rt_small [] (\<lambda>i. True) role_coder"
  have o: "?order = [\<lparr>rc_ModelID = ''or/glm'', rc_Overflow = False, rc_Chain = []\<rparr>,
      \<lparr>rc_ModelID = ''q'', rc_Overflow = False, rc_Chain = []\<rparr>]" by code_simp
  have t: "effectiveTier role_coder TierNone = TierZDR" by code_simp
  have s: "servable rt_small [] (\<lambda>i. True) role_coder TierZDR False 0
      \<lparr>rc_ModelID = ''or/glm'', rc_Overflow = False, rc_Chain = []\<rparr>" by code_simp
  show ?thesis
    using role_binds_first_servable[OF rt_small_roles, where t = tracker_up and now = 0 and caller = TierNone
        and fd = False and tokens = 0 and p = idle_pressure and original = "''coder''"]
    by (auto simp: live_up o t s extract_Cons_code)
qed

text \<open>C4: The failover walk is held to the same contract as the first pass: it takes the first candidate
  of the untried tail that is servable for the same tier, prompt size and role, and nothing else. The
  next tail is a proper suffix of this one, so failing over always comes to an end.\<close>

theorem failover_same_contract:
  "case List.extract (servable rt (Discovered t) (live now t) (role_of rt (rr_Role res)) (rr_PrivacyTier res) fd
           (rr_PromptTokens res)) (rr_Remaining res) of
      None \<Rightarrow> fst (nextRoleCandidate (tracker_avail now) rt res fd t) = None
    | Some (us, c, vs) \<Rightarrow>
        (\<exists>nxt. fst (nextRoleCandidate (tracker_avail now) rt res fd t) = Some nxt
           \<and> rr_ModelID nxt = rc_ModelID c \<and> rr_Chain nxt = rc_Chain c \<and> rr_Overflowed nxt = rc_Overflow c
           \<and> rr_Remaining nxt = vs \<and> length vs < length (rr_Remaining res)
           \<and> rr_PrivacyTier nxt = rr_PrivacyTier res \<and> rr_Role nxt = rr_Role res)"
  (is "case List.extract ?P ?order of Some x \<Rightarrow> ?found x | None \<Rightarrow> ?none")
proof (cases "List.extract ?P ?order")
  case None
  with tracker.next_candidate_first[where now = now and s = t and rt = rt and rd = "role_of rt (rr_Role res)"
      and res = res and fd = fd and cands = "rr_Remaining res"]
  show ?thesis by (auto simp: nextRoleCandidate_def)
next
  case (Some q)
  obtain us c vs where q: "q = (us, c, vs)" by (rule prod_cases3)
  from Some have "?order = us @ c # vs" by (simp add: q extract_Some_iff)
  with Some tracker.next_candidate_first[where now = now and s = t and rt = rt and rd = "role_of rt (rr_Role res)"
      and res = res and fd = fd and cands = "rr_Remaining res"]
  have "?found (us, c, vs)" by (auto simp: nextRoleCandidate_def q dest!: buildResult_Inr)
  then show ?thesis by (simp add: Some q)
qed

section \<open>The tier of a placement\<close>

text \<open>C2: Whatever name a caller sends, a placement that was walked for (a role or a fallback chain) has a
  known target that passes the tier the placement carries, that tier is at least as strict as the
  caller's, and the tracker routes to the target. Under the local tier the target is therefore on fleet
  hardware, whatever the role's overflow list says.\<close>

theorem placement_meets_tier:
  assumes "wf_map (rt_active rt)"
    and "fst (resolveModel (tracker_avail now) now p rt model fd tokens caller t) = Inr res"
    and "rr_Role res \<noteq> [] \<or> rr_Chain res \<noteq> []"
  shows "\<exists>m. lookupModel rt (Discovered t) (rr_ModelID res) = Some m \<and> privacyGate m (rr_PrivacyTier res) = []
      \<and> caller \<le> rr_PrivacyTier res \<and> live now t (rr_ModelID res)
      \<and> (caller = TierLocal \<longrightarrow> IsLocal m)"
proof -
  from tracker.resolveModel_placed[OF assms(1,2)] assms(3) obtain m where
    "lookupModel rt (Discovered t) (rr_ModelID res) = Some m" "satisfies_tier m (rr_PrivacyTier res)"
    "caller \<le> rr_PrivacyTier res" "live now t (rr_ModelID res)"
    by (auto simp: placed_def)
  then show ?thesis by (auto simp: privacyGate_iff satisfies_tier_def)
qed

theorem placement_meets_tier_witness:
  "\<exists>res m. fst (resolveModel (tracker_avail 0) 0 idle_pressure rt_small ''glm'' False 0 TierZDR tracker_up) = Inr res
     \<and> lookupModel rt_small (Discovered tracker_up) (rr_ModelID res) = Some m \<and> privacyGate m TierZDR = []"
proof -
  have "map_option (\<lambda>r. (rr_Chain r, rr_PrivacyTier r))
      (case fst (resolveModel (tracker_avail 0) 0 idle_pressure rt_small ''glm'' False 0 TierZDR tracker_up)
        of Inl e \<Rightarrow> None | Inr r \<Rightarrow> Some r) = Some (''glm'', TierZDR)" by code_simp
  then obtain res where r: "fst (resolveModel (tracker_avail 0) 0 idle_pressure rt_small ''glm'' False 0 TierZDR tracker_up) = Inr res"
    "rr_Chain res = ''glm''" "rr_PrivacyTier res = TierZDR" by (auto split: sum.splits)
  from placement_meets_tier[OF rt_small_wf r(1)] r(2,3) obtain m where
    "lookupModel rt_small (Discovered tracker_up) (rr_ModelID res) = Some m" "privacyGate m TierZDR = []" by auto
  with r(1) show ?thesis by blast
qed

section \<open>Overflow is a last resort\<close>

lemma lookup_fold_store_cases:
  "lookup (fold (\<lambda>(n, c) m. store (k c) (v n c) m) xs m0) i = Some x \<Longrightarrow>
     (\<exists>n c. (n, c) \<in> set xs \<and> k c = i \<and> x = v n c) \<or> lookup m0 i = Some x"
proof (induction xs arbitrary: m0)
  case (Cons q xs)
  obtain n c where q: "q = (n, c)" by (rule prod.exhaust)
  from Cons.IH[of "store (k c) (v n c) m0"] Cons.prems
  consider n' c' where "(n', c') \<in> set xs" "k c' = i" "x = v n' c'"
    | "lookup (store (k c) (v n c) m0) i = Some x" by (auto simp: q)
  then show ?case
  proof cases
    case 1
    then show ?thesis by (auto simp: q)
  next
    case 2
    then show ?thesis by (auto simp: q split: if_splits)
  qed
qed simp

lemma lookup_fold_store_dom:
  "lookup (fold (\<lambda>(n, c) m. store (k c) (v n c) m) xs m0) i = None \<longleftrightarrow>
     lookup m0 i = None \<and> i \<notin> k ` snd ` set xs"
  by (induction xs arbitrary: m0) (auto simp: case_prod_beta)

lemma set_enumerate_snd: "snd ` set (enumerate n xs) = set xs"
  by (metis map_snd_enumerate set_map)

lemma declared_ranks_lookup:
  "lookup (declared_ranks ids) i = None \<longleftrightarrow> i \<notin> set ids"
  "lookup (declared_ranks ids) i = Some n \<Longrightarrow> 0 \<le> n \<and> n < int (length ids)"
proof -
  show "lookup (declared_ranks ids) i = None \<longleftrightarrow> i \<notin> set ids"
    unfolding declared_ranks_def
    using lookup_fold_store_dom[of "\<lambda>c. c" "\<lambda>n c. int n" "enumerate 0 ids" "[]" i]
    by (simp add: set_enumerate_snd)
  show "lookup (declared_ranks ids) i = Some n \<Longrightarrow> 0 \<le> n \<and> n < int (length ids)"
    unfolding declared_ranks_def
    using lookup_fold_store_cases[of "\<lambda>c. c" "\<lambda>n c. int n" "enumerate 0 ids" "[]" i n]
    by (auto simp: in_set_enumerate_eq)
qed

lemma group_rep_cases: "group_rep idx rep g = rep \<or> (\<exists>i. lookup idx i = Some (group_rep idx rep g))"
proof (induction g arbitrary: rep)
  case (Cons i g)
  show ?case
  proof (cases "lookup idx i")
    case None
    then show ?thesis using Cons.IH[of rep] by simp
  next
    case (Some n)
    then show ?thesis using Cons.IH[of "if rep < 0 \<or> n < rep then n else rep"] by (auto split: if_splits)
  qed
qed simp

lemma tie_group_keeps:
  assumes "\<And>i. lookup idx i = None \<longleftrightarrow> i \<notin> S" and "\<And>i n. lookup idx i = Some n \<Longrightarrow> n < k"
    and "\<And>i. lookup r i = None \<longleftrightarrow> i \<notin> S" and "\<And>i n. lookup r i = Some n \<Longrightarrow> n < k"
  shows "lookup (tie_group idx g r) i = None \<longleftrightarrow> i \<notin> S"
    and "lookup (tie_group idx g r) i = Some n \<Longrightarrow> n < k"
proof -
  let ?rep = "group_rep idx (-1) g"
  have "(lookup (tie_group idx g r) i = None \<longleftrightarrow> i \<notin> S) \<and> (\<forall>n. lookup (tie_group idx g r) i = Some n \<longrightarrow> n < k)"
  proof (cases "?rep < 0")
    case True
    with assms(3,4) show ?thesis by (simp add: tie_group_def)
  next
    case False
    with group_rep_cases[of idx "-1" g] assms(2) have rep: "?rep < k" by fastforce
    have "(lookup (fold (\<lambda>i r. if lookup idx i \<noteq> None then store i ?rep r else r) xs m) i = None \<longleftrightarrow> i \<notin> S)
        \<and> (\<forall>n. lookup (fold (\<lambda>i r. if lookup idx i \<noteq> None then store i ?rep r else r) xs m) i = Some n \<longrightarrow> n < k)"
      if "\<And>i. lookup m i = None \<longleftrightarrow> i \<notin> S" and "\<And>i n. lookup m i = Some n \<Longrightarrow> n < k" for xs m
      using that
    proof (induction xs arbitrary: m)
      case (Cons x xs)
      have "(lookup (if lookup idx x \<noteq> None then store x ?rep m else m) i = None) = (i \<notin> S)"
        and "lookup (if lookup idx x \<noteq> None then store x ?rep m else m) i = Some n \<Longrightarrow> n < k" for i n
        using Cons.prems assms(1)[of x] rep by (auto split: if_splits)
      from Cons.IH[OF this] show ?case by simp
    qed simp
    from this[where m = r and xs = g] assms(3,4) False show ?thesis
      unfolding tie_group_def Let_def by (simp del: not_None_eq)
  qed
  then show "lookup (tie_group idx g r) i = None \<longleftrightarrow> i \<notin> S"
    and "lookup (tie_group idx g r) i = Some n \<Longrightarrow> n < k" by blast+
qed

lemma candidateRanks_lookup:
  "lookup (candidateRanks rd) i = None \<longleftrightarrow> i \<notin> set (r_Candidates rd)"
  "lookup (candidateRanks rd) i = Some n \<Longrightarrow> n < int (length (r_Candidates rd))"
proof -
  let ?idx = "declared_ranks (r_Candidates rd)" and ?S = "set (r_Candidates rd)" and ?k = "int (length (r_Candidates rd))"
  have "(lookup (fold (tie_group ?idx) gs r) i = None \<longleftrightarrow> i \<notin> ?S) \<and> (\<forall>n. lookup (fold (tie_group ?idx) gs r) i = Some n \<longrightarrow> n < ?k)"
    if "\<And>i. lookup r i = None \<longleftrightarrow> i \<notin> ?S" and "\<And>i n. lookup r i = Some n \<Longrightarrow> n < ?k" for gs r
    using that
  proof (induction gs arbitrary: r)
    case (Cons g gs)
    have "lookup (tie_group ?idx g r) i = None \<longleftrightarrow> i \<notin> ?S" for i
      by (rule tie_group_keeps(1)[where k = ?k]) (use declared_ranks_lookup Cons.prems in blast)+
    moreover have "lookup (tie_group ?idx g r) i = Some n \<Longrightarrow> n < ?k" for i n
      by (rule tie_group_keeps(2)[where S = ?S]) (use declared_ranks_lookup Cons.prems in blast)+
    ultimately show ?case using Cons.IH[of "tie_group ?idx g r"] by simp
  qed simp
  from this[of ?idx "r_BalanceGroups rd"] declared_ranks_lookup
  show "lookup (candidateRanks rd) i = None \<longleftrightarrow> i \<notin> set (r_Candidates rd)"
    and "lookup (candidateRanks rd) i = Some n \<Longrightarrow> n < int (length (r_Candidates rd))"
    by (auto simp: candidateRanks_def Let_def)
qed

lemma rankOf_bounds:
  assumes "c \<in> set base"
  shows "rc_ModelID c \<in> set (r_Candidates rd) \<Longrightarrow> get (rankOf rd base) (rc_ModelID c) < int (length (r_Candidates rd))"
    and "rc_ModelID c \<notin> set (r_Candidates rd) \<Longrightarrow> int (length (r_Candidates rd)) \<le> get (rankOf rd base) (rc_ModelID c)"
proof -
  let ?v = "\<lambda>n (c :: roleCandidate). case lookup (candidateRanks rd) (rc_ModelID c) of
                Some r \<Rightarrow> r | None \<Rightarrow> int (length (r_Candidates rd)) + int n"
  have e: "rankOf rd base = fold (\<lambda>(n, c) m. store (rc_ModelID c) (?v n c) m) (enumerate 0 base) []"
    by (simp add: rankOf_def)
  have "rc_ModelID c \<in> rc_ModelID ` snd ` set (enumerate 0 base)"
    using assms by (simp add: set_enumerate_snd)
  then obtain x where x: "lookup (rankOf rd base) (rc_ModelID c) = Some x"
    unfolding e using lookup_fold_store_dom[of rc_ModelID ?v "enumerate 0 base" "[]" "rc_ModelID c"] by fastforce
  from lookup_fold_store_cases[OF x[unfolded e]] have "\<exists>n (c' :: roleCandidate). rc_ModelID c' = rc_ModelID c \<and> x = ?v n c'"
    by auto
  then obtain n c' where "rc_ModelID c' = rc_ModelID c" "x = ?v n c'" by blast
  then show "rc_ModelID c \<in> set (r_Candidates rd) \<Longrightarrow> get (rankOf rd base) (rc_ModelID c) < int (length (r_Candidates rd))"
    and "rc_ModelID c \<notin> set (r_Candidates rd) \<Longrightarrow> int (length (r_Candidates rd)) \<le> get (rankOf rd base) (rc_ModelID c)"
    using x candidateRanks_lookup[of rd "rc_ModelID c"] by (auto simp: get_def split: option.splits)
qed

lemma sorted_promote:
  fixes f :: "'a \<Rightarrow> 'b :: linorder"
  shows "sorted (map f (h # us @ c # vs)) \<Longrightarrow> f c = f h \<Longrightarrow> sorted (map f (c # h # us @ vs))"
  by (auto simp: sorted_append)

lemma sorted_concat:
  fixes f :: "'a \<Rightarrow> 'b :: linorder"
  assumes same: "\<And>c x. x \<in> set (g c) \<Longrightarrow> f x = f c"
  shows "sorted (map f cs) \<Longrightarrow> sorted (map f (concat (map g cs)))"
proof (induction cs)
  case (Cons c cs)
  have "sorted (map f (g c))" using same[of _ c] by (auto simp: sorted_iff_nth_mono)
  moreover have "\<forall>x \<in> set (g c). \<forall>y \<in> set (concat (map g cs)). f x \<le> f y"
    using Cons.prems same by fastforce
  ultimately show ?case using Cons by (auto simp: sorted_append)
qed simp

lemma override_keeps_sorted:
  assumes "sorted (map rc_Overflow out)"
  shows "sorted (map rc_Overflow (applyRankOverride rank eff pr out))"
proof -
  have same: "promotable rank eff pr head c \<Longrightarrow> rc_Overflow c = rc_Overflow head" for head c
    by (simp add: promotable_def)
  consider "applyRankOverride rank eff pr out = out"
    | head us c vs where "out = head # us @ c # vs" "applyRankOverride rank eff pr out = c # head # us @ vs"
        "rc_Overflow c = rc_Overflow head"
    using applyRankOverride_cases[of rank eff pr out] same by blast
  then show ?thesis
  proof cases
    case 2
    show ?thesis unfolding 2(2) by (rule sorted_promote[OF assms[unfolded 2(1)] 2(3)])
  qed (simp add: assms)
qed

lemma const_sorted: "sorted (map (\<lambda>x. b) xs)"
  by (induction xs) auto

lemma roleOrder_sorted: "sorted (map rc_Overflow (roleOrder rd))"
  using const_sorted[of False] const_sorted[of True]
  by (auto simp: roleOrder_def sorted_append comp_def)

lemma balanced_sorted:
  assumes "set (r_Candidates rd) \<inter> set (r_Overflow rd) = {}"
  shows "sorted (map rc_Overflow (fst (orderByPressure now p rd up (roleOrder rd))))"
proof -
  let ?b = "roleOrder rd"
  let ?r = "rankOf rd ?b" and ?e = "effective up (pressures now p ?b)"
  let ?s = "sort_by_rank ?r ?e ?b"
  have ov: "rc_Overflow c \<longleftrightarrow> rc_ModelID c \<notin> set (r_Candidates rd)" if "c \<in> set ?b" for c
    using that assms by (auto simp: roleOrder_def split: if_splits)
  have "sorted_wrt (\<lambda>x y. (get ?r (rc_ModelID x), ?e (rc_ModelID x)) \<le> (get ?r (rc_ModelID y), ?e (rc_ModelID y))) ?s"
    using sorted_sort_key[of "\<lambda>c. (get ?r (rc_ModelID c), ?e (rc_ModelID c))" ?b]
    by (simp only: sort_by_rank_def sorted_wrt_map)
  then have "sorted_wrt (\<lambda>x y. rc_Overflow x \<le> rc_Overflow y) ?s"
  proof (rule sorted_wrt_mono_rel[rotated])
    fix x y
    assume "x \<in> set ?s" "y \<in> set ?s"
      and le: "(get ?r (rc_ModelID x), ?e (rc_ModelID x)) \<le> (get ?r (rc_ModelID y), ?e (rc_ModelID y))"
    then have xy: "x \<in> set ?b" "y \<in> set ?b" by (simp_all add: sort_by_rank_def)
    from le have "get ?r (rc_ModelID x) \<le> get ?r (rc_ModelID y)" by (auto simp: less_eq_prod_def)
    with rankOf_bounds[OF xy(1), of rd] rankOf_bounds[OF xy(2), of rd] ov[OF xy(1)] ov[OF xy(2)]
    show "rc_Overflow x \<le> rc_Overflow y" by auto
  qed
  then have "sorted (map rc_Overflow ?s)" by (simp add: sorted_wrt_map)
  then show ?thesis by (simp add: orderByPressure_def Let_def override_keeps_sorted)
qed

lemma expandChains_sorted:
  "sorted (map rc_Overflow order) \<Longrightarrow> sorted (map rc_Overflow (expandChains rt disc order))"
  unfolding expandChains_def
  by (rule sorted_concat) (auto simp: expand_one_def split: option.splits if_splits)

lemma preference_sorted:
  assumes "r_Balance rd = BalancePressure \<Longrightarrow> set (r_Candidates rd) \<inter> set (r_Overflow rd) = {}"
  shows "sorted (map rc_Overflow (preference now p rt disc up rd))"
  using balanced_sorted[OF assms] roleOrder_sorted[of rd]
  by (auto simp: preference_def intro: expandChains_sorted)

lemma sorted_before:
  assumes "sorted (map rc_Overflow (us @ c # vs))" and "rc_Overflow c"
    and "x \<in> set (us @ c # vs)" and "\<not> rc_Overflow x"
  shows "x \<in> set us"
  using assms by (auto simp: sorted_append)

text \<open>A role crosses its own boundary only when it has to: an overflow entry is chosen only under
  on_empty: overflow, and only when no in-contract candidate, chain members included, could have taken
  this request. Under the pressure balancer this needs that no id is both candidate and overflow.\<close>

theorem overflow_is_last_resort:
  assumes "lookup (rt_roles rt) name = Some rd"
    and "r_Balance rd = BalancePressure \<Longrightarrow> set (r_Candidates rd) \<inter> set (r_Overflow rd) = {}"
    and "fst (resolveRole (tracker_avail now) now p rt name original fd tokens caller t) = Inr res"
    and "rr_Overflowed res"
  shows "r_OnEmpty rd = OnEmptyOverflow
     \<and> (\<forall>c \<in> set (preference now p rt (Discovered t) (live now t) rd).
           rc_Overflow c \<or> \<not> servable rt (Discovered t) (live now t) rd (effectiveTier rd caller) fd tokens c)"
proof -
  let ?P = "servable rt (Discovered t) (live now t) rd (effectiveTier rd caller) fd tokens"
  let ?order = "preference now p rt (Discovered t) (live now t) rd"
  have "\<exists>u \<in> set ?order. ?P u"
  proof (rule ccontr)
    assume "\<not> (\<exists>u \<in> set ?order. ?P u)"
    then obtain e s' where "resolveRole (tracker_avail now) now p rt name original fd tokens caller t = (Inl e, s')"
      using tracker.resolveRole_nothing[OF assms(1), of now p now t caller fd tokens original]
      by (simp only: tracker_views) blast
    with assms(3) show False by simp
  qed
  from split_list_first_prop[OF this] obtain us c vs where
    split: "?order = us @ c # vs" "?P c" "\<forall>u \<in> set us. \<not> ?P u" by blast
  from tracker.resolveRole_first[OF assms(1), of now p now t us c vs caller fd tokens original] split assms(3)
  have "rr_Overflowed res = rc_Overflow c" by auto
  with assms(4) have c: "rc_Overflow c" by simp
  have "x \<in> set us" if "x \<in> set ?order" "\<not> rc_Overflow x" for x
    using sorted_before[of us c vs x] preference_sorted[OF assms(2), of now p rt "Discovered t" "live now t"] that c
    by (simp add: split(1))
  moreover have "r_OnEmpty rd = OnEmptyOverflow"
  proof (rule ccontr)
    assume "r_OnEmpty rd \<noteq> OnEmptyOverflow"
    then have "\<forall>x \<in> set (roleOrder rd). \<not> rc_Overflow x" by (auto simp: roleOrder_def)
    moreover have "set (fst (orderByPressure now p rd up (roleOrder rd))) = set (roleOrder rd)" for up
      by (rule mset_eq_setD) (simp add: orderByPressure_def Let_def mset_override sort_by_rank_def)
    ultimately have "\<forall>x \<in> set ?order. \<not> rc_Overflow x"
      by (auto simp: preference_def expandChains_def expand_one_def split: option.splits if_splits)
    with split(1) c show False by simp
  qed
  ultimately show ?thesis using split(3) by blast
qed

definition tracker_down :: Tracker where
  "tracker_down = tracker_up\<lparr>t_models := [(''q'', seat_up\<lparr>pollState := Unavailable, pollReason := ''gone''\<rparr>)]\<rparr>"

definition rt_thinker :: Router where
  "rt_thinker = rt_small\<lparr>rt_roles := [(''thinker'', role_overflow)]\<rparr>"

theorem overflow_is_last_resort_witness:
  "r_OnEmpty role_overflow = OnEmptyOverflow
   \<and> \<not> servable rt_thinker [] (live 0 tracker_down) role_overflow TierZDR False 0
        \<lparr>rc_ModelID = ''q'', rc_Overflow = False, rc_Chain = []\<rparr>"
proof -
  have role: "lookup (rt_roles rt_thinker) ''thinker'' = Some role_overflow" by (simp add: rt_thinker_def)
  have bal: "r_Balance role_overflow = BalancePressure \<Longrightarrow>
      set (r_Candidates role_overflow) \<inter> set (r_Overflow role_overflow) = {}"
    by (simp add: role_overflow_def)
  have "map_option rr_Overflowed (case fst (resolveRole (tracker_avail 0) 0 idle_pressure rt_thinker ''thinker''
      ''thinker'' False 0 TierNone tracker_down) of Inl e \<Rightarrow> None | Inr r \<Rightarrow> Some r) = Some True" by code_simp
  then obtain res where res: "fst (resolveRole (tracker_avail 0) 0 idle_pressure rt_thinker ''thinker''
      ''thinker'' False 0 TierNone tracker_down) = Inr res" "rr_Overflowed res"
    by (auto split: sum.splits)
  have disc: "Discovered tracker_down = []" by (simp add: tracker_down_def Discovered_def tracker_up_def)
  have o: "preference 0 idle_pressure rt_thinker [] up role_overflow =
      [\<lparr>rc_ModelID = ''q'', rc_Overflow = False, rc_Chain = []\<rparr>,
       \<lparr>rc_ModelID = ''or/glm'', rc_Overflow = True, rc_Chain = []\<rparr>]" for up
    by (simp add: preference_def role_overflow_def role_coder_def default_role_def roleOrder_def expandChains_def
        expand_one_def lookupModel_def rt_thinker_def reg_small_def model_local_def model_or_def default_model_def)
  have t: "effectiveTier role_overflow TierNone = TierZDR" by code_simp
  from overflow_is_last_resort[OF role bal res] show ?thesis by (simp add: disc o t)
qed

section \<open>Chains and names\<close>

text \<open>A fallback chain binds to its first provider that is active, passes the caller's tier, is routable
  and has an upstream; the rest of the chain becomes the failover tail and the result carries the chain's
  name. With no such provider the answer is an error, never a provider further from the contract.\<close>

theorem chain_binds_first_servable:
  "case List.extract (chain_servable rt (live now t) caller fd) (chain_order i m) of
      None \<Rightarrow> \<exists>e. fst (resolveChain (tracker_avail now) rt i m original fd caller t) = Inl e
    | Some (us, c, vs) \<Rightarrow>
        (\<exists>res. fst (resolveChain (tracker_avail now) rt i m original fd caller t) = Inr res
           \<and> rr_ModelID res = rc_ModelID c \<and> rr_Chain res = i \<and> rr_Remaining res = vs
           \<and> rr_PrivacyTier res = caller \<and> \<not> rr_Overflowed res)"
proof -
  have ch: "\<forall>c \<in> set (chain_order i m). rc_Chain c = i" by (auto simp: chain_order_def)
  obtain r s' where w: "chain_walk (tracker_avail now) rt original fd caller (chain_order i m) no_walk t = (r, s')"
    and g: "case List.extract (chain_servable rt (live now t) caller fd) (chain_order i m) of
        None \<Rightarrow> \<exists>w'. r = Inl w'
      | Some (us, c, vs) \<Rightarrow>
          \<exists>m res0. lookup (rt_active rt) (rc_ModelID c) = Some m
            \<and> buildResult rt (rc_ModelID c) m [] original fd [] = Inr res0
            \<and> r = Inr (res0\<lparr>rr_Chain := rc_Chain c, rr_Remaining := vs, rr_PrivacyTier := caller\<rparr>)"
    using tracker.chain_walk_first[where now = now and s = t and rt = rt and orig = original and fd = fd
        and caller = caller and cands = "chain_order i m" and w = no_walk] by auto
  show ?thesis
  proof (cases "List.extract (chain_servable rt (live now t) caller fd) (chain_order i m)")
    case None
    with g w show ?thesis by (auto simp: resolveChain_def)
  next
    case (Some q)
    obtain us c vs where q: "q = (us, c, vs)" by (rule prod_cases3)
    from Some have "rc_Chain c = i" using ch by (auto simp: q extract_Some_iff)
    with g w Some show ?thesis by (auto simp: q resolveChain_def dest!: buildResult_Inr)
  qed
qed

text \<open>Naming a model is a statement about that model: an active registry key without fallbacks resolves to
  its own entry whatever the tracker says and whatever role, alias, repository or adopted id shares its
  name, and the result has no role, no chain and nothing to fail over to.\<close>

theorem named_model_is_exact:
  assumes "lookup (rt_active rt) (trim_prefix model ''openai/'') = Some m" and "m_Fallbacks m = []"
    and "model \<noteq> []"
  shows "resolveModel av now p rt model fd tokens caller s =
           (buildResult rt (trim_prefix model ''openai/'') m [] model fd [], s)
       \<and> (\<forall>res. fst (resolveModel av now p rt model fd tokens caller s) = Inr res \<longrightarrow>
             rr_ModelID res = trim_prefix model ''openai/'' \<and> rr_Role res = [] \<and> rr_Chain res = []
             \<and> nextRoleCandidate av rt res fd s' = (None, s'))"
proof -
  have "resolveModel av now p rt model fd tokens caller s =
      (buildResult rt (trim_prefix model ''openai/'') m [] model fd [], s)"
    using assms by (simp add: resolveModel_def Let_def lookupConcrete_def)
  then show ?thesis by (auto simp: nextRoleCandidate_def dest!: buildResult_Inr)
qed

theorem named_model_is_exact_witness:
  "resolveModel alwaysRoutable 0 idle_pressure rt_small ''openai/or/glm'' False 0 TierNone () =
     (buildResult rt_small ''or/glm'' model_or [] ''openai/or/glm'' False [], ())"
proof -
  have t: "trim_prefix ''openai/or/glm'' ''openai/'' = ''or/glm''" by code_simp
  have "lookup (rt_active rt_small) (trim_prefix ''openai/or/glm'' ''openai/'') = Some model_or"
    unfolding t by (simp add: reg_small_def)
  from named_model_is_exact[OF this, of alwaysRoutable 0 idle_pressure False 0 TierNone "()" "()"]
  show ?thesis by (simp add: t model_or_def default_model_def)
qed

end
