(* ===== verification/Forward.thy ===== *)
theory Forward
  imports Capture Writers Resolve_Props
begin

text \<open>
  The part of \<^verbatim>\<open>internal/router/router.go\<close> that sends one attempt upstream: \<open>reverseProxyTo\<close> with the hooks
  it gives \<^verbatim>\<open>httputil.ReverseProxy\<close> (\<open>Rewrite\<close>, \<open>ModifyResponse\<close>, \<open>ErrorHandler\<close>), \<open>setRoleHeaders\<close> and
  \<open>isLocalSeat\<close>.

  An upstream is a function of the request it receives. Its answer is the informational statuses it sent
  first and then either an error of the transport or a response: the status, two headers the hooks read,
  the bytes of the body, whether reading the body breaks off after them, and whether the client takes
  them all. When the copy to the client fails, \<open>ReverseProxy\<close> under a server panics with
  \<open>ErrAbortHandler\<close>. The headers an upstream answers with are not part of the client's here.

  The library functions are gathered in \<open>platform\<close>: SHA-256, the text of a number, JSON and number
  parsing, dates.
\<close>

record platform =
  pf_hash :: "string \<Rightarrow> string"
  pf_numtext :: "rat \<Rightarrow> string"
  pf_parse :: "string \<Rightarrow> json option"
  pf_float :: "string \<Rightarrow> rat option"
  pf_date :: "string \<Rightarrow> time option"

section \<open>Answers\<close>

record upstream_response =
  ur_Status :: int
  ur_ContentType :: string
  ur_RetryAfter :: string
  ur_Body :: string
  ur_Broken :: "go_error option"
  ur_ClientGone :: bool

record upstream_answer =
  ua_Info :: "int list"
  ua_Final :: "go_error + upstream_response"

record outbound =
  ob_URL :: string
  ob_Header :: header
  ob_Body :: payload

record responseCapture =
  cap_isSSE :: bool
  cap_jsonBody :: "string option"
  cap_sseTail :: "string option"
  cap_upstreamStatus :: int

definition no_capture :: responseCapture where
  "no_capture = \<lparr>cap_isSSE = False, cap_jsonBody = None, cap_sseTail = None, cap_upstreamStatus = 0\<rparr>"

text \<open>How an attempt ends for its caller: the response was proxied, an error came back, or the handler
  panicked.\<close>

datatype forward_result = Proxied | Failed go_error | Aborted

definition upstream_status_text :: "int \<Rightarrow> duration \<Rightarrow> string" where
  "upstream_status_text status after =
     ''upstream status '' @ show_int status
       @ (if after > 0 then '' (retry after '' @ show_duration after @ '')'' else [])"

definition errUpstreamStatus :: "int \<Rightarrow> duration \<Rightarrow> go_error" where
  "errUpstreamStatus status after = (UpstreamStatus status after, upstream_status_text status after)"

definition errUpstreamEnvelope :: go_error where
  "errUpstreamEnvelope = (UpstreamEnvelope, ''upstream error envelope in 2xx'')"

section \<open>The outbound request (Rewrite)\<close>

definition outbound_headers ::
    "platform \<Rightarrow> string \<Rightarrow> string \<Rightarrow> string \<Rightarrow> payload \<Rightarrow> header \<Rightarrow> header" where
  "outbound_headers pf hostname authBearer authHeader body inbound =
     (let h0 = strip_headers inbound;
          h1 = setSessionAffinity (pf_hash pf) (pf_numtext pf) hostname body h0;
          h2 = header_set ''Content-Length'' (show_nat (length (pl_bytes body))) h1
      in if authBearer \<noteq> [] then
           if authHeader \<noteq> [] then header_set authHeader authBearer (header_del ''Authorization'' h2)
           else header_set ''Authorization'' (''Bearer '' @ authBearer) h2
         else h2)"

section \<open>The answer (ModifyResponse and ErrorHandler)\<close>

text \<open>\<open>ReverseProxy\<close> passes an informational response on and then clears the header map.\<close>

definition pass_info :: "int list \<Rightarrow> writer \<Rightarrow> writer" where
  "pass_info codes w = fold (\<lambda>code w. (WriteHeader code w)\<lparr>cl_header := []\<rparr>) codes w"

definition stream_out :: "upstream_response \<Rightarrow> writer \<Rightarrow> forward_result \<times> writer" where
  "stream_out r w =
     (if ur_Broken r \<noteq> None \<or> ur_ClientGone r then Aborted else Proxied,
      Write (ur_Body r) (WriteHeader (ur_Status r) w))"

definition take_answer ::
    "platform \<Rightarrow> time \<Rightarrow> bool \<Rightarrow> upstream_answer \<Rightarrow> responseCapture \<Rightarrow> writer
     \<Rightarrow> forward_result \<times> responseCapture \<times> writer" where
  "take_answer pf now suppressRetryable ua cap w0 =
     (let w = pass_info (ua_Info ua) w0 in
      case ua_Final ua of
        Inl e \<Rightarrow> (Failed e, cap, w)
      | Inr r \<Rightarrow>
          let cap1 = cap\<lparr>cap_upstreamStatus := ur_Status r\<rparr> in
          if suppressRetryable \<and> retryableStatus (ur_Status r) then
            (Failed (errUpstreamStatus (ur_Status r)
                       (parseRetryAfter (pf_float pf) (pf_date pf) (ur_RetryAfter r) now)), cap1, w)
          else if contentTypeIsSSE (ur_ContentType r) then
            (let sink = st_buf (tail_read (ur_Body r) (newStreamTailCapture (64 * 1024)));
                 (res, w') = stream_out r w
             in (res, cap1\<lparr>cap_isSSE := True, cap_sseTail := Some sink\<rparr>, w'))
          else if contentTypeIsJSON (ur_ContentType r) then
            (case ur_Broken r of
               Some e \<Rightarrow> (Failed e, cap1, w)
             | None \<Rightarrow>
                 if suppressRetryable \<and> ur_Status r < 300 \<and> hasErrorEnvelope (pf_parse pf (ur_Body r))
                 then (Failed errUpstreamEnvelope, cap1, w)
                 else (let (res, w') = stream_out r w in (res, cap1\<lparr>cap_jsonBody := Some (ur_Body r)\<rparr>, w')))
          else (let (res, w') = stream_out r w in (res, cap1, w')))"

text \<open>\<open>reverseProxyTo\<close>: with the request that went out, unless the backend URL does not parse.\<close>

definition reverseProxyTo ::
    "platform \<Rightarrow> time \<Rightarrow> (outbound \<Rightarrow> upstream_answer) \<Rightarrow> header \<Rightarrow> string \<Rightarrow> payload \<Rightarrow> string \<Rightarrow> string
     \<Rightarrow> bool \<Rightarrow> responseCapture \<Rightarrow> writer
     \<Rightarrow> forward_result \<times> outbound option \<times> responseCapture \<times> writer" where
  "reverseProxyTo pf now upstream inbound backendRoot body authBearer authHeader suppressRetryable cap w =
     (case url_hostname backendRoot of
        None \<Rightarrow> (Proxied, None, cap, http_Error ''bad backend URL'' 500 w)
      | Some hostname \<Rightarrow>
          let out = \<lparr>ob_URL = backendRoot,
                     ob_Header = outbound_headers pf hostname authBearer authHeader body inbound, ob_Body = body\<rparr>;
              (res, cap', w') = take_answer pf now suppressRetryable (upstream out) cap w
          in (res, Some out, cap', w'))"

section \<open>Headers for the caller\<close>

definition setRoleHeaders :: "resolveResult \<Rightarrow> writer \<Rightarrow> writer" where
  "setRoleHeaders res w =
     (if rr_Role res = [] \<and> rr_Chain res = [] then w
      else
        let w1 = (if rr_Role res \<noteq> [] then set_header ''X-Router-Role'' (rr_Role res) w else w);
            w2 = (if rr_Chain res \<noteq> [] then set_header ''X-Router-Chain'' (rr_Chain res) w1 else w1);
            w3 = set_header ''X-Router-Resolved'' (rr_ModelID res) w2;
            w4 = (if rr_Overflowed res then set_header ''X-Router-Overflow'' ''true'' w3 else w3);
            w5 = (if rr_PressureNote res \<noteq> [] then set_header ''X-Router-Pressure'' (rr_PressureNote res) w4 else w4)
        in if rr_Downshift res \<noteq> []
           then set_header ''X-Router-Downshift'' (rr_Downshift res @ '' -> '' @ rr_ModelID res @ '' (context)'') w5
           else w5)"

definition isLocalSeat :: "Router \<Rightarrow> ModelDefinition gomap \<Rightarrow> string \<Rightarrow> bool" where
  "isLocalSeat rt disc i = (case lookupModel rt disc i of None \<Rightarrow> False | Some m \<Rightarrow> IsLocal m)"

definition coalesce :: "string \<Rightarrow> string \<Rightarrow> string" where
  "coalesce a b = (if a \<noteq> [] then a else b)"

end
