(* ===== verification/Proxy.thy ===== *)
theory Proxy
  imports Forward
begin

text \<open>
  \<^verbatim>\<open>internal/router/router.go\<close>, \<open>handleProxy\<close>: one request to a JSON endpoint from its body to the
  answer: resolution under the caller's tier, the loop of attempts with failover, and the row the request
  is logged with.

  The state other requests share is the health tracker's (any \<open>availability\<close> over a state \<open>'s\<close>) and the
  load table. While attempt \<open>n\<close> waits for its upstream, \<open>pe_others n\<close> is whatever the rest of the
  process does to it. \<open>pe_clock n\<close> is the time of attempt \<open>n\<close>.

  Go maps are references: the copy of the body an attempt sends shares the nested objects of the caller's
  body that no default merges into, so attaching the directive to a caller's \<^verbatim>\<open>provider\<close> object changes the
  body later attempts start from (\<open>body_after\<close>). Encoding a decoded JSON value does not fail. Metrics, log
  lines and the event feed's placement are left out; texts of library errors are those of the input.
\<close>

section \<open>Requests and their outcome\<close>

datatype request_body = ReadFails string | BadJSON string | Document obj

record proxy_request =
  pq_Path :: string
  pq_Header :: header
  pq_Body :: request_body
  pq_Identity :: "Identity option"

datatype proxy_error =
    BodyUnread string
  | InvalidJSON string
  | MissingModel
  | HeaderRefused string
  | Unresolved resolve_error
  | ClassMismatch
  | TierRefused string
  | UpstreamFailed go_error

type_synonym 's world = "'s \<times> pressureTracker"

record 's proxy_env =
  pe_rt :: Router
  pe_av :: "time \<Rightarrow> 's availability"
  pe_pf :: platform
  pe_clock :: "nat \<Rightarrow> time"
  pe_upstream :: "nat \<Rightarrow> outbound \<Rightarrow> upstream_answer"
  pe_others :: "nat \<Rightarrow> 's world \<Rightarrow> 's world"

text \<open>One attempt: the placement, what the lookup found for it, the body before encoding, what went out and
  how it ended.\<close>

record attempt =
  at_Res :: resolveResult
  at_Found :: "ModelDefinition option"
  at_Body :: obj
  at_Out :: "outbound option"
  at_Result :: forward_result

text \<open>What a request ended with: the locals the deferred block of the handler reads, the attempts, what was
  recorded in the failure window on the way, and the state left behind.\<close>

record 's exchange =
  ex_error :: "proxy_error option"
  ex_resolved :: "resolveResult option"
  ex_failoverFrom :: string
  ex_upstreamClass :: error_class
  ex_tolerance :: string
  ex_refused :: bool
  ex_cap :: responseCapture
  ex_writer :: writer
  ex_attempts :: "attempt list"
  ex_stats :: "(string \<times> string \<times> error_class) list"
  ex_world :: "'s world"
  ex_panicked :: bool

section \<open>One attempt\<close>

definition maxFailoverAttempts :: nat where "maxFailoverAttempts = 2"

text \<open>What stays fixed over the attempts of a request.\<close>

record proxy_task =
  tk_forceDirect :: bool
  tk_tier :: privacyTier
  tk_source :: string
  tk_demand :: privacyDemand
  tk_header :: header

record 's flight =
  fl_res :: resolveResult
  fl_body :: obj
  fl_from :: string
  fl_cap :: responseCapture
  fl_writer :: writer
  fl_attempts :: "attempt list"
  fl_stats :: "(string \<times> string \<times> error_class) list"
  fl_world :: "'s world"

text \<open>The caller's body after an attempt attached the directive to a copy that shares its \<^verbatim>\<open>provider\<close>.\<close>

definition body_after :: "obj \<Rightarrow> obj \<Rightarrow> obj \<Rightarrow> obj" where
  "body_after body defaults sent =
     (case lookup body ''provider'' of
        Some (JObj p) \<Rightarrow>
          (case lookup defaults ''provider'' of
             Some (JObj d) \<Rightarrow> body
           | _ \<Rightarrow> (case lookup sent ''provider'' of Some v \<Rightarrow> store ''provider'' v body | None \<Rightarrow> body))
      | _ \<Rightarrow> body)"

definition refusal_body :: "refusal \<Rightarrow> json" where
  "refusal_body rf =
     JObj [(''error'', JObj (
        [(''message'', JStr (rf_reason rf)), (''type'', JStr (rf_type rf)), (''code'', JStr (rf_code rf))]
        @ (if rf_scope rf \<noteq> [] then [(''scope'', JStr (rf_scope rf)), (''token_id'', JStr (rf_tokenID rf))] else [])
        @ (if length (rf_excluded rf) > 0
           then [(''privacy_tier'', JStr (rf_tier rf)), (''excluded_candidates'', JArr (map JStr (rf_excluded rf)))]
           else [])))]"

definition send_refusal :: "(rat \<Rightarrow> string) \<Rightarrow> refusal \<Rightarrow> writer \<Rightarrow> writer" where
  "send_refusal numtext rf w =
     (let w1 = (if rf_header rf \<noteq> [] then set_header PrivacyHeader (rf_header rf) w else w)
      in Write (marshal numtext (refusal_body rf) @ [CHR 0x0A])
           (WriteHeader (int (rf_status rf)) (set_header ''Content-Type'' ''application/json'' w1)))"

definition answered :: "'s flight \<Rightarrow> string \<Rightarrow> proxy_error option \<Rightarrow> error_class \<Rightarrow> bool \<Rightarrow> bool \<Rightarrow> 's exchange" where
  "answered fl tolerance err class refused panicked =
     \<lparr>ex_error = err, ex_resolved = Some (fl_res fl), ex_failoverFrom = fl_from fl, ex_upstreamClass = class,
      ex_tolerance = tolerance, ex_refused = refused, ex_cap = fl_cap fl, ex_writer = fl_writer fl,
      ex_attempts = fl_attempts fl, ex_stats = fl_stats fl, ex_world = fl_world fl, ex_panicked = panicked\<rparr>"

definition failoverable :: "resolveResult \<Rightarrow> bool" where
  "failoverable res \<longleftrightarrow> rr_Role res \<noteq> [] \<or> rr_Chain res \<noteq> []"

text \<open>The candidate the loop could go on with, asked for only where it may fail over.\<close>

definition next_if ::
    "'s availability \<Rightarrow> Router \<Rightarrow> bool \<Rightarrow> nat \<Rightarrow> resolveResult \<Rightarrow> writer \<Rightarrow> 's \<Rightarrow> resolveResult option \<times> 's" where
  "next_if av rt forceDirect n res w s =
     (if failoverable res \<and> n < maxFailoverAttempts \<and> rw_status w = 0
      then nextRoleCandidate av rt res forceDirect s
      else (None, s))"

text \<open>The body an attempt would send, or the refusal.\<close>

definition prepare ::
    "Router \<Rightarrow> ModelDefinition gomap \<Rightarrow> proxy_task \<Rightarrow> resolveResult \<Rightarrow> obj \<Rightarrow> string + obj" where
  "prepare rt disc tk res body =
     (let sendMap = store ''model'' (JStr (rr_BackendModel res)) (ApplyRequestDefaults body (rr_RequestDefaults res))
      in if tk_tier tk \<noteq> TierNone
         then applyPrivacy (lookupModel rt disc (rr_ModelID res)) (rr_ModelID res) sendMap (tk_tier tk) (tk_source tk)
         else Inr sendMap)"

text \<open>What the tracker and the load table learn from an attempt that passed through.\<close>

definition report_passed ::
    "'s availability \<Rightarrow> Router \<Rightarrow> time \<Rightarrow> string \<Rightarrow> responseCapture \<Rightarrow> 's world \<Rightarrow> 's world" where
  "report_passed av rt now i cap sp =
     (let (s, p) = sp in
      if cap_upstreamStatus cap = 503 \<and> isLocalSeat rt (av_Discovered av s) i
      then (av_ReportFailure av i (Some (errUpstreamStatus 503 0)) s, p)
      else (av_ReportSuccess av i s, markServed now i p))"

text \<open>The body of the loop on attempt \<open>n\<close>: the request is answered, or goes on with the next candidate.\<close>

definition attempt_step :: "'s proxy_env \<Rightarrow> proxy_task \<Rightarrow> nat \<Rightarrow> 's flight \<Rightarrow> 's exchange + 's flight" where
  "attempt_step pe tk n fl =
     (let rt = pe_rt pe; now = pe_clock pe n; av = pe_av pe now; res = fl_res fl; i = rr_ModelID res;
          (s0, p0) = fl_world fl; tolerance = tier_String (tk_tier tk) in
      case prepare rt (av_Discovered av s0) tk res (fl_body fl) of
        Inl refusal \<Rightarrow>
          Inl (answered (fl\<lparr>fl_writer := send_refusal (pf_numtext (pe_pf pe))
                          (writeRefusal (tk_demand tk) (tk_tier tk) refusal []) (fl_writer fl)\<rparr>)
                 tolerance (Some (TierRefused refusal)) ClassNone True False)
      | Inr sendMap \<Rightarrow>
          let w1 = (if tk_tier tk \<noteq> TierNone then set_header PrivacyHeader tolerance (fl_writer fl) else fl_writer fl);
              w2 = setRoleHeaders res w1;
              (could, s1) = next_if av rt (tk_forceDirect tk) n res w2 s0;
              (s2, p2) = pe_others pe n (s1, addInflight i p0);
              (result, out, cap, w3) =
                reverseProxyTo (pe_pf pe) now (pe_upstream pe n) (tk_header tk) (rr_BackendURL res)
                  (encoded (pf_numtext (pe_pf pe)) sendMap) (rr_AuthBearer res) (rr_AuthHeader res)
                  (could \<noteq> None) (fl_cap fl) w2;
              tried = \<lparr>at_Res = res, at_Found = lookupModel rt (av_Discovered av s0) i, at_Body = sendMap,
                       at_Out = out, at_Result = result\<rparr>;
              fl1 = fl\<lparr>fl_body := body_after (fl_body fl) (rr_RequestDefaults res) sendMap, fl_cap := cap,
                       fl_writer := w3, fl_attempts := fl_attempts fl @ [tried]\<rparr>
          in case result of
               Aborted \<Rightarrow> Inl (answered (fl1\<lparr>fl_world := (s2, p2)\<rparr>) tolerance None ClassNone False True)
             | Proxied \<Rightarrow>
                 Inl (answered (fl1\<lparr>fl_world := report_passed av rt now i cap (s2, doneInflight i p2)\<rparr>)
                        tolerance None ClassNone False False)
             | Failed e \<Rightarrow>
                 let p3 = doneInflight i p2;
                     s3 = av_ReportFailure av i (Some e) s2;
                     (next, s4) = next_if av rt (tk_forceDirect tk) n res w3 s3
                 in case next of
                      None \<Rightarrow>
                        Inl (answered (fl1\<lparr>fl_world := (s4, p3),
                                      fl_writer := (if rw_status w3 = 0
                                                    then http_Error (''upstream: '' @ snd e) 502 w3 else w3)\<rparr>)
                               tolerance (Some (UpstreamFailed e)) (classifyUpstreamErr (Some (fst e))) False False)
                    | Some nxt \<Rightarrow>
                        Inr (fl1\<lparr>fl_res := nxt, fl_from := i, fl_cap := no_capture, fl_world := (s4, p3),
                                 fl_stats := fl_stats fl
                                   @ [(i, rr_BackendURL res, classifyUpstreamErr (Some (fst e)))]\<rparr>))"

section \<open>The loop\<close>

lemma next_if_attempt: "next_if av rt fd n res w s = (Some nxt, s') \<Longrightarrow> n < maxFailoverAttempts"
  by (auto simp: next_if_def split: if_splits)

lemma attempt_step_again: "attempt_step pe tk n fl = Inr fl' \<Longrightarrow> n < maxFailoverAttempts"
  by (auto simp: attempt_step_def Let_def split: sum.splits prod.splits forward_result.splits option.splits
      dest: next_if_attempt)

function proxy_loop :: "'s proxy_env \<Rightarrow> proxy_task \<Rightarrow> nat \<Rightarrow> 's flight \<Rightarrow> 's exchange" where
  "proxy_loop pe tk n fl =
     (case attempt_step pe tk n fl of Inl ex \<Rightarrow> ex | Inr fl' \<Rightarrow> proxy_loop pe tk (Suc n) fl')"
  by pat_completeness auto
termination
  by (relation "measure (\<lambda>(pe, tk, n, fl). maxFailoverAttempts - n)") (auto dest: attempt_step_again)

declare proxy_loop.simps [simp del]

section \<open>The request\<close>

definition refuse_early :: "proxy_error \<Rightarrow> string \<Rightarrow> bool \<Rightarrow> writer \<Rightarrow> 's world \<Rightarrow> 's exchange" where
  "refuse_early err tolerance refused w sp =
     \<lparr>ex_error = Some err, ex_resolved = None, ex_failoverFrom = [], ex_upstreamClass = ClassNone,
      ex_tolerance = tolerance, ex_refused = refused, ex_cap = no_capture, ex_writer = w, ex_attempts = [],
      ex_stats = [], ex_world = sp, ex_panicked = False\<rparr>"

definition plain_error :: "proxy_error \<Rightarrow> string \<Rightarrow> int \<Rightarrow> 's world \<Rightarrow> 's exchange" where
  "plain_error err msg code sp = refuse_early err [] False (http_Error msg code fresh_writer) sp"

definition resolve_refusal ::
    "platform \<Rightarrow> privacyDemand \<Rightarrow> resolve_error \<Rightarrow> 's world \<Rightarrow> 's exchange" where
  "resolve_refusal pf demand err sp =
     (let msg = resolve_error_text err in
      case err of
        PrivacyRefused subject tier excluded \<Rightarrow>
          refuse_early (Unresolved err) (tier_String tier) True
            (send_refusal (pf_numtext pf) (writeRefusal demand tier msg excluded) fresh_writer) sp
      | RoleUnavailable role reasons \<Rightarrow> plain_error (Unresolved err) msg 503 sp
      | ChainUnavailable chain reasons \<Rightarrow> plain_error (Unresolved err) msg 503 sp
      | _ \<Rightarrow> plain_error (Unresolved err) msg 404 sp)"

definition api_class_text :: "APIClass \<Rightarrow> string" where
  "api_class_text c =
     (case c of
        APIClassUnset \<Rightarrow> [] | APIClassChat \<Rightarrow> ''chat'' | APIClassEmbeddings \<Rightarrow> ''embeddings''
      | APIClassRerank \<Rightarrow> ''rerank'' | APIClassAnthropic \<Rightarrow> ''anthropic'' | APIClassImageGen \<Rightarrow> ''image_gen''
      | APIClassImageEdit \<Rightarrow> ''image_edit'' | APIClassTTS \<Rightarrow> ''tts'' | APIClassSTT \<Rightarrow> ''stt''
      | APIClassMusicGen \<Rightarrow> ''music_gen'' | APIClassOther s \<Rightarrow> s)"

definition task_of :: "bool \<Rightarrow> resolveResult \<Rightarrow> privacyDemand \<Rightarrow> header \<Rightarrow> proxy_task" where
  "task_of forceDirect res demand inbound =
     (let tier = (if rr_PrivacyTier res = TierNone then pd_tier demand else rr_PrivacyTier res)
      in \<lparr>tk_forceDirect = forceDirect, tk_tier = tier,
          tk_source = (if tier \<noteq> TierNone \<and> pd_source demand = []
                       then ''role '' @ rr_Role res @ '' requires local_or_zdr'' else pd_source demand),
          tk_demand = demand,
          tk_header = (if rr_ViaToolProxy res \<and> rr_Egress res \<noteq> [] \<and> header_get inbound ''X-Egress'' = []
                       then header_set ''X-Egress'' (rr_Egress res) inbound else inbound)\<rparr>)"

definition serve_placed ::
    "'s proxy_env \<Rightarrow> APIClass \<Rightarrow> bool \<Rightarrow> proxy_request \<Rightarrow> obj \<Rightarrow> string \<Rightarrow> privacyDemand \<Rightarrow> resolveResult
     \<Rightarrow> 's world \<Rightarrow> 's exchange" where
  "serve_placed pe requireClass forceDirect rq body model demand res sp =
     (if requireClass \<noteq> APIClassUnset \<and> rr_APIClass res \<noteq> requireClass then
        (plain_error ClassMismatch
           (''model '' @ quoted model @ '' has api_class '' @ quoted (api_class_text (rr_APIClass res)) @ ''; '' @ pq_Path rq
              @ '' requires '' @ quoted (api_class_text requireClass)) 400 sp)\<lparr>ex_resolved := Some res\<rparr>
      else
        proxy_loop pe (task_of forceDirect res demand (pq_Header rq)) 0
          \<lparr>fl_res = res, fl_body = body, fl_from = [], fl_cap = no_capture, fl_writer = fresh_writer,
           fl_attempts = [], fl_stats = [], fl_world = sp\<rparr>)"

definition handle_document ::
    "'s proxy_env \<Rightarrow> APIClass \<Rightarrow> bool \<Rightarrow> proxy_request \<Rightarrow> obj \<Rightarrow> 's world \<Rightarrow> 's exchange" where
  "handle_document pe requireClass forceDirect rq body sp =
     (let model = str_field body ''model'' in
      if model = [] then plain_error MissingModel ''missing \"model\" field'' 400 sp
      else
        let promptTokens = estimatePromptTokens (\<lambda>x. length (pf_numtext (pe_pf pe) x)) body;
            (demand, refuse) = privacyDemandFor (header_get (pq_Header rq) PrivacyHeader) (pq_Identity rq)
        in if refuse \<noteq> [] then
             refuse_early (HeaderRefused refuse) [] True
               (send_refusal (pf_numtext (pe_pf pe)) (writePrivacyRefusal TierNone refuse []) fresh_writer) sp
           else
             let now = pe_clock pe 0; (s, p) = sp in
             case resolveModel (pe_av pe now) now p (pe_rt pe) model forceDirect promptTokens (pd_tier demand) s of
               (Inl err, s1) \<Rightarrow> resolve_refusal (pe_pf pe) demand err (s1, p)
             | (Inr res, s1) \<Rightarrow> serve_placed pe requireClass forceDirect rq body model demand res (s1, p))"

definition handleProxy ::
    "'s proxy_env \<Rightarrow> APIClass \<Rightarrow> bool \<Rightarrow> proxy_request \<Rightarrow> 's world \<Rightarrow> 's exchange" where
  "handleProxy pe requireClass forceDirect rq sp =
     (case pq_Body rq of
        ReadFails msg \<Rightarrow> plain_error (BodyUnread msg) (''read body: '' @ msg) 400 sp
      | BadJSON msg \<Rightarrow> plain_error (InvalidJSON msg) (''invalid JSON: '' @ msg) 400 sp
      | Document body \<Rightarrow> handle_document pe requireClass forceDirect rq body sp)"

section \<open>The row of the request log\<close>

definition demand_errorClass :: "privacyDemand \<Rightarrow> error_class" where
  "demand_errorClass d = (if pd_scope d \<noteq> [] then ClassScopeRefused else ClassPrivacyRefused)"

record log_row =
  lr_Model :: string
  lr_Status :: int
  lr_Stream :: bool
  lr_Principal :: string
  lr_TokenID :: string
  lr_SessionID :: string
  lr_Resolved :: "resolveResult option"
  lr_FailoverFrom :: string
  lr_UpstreamStatus :: int
  lr_ErrorClass :: error_class
  lr_PrivacyTolerance :: string
  lr_Usage :: usageStats
  lr_UpstreamProvider :: string

definition final_class :: "platform \<Rightarrow> 's exchange \<Rightarrow> error_class" where
  "final_class pf ex =
     (let status = cap_upstreamStatus (ex_cap ex);
          envelope = (status \<ge> 200 \<and> status < 300
            \<and> (case cap_jsonBody (ex_cap ex) of None \<Rightarrow> False | Some b \<Rightarrow> hasErrorEnvelope (pf_parse pf b)))
      in errorClassOf (ex_upstreamClass ex) status envelope)"

text \<open>The row, and what the deferred block adds to the failure window.\<close>

definition log_row_of :: "platform \<Rightarrow> proxy_request \<Rightarrow> 's exchange \<Rightarrow> log_row" where
  "log_row_of pf rq ex =
     (let (demand, refuse) = privacyDemandFor (header_get (pq_Header rq) PrivacyHeader) (pq_Identity rq);
          refusalClass = (if refuse \<noteq> [] then ClassPrivacyRefused else demand_errorClass demand);
          (usage, provider) =
            (case (cap_jsonBody (ex_cap ex), cap_sseTail (ex_cap ex)) of
               (Some b, _) \<Rightarrow> (parseUsage (pf_parse pf b), parseUpstreamProvider (pf_parse pf b))
             | (None, Some t) \<Rightarrow> (extractSSEUsage (pf_parse pf) t, extractSSEProvider (pf_parse pf) t)
             | (None, None) \<Rightarrow> (no_usage, []))
      in \<lparr>lr_Model = (case pq_Body rq of Document body \<Rightarrow> str_field body ''model'' | _ \<Rightarrow> []),
          lr_Status = rw_status (ex_writer ex), lr_Stream = cap_isSSE (ex_cap ex),
          lr_Principal = (case pq_Identity rq of Some i \<Rightarrow> id_Principal i | None \<Rightarrow> []),
          lr_TokenID = (case pq_Identity rq of Some i \<Rightarrow> id_TokenID i | None \<Rightarrow> []),
          lr_SessionID = callerSessionID (pf_parse pf) (pq_Header rq) [],
          lr_Resolved = ex_resolved ex,
          lr_FailoverFrom = (if ex_resolved ex \<noteq> None then ex_failoverFrom ex else []),
          lr_UpstreamStatus = (if ex_resolved ex \<noteq> None then cap_upstreamStatus (ex_cap ex) else 0),
          lr_ErrorClass = (if ex_refused ex then refusalClass
                           else if ex_resolved ex \<noteq> None then final_class pf ex else ClassNone),
          lr_PrivacyTolerance = ex_tolerance ex, lr_Usage = usage, lr_UpstreamProvider = provider\<rparr>)"

definition window_entries :: "platform \<Rightarrow> 's exchange \<Rightarrow> (string \<times> string \<times> error_class) list" where
  "window_entries pf ex =
     ex_stats ex
     @ (case ex_resolved ex of
          Some res \<Rightarrow>
            if cap_upstreamStatus (ex_cap ex) > 0 \<or> ex_upstreamClass ex \<noteq> ClassNone
            then [(rr_ModelID res, rr_BackendURL res, final_class pf ex)] else []
        | None \<Rightarrow> [])"

end
