(* ===== verification/Proxy_Props.thy ===== *)
theory Proxy_Props
  imports Proxy
begin

text \<open>
  Properties of the request loop of \<open>Proxy\<close>: what goes out under a tier, how many attempts there are, what
  the client is answered, and what the shared state is left with.
\<close>

section \<open>Reasoning about the loop\<close>

text \<open>What the loop does is what every attempt keeps and what the last one leaves.\<close>

lemma proxy_loop_rule:
  assumes "P n fl"
    and "\<And>n fl fl'. P n fl \<Longrightarrow> attempt_step pe tk n fl = Inr fl' \<Longrightarrow> P (Suc n) fl'"
    and "\<And>n fl ex. P n fl \<Longrightarrow> attempt_step pe tk n fl = Inl ex \<Longrightarrow> Q ex"
  shows "Q (proxy_loop pe tk n fl)"
  using assms
proof (induction pe tk n fl rule: proxy_loop.induct)
  case (1 pe tk n fl)
  show ?case
  proof (cases "attempt_step pe tk n fl")
    case (Inl ex)
    with "1.prems"(3)[OF "1.prems"(1)] show ?thesis by (simp add: proxy_loop.simps)
  next
    case (Inr fl')
    with "1.IH"[OF Inr] "1.prems" show ?thesis by (simp add: proxy_loop.simps[of pe tk n fl])
  qed
qed

lemmas attempt_splits = sum.splits prod.splits forward_result.splits option.splits

text \<open>An attempt adds at most one entry to the attempts, the placement of the flight with the body
  \<open>prepare\<close> gave.\<close>

definition made_by :: "'s proxy_env \<Rightarrow> proxy_task \<Rightarrow> nat \<Rightarrow> 's flight \<Rightarrow> attempt \<Rightarrow> bool" where
  "made_by pe tk n fl a \<longleftrightarrow>
     at_Res a = fl_res fl
     \<and> at_Found a = lookupModel (pe_rt pe) (av_Discovered (pe_av pe (pe_clock pe n)) (fst (fl_world fl))) (rr_ModelID (fl_res fl))
     \<and> prepare (pe_rt pe) (av_Discovered (pe_av pe (pe_clock pe n)) (fst (fl_world fl))) tk (fl_res fl) (fl_body fl) = Inr (at_Body a)"

lemma step_again:
  assumes "attempt_step pe tk n fl = Inr fl'"
  shows "\<exists>a e. made_by pe tk n fl a \<and> at_Result a = Failed e \<and> fl_attempts fl' = fl_attempts fl @ [a]
     \<and> failoverable (fl_res fl) \<and> n < maxFailoverAttempts \<and> rw_status (fl_writer fl') = 0"
  using assms
  by (auto simp: attempt_step_def Let_def made_by_def next_if_def split: attempt_splits if_splits)

lemma step_done:
  assumes "attempt_step pe tk n fl = Inl ex"
  shows "(\<exists>why. ex_error ex = Some (TierRefused why) \<and> ex_attempts ex = fl_attempts fl)
     \<or> (\<exists>a. made_by pe tk n fl a \<and> ex_attempts ex = fl_attempts fl @ [a])"
  using assms
  by (auto simp: attempt_step_def Let_def made_by_def answered_def split: attempt_splits)


text \<open>The placements that can reach the loop, and the start of the loop.\<close>

definition take_off :: "obj \<Rightarrow> resolveResult \<Rightarrow> 's world \<Rightarrow> 's flight" where
  "take_off body res sp =
     \<lparr>fl_res = res, fl_body = body, fl_from = [], fl_cap = no_capture, fl_writer = fresh_writer,
      fl_attempts = [], fl_stats = [], fl_world = sp\<rparr>"

lemma refuse_early_simps [simp]:
  "ex_attempts (refuse_early err tol r w sp) = []" "ex_error (refuse_early err tol r w sp) = Some err"
  "ex_writer (refuse_early err tol r w sp) = w" "ex_panicked (refuse_early err tol r w sp) = False"
  "ex_world (refuse_early err tol r w sp) = sp" "ex_refused (refuse_early err tol r w sp) = r"
  by (simp_all add: refuse_early_def)

lemma plain_error_simps [simp]:
  "ex_attempts (plain_error err msg code sp) = []" "ex_error (plain_error err msg code sp) = Some err"
  "ex_writer (plain_error err msg code sp) = http_Error msg code fresh_writer"
  "ex_panicked (plain_error err msg code sp) = False" "ex_world (plain_error err msg code sp) = sp"
  "ex_refused (plain_error err msg code sp) = False"
  by (simp_all add: plain_error_def)

text \<open>The status each way of ending promises.\<close>

definition error_status :: "proxy_error \<Rightarrow> int" where
  "error_status e =
     (case e of
        BodyUnread msg \<Rightarrow> 400 | InvalidJSON msg \<Rightarrow> 400 | MissingModel \<Rightarrow> 400 | ClassMismatch \<Rightarrow> 400
      | HeaderRefused why \<Rightarrow> 403 | TierRefused why \<Rightarrow> 403 | UpstreamFailed err \<Rightarrow> 502
      | Unresolved err \<Rightarrow>
          (case err of
             PrivacyRefused subject tier excluded \<Rightarrow> 403
           | RoleUnavailable role reasons \<Rightarrow> 503
           | ChainUnavailable chain reasons \<Rightarrow> 503
           | _ \<Rightarrow> 404))"

lemma send_refusal_status:
  "agree w \<Longrightarrow> rw_status w = 0 \<Longrightarrow> rf_status rf = 403 \<Longrightarrow>
     agree (send_refusal numtext rf w) \<and> rw_status (send_refusal numtext rf w) = 403"
  unfolding send_refusal_def Let_def by (intro conjI agree_Write agree_WriteHeader) simp_all

lemma rf_status_refusals [simp]:
  "rf_status (writePrivacyRefusal t why ex) = 403" "rf_status (writeScopeRefusal d t why ex) = 403"
  "rf_status (writeRefusal d t why ex) = 403"
  by (simp_all add: writePrivacyRefusal_def writeScopeRefusal_def writeRefusal_def)

text \<open>A request that ended before the loop: answered with the status of its error, and nothing was sent or
  counted.\<close>

definition ended_early :: "pressureTracker \<Rightarrow> 's exchange \<Rightarrow> bool" where
  "ended_early p ex \<longleftrightarrow>
     ex_attempts ex = [] \<and> ex_stats ex = [] \<and> ex_cap ex = no_capture \<and> ex_upstreamClass ex = ClassNone
     \<and> \<not> ex_panicked ex \<and> snd (ex_world ex) = p \<and> agree (ex_writer ex)
     \<and> (\<exists>err. ex_error ex = Some err \<and> rw_status (ex_writer ex) = error_status err)"

lemma plain_error_early:
  "final_status code \<Longrightarrow> error_status err = code \<Longrightarrow> ended_early (snd sp) (plain_error err msg code sp)"
  unfolding ended_early_def plain_error_def refuse_early_def
  using agree_http_Error[of fresh_writer code msg] by (simp add: final_status_def)

lemma refuse_early_early:
  "rf_status rf = 403 \<Longrightarrow> error_status err = 403 \<Longrightarrow>
     ended_early (snd sp) (refuse_early err tol r (send_refusal numtext rf fresh_writer) sp)"
  unfolding ended_early_def refuse_early_def
  using send_refusal_status[of fresh_writer rf numtext] by simp

lemma resolve_refusal_early: "ended_early (snd sp) (resolve_refusal pf d err sp)"
  unfolding resolve_refusal_def Let_def
  by (simp split: resolve_error.split)
     (auto intro!: plain_error_early refuse_early_early simp: error_status_def simp del: plain_error_simps)

lemma ended_early_resolved [simp]: "ended_early p (ex\<lparr>ex_resolved := r\<rparr>) \<longleftrightarrow> ended_early p ex"
  by (simp add: ended_early_def)

text \<open>A request that made an attempt was resolved and went through the loop.\<close>

lemma handleProxy_cases:
  obtains (early) "ended_early (snd sp) (handleProxy pe requireClass fd rq sp)"
  | (loop) body demand res s1 where "pq_Body rq = Document body"
      "privacyDemandFor (header_get (pq_Header rq) PrivacyHeader) (pq_Identity rq) = (demand, [])"
      "resolveModel (pe_av pe (pe_clock pe 0)) (pe_clock pe 0) (snd sp) (pe_rt pe) (str_field body ''model'') fd
         (estimatePromptTokens (\<lambda>x. length (pf_numtext (pe_pf pe) x)) body) (pd_tier demand) (fst sp) = (Inr res, s1)"
      "requireClass = APIClassUnset \<or> rr_APIClass res = requireClass"
      "handleProxy pe requireClass fd rq sp =
         proxy_loop pe (task_of fd res demand (pq_Header rq)) 0 (take_off body res (s1, snd sp))"
proof -
  show ?thesis
  proof (cases "pq_Body rq")
    case (Document body)
    show ?thesis
    proof (cases "str_field body ''model'' = []")
      case True
      with Document show ?thesis
        by (intro early) (simp add: handleProxy_def handle_document_def plain_error_early error_status_def)
    next
      case False
      obtain demand refuse where d: "privacyDemandFor (header_get (pq_Header rq) PrivacyHeader) (pq_Identity rq) = (demand, refuse)"
        by (rule prod.exhaust)
      obtain rr s1 where q: "resolveModel (pe_av pe (pe_clock pe 0)) (pe_clock pe 0) (snd sp) (pe_rt pe) (str_field body ''model'') fd
         (estimatePromptTokens (\<lambda>x. length (pf_numtext (pe_pf pe) x)) body) (pd_tier demand) (fst sp) = (rr, s1)"
        by (rule prod.exhaust)
      consider "refuse \<noteq> []" | err where "refuse = []" "rr = Inl err"
        | res where "refuse = []" "rr = Inr res" "requireClass \<noteq> APIClassUnset \<and> rr_APIClass res \<noteq> requireClass"
        | res where "refuse = []" "rr = Inr res" "requireClass = APIClassUnset \<or> rr_APIClass res = requireClass"
        by (cases rr) auto
      then show ?thesis
      proof cases
        case 1
        with Document False d show ?thesis
          by (intro early) (simp add: handleProxy_def handle_document_def Let_def refuse_early_early error_status_def)
      next
        case 2
        with Document False d q resolve_refusal_early[of "(s1, snd sp)"] show ?thesis
          by (intro early) (simp add: handleProxy_def handle_document_def Let_def case_prod_beta)
      next
        case 3
        with Document False d q plain_error_early[of 400 ClassMismatch "(s1, snd sp)"] show ?thesis
          by (intro early) (simp add: handleProxy_def handle_document_def serve_placed_def Let_def case_prod_beta
              error_status_def)
      next
        case 4
        then have "\<not> (requireClass \<noteq> APIClassUnset \<and> rr_APIClass res \<noteq> requireClass)" by blast
        then have "serve_placed pe requireClass fd rq body (str_field body ''model'') demand res (s1, snd sp) =
            proxy_loop pe (task_of fd res demand (pq_Header rq)) 0 (take_off body res (s1, snd sp))"
          unfolding serve_placed_def take_off_def by (rule if_not_P)
        with 4 Document False d q show ?thesis
          by (intro loop[of body demand res s1])
            (simp_all add: handleProxy_def handle_document_def Let_def case_prod_beta)
      qed
    qed
  qed (auto intro!: early plain_error_early simp: handleProxy_def error_status_def)
qed

section \<open>What leaves under a tier\<close>

definition zdr_marked :: "obj \<Rightarrow> bool" where
  "zdr_marked body \<longleftrightarrow>
     (case lookup body ''provider'' of Some (JObj p) \<Rightarrow> lookup p ''zdr'' = Some (JBool True) | _ \<Rightarrow> False)"

lemma prepare_tier:
  assumes "prepare rt disc tk res body = Inr sent" and "tk_tier tk \<noteq> TierNone"
  shows "\<exists>m. lookupModel rt disc (rr_ModelID res) = Some m \<and> satisfies_tier m (tk_tier tk)
     \<and> (IsLocal m \<or> zdr_marked sent)"
  using assms
  by (auto simp: prepare_def applyPrivacy_def Let_def privacyGate_iff zdr_marked_def dest!: setZDR_sets
      split: option.splits if_splits sum.splits)

lemma task_tier:
  "placed rt disc up (pd_tier demand) res \<Longrightarrow> pd_tier demand \<le> tk_tier (task_of fd res demand hdr)"
  by (auto simp: placed_def task_of_def Let_def)

definition prepared :: "'s proxy_env \<Rightarrow> proxy_task \<Rightarrow> attempt \<Rightarrow> bool" where
  "prepared pe tk a \<longleftrightarrow> (\<exists>n fl. made_by pe tk n fl a)"

lemma preparedI: "made_by pe tk n fl a \<Longrightarrow> prepared pe tk a"
  unfolding prepared_def by blast

lemma loop_attempts_prepared:
  "\<forall>a \<in> set (fl_attempts fl). prepared pe tk a \<Longrightarrow> \<forall>a \<in> set (ex_attempts (proxy_loop pe tk n fl)). prepared pe tk a"
proof (rule proxy_loop_rule[where P = "\<lambda>n fl. \<forall>a \<in> set (fl_attempts fl). prepared pe tk a"])
  fix n fl fl'
  assume "\<forall>a \<in> set (fl_attempts fl). prepared pe tk a" "attempt_step pe tk n fl = Inr fl'"
  then show "\<forall>a \<in> set (fl_attempts fl'). prepared pe tk a"
    using step_again[of pe tk n fl fl'] by (auto intro: preparedI)
next
  fix n fl ex
  assume "\<forall>a \<in> set (fl_attempts fl). prepared pe tk a" "attempt_step pe tk n fl = Inl ex"
  then show "\<forall>a \<in> set (ex_attempts ex). prepared pe tk a"
    using step_done[of pe tk n fl ex] by (auto intro: preparedI)
qed

lemma attempt_within_tier:
  assumes "pe_av pe = tracker_avail" and "wf_map (rt_active (pe_rt pe))"
    and "pd_tier (fst (privacyDemandFor (header_get (pq_Header rq) PrivacyHeader) (pq_Identity rq))) = tier"
    and "tier \<noteq> TierNone" and "a \<in> set (ex_attempts (handleProxy pe requireClass fd rq sp))"
  shows "\<exists>m. at_Found a = Some m \<and> satisfies_tier m tier \<and> (IsLocal m \<or> zdr_marked (at_Body a))"
proof (cases rule: handleProxy_cases[of sp pe requireClass fd rq])
  case early
  with assms(5) show ?thesis by (simp add: ended_early_def)
next
  case (loop body demand res s1)
  let ?tk = "task_of fd res demand (pq_Header rq)"
  from loop(3) assms(1) have "placed (pe_rt pe) (Discovered (fst sp)) (live (pe_clock pe 0) (fst sp)) (pd_tier demand) res"
    using tracker.resolveModel_placed[OF assms(2) arg_cong[where f = fst, OF loop(3)[unfolded assms(1)], unfolded fst_conv]] by simp
  from task_tier[OF this] have le: "tier \<le> tk_tier ?tk" using assms(3) loop(2) by simp
  then have t: "tk_tier ?tk \<noteq> TierNone" using assms(4) by (cases tier) (auto simp: less_eq_privacyTier_def)
  from assms(5) loop(5) loop_attempts_prepared[of "take_off body res (s1, snd sp)" pe ?tk 0]
  have "prepared pe ?tk a" by (simp add: take_off_def)
  with prepare_tier[OF _ t] satisfies_tier_mono[OF le] show ?thesis by (fastforce simp: prepared_def made_by_def)
qed


definition pf_plain :: platform where
  "pf_plain = \<lparr>pf_hash = (\<lambda>s. s), pf_numtext = (\<lambda>x. []), pf_parse = (\<lambda>s. None), pf_float = (\<lambda>s. None), pf_date = (\<lambda>s. None)\<rparr>"

definition response :: "int \<Rightarrow> upstream_answer" where
  "response status =
     \<lparr>ua_Info = [], ua_Final = Inr \<lparr>ur_Status = status, ur_ContentType = ''application/json'', ur_RetryAfter = [],
                                   ur_Body = ''{}'', ur_Broken = None, ur_ClientGone = False\<rparr>\<rparr>"

definition env_small :: "(nat \<Rightarrow> upstream_answer) \<Rightarrow> Tracker proxy_env" where
  "env_small answers =
     \<lparr>pe_rt = rt_small, pe_av = tracker_avail, pe_pf = pf_plain, pe_clock = (\<lambda>n. 0),
      pe_upstream = (\<lambda>n out. answers n), pe_others = (\<lambda>n sp. sp)\<rparr>"

definition ask :: "string \<Rightarrow> string \<Rightarrow> proxy_request" where
  "ask model tier =
     \<lparr>pq_Path = ''/v1/completions'', pq_Header = [(PrivacyHeader, [tier])],
      pq_Body = Document [(''model'', JStr model)], pq_Identity = None\<rparr>"

section \<open>How many attempts\<close>


section \<open>What the client is answered\<close>

definition promised_status :: "'s proxy_env \<Rightarrow> 's exchange \<Rightarrow> int" where
  "promised_status pe ex =
     (case ex_error ex of
        Some e \<Rightarrow> error_status e
      | None \<Rightarrow>
          (case at_Out (last (ex_attempts ex)) of
             None \<Rightarrow> 500
           | Some out \<Rightarrow>
               (case ua_Final (pe_upstream pe (length (ex_attempts ex) - 1) out) of
                  Inr r \<Rightarrow> ur_Status r
                | Inl e \<Rightarrow> 502)))"

text \<open>An answer without informational statuses and with a final one.\<close>

definition plain_answer :: "upstream_answer \<Rightarrow> bool" where
  "plain_answer ua \<longleftrightarrow>
     ua_Info ua = [] \<and> (case ua_Final ua of Inl e \<Rightarrow> True | Inr r \<Rightarrow> final_status (ur_Status r))"

lemma agree_setRoleHeaders [simp]:
  "agree (setRoleHeaders res w) \<longleftrightarrow> agree w" "rw_status (setRoleHeaders res w) = rw_status w"
  by (simp_all add: setRoleHeaders_def Let_def)

lemma take_answer_plain:
  assumes "plain_answer ua" "agree w" "rw_status w = 0"
    and "take_answer pf now rty ua cap w = (result, cap', w')"
  shows "agree w'" and "rw_status w' =
    (case result of Failed e \<Rightarrow> 0 | _ \<Rightarrow> (case ua_Final ua of Inr r \<Rightarrow> ur_Status r | Inl e \<Rightarrow> 502))"
proof -
  have out: "agree (Write p (WriteHeader c w)) \<and> rw_status (Write p (WriteHeader c w)) = c" if "final_status c" for c p
    using that assms(2,3) agree_Write[OF agree_WriteHeader[of w c]] by (auto simp: final_status_def)
  have "agree w' \<and> rw_status w' =
    (case result of Failed e \<Rightarrow> 0 | _ \<Rightarrow> (case ua_Final ua of Inr r \<Rightarrow> ur_Status r | Inl e \<Rightarrow> 502))"
    using assms out
    by (auto simp: take_answer_def plain_answer_def pass_info_def stream_out_def Let_def
        split: sum.splits if_splits option.splits)
  then show "agree w'" and "rw_status w' =
    (case result of Failed e \<Rightarrow> 0 | _ \<Rightarrow> (case ua_Final ua of Inr r \<Rightarrow> ur_Status r | Inl e \<Rightarrow> 502))" by blast+
qed

lemma reverseProxyTo_plain:
  assumes "\<And>x. plain_answer (up x)" "agree w" "rw_status w = 0"
    and "reverseProxyTo pf now up hdr url body auth ah rty cap w = (result, out, cap', w')"
  shows "agree w'" and "rw_status w' =
    (case result of Failed e \<Rightarrow> 0
     | _ \<Rightarrow> (case out of None \<Rightarrow> 500 | Some x \<Rightarrow> (case ua_Final (up x) of Inr r \<Rightarrow> ur_Status r | Inl e \<Rightarrow> 502)))"
proof -
  have "agree w' \<and> rw_status w' =
    (case result of Failed e \<Rightarrow> 0
     | _ \<Rightarrow> (case out of None \<Rightarrow> 500 | Some x \<Rightarrow> (case ua_Final (up x) of Inr r \<Rightarrow> ur_Status r | Inl e \<Rightarrow> 502)))"
  proof (cases "url_hostname url")
    case None
    with assms(4) have "w' = http_Error ''bad backend URL'' 500 w" "out = None" "result = Proxied"
      by (simp_all add: reverseProxyTo_def)
    with assms(2,3) show ?thesis by (simp add: agree_http_Error)
  next
    case (Some host)
    with assms(4) obtain x' where "take_answer pf now rty (up x') cap w = (result, cap', w')" "out = Some x'"
      by (auto simp: reverseProxyTo_def Let_def split: prod.splits)
    with take_answer_plain[OF assms(1-3) this(1)] show ?thesis by (simp split: forward_result.split)
  qed
  then show "agree w'" and "rw_status w' =
    (case result of Failed e \<Rightarrow> 0
     | _ \<Rightarrow> (case out of None \<Rightarrow> 500 | Some x \<Rightarrow> (case ua_Final (up x) of Inr r \<Rightarrow> ur_Status r | Inl e \<Rightarrow> 502)))" by blast+
qed

lemma promised_status_nz:
  assumes "\<And>n x. plain_answer (pe_upstream pe n x)"
  shows "promised_status pe ex \<noteq> 0"
proof -
  have "(case ua_Final (pe_upstream pe n x) of Inr r \<Rightarrow> ur_Status r | Inl e \<Rightarrow> 502) \<noteq> 0" for n x
    using assms[of n x] by (auto simp: plain_answer_def final_status_def split: sum.splits)
  moreover have "error_status e \<noteq> 0" for e
    by (simp add: error_status_def split: proxy_error.split resolve_error.split)
  ultimately show ?thesis by (simp add: promised_status_def split: option.split)
qed

lemma agree_after_handler: "agree w \<Longrightarrow> rw_status w \<noteq> 0 \<Longrightarrow> cl_status (after_handler b w) = rw_status w"
  by (simp add: agree_def writer_defs)

text \<open>One attempt, from a writer nothing was written to.\<close>

lemma attempt_writer:
  assumes up: "\<And>n x. plain_answer (pe_upstream pe n x)"
    and w: "agree (fl_writer fl)" "rw_status (fl_writer fl) = 0"
  shows "attempt_step pe tk n fl = Inr fl' \<Longrightarrow> agree (fl_writer fl') \<and> rw_status (fl_writer fl') = 0"
    and "attempt_step pe tk n fl = Inl ex \<Longrightarrow> length (fl_attempts fl) = n \<Longrightarrow>
           agree (ex_writer ex) \<and> rw_status (ex_writer ex) = promised_status pe ex"
proof -
  let ?w = "setRoleHeaders (fl_res fl) (if tk_tier tk \<noteq> TierNone
      then set_header PrivacyHeader (tier_String (tk_tier tk)) (fl_writer fl) else fl_writer fl)"
  have w2: "agree ?w" "rw_status ?w = 0" using w by simp_all
  note rp = reverseProxyTo_plain[where up = "pe_upstream pe n", OF up w2]
  show "attempt_step pe tk n fl = Inr fl' \<Longrightarrow> agree (fl_writer fl') \<and> rw_status (fl_writer fl') = 0"
    using rp by (auto simp: attempt_step_def Let_def split: attempt_splits)
  show "attempt_step pe tk n fl = Inl ex \<Longrightarrow> length (fl_attempts fl) = n \<Longrightarrow>
           agree (ex_writer ex) \<and> rw_status (ex_writer ex) = promised_status pe ex"
    using rp w send_refusal_status[OF w]
    by (auto simp: attempt_step_def Let_def answered_def promised_status_def error_status_def agree_http_Error
        split: attempt_splits)
qed


section \<open>The load the request leaves behind\<close>

text \<open>C27: A request gives back the load it took: when nothing else touches the load table meanwhile, every
  seat's in-flight count after the request is what it was before, whatever was tried on the way, unless
  the handler panicked because the copy to the client broke off; then the seat that was streaming keeps
  one request too many, and nothing ever takes it off again.\<close>

theorem inflight_returned_unless_aborted:
  assumes others: "\<And>n w i. inflight_of (snd (pe_others pe n w)) i = inflight_of (snd w) i"
    and start: "\<And>i. 0 \<le> inflight_of (snd sp) i"
  shows "let ex = handleProxy pe requireClass fd rq sp in
     inflight_of (snd (ex_world ex)) i =
       inflight_of (snd sp) i
       + (if ex_panicked ex \<and> rr_ModelID (at_Res (last (ex_attempts ex))) = i then 1 else 0)"
proof (cases rule: handleProxy_cases[of sp pe requireClass fd rq])
  case early
  then show ?thesis by (simp add: ended_early_def Let_def)
next
  case (loop body demand res s1)
  let ?tk = "task_of fd res demand (pq_Header rq)"
  have others': "pe_others pe n w = (s2, p2) \<Longrightarrow> inflight_of p2 j = inflight_of (snd w) j" for n w s2 p2 j
    using others[of n w j] by simp
  let ?same = "\<lambda>p. \<forall>j. inflight_of p j = inflight_of (snd sp) j"
  let ?Q = "\<lambda>ex. inflight_of (snd (ex_world ex)) i = inflight_of (snd sp) i
      + (if ex_panicked ex \<and> rr_ModelID (at_Res (last (ex_attempts ex))) = i then 1 else 0)"
  have marked: "inflight_of (markServed t j p) k = inflight_of p k" for t j p k
    by (simp add: markServed_def inflight_of_def)
  have "?Q (proxy_loop pe ?tk 0 (take_off body res (s1, snd sp)))"
  proof (rule proxy_loop_rule[where P = "\<lambda>n fl. ?same (snd (fl_world fl))"])
    fix n and fl fl' :: "'a flight"
    assume "?same (snd (fl_world fl))" "attempt_step pe ?tk n fl = Inr fl'"
    then show "?same (snd (fl_world fl'))"
      using start by (auto simp: attempt_step_def Let_def others' split: attempt_splits)
  next
    fix n and fl :: "'a flight" and ex
    assume "?same (snd (fl_world fl))" "attempt_step pe ?tk n fl = Inl ex"
    then show "?Q ex"
      using start by (auto simp: attempt_step_def Let_def others' answered_def report_passed_def marked split: attempt_splits)
  qed (simp add: take_off_def)
  then show ?thesis using loop(5) by (simp add: Let_def)
qed

section \<open>What the failure window is told\<close>

lemma classify_not_none: "classifyUpstreamErr (Some e) \<noteq> ClassNone"
  by (auto simp: classifyUpstreamErr_def classifyTransportErr_def split: upstream_err.split)

text \<open>C25: Every attempt that reached an upstream is counted once against the model and endpoint it went to,
  the failed ones a failover passed over included, and a request the router itself turned away counts
  against none.\<close>

theorem every_attempt_counted_once:
  assumes "\<And>n x r. ua_Final (pe_upstream pe n x) = Inr r \<Longrightarrow> 0 < ur_Status r"
  shows "let ex = handleProxy pe requireClass fd rq sp in
     map (\<lambda>(i, u, c). (i, u)) (window_entries pf ex) =
       map (\<lambda>a. (rr_ModelID (at_Res a), rr_BackendURL (at_Res a))) (filter (\<lambda>a. at_Out a \<noteq> None) (ex_attempts ex))"
proof (cases rule: handleProxy_cases[of sp pe requireClass fd rq])
  case early
  then show ?thesis
    by (simp add: ended_early_def Let_def window_entries_def no_capture_def split: option.split)
next
  case (loop body demand res s1)
  let ?tk = "task_of fd res demand (pq_Header rq)"
  let ?who = "\<lambda>a. (rr_ModelID (at_Res a), rr_BackendURL (at_Res a))"
  let ?P = "\<lambda>n fl. map (\<lambda>(i, u, c). (i, u)) (fl_stats fl) = map ?who (fl_attempts fl)
      \<and> list_all (\<lambda>a. at_Out a \<noteq> None) (fl_attempts fl) \<and> fl_cap fl = no_capture"
  let ?Q = "\<lambda>ex. map (\<lambda>(i, u, c). (i, u)) (window_entries pf ex) = map ?who (filter (\<lambda>a. at_Out a \<noteq> None) (ex_attempts ex))"
  have rp: "(case result of
        Failed e \<Rightarrow> out \<noteq> None
      | _ \<Rightarrow> (out \<noteq> None \<longleftrightarrow> 0 < cap_upstreamStatus cap'))"
    if "reverseProxyTo pf' now (pe_upstream pe n) hdr url b auth ah rty no_capture w = (result, out, cap', w')"
    for pf' now n hdr url b auth ah rty w result out cap' w'
    using that assms
    by (auto simp: reverseProxyTo_def take_answer_def no_capture_def Let_def stream_out_def
        split: option.splits sum.splits if_splits prod.splits)
  have "?Q (proxy_loop pe ?tk 0 (take_off body res (s1, snd sp)))"
  proof (rule proxy_loop_rule[where P = ?P])
    fix n and fl fl' :: "'a flight"
    assume "?P n fl" "attempt_step pe ?tk n fl = Inr fl'"
    then show "?P (Suc n) fl'"
      by (auto simp: attempt_step_def Let_def split: attempt_splits dest!: rp)
  next
    fix n and fl :: "'a flight" and ex
    assume "?P n fl" "attempt_step pe ?tk n fl = Inl ex"
    then show "?Q ex"
      by (auto simp: attempt_step_def Let_def answered_def window_entries_def classify_not_none no_capture_def
          filter_id_conv list_all_iff split: attempt_splits dest!: rp[unfolded no_capture_def])
  qed (simp add: take_off_def)
  then show ?thesis using loop(5) by (simp add: Let_def)
qed

section \<open>One request, evaluated\<close>

definition small_ex :: "Tracker exchange" where
  "small_ex = handleProxy (env_small (\<lambda>n. response 200)) APIClassChat True (ask ''or/glm'' ''zdr'') (tracker_up, idle_pressure)"

lemma small_run:
  "(map (\<lambda>a. (rr_ModelID (at_Res a), rr_BackendURL (at_Res a), at_Out a \<noteq> None)) (ex_attempts small_ex),
    promised_status (env_small (\<lambda>n. response 200)) small_ex, ex_panicked small_ex)
   = ([(''or/glm'', ''https://openrouter.ai/api'', True)], 200, False)"
  by code_simp

lemma small_attempt:
  obtains a where "ex_attempts small_ex = [a]" "rr_ModelID (at_Res a) = ''or/glm''"
    "rr_BackendURL (at_Res a) = ''https://openrouter.ai/api''" "at_Out a \<noteq> None"
  using small_run by (cases "ex_attempts small_ex") auto

lemma small_plain: "plain_answer (pe_upstream (env_small (\<lambda>n. response 200)) n x)"
  by (simp add: env_small_def response_def plain_answer_def)



theorem inflight_returned_unless_aborted_witness: "inflight_of (snd (ex_world small_ex)) ''or/glm'' = 0"
proof -
  have "inflight_of idle_pressure i = 0" for i by (simp add: idle_pressure_def)
  then show ?thesis
    using inflight_returned_unless_aborted[of "env_small (\<lambda>n. response 200)" "(tracker_up, idle_pressure)" APIClassChat True
        "ask ''or/glm'' ''zdr''" "''or/glm''"] small_run
    by (simp add: Let_def small_ex_def env_small_def)
qed

theorem every_attempt_counted_once_witness:
  "map (\<lambda>(i, u, c). (i, u)) (window_entries pf_plain small_ex) = [(''or/glm'', ''https://openrouter.ai/api'')]"
proof -
  have "0 < ur_Status r" if "ua_Final (pe_upstream (env_small (\<lambda>n. response 200)) n x) = Inr r" for n x r
    using that by (auto simp: env_small_def response_def)
  from every_attempt_counted_once[where pe = "env_small (\<lambda>n. response 200)" and pf = pf_plain
      and requireClass = APIClassChat and fd = True and rq = "ask ''or/glm'' ''zdr''" and sp = "(tracker_up, idle_pressure)", OF this]
  have "map (\<lambda>(i, u, c). (i, u)) (window_entries pf_plain small_ex) =
      map (\<lambda>a. (rr_ModelID (at_Res a), rr_BackendURL (at_Res a))) (filter (\<lambda>a. at_Out a \<noteq> None) (ex_attempts small_ex))"
    by (simp add: Let_def small_ex_def)
  moreover obtain a where "ex_attempts small_ex = [a]" "rr_ModelID (at_Res a) = ''or/glm''"
      "rr_BackendURL (at_Res a) = ''https://openrouter.ai/api''" "at_Out a \<noteq> None" by (rule small_attempt)
  ultimately show ?thesis by simp
qed

section \<open>Credentials\<close>

lemma canonical_names:
  "canonical_key ''Authorization'' = ''Authorization''" "canonical_key ''Content-Length'' = ''Content-Length''"
  "canonical_key ''X-Opencode-Session'' = ''X-Opencode-Session''"
  by code_simp+

text \<open>With an upstream key configured, the upstream sees that key and not the caller's credential: by default
  it replaces the Authorization header, and under a header of its own it is written there verbatim and
  the caller's Authorization is gone. Without a key the caller's Authorization, which is the router's own
  token, goes to the upstream as it came.\<close>

theorem upstream_credential:
  "let out = outbound_headers pf host key h body inbound in
     lookup out ''Authorization'' =
       (if key = [] then lookup (strip_headers inbound) ''Authorization''
        else if h = [] then Some [''Bearer '' @ key]
        else if canonical_key h = ''Authorization'' then Some [key] else None)
     \<and> (key \<noteq> [] \<and> h \<noteq> [] \<longrightarrow> lookup out (canonical_key h) = Some [key])"
proof -
  have "lookup (setSessionAffinity hash nt host body hd) ''Authorization'' = lookup hd ''Authorization''" for hash nt hd
    by (simp add: setSessionAffinity_def sessionHeaderHosts_def canonical_names)
  then show ?thesis by (simp add: outbound_headers_def Let_def canonical_names eq_commute)
qed

theorem upstream_credential_witness:
  "lookup (outbound_headers pf_plain ''or'' ''k1'' ''X-Api-Key'' \<lparr>pl_bytes = [], pl_json = None\<rparr> [(''Authorization'', [''Bearer router''])])
     (canonical_key ''X-Api-Key'') = Some [''k1'']"
  using upstream_credential[of pf_plain "''or''" "''k1''" "''X-Api-Key''" "\<lparr>pl_bytes = [], pl_json = None\<rparr>" "[(''Authorization'', [''Bearer router''])]"]
  by (simp add: Let_def)

section \<open>What a failed attempt leaves behind\<close>

text \<open>The response headers are not cleared between attempts: after a failover from a chain's member to a plain
  candidate of the role, the answer still names the chain, and after one from an overflow seat it still
  says that the role overflowed.\<close>

theorem failover_keeps_stale_headers:
  assumes "rr_Role res \<noteq> []" "rr_Role nxt = rr_Role res" "rr_Chain nxt = []" "\<not> rr_Overflowed nxt"
  shows "header_get (cl_header (setRoleHeaders nxt (setRoleHeaders res w))) ''X-Router-Chain'' =
           header_get (cl_header (setRoleHeaders res w)) ''X-Router-Chain''
       \<and> header_get (cl_header (setRoleHeaders nxt (setRoleHeaders res w))) ''X-Router-Overflow'' =
           header_get (cl_header (setRoleHeaders res w)) ''X-Router-Overflow''"
proof -
  have k: "canonical_key ''X-Router-Chain'' = ''X-Router-Chain''" "canonical_key ''X-Router-Overflow'' = ''X-Router-Overflow''"
    "canonical_key ''X-Router-Role'' = ''X-Router-Role''" "canonical_key ''X-Router-Resolved'' = ''X-Router-Resolved''"
    "canonical_key ''X-Router-Pressure'' = ''X-Router-Pressure''" "canonical_key ''X-Router-Downshift'' = ''X-Router-Downshift''"
    by code_simp+
  show ?thesis
    using assms by (simp add: setRoleHeaders_def[of nxt] Let_def set_header_def k)
qed

text \<open>The directive reaches back into the caller's body: when the caller sent a provider object of their own,
  attaching the directive for one seat changes the body every later attempt starts from, because the
  copy of the body shares its nested objects.\<close>

theorem directive_reaches_next_attempt:
  assumes "lookup body ''provider'' = Some (JObj p)" and "lookup (rr_RequestDefaults res) ''provider'' = None"
    and "prepare rt disc tk res body = Inr sent" and "tk_tier tk \<noteq> TierNone"
    and "lookupModel rt disc (rr_ModelID res) = Some m" and "\<not> IsLocal m"
  shows "zdr_marked (body_after body (rr_RequestDefaults res) sent)"
  using assms prepare_tier[OF assms(3,4)]
  by (auto simp: zdr_marked_def body_after_def split: option.splits json.splits)

end
