(* ===== verification/Images.thy ===== *)
theory Images
  imports Proxy
begin

text \<open>
  \<^verbatim>\<open>internal/router/images.go\<close>: the multipart endpoints (image edits, transcriptions). The model name is a
  form field, the body goes out byte for byte, and there is no failover.

  \<^verbatim>\<open>mime/multipart\<close> splits the body; what it yields is the input here: a list of parts, each with its form
  name, file name and content, that may end in an error. \<open>reg\<close> is the registry the tier check reads.
\<close>

datatype form_part = Part string string string "string option" | PartFails string

definition maxMultipartModelScan :: nat where "maxMultipartModelScan = 4 * 1024"

fun multipartFormValue :: "form_part list \<Rightarrow> string \<Rightarrow> string + string" where
  "multipartFormValue [] field = Inr []"
| "multipartFormValue (PartFails e # parts) field = Inl e"
| "multipartFormValue (Part name file content err # parts) field =
     (if name = field \<and> file = [] then
        (case err of
           Some e \<Rightarrow> if length content < maxMultipartModelScan then Inl e else Inr (take maxMultipartModelScan content)
         | None \<Rightarrow> Inr (take maxMultipartModelScan content))
      else multipartFormValue parts field)"

record multipart_request =
  mq_Path :: string
  mq_Header :: header
  mq_Read :: "string option"
  mq_Boundary :: bool
  mq_Bytes :: string
  mq_JSON :: "json option"
  mq_Parts :: "form_part list"
  mq_Identity :: "Identity option"

datatype multipart_error =
    MBodyUnread string | MNotMultipart | MBadForm string | MMissingModel | MHeaderRefused string
  | MUnresolved resolve_error | MTierRefused string | MClassMismatch | MUpstreamFailed go_error

record 's multipart_exchange =
  mx_error :: "multipart_error option"
  mx_resolved :: "resolveResult option"
  mx_refusalClass :: error_class
  mx_tolerance :: string
  mx_out :: "outbound option"
  mx_cap :: responseCapture
  mx_writer :: writer
  mx_state :: 's
  mx_panicked :: bool

definition multipart_end ::
    "multipart_error \<Rightarrow> resolveResult option \<Rightarrow> error_class \<Rightarrow> string \<Rightarrow> writer \<Rightarrow> 's \<Rightarrow> 's multipart_exchange" where
  "multipart_end err res class tolerance w s =
     \<lparr>mx_error = Some err, mx_resolved = res, mx_refusalClass = class, mx_tolerance = tolerance, mx_out = None,
      mx_cap = no_capture, mx_writer = w, mx_state = s, mx_panicked = False\<rparr>"

definition forward_multipart ::
    "'s availability \<Rightarrow> platform \<Rightarrow> time \<Rightarrow> (outbound \<Rightarrow> upstream_answer) \<Rightarrow> multipart_request \<Rightarrow> resolveResult
     \<Rightarrow> string \<Rightarrow> 's \<Rightarrow> 's multipart_exchange" where
  "forward_multipart av pf now upstream rq res tolerance s =
     (let (result, out, cap, w) =
        reverseProxyTo pf now upstream (mq_Header rq) (rr_BackendURL res)
          \<lparr>pl_bytes = mq_Bytes rq, pl_json = mq_JSON rq\<rparr> (rr_AuthBearer res) (rr_AuthHeader res) False no_capture fresh_writer;
          base = \<lparr>mx_error = None, mx_resolved = Some res, mx_refusalClass = ClassNone, mx_tolerance = tolerance,
                  mx_out = out, mx_cap = cap, mx_writer = w, mx_state = s, mx_panicked = False\<rparr>
      in case result of
           Aborted \<Rightarrow> base\<lparr>mx_panicked := True\<rparr>
         | Proxied \<Rightarrow> base\<lparr>mx_state := av_ReportSuccess av (rr_ModelID res) s\<rparr>
         | Failed e \<Rightarrow>
             base\<lparr>mx_error := Some (MUpstreamFailed e), mx_state := av_ReportFailure av (rr_ModelID res) (Some e) s,
                  mx_writer := (if rw_status w = 0 then http_Error (''upstream: '' @ snd e) 502 w else w)\<rparr>)"

definition tier_gate :: "ModelRegistry \<Rightarrow> privacyTier \<Rightarrow> string \<Rightarrow> string" where
  "tier_gate reg tier i =
     (if tier = TierNone then []
      else case lookup (reg_Models reg) i of Some m \<Rightarrow> privacyGate m tier | None \<Rightarrow> [])"

definition multipart_placed ::
    "'s availability \<Rightarrow> Router \<Rightarrow> platform \<Rightarrow> time \<Rightarrow> (outbound \<Rightarrow> upstream_answer) \<Rightarrow> APIClass \<Rightarrow> multipart_request
     \<Rightarrow> string \<Rightarrow> privacyDemand \<Rightarrow> resolveResult \<Rightarrow> 's \<Rightarrow> 's multipart_exchange" where
  "multipart_placed av rt pf now upstream requireClass rq model demand res s =
     (let tolerance = tier_String (pd_tier demand); why = tier_gate (rt_registry rt) (pd_tier demand) (rr_ModelID res) in
      if why \<noteq> [] then
        let msg = pd_source demand @ '', but '' @ quoted (rr_ModelID res) @ '' is '' @ why
        in multipart_end (MTierRefused msg) (Some res) (demand_errorClass demand) tolerance
             (send_refusal (pf_numtext pf) (writeRefusal demand (pd_tier demand) msg []) fresh_writer) s
      else if requireClass \<noteq> APIClassUnset \<and> rr_APIClass res \<noteq> requireClass then
        multipart_end MClassMismatch (Some res) ClassNone tolerance
          (http_Error (''model '' @ quoted model @ '' has api_class '' @ quoted (api_class_text (rr_APIClass res)) @ ''; ''
             @ mq_Path rq @ '' requires '' @ quoted (api_class_text requireClass)) 400 fresh_writer) s
      else forward_multipart av pf now upstream rq res tolerance s)"

definition multipart_named ::
    "'s availability \<Rightarrow> Router \<Rightarrow> platform \<Rightarrow> time \<Rightarrow> pressureTracker \<Rightarrow> (outbound \<Rightarrow> upstream_answer) \<Rightarrow> APIClass
     \<Rightarrow> multipart_request \<Rightarrow> string \<Rightarrow> 's \<Rightarrow> 's multipart_exchange" where
  "multipart_named av rt pf now p upstream requireClass rq model s =
     (let (demand, refuse) = privacyDemandFor (header_get (mq_Header rq) PrivacyHeader) (mq_Identity rq) in
      if refuse \<noteq> [] then
        multipart_end (MHeaderRefused refuse) None ClassPrivacyRefused []
          (send_refusal (pf_numtext pf) (writePrivacyRefusal TierNone refuse []) fresh_writer) s
      else
        case resolveModel av now p rt model True 0 (pd_tier demand) s of
          (Inl err, s1) \<Rightarrow>
            multipart_end (MUnresolved err) None ClassNone (tier_String (pd_tier demand))
              (http_Error (resolve_error_text err) 404 fresh_writer) s1
        | (Inr res, s1) \<Rightarrow> multipart_placed av rt pf now upstream requireClass rq model demand res s1)"

definition handleProxyMultipart ::
    "'s availability \<Rightarrow> Router \<Rightarrow> platform \<Rightarrow> time \<Rightarrow> pressureTracker \<Rightarrow> (outbound \<Rightarrow> upstream_answer) \<Rightarrow> APIClass
     \<Rightarrow> multipart_request \<Rightarrow> 's \<Rightarrow> 's multipart_exchange" where
  "handleProxyMultipart av rt pf now p upstream requireClass rq s =
     (let refuse = (\<lambda>err msg. multipart_end err None ClassNone [] (http_Error msg 400 fresh_writer) s) in
      case mq_Read rq of
        Some e \<Rightarrow> refuse (MBodyUnread e) (''read body: '' @ e)
      | None \<Rightarrow>
          if \<not> mq_Boundary rq then refuse MNotMultipart ''expected multipart/form-data with a boundary''
          else case multipartFormValue (mq_Parts rq) ''model'' of
                 Inl e \<Rightarrow> refuse (MBadForm e) (''parse multipart form: '' @ e)
               | Inr model \<Rightarrow>
                   if model = [] then refuse MMissingModel ''missing \"model\" form field''
                   else multipart_named av rt pf now p upstream requireClass rq model s)"

section \<open>What a multipart request may reach\<close>

lemma forward_multipart_out:
  "mx_out (forward_multipart av pf now upstream rq res tolerance s) = Some out \<Longrightarrow>
     pl_bytes (ob_Body out) = mq_Bytes rq \<and> mx_resolved (forward_multipart av pf now upstream rq res tolerance s) = Some res"
  by (auto simp: forward_multipart_def reverseProxyTo_def Let_def split: prod.splits option.splits forward_result.splits)

lemma multipart_end_out [simp]: "mx_out (multipart_end err res class tol w s) = None"
  by (simp add: multipart_end_def)

text \<open>A request that went out was placed, passed the tier check and had the right class.\<close>

lemma multipart_sent:
  assumes "mx_out (handleProxyMultipart av rt pf now p upstream requireClass rq s) = Some out"
  obtains demand res model s1 where
    "privacyDemandFor (header_get (mq_Header rq) PrivacyHeader) (mq_Identity rq) = (demand, [])"
    "resolveModel av now p rt model True 0 (pd_tier demand) s = (Inr res, s1)"
    "tier_gate (rt_registry rt) (pd_tier demand) (rr_ModelID res) = []"
    "requireClass = APIClassUnset \<or> rr_APIClass res = requireClass"
    "mx_resolved (handleProxyMultipart av rt pf now p upstream requireClass rq s) = Some res"
    "pl_bytes (ob_Body out) = mq_Bytes rq"
proof -
  from assms obtain model where m: "handleProxyMultipart av rt pf now p upstream requireClass rq s =
      multipart_named av rt pf now p upstream requireClass rq model s"
    by (auto simp: handleProxyMultipart_def Let_def split: option.splits sum.splits if_splits)
  obtain demand refuse where d: "privacyDemandFor (header_get (mq_Header rq) PrivacyHeader) (mq_Identity rq) = (demand, refuse)"
    by (rule prod.exhaust)
  obtain r s1 where q: "resolveModel av now p rt model True 0 (pd_tier demand) s = (r, s1)" by (rule prod.exhaust)
  from assms[unfolded m] d q have r: "refuse = []" "\<exists>res. r = Inr res"
    by (auto simp: multipart_named_def split: if_splits sum.splits)
  then obtain res where res: "r = Inr res" by blast
  have pl: "multipart_named av rt pf now p upstream requireClass rq model s =
      multipart_placed av rt pf now upstream requireClass rq model demand res s1"
    using d q r(1) res by (simp add: multipart_named_def)
  let ?f = "forward_multipart av pf now upstream rq res (tier_String (pd_tier demand)) s1"
  from assms[unfolded m pl] have g: "tier_gate (rt_registry rt) (pd_tier demand) (rr_ModelID res) = []"
      "\<not> (requireClass \<noteq> APIClassUnset \<and> rr_APIClass res \<noteq> requireClass)"
    by (auto simp: multipart_placed_def Let_def split: if_splits)
  then have f: "multipart_placed av rt pf now upstream requireClass rq model demand res s1 = ?f"
    unfolding multipart_placed_def Let_def by (simp only: if_False simp_thms)
  from forward_multipart_out[OF assms[unfolded m pl f]] g show ?thesis
    by (intro that[of demand model res s1]) (use d q r(1) res m pl f in auto)
qed


definition reg_image :: ModelRegistry where
  "reg_image = reg_small\<lparr>reg_Models := [(''or/img'', model_or\<lparr>m_APIClass := APIClassImageEdit\<rparr>)]\<rparr>"

definition edit_request :: multipart_request where
  "edit_request =
     \<lparr>mq_Path = ''/v1/images/edits'', mq_Header = [(PrivacyHeader, [''zdr''])], mq_Read = None, mq_Boundary = True,
      mq_Bytes = ''form'', mq_JSON = None, mq_Parts = [Part ''model'' [] ''or/img'' None], mq_Identity = None\<rparr>"


end
