(* ===== verification/Authenticator.thy ===== *)
theory Authenticator
  imports Token_Store
begin

text \<open>
  \<^verbatim>\<open>internal/router/auth.go\<close>, the bearer middleware of the front door, and the identity gate and the
  token routes of \<^verbatim>\<open>internal/router/dashboard_tokens.go\<close>.

  A request is its path and the headers the middleware reads (an absent header is the empty string);
  the outcome is the handler called with an identity on the context, or the answer written instead.
  The middleware knows the token store only through \<open>verify\<close>, so what it guarantees is proved once
  against that interface and then for the store of \<open>Token_Store\<close>.
\<close>

section \<open>The interface to the token store\<close>

locale credential_store =
  fixes verify :: "string \<Rightarrow> 's \<Rightarrow> (auth_error + Identity) \<times> 's"
  assumes verify_parses: "fst (verify wire s) = Inr ident \<Longrightarrow> \<exists>secret. Split wire = Inr (id_TokenID ident, secret)"
    and refusal_keeps_store: "fst (verify wire s) = Inl e \<Longrightarrow> snd (verify wire s) = s"

section \<open>The middleware\<close>

definition bearer_prefix :: string where "bearer_prefix = ''Bearer ''"

lemma bearer_prefix_nonempty: "bearer_prefix \<noteq> []"
  by (simp add: bearer_prefix_def)

lemma has_prefix_ex: "has_prefix s p \<longleftrightarrow> (\<exists>t. s = p @ t)"
  by (auto elim: has_prefixE)

lemma trim_prefix_changes: "p \<noteq> [] \<Longrightarrow> trim_prefix s p \<noteq> s \<longleftrightarrow> has_prefix s p"
  by (cases "has_prefix s p") (auto simp: trim_prefix_id elim!: has_prefixE)

record Authenticator =
  au_store :: bool
  au_keys :: "string list"
  au_exempt :: "string list"
  au_passthrough :: "string list"
  au_keyPrincipals :: "string gomap"

definition NewAuthenticator :: "bool \<Rightarrow> string list \<Rightarrow> string list \<Rightarrow> Authenticator" where
  "NewAuthenticator hasStore keys exempt =
     \<lparr>au_store = hasStore, au_keys = filter (\<lambda>k. k \<noteq> []) (map trim_space keys), au_exempt = exempt,
      au_passthrough = [], au_keyPrincipals = []\<rparr>"

record request =
  rq_path :: string
  rq_authorization :: string
  rq_x_api_key :: string

datatype auth_outcome =
    Served "Identity option" bool
  | Unauthorized string
  | StoreUnavailable503

text \<open>\<open>Served id stripped\<close>: the next handler runs, with an identity on the context or without, and with
  the Authorization header removed or as sent.\<close>

definition Enabled :: "Authenticator \<Rightarrow> bool" where
  "Enabled a \<longleftrightarrow> au_store a \<or> length (au_keys a) > 0"

definition resolve ::
    "(string \<Rightarrow> string) \<Rightarrow> (string \<Rightarrow> 's \<Rightarrow> (auth_error + Identity) \<times> 's) \<Rightarrow> Authenticator \<Rightarrow> string \<Rightarrow> 's
     \<Rightarrow> (auth_error + Identity) \<times> 's" where
  "resolve hash verify a bearer s =
     (if LooksLikePAT bearer then
        (if \<not> au_store a then (Inl ErrNoStore, s) else verify bearer s)
      else if bearer \<in> set (au_keys a) then (Inr (LegacyIdentity hash bearer), s)
      else (Inl ErrUnknown, s))"

definition answer :: "bool \<Rightarrow> auth_error + Identity \<Rightarrow> auth_outcome" where
  "answer strip res =
     (case res of
        Inl (ErrStoreUnavailable i) \<Rightarrow> StoreUnavailable503
      | Inl _ \<Rightarrow> Unauthorized ''invalid api key''
      | Inr ident \<Rightarrow> Served (Some ident) strip)"

definition key_override :: "(string \<Rightarrow> string) \<Rightarrow> Authenticator \<Rightarrow> string \<Rightarrow> string" where
  "key_override hash a cred =
     (case lookup (au_keyPrincipals a) (Fingerprint hash cred) of None \<Rightarrow> [] | Some p \<Rightarrow> p)"

definition attributePassthrough ::
    "(string \<Rightarrow> string) \<Rightarrow> (string \<Rightarrow> 's \<Rightarrow> (auth_error + Identity) \<times> 's) \<Rightarrow> Authenticator \<Rightarrow> request \<Rightarrow> 's
     \<Rightarrow> auth_outcome \<times> 's" where
  "attributePassthrough hash verify a r s =
     (let bearer = trim_prefix (rq_authorization r) bearer_prefix in
      if bearer \<noteq> rq_authorization r \<and> LooksLikePAT bearer then
        (let (res, s') = resolve hash verify a bearer s in (answer True res, s'))
      else if rq_x_api_key r \<noteq> [] then
        (Served (Some (AnthropicKeyIdentity hash (rq_x_api_key r) (key_override hash a (rq_x_api_key r)))) False, s)
      else if bearer \<noteq> [] \<and> bearer \<noteq> rq_authorization r then
        (Served (Some (AnthropicOAuthIdentity hash bearer (key_override hash a bearer))) False, s)
      else (Served None False, s))"

definition Middleware ::
    "(string \<Rightarrow> string) \<Rightarrow> (string \<Rightarrow> 's \<Rightarrow> (auth_error + Identity) \<times> 's) \<Rightarrow> Authenticator \<Rightarrow> request \<Rightarrow> 's
     \<Rightarrow> auth_outcome \<times> 's" where
  "Middleware hash verify a r s =
     (if \<not> Enabled a then (Served None False, s)
      else if rq_path r \<in> set (au_exempt a) then (Served None False, s)
      else if rq_path r \<in> set (au_passthrough a) then attributePassthrough hash verify a r s
      else if \<not> has_prefix (rq_authorization r) bearer_prefix then (Unauthorized ''missing bearer token'', s)
      else (let (res, s') = resolve hash verify a (drop (length bearer_prefix) (rq_authorization r)) s
            in (answer False res, s')))"

definition safeTokenID :: "string \<Rightarrow> string" where
  "safeTokenID bearer =
     (if \<not> LooksLikePAT bearer then []
      else case Split bearer of Inl e \<Rightarrow> [] | Inr (i, secret) \<Rightarrow> i)"

section \<open>What the middleware guarantees of any store\<close>

text \<open>A path of the gated kind.\<close>

definition gated :: "Authenticator \<Rightarrow> request \<Rightarrow> bool" where
  "gated a r \<longleftrightarrow> Enabled a \<and> rq_path r \<notin> set (au_exempt a) \<and> rq_path r \<notin> set (au_passthrough a)"

lemma answer_Served: "answer strip res = Served x b \<longleftrightarrow> (\<exists>ident. res = Inr ident \<and> x = Some ident \<and> b = strip)"
  by (auto simp: answer_def split: sum.splits auth_error.splits)

lemma Split_LooksLikePAT: "Split w = Inr p \<Longrightarrow> LooksLikePAT w"
  by (auto simp: Split_def LooksLikePAT_def split: if_splits)

context credential_store
begin

lemma resolve_accepts:
  "fst (resolve hash verify a bearer s) = Inr ident \<longleftrightarrow>
     (au_store a \<and> fst (verify bearer s) = Inr ident)
     \<or> (\<not> LooksLikePAT bearer \<and> bearer \<in> set (au_keys a) \<and> ident = LegacyIdentity hash bearer)"
  using verify_parses[of bearer s ident] by (auto simp: resolve_def dest: Split_LooksLikePAT)

lemma middleware_serves:
  assumes "gated a r"
  shows "fst (Middleware hash verify a r s) = Served x strip \<longleftrightarrow>
     (\<exists>bearer ident. rq_authorization r = bearer_prefix @ bearer \<and> x = Some ident \<and> \<not> strip
        \<and> ((au_store a \<and> fst (verify bearer s) = Inr ident)
           \<or> (\<not> LooksLikePAT bearer \<and> bearer \<in> set (au_keys a) \<and> ident = LegacyIdentity hash bearer)))"
proof (cases "has_prefix (rq_authorization r) bearer_prefix")
  case False
  then have "\<nexists>bearer. rq_authorization r = bearer_prefix @ bearer" by (simp add: has_prefix_ex)
  with False assms show ?thesis by (simp add: Middleware_def gated_def)
next
  case True
  then obtain b where b: "rq_authorization r = bearer_prefix @ b" by (rule has_prefixE)
  have "fst (Middleware hash verify a r s) = answer False (fst (resolve hash verify a b s))"
    using assms True by (simp add: Middleware_def gated_def b case_prod_beta)
  then show ?thesis by (auto simp: answer_Served resolve_accepts b)
qed

lemma passthrough_strips:
  "fst (attributePassthrough hash verify a r s) = Served x True \<longleftrightarrow>
     (\<exists>bearer ident. rq_authorization r = bearer_prefix @ bearer \<and> LooksLikePAT bearer \<and> x = Some ident
        \<and> au_store a \<and> fst (verify bearer s) = Inr ident)"
  by (auto simp: attributePassthrough_def Let_def case_prod_beta answer_Served resolve_def
      trim_prefix_changes[OF bearer_prefix_nonempty] has_prefix_ex)

end

section \<open>The store of the router\<close>

interpretation pat: credential_store "Verify hash db now" for hash db now
proof
  fix wire s ident assume "fst (Verify hash db now wire s) = Inr ident"
  then show "\<exists>secret. Split wire = Inr (id_TokenID ident, secret)"
    by (auto simp: Verify_def split: sum.splits option.splits if_splits)
next
  fix wire s e assume "fst (Verify hash db now wire s) = Inl e"
  then show "snd (Verify hash db now wire s) = s"
    by (auto simp: Verify_def split: sum.splits option.splits if_splits)
qed

text \<open>C21: The front door fails closed: on a gated path the next handler runs exactly for a bearer that is
  a token the store accepts at that instant, or one of the configured shared keys and not shaped like a
  token, and then with the identity of that credential; nothing else gets through, and a value shaped
  like a token is never tried as a shared key.\<close>

theorem front_door_fails_closed:
  assumes "gated a r"
  shows "fst (Middleware hash (Verify hash db now) a r s) = Served x strip \<longleftrightarrow>
     (\<exists>bearer ident. rq_authorization r = bearer_prefix @ bearer \<and> x = Some ident \<and> \<not> strip
        \<and> ((au_store a \<and> fst (Verify hash db now bearer s) = Inr ident)
           \<or> (\<not> LooksLikePAT bearer \<and> bearer \<in> set (au_keys a) \<and> ident = LegacyIdentity hash bearer)))"
  by (rule pat.middleware_serves[OF assms])

theorem front_door_fails_closed_witness:
  "\<forall>x strip. fst (Middleware (\<lambda>s. s) (Verify (\<lambda>s. s) True 0) (NewAuthenticator True [''sk-1''] [])
      \<lparr>rq_path = ''/v1/models'', rq_authorization = ''Basic sk-1'', rq_x_api_key = []\<rparr>
      \<lparr>so_rows = [], so_lastSeen = []\<rparr>) \<noteq> Served x strip"
proof (intro allI)
  fix x strip
  let ?a = "NewAuthenticator True [''sk-1''] []"
  let ?r = "\<lparr>rq_path = ''/v1/models'', rq_authorization = ''Basic sk-1'', rq_x_api_key = []\<rparr>"
  have "gated ?a ?r" by (simp add: gated_def Enabled_def NewAuthenticator_def)
  from front_door_fails_closed[OF this, of "\<lambda>s. s" True 0 "\<lparr>so_rows = [], so_lastSeen = []\<rparr>" x strip]
  show "fst (Middleware (\<lambda>s. s) (Verify (\<lambda>s. s) True 0) ?a ?r \<lparr>so_rows = [], so_lastSeen = []\<rparr>) \<noteq> Served x strip"
    by (simp add: bearer_prefix_def)
qed

text \<open>On a passthrough path a router token is checked and then removed: the Authorization header is
  stripped exactly when it carried a token the store accepts, so the upstream never sees one, and a
  token that fails the check is answered 401 or, with the store out of reach, 503.\<close>

theorem passthrough_never_leaks_token:
  assumes "rq_authorization r = bearer_prefix @ bearer" and "LooksLikePAT bearer" and "au_store a"
  shows "fst (attributePassthrough hash (Verify hash db now) a r s) =
     (case fst (Verify hash db now bearer s) of
        Inr ident \<Rightarrow> Served (Some ident) True
      | Inl e \<Rightarrow> if (\<exists>i. e = ErrStoreUnavailable i) then StoreUnavailable503 else Unauthorized ''invalid api key'')"
proof -
  have "bearer \<noteq> bearer_prefix @ bearer" by (simp add: bearer_prefix_def)
  with assms show ?thesis
    by (auto simp: attributePassthrough_def Let_def case_prod_beta resolve_def answer_def
        split: sum.split auth_error.split)
qed

theorem passthrough_never_leaks_token_witness:
  "fst (attributePassthrough (\<lambda>s. s) (Verify (\<lambda>s. s) True 5) (NewAuthenticator True [] [])
      \<lparr>rq_path = ''/v1/messages'', rq_authorization = bearer_prefix @ ''pat_616161616161_x'', rq_x_api_key = ''sk-ant''\<rparr> store_one)
     = Served (Some \<lparr>id_Principal = ''steven'', id_TokenID = ''616161616161'', id_Scopes = []\<rparr>) True"
proof -
  have "fst (Verify (\<lambda>s. s) True 5 ''pat_616161616161_x'' store_one)
      = Inr \<lparr>id_Principal = ''steven'', id_TokenID = ''616161616161'', id_Scopes = []\<rparr>"
    by (simp add: Verify_def Split_def Prefix_def has_prefix_def idBytes_def is_hex_def is_digit_def row_of_def
        store_one_def SecretMatches_def Active_def decodeScopes_def)
  moreover have "LooksLikePAT ''pat_616161616161_x''" by (simp add: LooksLikePAT_def Prefix_def has_prefix_def)
  ultimately show ?thesis
    using passthrough_never_leaks_token[of "\<lparr>rq_path = ''/v1/messages'',
        rq_authorization = bearer_prefix @ ''pat_616161616161_x'', rq_x_api_key = ''sk-ant''\<rparr>" "''pat_616161616161_x''"
        "NewAuthenticator True [] []" "\<lambda>s. s" True 5 store_one]
    by (simp add: NewAuthenticator_def)
qed

section \<open>The dashboard's token routes\<close>

definition dashboardTokenID :: string where "dashboardTokenID = ''dashboard''"
definition familyScope :: string where "familyScope = ScopeModelsLocal"

record DashboardConfig =
  dc_AuthSecret :: string
  dc_Owners :: "string list"
  dc_Tokens :: bool

record dash_request =
  dq_path :: string
  dq_auth :: string
  dq_identity :: string

datatype dash_outcome = DashServed "Identity option" | DashError nat

definition normalizePrincipal :: "string \<Rightarrow> string" where
  "normalizePrincipal s = to_lower (trim_space s)"

definition dashIdentityGate :: "DashboardConfig \<Rightarrow> dash_request \<Rightarrow> dash_outcome" where
  "dashIdentityGate cfg r =
     (let owners = filter (\<lambda>p. p \<noteq> []) (map normalizePrincipal (dc_Owners cfg));
          isTokens = has_prefix (dq_path r) ''/api/tokens''
      in if length (dc_AuthSecret cfg) = 0 then (if isTokens then DashError 503 else DashServed None)
         else if dq_auth r \<noteq> dc_AuthSecret cfg then DashError 401
         else let p = normalizePrincipal (dq_identity r) in
              if p = [] then DashError 401
              else if has_prefix p LegacyPrincipalPrefix then DashError 403
              else if isTokens \<and> \<not> dc_Tokens cfg then DashError 503
              else DashServed (Some \<lparr>id_Principal = p, id_TokenID = dashboardTokenID,
                                     id_Scopes = (if p \<in> set owners then [] else [familyScope])\<rparr>))"

definition isOwner :: "Identity \<Rightarrow> bool" where "isOwner i \<longleftrightarrow> length (id_Scopes i) = 0"

definition allowedScopes :: "Identity \<Rightarrow> string list" where
  "allowedScopes i = (if isOwner i then KnownScopes else [familyScope])"

record mint_request =
  mq_label :: string
  mq_scope :: string
  mq_expires_days :: int

definition day :: duration where "day = 24 * 3600 * second"

definition store_error_status :: "auth_error \<Rightarrow> nat" where
  "store_error_status e = (case e of ErrStoreUnavailable i \<Rightarrow> 503 | _ \<Rightarrow> 500)"

definition handleDashTokensMint ::
    "(string \<Rightarrow> string) \<Rightarrow> bool \<Rightarrow> time \<Rightarrow> char list option \<Rightarrow> char list option \<Rightarrow> Identity \<Rightarrow> mint_request option \<Rightarrow> Store
     \<Rightarrow> (nat \<times> (string \<times> Token) option) \<times> Store" where
  "handleDashTokensMint hash db now idRaw secretRaw ident req s =
     (case req of
        None \<Rightarrow> ((400, None), s)
      | Some q \<Rightarrow>
          let label = trim_space (mq_label q);
              scope0 = trim_space (mq_scope q);
              scope = (if scope0 = [] then familyScope else scope0)
          in if label = [] then ((400, None), s)
             else if length label > 80 then ((400, None), s)
             else if ValidateScopes [scope] \<noteq> None then ((400, None), s)
             else if \<not> isOwner ident \<and> \<not> ScopeAtMost scope familyScope then ((403, None), s)
             else if mq_expires_days q < 0 \<or> mq_expires_days q > 3660 then ((400, None), s)
             else
               let expires = (if mq_expires_days q > 0 then Some (now + mq_expires_days q * day) else None)
               in case Mint hash db now idRaw secretRaw (id_Principal ident) label [scope] expires s of
                    (Inl e, s') \<Rightarrow> ((store_error_status e, None), s')
                  | (Inr w, s') \<Rightarrow> ((201, Some w), s'))"

definition handleDashTokensRevoke :: "bool \<Rightarrow> time \<Rightarrow> Identity \<Rightarrow> string \<Rightarrow> Store \<Rightarrow> nat \<times> Store" where
  "handleDashTokensRevoke db now ident tokID s =
     (if tokID = [] then (400, s)
      else case RevokeOwned db now tokID (id_Principal ident) s of
             (Some ErrUnknown, s') \<Rightarrow> (404, s')
           | (Some e, s') \<Rightarrow> (store_error_status e, s')
           | (None, s') \<Rightarrow> (204, s'))"

lemma rank_local: "modelScopeRank scope = Some r \<Longrightarrow> 2 \<le> r \<Longrightarrow> scope = ScopeModelsLocal"
  by (auto simp: modelScopeRank_def split: if_splits)

lemma ScopeAtMost_family: "ScopeAtMost scope familyScope \<longleftrightarrow> scope = familyScope"
proof -
  have "modelScopeRank ScopeModelsLocal = Some 2"
    by (simp add: modelScopeRank_def ScopeModelsLocal_def ScopeModelsAll_def ScopeModelsLocalOrZDR_def)
  then show ?thesis by (auto simp: ScopeAtMost_def familyScope_def dest: rank_local split: option.splits)
qed


definition dash_mint_example :: "(nat \<times> (string \<times> Token) option) \<times> Store" where
  "dash_mint_example =
     handleDashTokensMint (\<lambda>s. s) True 0 (Some (replicate 6 (CHR ''a''))) (Some (replicate 32 (CHR ''b'')))
       \<lparr>id_Principal = ''kid@example.org'', id_TokenID = dashboardTokenID, id_Scopes = [familyScope]\<rparr>
       (Some \<lparr>mq_label = ''laptop'', mq_scope = [], mq_expires_days = 0\<rparr>) \<lparr>so_rows = [], so_lastSeen = []\<rparr>"

lemma dash_mint_example_ok: "map_option (\<lambda>w. ()) (snd (fst dash_mint_example)) = Some ()"
  by code_simp


end
