(* ===== verification/Events.thy ===== *)
theory Events
  imports Resolve Authenticator
begin

text \<open>
  \<^verbatim>\<open>internal/router/events.go\<close>, \<^verbatim>\<open>dashboard_events.go\<close> and \<^verbatim>\<open>peers.go\<close>: the broker of request events, the
  snapshot a page gets, and the mirror of another replica's events.

  The zero \<open>time.Time\<close> is \<^const>\<open>None\<close>. A subscriber's channel is the queue of what was sent and not yet
  received, with its capacity; subscribers are numbered. The ring is a list of fixed length that starts
  out filled with the zero event.
\<close>

section \<open>Events\<close>

datatype EventType = EventStarted | EventFinished | EventOther string

record Event =
  ev_Type :: EventType
  ev_RequestID :: string
  ev_TS :: "time option"
  ev_Replica :: string
  ev_Principal :: string
  ev_Model :: string
  ev_ResolvedVia :: string
  ev_Role :: string
  ev_Chain :: string
  ev_Node :: string
  ev_Provider :: string
  ev_BackendURL :: string
  ev_Stream :: bool
  ev_Discovered :: bool
  ev_Status :: int
  ev_LatencyMS :: int
  ev_PromptTokens :: "int option"
  ev_CompletionTokens :: "int option"
  ev_FailoverFrom :: string
  ev_Overflowed :: bool
  ev_PrivacyTolerance :: string
  ev_ErrorClass :: string
  ev_UpstreamProvider :: string

definition zero_event :: Event where
  "zero_event =
     \<lparr>ev_Type = EventOther [], ev_RequestID = [], ev_TS = None, ev_Replica = [], ev_Principal = [], ev_Model = [],
      ev_ResolvedVia = [], ev_Role = [], ev_Chain = [], ev_Node = [], ev_Provider = [], ev_BackendURL = [],
      ev_Stream = False, ev_Discovered = False, ev_Status = 0, ev_LatencyMS = 0, ev_PromptTokens = None,
      ev_CompletionTokens = None, ev_FailoverFrom = [], ev_Overflowed = False, ev_PrivacyTolerance = [],
      ev_ErrorClass = [], ev_UpstreamProvider = []\<rparr>"

text \<open>\<open>TS.Before\<close>, the zero time before every other.\<close>

definition ts_before :: "Event \<Rightarrow> Event \<Rightarrow> bool" where
  "ts_before a b \<longleftrightarrow>
     (case (ev_TS a, ev_TS b) of (None, Some t) \<Rightarrow> True | (Some s, Some t) \<Rightarrow> s < t | _ \<Rightarrow> False)"

section \<open>The broker\<close>

record subscriber =
  sb_queue :: "Event list"
  sb_cap :: nat
  sb_dropped :: nat

record Broker =
  bk_local :: string
  bk_ring :: "Event list"
  bk_head :: nat
  bk_full :: bool
  bk_inflight :: "Event gomap"
  bk_subs :: "(nat \<times> subscriber) list"

definition DefaultEventRing :: int where "DefaultEventRing = 500"

definition newBroker :: "int \<Rightarrow> Broker" where
  "newBroker ring =
     (let n = nat (if ring \<le> 0 then DefaultEventRing else ring)
      in \<lparr>bk_local = [], bk_ring = replicate n zero_event, bk_head = 0, bk_full = False, bk_inflight = [], bk_subs = []\<rparr>)"

text \<open>Writing one event into the ring.\<close>

definition ring_put :: "Event \<Rightarrow> Broker \<Rightarrow> Broker" where
  "ring_put e b =
     (let head = (bk_head b + 1) mod length (bk_ring b)
      in b\<lparr>bk_ring := (bk_ring b)[bk_head b := e], bk_head := head, bk_full := (bk_full b \<or> head = 0)\<rparr>)"

definition offer :: "Event \<Rightarrow> subscriber \<Rightarrow> subscriber" where
  "offer e s =
     (if length (sb_queue s) < sb_cap s then s\<lparr>sb_queue := sb_queue s @ [e]\<rparr>
      else s\<lparr>sb_dropped := sb_dropped s + 1\<rparr>)"

definition stamp :: "time \<Rightarrow> string \<Rightarrow> Event \<Rightarrow> Event" where
  "stamp now loc e0 =
     (let e = (if ev_TS e0 = None then e0\<lparr>ev_TS := Some now\<rparr> else e0)
      in if ev_Replica e = [] then e\<lparr>ev_Replica := loc\<rparr> else e)"

definition track_inflight :: "Event \<Rightarrow> Event gomap \<Rightarrow> Event gomap" where
  "track_inflight e m =
     (if ev_RequestID e = [] then m
      else case ev_Type e of
             EventStarted \<Rightarrow> store (ev_RequestID e) e m
           | EventFinished \<Rightarrow> AList.delete (ev_RequestID e) m
           | EventOther t \<Rightarrow> m)"

definition Publish :: "time \<Rightarrow> Event \<Rightarrow> Broker \<Rightarrow> Broker" where
  "Publish now e0 b =
     (let e = stamp now (bk_local b) e0; b1 = ring_put e b
      in b1\<lparr>bk_inflight := track_inflight e (bk_inflight b1),
            bk_subs := map (\<lambda>(i, s). (i, offer e s)) (bk_subs b1)\<rparr>)"

definition Subscribe :: "int \<Rightarrow> nat \<Rightarrow> Broker \<Rightarrow> Broker" where
  "Subscribe buf i b =
     b\<lparr>bk_subs := (i, \<lparr>sb_queue = [], sb_cap = nat (if buf \<le> 0 then 64 else buf), sb_dropped = 0\<rparr>) # bk_subs b\<rparr>"

definition cancel_sub :: "nat \<Rightarrow> Broker \<Rightarrow> Broker" where
  "cancel_sub i b = b\<lparr>bk_subs := AList.delete i (bk_subs b)\<rparr>"

text \<open>A receive from a subscriber's channel.\<close>

definition receive :: "nat \<Rightarrow> Broker \<Rightarrow> Event option \<times> Broker" where
  "receive i b =
     (case map_of (bk_subs b) i of
        Some s \<Rightarrow>
          (case sb_queue s of
             [] \<Rightarrow> (None, b)
           | e # q \<Rightarrow> (Some e, b\<lparr>bk_subs := AList.update i (s\<lparr>sb_queue := q\<rparr>) (bk_subs b)\<rparr>))
      | None \<Rightarrow> (None, b))"

definition Reset :: "Event list \<Rightarrow> Event list \<Rightarrow> Broker \<Rightarrow> Broker" where
  "Reset recent inflight b =
     (let n = length (bk_ring b);
          b1 = b\<lparr>bk_ring := replicate n zero_event, bk_head := 0, bk_full := False\<rparr>;
          keep = (if length recent > n then drop (length recent - n) recent else recent)
      in (fold ring_put keep b1)
           \<lparr>bk_inflight := fold (\<lambda>e m. if ev_RequestID e \<noteq> [] then store (ev_RequestID e) e m else m) inflight []\<rparr>)"

definition ClearInFlight :: "Broker \<Rightarrow> Broker" where
  "ClearInFlight b = b\<lparr>bk_inflight := []\<rparr>"

definition Dropped :: "Broker \<Rightarrow> nat" where
  "Dropped b = sum_list (map (\<lambda>(i, s). sb_dropped s) (bk_subs b))"

definition Replay :: "Broker \<Rightarrow> Event list" where
  "Replay b =
     (if \<not> bk_full b then take (bk_head b) (bk_ring b)
      else drop (bk_head b) (bk_ring b) @ take (bk_head b) (bk_ring b))"

text \<open>The insertion sort of \<open>InFlight\<close>: an event moves left past those it is before.\<close>

fun insert_ts :: "Event \<Rightarrow> Event list \<Rightarrow> Event list" where
  "insert_ts e [] = [e]"
| "insert_ts e (x # xs) = (if ts_before e x then e # x # xs else x # insert_ts e xs)"

definition sort_ts :: "Event list \<Rightarrow> Event list" where
  "sort_ts es = fold insert_ts es []"

definition InFlight :: "Broker \<Rightarrow> Event list" where
  "InFlight b = sort_ts (map snd (bk_inflight b))"

section \<open>Placement of an event\<close>

definition placementNode :: "ModelDefinition \<Rightarrow> string" where
  "placementNode m =
     (case m_MultiNode m of
        Some mn \<Rightarrow>
          if mn_HeadNode mn \<noteq> [] then mn_HeadNode mn
          else (case mn_Nodes mn of n # ns \<Rightarrow> n | [] \<Rightarrow> m_Node m)
      | None \<Rightarrow> m_Node m)"

definition eventPlacement :: "Router \<Rightarrow> ModelDefinition gomap \<Rightarrow> resolveResult \<Rightarrow> Event \<Rightarrow> Event" where
  "eventPlacement rt disc res e =
     (let e1 = e\<lparr>ev_ResolvedVia := rr_ModelID res, ev_Role := rr_Role res, ev_Chain := rr_Chain res,
                 ev_BackendURL := rr_BackendURL res, ev_Discovered := rr_Discovered res\<rparr>
      in case lookupModel rt disc (rr_ModelID res) of
           None \<Rightarrow> e1
         | Some m \<Rightarrow>
             let e2 = e1\<lparr>ev_Node := placementNode m\<rparr>
             in if ev_Node e2 = [] \<and> m_APIBase m \<noteq> [] then
                  (case url_parse (m_APIBase m) of Some (scheme, host) \<Rightarrow> e2\<lparr>ev_Provider := host\<rparr> | None \<Rightarrow> e2)
                else e2)"

section \<open>The snapshot of a page (dashboard_events.go)\<close>

definition event_visible :: "Identity option \<Rightarrow> Event \<Rightarrow> bool" where
  "event_visible who e =
     (case who of
        Some i \<Rightarrow> if isOwner i then True else ev_Principal e = id_Principal i
      | None \<Rightarrow> True)"

definition snapshot_brokers :: "bool \<Rightarrow> Broker \<Rightarrow> Broker list \<Rightarrow> Broker list" where
  "snapshot_brokers scope_local b peers = (if scope_local then [b] else b # peers)"

definition events_snapshot :: "Identity option \<Rightarrow> Broker list \<Rightarrow> Event list \<times> Event list" where
  "events_snapshot who brokers =
     (let inflight = sort_ts (concat (map InFlight brokers));
          recent0 = sort_ts (concat (map Replay brokers));
          n = nat DefaultEventRing;
          recent = (if length recent0 > n then drop (length recent0 - n) recent0 else recent0)
      in (filter (event_visible who) inflight, filter (event_visible who) recent))"

section \<open>Peer feeds (peers.go)\<close>

record PeerState =
  ps_Replica :: string
  ps_Connected :: bool
  ps_Self :: bool
  ps_Reconnects :: int
  ps_LastEvent :: "time option"
  ps_LastError :: string

record peerFeed =
  fd_broker :: Broker
  fd_state :: PeerState

definition own :: "string \<Rightarrow> Event list \<Rightarrow> Event list" where
  "own name evs =
     List.map_filter (\<lambda>e. if ev_Replica e = [] then Some (e\<lparr>ev_Replica := name\<rparr>)
                          else if ev_Replica e = name then Some e else None) evs"

text \<open>A frame, once decoded: the snapshot, one event, data that does not decode, or an unknown kind.\<close>

datatype frame = FrameSnapshot "Event list" "Event list" | FrameRequest Event | FrameBad string | FrameUnknown

definition apply_frame :: "time \<Rightarrow> frame \<Rightarrow> peerFeed \<Rightarrow> string option \<times> peerFeed" where
  "apply_frame now fr f =
     (let name = ps_Replica (fd_state f) in
      case fr of
        FrameSnapshot inflight recent \<Rightarrow>
          (None, f\<lparr>fd_broker := Reset (own name recent) (own name inflight) (fd_broker f),
                   fd_state := (fd_state f)\<lparr>ps_LastEvent := Some now\<rparr>\<rparr>)
      | FrameRequest e \<Rightarrow>
          (case own name [e] of
             [] \<Rightarrow> (None, f)
           | e' # es \<Rightarrow> (None, f\<lparr>fd_broker := Publish now e' (fd_broker f),
                                 fd_state := (fd_state f)\<lparr>ps_LastEvent := ev_TS e'\<rparr>\<rparr>))
      | FrameBad err \<Rightarrow> (Some err, f)
      | FrameUnknown \<Rightarrow> (None, f))"

text \<open>The frames of one connection; the first that applies marks the feed connected.\<close>

fun stream_frames :: "bool \<Rightarrow> (time \<times> frame) list \<Rightarrow> peerFeed \<Rightarrow> bool \<times> peerFeed" where
  "stream_frames up [] f = (up, f)"
| "stream_frames up ((now, fr) # frs) f =
     (case apply_frame now fr f of
        (Some err, f1) \<Rightarrow> stream_frames up frs f1
      | (None, f1) \<Rightarrow>
          stream_frames True frs
            (if \<not> up
             then f1\<lparr>fd_state := (fd_state f1)\<lparr>ps_Connected := True, ps_LastError := []\<rparr>\<rparr> else f1))"

text \<open>One connection: what the peer said its name is, or why it could not be asked; then its frames and why
  the stream ended.\<close>

definition stream_once ::
    "string \<Rightarrow> string + string \<Rightarrow> (time \<times> frame) list \<Rightarrow> string \<Rightarrow> peerFeed \<Rightarrow> (bool \<times> string) \<times> peerFeed" where
  "stream_once self identified frames ended f =
     (case identified of
        Inl err \<Rightarrow> ((False, err), f)
      | Inr name \<Rightarrow>
          if name \<noteq> [] \<and> name = self
          then ((False, []), f\<lparr>fd_state := (fd_state f)\<lparr>ps_Replica := name, ps_Self := True\<rparr>\<rparr>)
          else
            (case stream_frames False frames (f\<lparr>fd_state := (fd_state f)\<lparr>ps_Replica := name\<rparr>\<rparr>) of
               (up, f1) \<Rightarrow> ((up, ended), f1)))"

definition peerBackoffMin :: duration where "peerBackoffMin = second"
definition peerBackoffMax :: duration where "peerBackoffMax = 30 * second"

text \<open>One turn of \<open>run\<close>: the feed and the wait before the next, or \<open>None\<close> when it is parked.\<close>

definition run_turn ::
    "string \<Rightarrow> string + string \<Rightarrow> (time \<times> frame) list \<Rightarrow> string \<Rightarrow> duration \<Rightarrow> peerFeed
     \<Rightarrow> peerFeed \<times> (duration \<times> duration) option" where
  "run_turn self identified frames ended delay f =
     (let ((up, err), f1) = stream_once self identified frames ended f in
      if ps_Self (fd_state f1) then (f1, None)
      else
        let st = fd_state f1;
            st1 = st\<lparr>ps_Connected := False, ps_Reconnects := ps_Reconnects st + 1,
                     ps_LastError := (if err \<noteq> [] then err else ps_LastError st)\<rparr>;
            wait = (if up then peerBackoffMin else delay)
        in (f1\<lparr>fd_broker := ClearInFlight (fd_broker f1), fd_state := st1\<rparr>,
            Some (wait, min (wait * 2) peerBackoffMax)))"

definition peerBrokers :: "peerFeed list \<Rightarrow> Broker list" where
  "peerBrokers feeds = map fd_broker (filter (\<lambda>f. \<not> ps_Self (fd_state f)) feeds)"

section \<open>The ring\<close>

text \<open>What a ring that has been given a history holds.\<close>

definition ring_holds :: "nat \<Rightarrow> Event list \<Rightarrow> Broker \<Rightarrow> bool" where
  "ring_holds n hist b \<longleftrightarrow>
     length (bk_ring b) = n \<and> 0 < n \<and> bk_head b = length hist mod n
     \<and> (bk_full b \<longleftrightarrow> n \<le> length hist) \<and> Replay b = last_n n hist"

lemma ring_holds_empty: "0 < n \<Longrightarrow> length (bk_ring b) = n \<Longrightarrow> bk_head b = 0 \<Longrightarrow> \<not> bk_full b \<Longrightarrow> ring_holds n [] b"
  by (simp add: ring_holds_def Replay_def last_n_def)

lemma last_n_snoc_full: "n \<le> length hist \<Longrightarrow> 0 < n \<Longrightarrow> last_n n (hist @ [e]) = tl (last_n n hist) @ [e]"
  by (simp add: last_n_def Suc_diff_le tl_drop drop_Suc)

lemma ring_put_holds:
  assumes "ring_holds n hist b"
  shows "ring_holds n (hist @ [e]) (ring_put e b)"
proof -
  let ?r = "bk_ring b" and ?h = "bk_head b"
  have n: "length ?r = n" "0 < n" "?h = length hist mod n" "bk_full b \<longleftrightarrow> n \<le> length hist" "Replay b = last_n n hist"
    using assms by (auto simp: ring_holds_def)
  have h: "?h < n" using n by simp
  have head: "(?h + 1) mod n = length (hist @ [e]) mod n" using n(3) by (simp add: mod_Suc_eq)
  show ?thesis
  proof (cases "n \<le> length hist")
    case True
    have r: "last_n n hist = drop ?h ?r @ take ?h ?r" using n True by (simp add: Replay_def)
    have "drop ?h ?r = ?r ! ?h # drop (Suc ?h) ?r" using h n(1) by (simp add: Cons_nth_drop_Suc)
    then have tl: "tl (last_n n hist) = drop (Suc ?h) ?r @ take ?h ?r" using r by simp
    have "Replay (ring_put e b) = drop (Suc ?h) ?r @ take ?h ?r @ [e]"
    proof (cases "Suc ?h = n")
      case True
      then show ?thesis using n \<open>n \<le> length hist\<close>
        by (simp add: Replay_def ring_put_def Let_def) (simp add: list_eq_iff_nth_eq nth_append nth_list_update)
    next
      case False
      with h have "Suc ?h < n" by simp
      then show ?thesis using n \<open>n \<le> length hist\<close>
        by (simp add: Replay_def ring_put_def Let_def take_Suc_conv_app_nth)
    qed
    then show ?thesis
      using n head True tl by (simp add: ring_holds_def ring_put_def Let_def last_n_snoc_full)
  next
    case False
    then have hl: "?h = length hist" using n by simp
    have r: "take ?h ?r = hist" using n False by (simp add: Replay_def last_n_def)
    have put: "take (Suc ?h) (?r[?h := e]) = hist @ [e]"
      using h n(1) r by (simp add: take_Suc_conv_app_nth)
    show ?thesis
    proof (cases "Suc ?h = n")
      case True
      with put n hl False show ?thesis
        by (simp add: ring_holds_def ring_put_def Let_def Replay_def last_n_def)
    next
      case neq: False
      with h have "Suc ?h < n" by simp
      with put n hl False neq show ?thesis
        by (simp add: ring_holds_def ring_put_def Let_def Replay_def last_n_def)
    qed
  qed
qed

lemma ring_puts_hold: "ring_holds n hist b \<Longrightarrow> ring_holds n (hist @ es) (fold ring_put es b)"
proof (induction es arbitrary: hist b)
  case (Cons e es)
  from Cons.IH[OF ring_put_holds[OF Cons.prems, of e]] show ?case by simp
qed simp

lemma ring_holds_fields:
  "bk_ring b' = bk_ring b \<Longrightarrow> bk_head b' = bk_head b \<Longrightarrow> bk_full b' = bk_full b \<Longrightarrow> ring_holds n hist b' = ring_holds n hist b"
  by (simp add: ring_holds_def Replay_def)

lemma Publish_holds: "ring_holds n hist b \<Longrightarrow> ring_holds n (hist @ [stamp now (bk_local b) e]) (Publish now e b)"
  using ring_put_holds[of n hist b "stamp now (bk_local b) e"]
  by (subst ring_holds_fields[of _ "ring_put (stamp now (bk_local b) e) b"]) (simp_all add: Publish_def Let_def)

lemma Publish_local [simp]: "bk_local (Publish now e b) = bk_local b"
  by (simp add: Publish_def Let_def ring_put_def)

lemma Publish_run_local: "bk_local (fold (\<lambda>(now, e). Publish now e) es b) = bk_local b"
  by (induction es arbitrary: b) auto

lemma publishes_hold:
  "ring_holds n [] b \<Longrightarrow>
     ring_holds n (map (\<lambda>(now, e). stamp now (bk_local b) e) es) (fold (\<lambda>(now, e). Publish now e) es b)"
proof (induction es rule: rev_induct)
  case (snoc p es)
  obtain now e where p: "p = (now, e)" by (rule prod.exhaust)
  from Publish_holds[OF snoc.IH[OF snoc.prems], of now e] show ?case by (simp add: p Publish_run_local)
qed simp


section \<open>What is in flight\<close>

definition closes_or_opens :: "string \<Rightarrow> Event \<Rightarrow> bool" where
  "closes_or_opens rid e \<longleftrightarrow> ev_RequestID e = rid \<and> (ev_Type e = EventStarted \<or> ev_Type e = EventFinished)"

lemma lookup_track:
  "rid \<noteq> [] \<Longrightarrow> lookup (track_inflight e m) rid =
     (if closes_or_opens rid e then (if ev_Type e = EventStarted then Some e else None) else lookup m rid)"
  by (auto simp: track_inflight_def closes_or_opens_def delete_conv split: EventType.split)

lemma stamp_keeps [simp]:
  "ev_RequestID (stamp now loc e) = ev_RequestID e" "ev_Type (stamp now loc e) = ev_Type e"
  by (simp_all add: stamp_def Let_def)

lemma Publish_inflight: "bk_inflight (Publish now e b) = track_inflight (stamp now (bk_local b) e) (bk_inflight b)"
  by (simp add: Publish_def Let_def ring_put_def)

text \<open>The set of requests in flight is read off the history: a request id is in it exactly when the last
  of its started or finished events is a started one, and it carries that event, so a failover shows the
  new target and a finished request is gone.\<close>

theorem inflight_is_last_word:
  assumes "rid \<noteq> []"
  shows "lookup (bk_inflight (fold (\<lambda>(now, e). Publish now e) es (newBroker ring))) rid =
     (case find (closes_or_opens rid) (rev (map (\<lambda>(now, e). stamp now [] e) es)) of
        Some e \<Rightarrow> if ev_Type e = EventStarted then Some e else None
      | None \<Rightarrow> None)"
proof (induction es rule: rev_induct)
  case (snoc p es)
  obtain now e where p: "p = (now, e)" by (rule prod.exhaust)
  have "bk_local (fold (\<lambda>(now, e). Publish now e) es (newBroker ring)) = []"
    by (simp add: Publish_run_local newBroker_def Let_def)
  with snoc show ?case by (simp add: p Publish_inflight lookup_track[OF assms])
qed (simp add: newBroker_def Let_def)

theorem inflight_is_last_word_witness:
  "lookup (bk_inflight (fold (\<lambda>(now, e). Publish now e)
       [(1, zero_event\<lparr>ev_Type := EventStarted, ev_RequestID := ''r''\<rparr>),
        (2, zero_event\<lparr>ev_Type := EventFinished, ev_RequestID := ''r''\<rparr>)] (newBroker 4))) ''r'' = None"
  using inflight_is_last_word[of "''r''" "[(1, zero_event\<lparr>ev_Type := EventStarted, ev_RequestID := ''r''\<rparr>),
        (2, zero_event\<lparr>ev_Type := EventFinished, ev_RequestID := ''r''\<rparr>)]" 4]
  by (simp add: closes_or_opens_def stamp_def zero_event_def Let_def)

section \<open>Subscribers\<close>

text \<open>What can happen to one subscription: an event is published, or the subscriber receives one.\<close>

datatype sub_op = Pub time Event | Recv

fun run_ops :: "nat \<Rightarrow> sub_op list \<Rightarrow> Broker \<Rightarrow> Event list \<times> Broker" where
  "run_ops i [] b = ([], b)"
| "run_ops i (Pub now e # ops) b = run_ops i ops (Publish now e b)"
| "run_ops i (Recv # ops) b =
     (case receive i b of
        (Some e, b1) \<Rightarrow> (case run_ops i ops b1 of (es, b2) \<Rightarrow> (e # es, b2))
      | (None, b1) \<Rightarrow> run_ops i ops b1)"

fun published :: "string \<Rightarrow> sub_op list \<Rightarrow> Event list" where
  "published loc [] = []"
| "published loc (Pub now e # ops) = stamp now loc e # published loc ops"
| "published loc (Recv # ops) = published loc ops"

lemma map_of_offer: "map_of (map (\<lambda>(i, s). (i, offer e s)) subs) i = map_option (offer e) (map_of subs i)"
  by (induction subs) auto

lemma run_ops_conserve:
  "map_of (bk_subs b) i = Some s \<Longrightarrow> length (sb_queue s) \<le> sb_cap s \<Longrightarrow> run_ops i ops b = (got, b') \<Longrightarrow>
     \<exists>s'. map_of (bk_subs b') i = Some s' \<and> sb_cap s' = sb_cap s \<and> length (sb_queue s') \<le> sb_cap s
       \<and> subseq (got @ sb_queue s') (sb_queue s @ published (bk_local b) ops)
       \<and> length (sb_queue s @ published (bk_local b) ops) + sb_dropped s = length (got @ sb_queue s') + sb_dropped s'"
proof (induction i ops b arbitrary: s got rule: run_ops.induct)
  case (1 i b)
  then show ?case by auto
next
  case (2 i now e ops b)
  let ?e = "stamp now (bk_local b) e"
  have m: "map_of (bk_subs (Publish now e b)) i = Some (offer ?e s)"
    using 2(2) by (simp add: Publish_def Let_def ring_put_def map_of_offer)
  have c: "length (sb_queue (offer ?e s)) \<le> sb_cap (offer ?e s)" "sb_cap (offer ?e s) = sb_cap s"
    using 2(3) by (auto simp: offer_def)
  from 2(4) have "run_ops i ops (Publish now e b) = (got, b')" by simp
  from 2(1)[OF m c(1) this] obtain s' where s': "map_of (bk_subs b') i = Some s'" "sb_cap s' = sb_cap s"
    "length (sb_queue s') \<le> sb_cap s"
    "subseq (got @ sb_queue s') (sb_queue (offer ?e s) @ published (bk_local b) ops)"
    "length (sb_queue (offer ?e s) @ published (bk_local b) ops) + sb_dropped (offer ?e s) = length (got @ sb_queue s') + sb_dropped s'"
    by (auto simp: c)
  have "subseq (sb_queue (offer ?e s) @ published (bk_local b) ops) (sb_queue s @ ?e # published (bk_local b) ops)"
    by (auto simp: offer_def intro!: list_emb_append_mono subseq_order.order_refl)
  from subseq_order.trans[OF s'(4) this] s' show ?case by (auto simp: offer_def split: if_splits)
next
  case (3 i ops b)
  show ?case
  proof (cases "sb_queue s")
    case Nil
    then have "receive i b = (None, b)" using 3(3) by (simp add: receive_def)
    with 3(1)[OF this[symmetric] refl 3(3,4)] 3(5) show ?thesis by simp
  next
    case (Cons e q)
    let ?b = "b\<lparr>bk_subs := AList.update i (s\<lparr>sb_queue := q\<rparr>) (bk_subs b)\<rparr>"
    have r: "receive i b = (Some e, ?b)" using 3(3) Cons by (simp add: receive_def)
    from 3(5) r obtain es where es: "run_ops i ops ?b = (es, b')" and got: "got = e # es"
      by (auto split: prod.splits)
    have "map_of (bk_subs ?b) i = Some (s\<lparr>sb_queue := q\<rparr>)" by (simp add: update_conv')
    from 3(2)[OF r[symmetric] refl this _ es] 3(4) Cons got show ?thesis by auto
  qed
qed

text \<open>Publishing never waits for a page, and a page that does not keep up loses events, never their order:
  for any interleaving of publications and receives, what a subscriber has received and what still waits
  in its channel are, in order, among the events published since it subscribed, and every event published
  is received, waiting, or counted as dropped.\<close>

theorem subscriber_conserves_events:
  "let (got, b') = run_ops i ops (Subscribe buf i b); pub = published (bk_local b) ops in
   \<exists>s. map_of (bk_subs b') i = Some s \<and> subseq (got @ sb_queue s) pub
      \<and> length pub = length got + length (sb_queue s) + sb_dropped s
      \<and> length (sb_queue s) \<le> nat (if buf \<le> 0 then 64 else buf)"
proof -
  obtain got b' where r: "run_ops i ops (Subscribe buf i b) = (got, b')" by (rule prod.exhaust)
  have "map_of (bk_subs (Subscribe buf i b)) i =
      Some \<lparr>sb_queue = [], sb_cap = nat (if buf \<le> 0 then 64 else buf), sb_dropped = 0\<rparr>"
    by (simp add: Subscribe_def)
  from run_ops_conserve[OF this _ r] r show ?thesis by (auto simp: Subscribe_def Let_def)
qed

section \<open>Peer feeds\<close>

text \<open>The life of a feed over a sequence of connections, with the waits between them.\<close>

type_synonym connection = "(string + string) \<times> (time \<times> frame) list \<times> string"

fun feed_run :: "string \<Rightarrow> connection list \<Rightarrow> duration \<Rightarrow> peerFeed \<Rightarrow> peerFeed \<times> duration list" where
  "feed_run self [] delay f = (f, [])"
| "feed_run self ((identified, frames, ended) # cs) delay f =
     (case run_turn self identified frames ended delay f of
        (f1, None) \<Rightarrow> (f1, [])
      | (f1, Some (wait, next)) \<Rightarrow> (case feed_run self cs next f1 of (f2, waits) \<Rightarrow> (f2, wait # waits)))"

definition new_feed :: peerFeed where
  "new_feed =
     \<lparr>fd_broker = newBroker DefaultEventRing,
      fd_state = \<lparr>ps_Replica = [], ps_Connected = False, ps_Self = False, ps_Reconnects = 0, ps_LastEvent = None,
                  ps_LastError = []\<rparr>\<rparr>"

definition held :: "Broker \<Rightarrow> Event set" where
  "held b = set (bk_ring b) \<union> snd ` set (bk_inflight b)"

definition foreign :: "string \<Rightarrow> Broker \<Rightarrow> bool" where
  "foreign self b \<longleftrightarrow> bk_local b = [] \<and> (\<forall>e \<in> held b. ev_Replica e \<noteq> self)"

lemma held_ring_put: "held (ring_put e b) \<subseteq> insert e (held b)"
  by (auto simp: held_def ring_put_def Let_def dest: set_update_subset_insert[THEN subsetD])

lemma ring_put_local [simp]: "bk_local (ring_put e b) = bk_local b" "bk_inflight (ring_put e b) = bk_inflight b"
  by (simp_all add: ring_put_def Let_def)

lemma snd_update: "snd ` set (AList.update k v m) \<subseteq> insert v (snd ` set m)"
  by (induction m) auto

lemma snd_track: "snd ` set (track_inflight e m) \<subseteq> insert e (snd ` set m)"
  using snd_update[of "ev_RequestID e" e m]
  by (auto simp: track_inflight_def AList.delete_eq split: EventType.split)

lemma foreign_ring_put: "foreign self b \<Longrightarrow> ev_Replica e \<noteq> self \<Longrightarrow> foreign self (ring_put e b)"
  using held_ring_put[of e b] by (auto simp: foreign_def)

lemma foreign_ring_puts: "foreign self b \<Longrightarrow> \<forall>e \<in> set es. ev_Replica e \<noteq> self \<Longrightarrow> foreign self (fold ring_put es b)"
  by (induction es arbitrary: b) (simp_all add: foreign_ring_put)

lemma foreign_inflight:
  "foreign self b \<Longrightarrow> \<forall>e \<in> snd ` set m. ev_Replica e \<noteq> self \<Longrightarrow> foreign self (b\<lparr>bk_inflight := m\<rparr>)"
  by (auto simp: foreign_def held_def)

lemma foreign_Publish:
  assumes "foreign self b" "ev_Replica e \<noteq> self" "self \<noteq> []"
  shows "foreign self (Publish now e b)"
proof -
  let ?e = "stamp now (bk_local b) e"
  have e: "ev_Replica ?e \<noteq> self" using assms by (auto simp: stamp_def Let_def foreign_def)
  have b1: "foreign self (ring_put ?e b)" by (rule foreign_ring_put[OF assms(1) e])
  have old: "\<forall>x \<in> snd ` set (bk_inflight b). ev_Replica x \<noteq> self"
    using assms(1) by (simp add: foreign_def held_def)
  have "\<forall>x \<in> snd ` set (track_inflight ?e (bk_inflight b)). ev_Replica x \<noteq> self"
  proof
    fix x
    assume "x \<in> snd ` set (track_inflight ?e (bk_inflight b))"
    then have "x = ?e \<or> x \<in> snd ` set (bk_inflight b)" using snd_track by blast
    then show "ev_Replica x \<noteq> self" using e old by metis
  qed
  from foreign_inflight[OF b1 this] show ?thesis by (simp add: Publish_def Let_def foreign_def held_def)
qed

lemma foreign_Reset:
  assumes "foreign self b" "\<forall>e \<in> set recent \<union> set inflight. ev_Replica e \<noteq> self" "self \<noteq> []"
  shows "foreign self (Reset recent inflight b)"
proof -
  let ?n = "length (bk_ring b)"
  let ?b1 = "b\<lparr>bk_ring := replicate ?n zero_event, bk_head := 0, bk_full := False\<rparr>"
  let ?keep = "if length recent > ?n then drop (length recent - ?n) recent else recent"
  have "foreign self ?b1" using assms by (auto simp: foreign_def held_def zero_event_def)
  moreover have "\<forall>e \<in> set ?keep. ev_Replica e \<noteq> self" using assms(2) by (auto dest: in_set_dropD)
  ultimately have k: "foreign self (fold ring_put ?keep ?b1)" by (rule foreign_ring_puts)
  have "snd ` set (fold (\<lambda>e m. if ev_RequestID e \<noteq> [] then store (ev_RequestID e) e m else m) es m)
      \<subseteq> set es \<union> snd ` set m" for es m
  proof (induction es arbitrary: m)
    case (Cons e es)
    let ?m = "if ev_RequestID e \<noteq> [] then store (ev_RequestID e) e m else m"
    have "snd ` set ?m \<subseteq> insert e (snd ` set m)" using snd_update[of "ev_RequestID e" e m] by (simp split: if_split) blast
    moreover note Cons.IH[of ?m]
    ultimately show ?case unfolding fold_simps comp_def list.set by blast
  qed simp
  from this[of inflight "[]"] have
    "\<forall>x \<in> snd ` set (fold (\<lambda>e m. if ev_RequestID e \<noteq> [] then store (ev_RequestID e) e m else m) inflight []). ev_Replica x \<noteq> self"
    using assms(2) by auto
  from foreign_inflight[OF k this] show ?thesis by (simp add: Reset_def Let_def)
qed

lemma own_replica: "e \<in> set (own name evs) \<Longrightarrow> ev_Replica e = name"
  by (auto simp: own_def map_filter_def split: if_splits)

lemma foreign_apply:
  assumes "foreign self (fd_broker f)" "ps_Replica (fd_state f) \<noteq> self" "self \<noteq> []" "apply_frame now fr f = (err, f')"
  shows "foreign self (fd_broker f') \<and> ps_Replica (fd_state f') \<noteq> self"
proof (cases fr)
  case (FrameSnapshot inflight recent)
  have "\<forall>e \<in> set (own (ps_Replica (fd_state f)) recent) \<union> set (own (ps_Replica (fd_state f)) inflight). ev_Replica e \<noteq> self"
    using assms(2) by (auto dest: own_replica)
  from foreign_Reset[OF assms(1) this assms(3)] assms(2,4) FrameSnapshot show ?thesis
    by (auto simp: apply_frame_def Let_def)
next
  case (FrameRequest e)
  show ?thesis
  proof (cases "own (ps_Replica (fd_state f)) [e]")
    case Nil
    with assms FrameRequest show ?thesis by (auto simp: apply_frame_def Let_def)
  next
    case (Cons e' es)
    then have "ev_Replica e' \<noteq> self" using assms(2) own_replica[of e' "ps_Replica (fd_state f)" "[e]"] by simp
    from foreign_Publish[OF assms(1) this assms(3)] assms(2,4) FrameRequest Cons show ?thesis
      by (auto simp: apply_frame_def Let_def)
  qed
qed (use assms in \<open>auto simp: apply_frame_def Let_def\<close>)

lemma foreign_frames:
  "foreign self (fd_broker f) \<Longrightarrow> ps_Replica (fd_state f) \<noteq> self \<Longrightarrow> self \<noteq> [] \<Longrightarrow>
     foreign self (fd_broker (snd (stream_frames up frs f)))"
proof (induction up frs f rule: stream_frames.induct)
  case (2 up now fr frs f)
  obtain err f1 where a: "apply_frame now fr f = (err, f1)" by (rule prod.exhaust)
  note k = foreign_apply[OF 2(3,4,5) a]
  show ?case
  proof (cases err)
    case None
    with 2(1)[OF a[symmetric] None] k 2(5) a show ?thesis by simp
  next
    case (Some x)
    with 2(2)[OF a[symmetric] Some] k 2(5) a show ?thesis by simp
  qed
qed simp

lemma foreign_turn:
  assumes "foreign self (fd_broker f)" "self \<noteq> []" "run_turn self identified frames ended delay f = (f', again)"
  shows "foreign self (fd_broker f')"
proof -
  obtain r f1 where s: "stream_once self identified frames ended f = (r, f1)" by (rule prod.exhaust)
  have "foreign self (fd_broker f1)"
  proof (cases identified)
    case (Inl err)
    with s assms(1) show ?thesis by (auto simp: stream_once_def)
  next
    case (Inr name)
    show ?thesis
    proof (cases "name \<noteq> [] \<and> name = self")
      case True
      with s Inr assms(1) show ?thesis by (auto simp: stream_once_def)
    next
      case False
      let ?f = "f\<lparr>fd_state := (fd_state f)\<lparr>ps_Replica := name\<rparr>\<rparr>"
      have "foreign self (fd_broker (snd (stream_frames False frames ?f)))"
        using False assms(1,2) by (intro foreign_frames) auto
      moreover have "f1 = snd (stream_frames False frames ?f)"
        using s Inr False by (auto simp: stream_once_def split: prod.splits)
      ultimately show ?thesis by simp
    qed
  qed
  with assms(3) s show ?thesis
    by (auto simp: run_turn_def Let_def foreign_def held_def ClearInFlight_def split: prod.splits if_splits)
qed

text \<open>Two replicas that mirror each other never echo: whatever its peer sends and however often the
  connection is lost, nothing a feed replays or shows in flight is an event of this replica.\<close>

theorem mirror_never_echoes:
  assumes "self \<noteq> []"
  shows "\<forall>e \<in> held (fd_broker (fst (feed_run self cs delay new_feed))). ev_Replica e \<noteq> self"
proof -
  have "foreign self (fd_broker (fst (feed_run self cs delay f)))" if "foreign self (fd_broker f)" for f
    using that
  proof (induction cs arbitrary: delay f)
    case (Cons c cs)
    obtain identified frames ended where c: "c = (identified, frames, ended)" by (rule prod_cases3)
    obtain f1 again where t: "run_turn self identified frames ended delay f = (f1, again)" by (rule prod.exhaust)
    from foreign_turn[OF Cons.prems assms t] Cons.IH[of f1] show ?case
      by (auto simp: c t split: option.split prod.split) (metis fst_conv)
  qed simp
  moreover have "foreign self (fd_broker new_feed)"
    using assms by (auto simp: foreign_def held_def new_feed_def newBroker_def zero_event_def Let_def)
  ultimately show ?thesis by (simp add: foreign_def)
qed

theorem mirror_never_echoes_witness:
  "''euclid'' \<notin> ev_Replica ` held (fd_broker (fst (feed_run ''euclid''
       [(Inr ''gauss'', [(0, FrameRequest (zero_event\<lparr>ev_Replica := ''euclid''\<rparr>)), (0, FrameRequest zero_event)], ''eof'')]
       peerBackoffMin new_feed)))"
  using mirror_never_echoes[where self = "''euclid''" and delay = peerBackoffMin
      and cs = "[(Inr ''gauss'', [(0, FrameRequest (zero_event\<lparr>ev_Replica := ''euclid''\<rparr>)), (0, FrameRequest zero_event)], ''eof'')]"]
  by auto

lemma min_scale: "0 < m \<Longrightarrow> 1 \<le> p \<Longrightarrow> 0 < a \<Longrightarrow> min (p * min a m) m = min (p * a) m" for m p a :: int
proof (cases "a \<le> m")
  case False
  assume "0 < m" "1 \<le> p" "0 < a"
  then have "m \<le> p * m" "a \<le> p * a" by (simp_all add: mult_le_cancel_right1)
  with False show ?thesis by (simp add: min_def)
qed (simp add: min_absorb1)

text \<open>A peer that stays down is retried after one second, then two, four, and so on up to every thirty
  seconds, however long it is down.\<close>

theorem peer_backoff_exact:
  assumes "\<forall>c \<in> set cs. \<exists>why. fst c = Inl why" and "\<not> ps_Self (fd_state f)" and "k < length cs"
  shows "snd (feed_run self cs peerBackoffMin f) ! k = min (2 ^ k * second) (30 * second)"
proof -
  have gen: "snd (feed_run self cs delay f) ! k = (if k = 0 then delay else min (2 ^ k * delay) (30 * second))"
    if "\<forall>c \<in> set cs. \<exists>why. fst c = Inl why" "\<not> ps_Self (fd_state f)" "k < length cs" "0 < delay" for cs delay f k
    using that
  proof (induction cs arbitrary: delay f k)
    case (Cons c cs)
    obtain why frames ended where c: "c = (Inl why, frames, ended)" using Cons.prems(1) by (cases c) auto
    obtain f1 where t: "run_turn self (Inl why) frames ended delay f = (f1, Some (delay, min (delay * 2) peerBackoffMax))"
      and f1: "\<not> ps_Self (fd_state f1)"
      using Cons.prems(2) by (auto simp: run_turn_def stream_once_def Let_def)
    show ?case
    proof (cases k)
      case 0
      then show ?thesis by (simp add: c t split: prod.split)
    next
      case (Suc j)
      have d: "0 < min (delay * 2) peerBackoffMax" using Cons.prems(4) by (simp add: peerBackoffMax_def)
      have "snd (feed_run self cs (min (delay * 2) peerBackoffMax) f1) ! j =
          (if j = 0 then min (delay * 2) peerBackoffMax else min (2 ^ j * min (delay * 2) peerBackoffMax) (30 * second))"
        using Cons.prems Suc f1 d by (intro Cons.IH) auto
      also have "\<dots> = min (2 ^ j * (delay * 2)) (30 * second)"
        using min_scale[of "30 * second" "2 ^ j" "delay * 2"] Cons.prems(4) by (simp add: peerBackoffMax_def)
      finally show ?thesis
        using Suc by (auto simp: c t ac_simps split: prod.split)
    qed
  qed simp
  from gen[OF assms(1,2,3), of peerBackoffMin] show ?thesis by (simp add: peerBackoffMin_def)
qed

theorem peer_backoff_exact_witness:
  "snd (feed_run ''euclid'' (replicate 7 (Inl ''refused'', [], ''eof'')) peerBackoffMin new_feed) ! 6 = 30 * second"
  using peer_backoff_exact[of "replicate 7 (Inl ''refused'', [], ''eof'')" new_feed 6 "''euclid''"]
  by (simp add: new_feed_def)

end
