(* ===== verification/Upstream_Window.thy ===== *)
theory Upstream_Window
  imports Upstream_Errors "HOL-Library.Word" "HOL-Library.List_Lexorder" "HOL-Library.Product_Lexorder" "HOL-Library.Char_ord"
begin

text \<open>
  The sliding window of \<^verbatim>\<open>internal/router/upstreamstats.go\<close> (failures per model and endpoint over a day)
  and the throughput readings of \<^verbatim>\<open>tokstats.go\<close>.

  A series is a ring of one bucket per minute of the day, with counters of 32 bits. A clock before 1970 is outside the model. A rate is the rational number the
  source computes in \<open>float64\<close>.
\<close>

section \<open>Recording\<close>

definition upstreamWindowMinutes :: nat where "upstreamWindowMinutes = 24 * 60"

record upstreamBucket =
  ub_minute :: int
  ub_total :: "32 word"
  ub_failed :: "32 word"

record upstreamSeries =
  us_buckets :: "upstreamBucket list"
  us_failingSince :: "time option"
  us_lastFailureAt :: "time option"
  us_lastErrorClass :: error_class

type_synonym upstreamTracker = "((string \<times> string) \<times> upstreamSeries) list"

definition empty_bucket :: upstreamBucket where
  "empty_bucket = \<lparr>ub_minute = 0, ub_total = 0, ub_failed = 0\<rparr>"

definition empty_series :: upstreamSeries where
  "empty_series =
     \<lparr>us_buckets = replicate upstreamWindowMinutes empty_bucket, us_failingSince = None, us_lastFailureAt = None,
      us_lastErrorClass = ClassNone\<rparr>"

definition minute_of :: "time \<Rightarrow> int" where "minute_of now = now div second div 60"

definition slot_of :: "int \<Rightarrow> nat" where "slot_of minute = nat (minute mod int upstreamWindowMinutes)"

text \<open>The current bucket, emptied when it still holds another minute, with one more attempt.\<close>

definition bump :: "int \<Rightarrow> bool \<Rightarrow> upstreamBucket \<Rightarrow> upstreamBucket" where
  "bump minute failed b0 =
     (let b = (if ub_minute b0 \<noteq> minute then \<lparr>ub_minute = minute, ub_total = 0, ub_failed = 0\<rparr> else b0)
      in b\<lparr>ub_total := ub_total b + 1, ub_failed := ub_failed b + (if failed then 1 else 0)\<rparr>)"

definition record_series :: "error_class \<Rightarrow> time \<Rightarrow> upstreamSeries \<Rightarrow> upstreamSeries" where
  "record_series class now s =
     (let minute = minute_of now; i = slot_of minute; failure = isUpstreamFailure class;
          s1 = s\<lparr>us_buckets := (us_buckets s)[i := bump minute failure (us_buckets s ! i)]\<rparr>
      in if failure then
           s1\<lparr>us_lastFailureAt := Some now, us_lastErrorClass := class,
              us_failingSince := (case us_failingSince s of None \<Rightarrow> Some now | Some t \<Rightarrow> Some t)\<rparr>
         else if class = ClassNone then s1\<lparr>us_failingSince := None\<rparr>
         else s1)"

definition upstream_record ::
    "string \<Rightarrow> string \<Rightarrow> error_class \<Rightarrow> time \<Rightarrow> upstreamTracker \<Rightarrow> upstreamTracker" where
  "upstream_record model apiBase class now t =
     (if model = [] then t
      else
        let key = (model, apiBase);
            s = (case map_of t key of Some s \<Rightarrow> s | None \<Rightarrow> empty_series)
        in AList.update key (record_series class now s) t)"

section \<open>The rows of the dashboard\<close>

record upstreamRow =
  ur_Model :: string
  ur_APIBase :: string
  ur_Total1h :: int
  ur_Failed1h :: int
  ur_Total24h :: int
  ur_Failed24h :: int
  ur_LastErrorClass :: error_class
  ur_FailingSince :: "time option"
  ur_LastFailureAt :: "time option"

definition bucket_sum :: "(upstreamBucket \<Rightarrow> 32 word) \<Rightarrow> int \<Rightarrow> int \<Rightarrow> upstreamSeries \<Rightarrow> int" where
  "bucket_sum f minute ages s =
     sum_list (map (\<lambda>b. let age = minute - ub_minute b in
                        if age < 0 \<or> age \<ge> int upstreamWindowMinutes \<or> ub_total b = 0 then 0
                        else if age < ages then sint (f b) else 0) (us_buckets s))"

definition series_row :: "time \<Rightarrow> (string \<times> string) \<times> upstreamSeries \<Rightarrow> upstreamRow option" where
  "series_row now ks =
     (let ((model, apiBase), s) = ks; minute = minute_of now; day = int upstreamWindowMinutes;
          recent = (case us_lastFailureAt s of Some t \<Rightarrow> now - t < day * 60 * second | None \<Rightarrow> False)
      in if bucket_sum ub_total minute day s = 0 then None
         else Some \<lparr>ur_Model = model, ur_APIBase = apiBase,
                    ur_Total1h = bucket_sum ub_total minute 60 s, ur_Failed1h = bucket_sum ub_failed minute 60 s,
                    ur_Total24h = bucket_sum ub_total minute day s, ur_Failed24h = bucket_sum ub_failed minute day s,
                    ur_LastErrorClass = (if recent then us_lastErrorClass s else ClassNone),
                    ur_FailingSince = us_failingSince s,
                    ur_LastFailureAt = (if recent then us_lastFailureAt s else None)\<rparr>)"

definition upstream_stats :: "time \<Rightarrow> upstreamTracker \<Rightarrow> upstreamRow list" where
  "upstream_stats now t =
     sort_key (\<lambda>r. (\<not> ur_Failed24h r > 0, - ur_Total24h r, ur_Model r, ur_APIBase r))
       (List.map_filter (series_row now) t)"

section \<open>Throughput (tokstats.go)\<close>

definition tokStatTTL :: duration where "tokStatTTL = 30 * second"

record tokSample =
  ts_tokPerSec :: rat
  ts_at :: time

definition tok_rate :: "rat option \<Rightarrow> int option \<Rightarrow> int \<Rightarrow> rat option" where
  "tok_rate engineTPS completionTokens latencyMS =
     (if (case engineTPS of Some x \<Rightarrow> x > 0 | None \<Rightarrow> False) then engineTPS
      else if (case completionTokens of Some n \<Rightarrow> n > 0 | None \<Rightarrow> False) \<and> latencyMS > 0
      then map_option (\<lambda>n. of_int n / (of_int latencyMS / 1000)) completionTokens
      else None)"

definition tok_record ::
    "string \<Rightarrow> rat option \<Rightarrow> int option \<Rightarrow> int \<Rightarrow> time \<Rightarrow> tokSample gomap \<Rightarrow> tokSample gomap" where
  "tok_record modelID engineTPS completionTokens latencyMS now t =
     (if modelID = [] then t
      else case tok_rate engineTPS completionTokens latencyMS of
             None \<Rightarrow> t
           | Some tps \<Rightarrow> store modelID \<lparr>ts_tokPerSec = tps, ts_at = now\<rparr> t)"

definition roundTokPerSec :: "rat \<Rightarrow> rat" where
  "roundTokPerSec v = (if v \<le> 0 then 0 else of_int \<lfloor>v * 10 + 1 / 2\<rfloor> / 10)"

definition tok_get :: "string \<Rightarrow> time \<Rightarrow> tokSample gomap \<Rightarrow> rat option" where
  "tok_get modelID now t =
     (case lookup t modelID of
        None \<Rightarrow> None
      | Some s \<Rightarrow> if now - ts_at s > tokStatTTL then None else Some (roundTokPerSec (ts_tokPerSec s)))"

section \<open>The window is exact\<close>

text \<open>What a series has recorded, and the state that goes with it.\<close>

definition series_run :: "(time \<times> error_class) list \<Rightarrow> upstreamSeries" where
  "series_run hist = fold (\<lambda>(t, c). record_series c t) hist empty_series"

definition in_slot :: "nat \<Rightarrow> (time \<times> error_class) list \<Rightarrow> (time \<times> error_class) list" where
  "in_slot i hist = filter (\<lambda>(t, c). slot_of (minute_of t) = i) hist"

definition bucket_of :: "(time \<times> error_class) list \<Rightarrow> nat \<Rightarrow> upstreamBucket" where
  "bucket_of hist i =
     (case rev (in_slot i hist) of
        [] \<Rightarrow> empty_bucket
      | (t, c) # _ \<Rightarrow>
          \<lparr>ub_minute = minute_of t,
           ub_total = of_nat (length (filter (\<lambda>(u, d). minute_of u = minute_of t) hist)),
           ub_failed = of_nat (length (filter (\<lambda>(u, d). minute_of u = minute_of t \<and> isUpstreamFailure d) hist))\<rparr>)"

lemma slot_less: "slot_of m < upstreamWindowMinutes"
  by (simp add: slot_of_def upstreamWindowMinutes_def nat_less_iff)

lemma series_run_snoc: "series_run (hist @ [(t, c)]) = record_series c t (series_run hist)"
  by (simp add: series_run_def)

lemma us_buckets_record [simp]:
  "us_buckets (record_series c t s) =
     (us_buckets s)[slot_of (minute_of t) := bump (minute_of t) (isUpstreamFailure c) (us_buckets s ! slot_of (minute_of t))]"
  by (simp add: record_series_def Let_def)

lemma in_slot_snoc:
  "in_slot i (hist @ [(t, c)]) = in_slot i hist @ (if i = slot_of (minute_of t) then [(t, c)] else [])"
  by (auto simp: in_slot_def)

text \<open>Minutes that share a slot and lie within one day are the same minute.\<close>

lemma slot_inj:
  assumes "slot_of a = slot_of b" "\<bar>a - b\<bar> < int upstreamWindowMinutes"
  shows "a = b"
proof -
  have "a mod 1440 = b mod 1440"
    using assms(1) by (simp add: slot_of_def upstreamWindowMinutes_def eq_nat_nat_iff)
  then obtain k where k: "a - b = 1440 * k"
    by (auto simp: mod_eq_dvd_iff dvd_def)
  then have "\<bar>k\<bar> < 1"
    using assms(2) by (simp add: upstreamWindowMinutes_def abs_mult)
  then show ?thesis
    using k by simp
qed

lemma minute_mono: "t \<le> u \<Longrightarrow> minute_of t \<le> minute_of u"
  by (simp add: minute_of_def zdiv_mono1)

lemma in_slot_set: "(u, d) \<in> set (in_slot i hist) \<longleftrightarrow> (u, d) \<in> set hist \<and> slot_of (minute_of u) = i"
  by (auto simp: in_slot_def)

text \<open>The last attempt of a slot has the latest minute of the slot.\<close>

lemma in_slot_last:
  assumes "sorted (map fst hist)" "rev (in_slot i hist) = (u, d) # rest" "(v, e) \<in> set (in_slot i hist)"
  shows "minute_of v \<le> minute_of u"
proof -
  have "sorted (map fst (in_slot i hist))"
    using assms(1) by (simp add: in_slot_def sorted_filter)
  moreover have "in_slot i hist = rev rest @ [(u, d)]"
    using assms(2) by (metis rev.simps(2) rev_rev_ident)
  ultimately have "v \<le> u"
    using assms(3) by (auto simp: sorted_append)
  then show ?thesis by (rule minute_mono)
qed

lemma no_minute: "in_slot i hist = [] \<Longrightarrow> slot_of m = i \<Longrightarrow> (u, d) \<in> set hist \<Longrightarrow> minute_of u \<noteq> m"
  by (auto simp: in_slot_def filter_empty_conv)

lemma in_slot_head:
  assumes "rev (in_slot i hist) = (u, d) # rest"
  shows "(u, d) \<in> set hist \<and> slot_of (minute_of u) = i"
proof -
  have "(u, d) \<in> set (rev (in_slot i hist))" using assms by simp
  then show ?thesis by (simp add: in_slot_set)
qed

lemma bucket_of_snoc:
  assumes s: "sorted (map fst (hist @ [(t, c)]))"
  shows "bucket_of (hist @ [(t, c)]) i =
     (if i = slot_of (minute_of t) then bump (minute_of t) (isUpstreamFailure c) (bucket_of hist i) else bucket_of hist i)"
proof (cases "rev (in_slot i hist)")
  case Nil
  then have e: "in_slot i hist = []" by simp
  have b: "bucket_of hist i = empty_bucket" by (simp add: bucket_of_def e)
  show ?thesis
  proof (cases "i = slot_of (minute_of t)")
    case False
    then show ?thesis using b by (simp add: bucket_of_def in_slot_snoc e)
  next
    case True
    have "filter (\<lambda>(u, d). minute_of u = minute_of t) hist = []"
       "filter (\<lambda>(u, d). minute_of u = minute_of t \<and> isUpstreamFailure d) hist = []"
      using no_minute[OF e] True by (auto simp: filter_empty_conv)
    then have "bucket_of (hist @ [(t, c)]) i = bump (minute_of t) (isUpstreamFailure c) empty_bucket"
      using True by (simp add: bucket_of_def in_slot_snoc e[unfolded True] bump_def empty_bucket_def Let_def)
    then show ?thesis using b True by simp
  qed
next
  case (Cons ud rest)
  obtain u d where ud: "ud = (u, d)" by fastforce
  note r = Cons[unfolded ud]
  show ?thesis
  proof (cases "i = slot_of (minute_of t)")
    case False
    then have "minute_of u \<noteq> minute_of t" using in_slot_head[OF r] by auto
    then show ?thesis using False by (simp add: bucket_of_def in_slot_snoc r)
  next
    case True
    have n: "minute_of v \<noteq> minute_of t" if "minute_of u \<noteq> minute_of t" "(v, e) \<in> set hist" for v e
    proof
      assume v: "minute_of v = minute_of t"
      then have "minute_of t \<le> minute_of u"
        using in_slot_last[OF _ r, of v e] s that(2) True by (simp add: in_slot_set sorted_append)
      moreover have "minute_of u \<le> minute_of t"
        using s in_slot_head[OF r] by (intro minute_mono) (force simp: sorted_append)
      ultimately show False using that(1) by simp
    qed
    have z: "filter (\<lambda>(u, d). minute_of u = minute_of t) hist = []"
       "filter (\<lambda>(u, d). minute_of u = minute_of t \<and> isUpstreamFailure d) hist = []" if "minute_of u \<noteq> minute_of t"
      using n[OF that] by (auto simp: filter_empty_conv)
    show ?thesis
      by (auto simp: bucket_of_def in_slot_snoc r True[symmetric] bump_def Let_def z)
  qed
qed

lemma buckets_exact:
  "sorted (map fst hist) \<Longrightarrow> us_buckets (series_run hist) = map (bucket_of hist) [0..<upstreamWindowMinutes]"
proof (induction hist rule: rev_induct)
  case Nil
  then show ?case
    by (simp add: series_run_def empty_series_def bucket_of_def in_slot_def map_replicate_const)
next
  case (snoc tc hist)
  obtain t c where tc: "tc = (t, c)" by fastforce
  have IH: "us_buckets (series_run hist) = map (bucket_of hist) [0..<upstreamWindowMinutes]"
    using snoc by (simp add: sorted_append)
  show ?case
    by (rule nth_equalityI)
       (auto simp: tc series_run_snoc IH nth_list_update slot_less bucket_of_snoc[OF snoc.prems[unfolded tc]])
qed

text \<open>One slot contributes its attempts that are young enough, and every attempt lies in one slot.\<close>

definition young :: "int \<Rightarrow> int \<Rightarrow> (error_class \<Rightarrow> bool) \<Rightarrow> (time \<times> error_class) list \<Rightarrow> int" where
  "young minute ages P hist = int (length (filter (\<lambda>(u, d). minute - minute_of u < ages \<and> P d) hist))"

definition contribution :: "(upstreamBucket \<Rightarrow> 32 word) \<Rightarrow> int \<Rightarrow> int \<Rightarrow> upstreamBucket \<Rightarrow> int" where
  "contribution f minute ages b =
     (let age = minute - ub_minute b in
      if age < 0 \<or> age \<ge> int upstreamWindowMinutes \<or> ub_total b = 0 then 0
      else if age < ages then sint (f b) else 0)"

lemma sint_count: "n < 2 ^ 31 \<Longrightarrow> sint (word_of_nat n :: 32 word) = int n"
  by (simp add: sint_word_ariths signed_take_bit_int_eq_self signed_of_nat)

lemma contribution_bucket:
  assumes s: "sorted (map fst hist)" and now: "\<forall>(u, d) \<in> set hist. u \<le> now" and len: "length hist < 2 ^ 31"
    and ages: "ages \<le> int upstreamWindowMinutes"
    and f: "\<And>u d rest. rev (in_slot i hist) = (u, d) # rest \<Longrightarrow>
       f (bucket_of hist i) = of_nat (length (filter (\<lambda>(v, e). minute_of v = minute_of u \<and> P e) hist))"
  shows "contribution f (minute_of now) ages (bucket_of hist i) =
     young (minute_of now) ages P (in_slot i hist)"
proof (cases "rev (in_slot i hist)")
  case Nil
  then show ?thesis
    by (simp add: bucket_of_def contribution_def empty_bucket_def young_def)
next
  case (Cons ud rest)
  obtain u d where ud: "ud = (u, d)" by fastforce
  note r = Cons[unfolded ud]
  have u: "(u, d) \<in> set hist" "slot_of (minute_of u) = i" using in_slot_head[OF r] by auto
  have le: "minute_of u \<le> minute_of now" using now u by (auto intro!: minute_mono)
  have older: "minute_of v \<le> minute_of u" if "(v, e) \<in> set hist" "slot_of (minute_of v) = i" for v e
    using in_slot_last[OF s r, of v e] that by (simp add: in_slot_set)
  show ?thesis
  proof (cases "minute_of now - minute_of u < ages")
    case False
    then have "filter (\<lambda>(v, e). minute_of now - minute_of v < ages \<and> P e) (in_slot i hist) = []"
      using older by (fastforce simp: filter_empty_conv in_slot_def)
    then show ?thesis using False by (simp add: contribution_def bucket_of_def r Let_def young_def)
  next
    case True
    have same: "filter (\<lambda>(v, e). minute_of now - minute_of v < ages \<and> P e) (in_slot i hist) =
        filter (\<lambda>(v, e). minute_of v = minute_of u \<and> P e) hist"
    proof -
      have "slot_of (minute_of v) = i \<and> minute_of now - minute_of v < ages \<longleftrightarrow> minute_of v = minute_of u"
        if v: "(v, e) \<in> set hist" for v e
      proof
        assume a: "slot_of (minute_of v) = i \<and> minute_of now - minute_of v < ages"
        have "minute_of v \<le> minute_of u" using older[OF v] a by blast
        then have "\<bar>minute_of v - minute_of u\<bar> < int upstreamWindowMinutes"
          using a le ages by linarith
        then show "minute_of v = minute_of u"
          using slot_inj[of "minute_of v" "minute_of u"] a u(2) by simp
      next
        assume "minute_of v = minute_of u"
        then show "slot_of (minute_of v) = i \<and> minute_of now - minute_of v < ages" using u(2) True by simp
      qed
      then show ?thesis
        unfolding in_slot_def filter_filter by (intro filter_cong) auto
    qed
    have "0 < length (filter (\<lambda>(v, e). minute_of v = minute_of u) hist)"
      using u by (auto simp: filter_empty_conv)
    moreover have "length (filter (\<lambda>(v, e). minute_of v = minute_of u) hist) < 2 ^ 31"
      by (rule le_less_trans[OF length_filter_le len])
    ultimately have "ub_total (bucket_of hist i) \<noteq> 0"
      using sint_count[of "length (filter (\<lambda>(v, e). minute_of v = minute_of u) hist)"]
      by (auto simp: bucket_of_def r)
    moreover have "sint (f (bucket_of hist i)) = int (length (filter (\<lambda>(v, e). minute_of v = minute_of u \<and> P e) hist))"
      unfolding f[OF r] by (rule sint_count, rule le_less_trans[OF length_filter_le len])
    ultimately show ?thesis
      using True le ages by (simp add: contribution_def Let_def young_def same) (simp add: bucket_of_def r)
  qed
qed

lemma young_partition:
  "(\<Sum>i < upstreamWindowMinutes. young m ages P (in_slot i hist)) = young m ages P hist"
proof (induction hist)
  case Nil
  then show ?case by (simp add: young_def in_slot_def)
next
  case (Cons tc hist)
  obtain t c where tc: "tc = (t, c)" by fastforce
  have "young m ages P (in_slot i (tc # hist)) =
      (if i = slot_of (minute_of t) then young m ages P [tc] else 0) + young m ages P (in_slot i hist)" for i
    by (auto simp: young_def in_slot_def tc)
  then show ?case
    by (simp add: sum.distrib Cons.IH slot_less) (simp add: young_def)
qed

lemma bucket_sum_young:
  assumes "sorted (map fst hist)" and "\<forall>(u, d) \<in> set hist. u \<le> now" and "length hist < 2 ^ 31"
    and "ages \<le> int upstreamWindowMinutes"
    and "\<And>i u d rest. rev (in_slot i hist) = (u, d) # rest \<Longrightarrow>
       f (bucket_of hist i) = of_nat (length (filter (\<lambda>(v, e). minute_of v = minute_of u \<and> P e) hist))"
  shows "bucket_sum f (minute_of now) ages (series_run hist) = young (minute_of now) ages P hist"
proof -
  have "bucket_sum f (minute_of now) ages (series_run hist) =
      sum_list (map (\<lambda>i. contribution f (minute_of now) ages (bucket_of hist i)) [0..<upstreamWindowMinutes])"
    by (simp add: bucket_sum_def buckets_exact[OF assms(1)] contribution_def comp_def)
  also have "\<dots> = sum_list (map (\<lambda>i. young (minute_of now) ages P (in_slot i hist)) [0..<upstreamWindowMinutes])"
    by (rule arg_cong[where f = sum_list], rule map_cong[OF refl], rule contribution_bucket[OF assms(1-4)]) (rule assms(5))
  also have "\<dots> = (\<Sum>i < upstreamWindowMinutes. young (minute_of now) ages P (in_slot i hist))"
    by (simp add: interv_sum_list_conv_sum_set_nat lessThan_atLeast0)
  finally show ?thesis by (simp add: young_partition)
qed

lemma total_young:
  assumes "sorted (map fst hist)" "\<forall>(u, d) \<in> set hist. u \<le> now" "length hist < 2 ^ 31" "ages \<le> int upstreamWindowMinutes"
  shows "bucket_sum ub_total (minute_of now) ages (series_run hist) = young (minute_of now) ages (\<lambda>_. True) hist"
  by (rule bucket_sum_young[OF assms]) (simp add: bucket_of_def)

lemma failed_young:
  assumes "sorted (map fst hist)" "\<forall>(u, d) \<in> set hist. u \<le> now" "length hist < 2 ^ 31" "ages \<le> int upstreamWindowMinutes"
  shows "bucket_sum ub_failed (minute_of now) ages (series_run hist) = young (minute_of now) ages isUpstreamFailure hist"
  by (rule bucket_sum_young[OF assms]) (simp add: bucket_of_def)

section \<open>The rows against the log of attempts\<close>

text \<open>What a row should say, read off the attempts themselves: counts by age in minutes, the latest
failure, and the first failure since the latest success.\<close>

definition last_failure :: "(time \<times> error_class) list \<Rightarrow> (time \<times> error_class) option" where
  "last_failure hist = find (\<lambda>(t, c). isUpstreamFailure c) (rev hist)"

definition since_success :: "(time \<times> error_class) list \<Rightarrow> (time \<times> error_class) list" where
  "since_success hist = rev (takeWhile (\<lambda>(t, c). c \<noteq> ClassNone) (rev hist))"

definition first_failure :: "(time \<times> error_class) list \<Rightarrow> time option" where
  "first_failure hist = map_option fst (find (\<lambda>(t, c). isUpstreamFailure c) (since_success hist))"

definition window_row :: "time \<Rightarrow> string \<times> string \<Rightarrow> (time \<times> error_class) list \<Rightarrow> upstreamRow" where
  "window_row now key hist =
     (let m = minute_of now; day = 24 * 60;
          recent = (case last_failure hist of None \<Rightarrow> None
                    | Some (t, c) \<Rightarrow> if now - t < day * 60 * second then Some (t, c) else None)
      in \<lparr>ur_Model = fst key, ur_APIBase = snd key,
          ur_Total1h = young m 60 (\<lambda>_. True) hist, ur_Failed1h = young m 60 isUpstreamFailure hist,
          ur_Total24h = young m day (\<lambda>_. True) hist, ur_Failed24h = young m day isUpstreamFailure hist,
          ur_LastErrorClass = (case recent of None \<Rightarrow> ClassNone | Some (t, c) \<Rightarrow> c),
          ur_FailingSince = first_failure hist,
          ur_LastFailureAt = map_option fst recent\<rparr>)"

lemma since_success_snoc:
  "since_success (hist @ [(t, c)]) = (if c = ClassNone then [] else since_success hist @ [(t, c)])"
  by (simp add: since_success_def)

lemma find_snoc: "find P (xs @ [x]) = (case find P xs of Some y \<Rightarrow> Some y | None \<Rightarrow> if P x then Some x else None)"
  by (induction xs) auto

lemma none_no_failure [simp]: "\<not> isUpstreamFailure ClassNone"
  by (simp add: isUpstreamFailure_def)

lemma first_failure_snoc:
  "first_failure (hist @ [(t, c)]) =
     (if c = ClassNone then None
      else case first_failure hist of Some u \<Rightarrow> Some u | None \<Rightarrow> if isUpstreamFailure c then Some t else None)"
  by (auto simp: first_failure_def since_success_snoc find_snoc split: option.splits)

lemma streak_exact: "us_failingSince (series_run hist) = first_failure hist"
proof (induction hist rule: rev_induct)
  case Nil
  then show ?case by (simp add: series_run_def empty_series_def first_failure_def since_success_def)
next
  case (snoc tc hist)
  obtain t c where tc: "tc = (t, c)" by fastforce
  show ?case
    by (auto simp: tc series_run_snoc first_failure_snoc record_series_def Let_def snoc split: option.splits)
qed

lemma last_failure_exact:
  "us_lastFailureAt (series_run hist) = map_option fst (last_failure hist)
   \<and> us_lastErrorClass (series_run hist) = (case last_failure hist of None \<Rightarrow> ClassNone | Some (t, c) \<Rightarrow> c)"
proof (induction hist rule: rev_induct)
  case Nil
  then show ?case by (simp add: series_run_def empty_series_def last_failure_def)
next
  case (snoc tc hist)
  obtain t c where tc: "tc = (t, c)" by fastforce
  have "last_failure (hist @ [(t, c)]) = (if isUpstreamFailure c then Some (t, c) else last_failure hist)"
    by (simp add: last_failure_def)
  then show ?case
    using snoc by (simp add: tc series_run_snoc record_series_def Let_def)
qed

lemma series_row_exact:
  assumes "sorted (map fst hist)" "\<forall>(u, d) \<in> set hist. u \<le> now" "length hist < 2 ^ 31"
  shows "series_row now (key, series_run hist) =
     (if young (minute_of now) (24 * 60) (\<lambda>_. True) hist = 0 then None else Some (window_row now key hist))"
  using total_young[OF assms, of 60] total_young[OF assms, of "24 * 60"]
    failed_young[OF assms, of 60] failed_young[OF assms, of "24 * 60"]
  by (cases key; cases "last_failure hist")
     (simp_all add: series_row_def window_row_def Let_def streak_exact last_failure_exact upstreamWindowMinutes_def
        split: prod.splits)

text \<open>The tracker over a log of attempts, each with its model, endpoint, class and time.\<close>

type_synonym upstream_log = "(string \<times> string \<times> error_class \<times> time) list"

definition recorded :: "upstream_log \<Rightarrow> upstreamTracker" where
  "recorded atts = fold (\<lambda>(m, b, c, t). upstream_record m b c t) atts []"

definition history :: "string \<times> string \<Rightarrow> upstream_log \<Rightarrow> (time \<times> error_class) list" where
  "history key atts = map (\<lambda>(m, b, c, t). (t, c)) (filter (\<lambda>(m, b, c, t). (m, b) = key) atts)"

definition log_time :: "string \<times> string \<times> error_class \<times> time \<Rightarrow> time" where
  "log_time a = snd (snd (snd a))"

lemma recorded_snoc: "recorded (atts @ [(m, b, c, t)]) = upstream_record m b c t (recorded atts)"
  by (simp add: recorded_def)

lemma recorded_distinct: "distinct (map fst (recorded atts))"
  by (induction atts rule: rev_induct)
     (auto simp: recorded_def upstream_record_def Let_def distinct_update split: prod.splits)

lemma history_snoc:
  "history key (atts @ [(m, b, c, t)]) = history key atts @ (if (m, b) = key then [(t, c)] else [])"
  by (auto simp: history_def)

lemma series_run_Nil: "series_run [] = empty_series" by (simp add: series_run_def)

lemma recorded_lookup:
  "map_of (recorded atts) key =
     (if fst key = [] \<or> history key atts = [] then None else Some (series_run (history key atts)))"
proof (induction atts arbitrary: key rule: rev_induct)
  case Nil
  then show ?case by (simp add: recorded_def history_def)
next
  case (snoc a atts)
  obtain m b c t where a: "a = (m, b, c, t)" using prod_cases4 by blast
  have old: "(case map_of (recorded atts) (m, b) of Some s \<Rightarrow> s | None \<Rightarrow> empty_series) = series_run (history (m, b) atts)"
    if "m \<noteq> []"
    using that by (auto simp: snoc series_run_Nil)
  show ?case
  proof (cases "m = []")
    case True
    then show ?thesis
      by (auto simp: a recorded_snoc history_snoc upstream_record_def snoc)
  next
    case False
    then show ?thesis
      by (simp add: a recorded_snoc history_snoc upstream_record_def Let_def old update_conv' series_run_snoc)
         (auto simp: snoc)
  qed
qed

lemma history_mem: "(t, c) \<in> set (history key atts) \<longleftrightarrow> (fst key, snd key, c, t) \<in> set atts"
  by (force simp: history_def)

lemma history_sorted: "sorted (map log_time atts) \<Longrightarrow> sorted (map fst (history key atts))"
proof -
  assume "sorted (map log_time atts)"
  then have "sorted (map log_time (filter (\<lambda>(m, b, c, t). (m, b) = key) atts))"
    by (rule sorted_filter)
  moreover have "map fst (history key atts) = map log_time (filter (\<lambda>(m, b, c, t). (m, b) = key) atts)"
    by (auto simp: history_def log_time_def comp_def split_def)
  ultimately show ?thesis by simp
qed

lemma history_length: "length (history key atts) \<le> length atts"
  by (simp add: history_def)

lemma stats_rows:
  "set (upstream_stats now t) = {r. \<exists>k s. (k, s) \<in> set t \<and> series_row now (k, s) = Some r}"
  by (force simp: upstream_stats_def List.map_filter_def)

text \<open>C26: The failure table of the dashboard is exact: for a log of attempts recorded in order of
time (fewer than \<open>2 ^ 31\<close> of them, so that no 32-bit counter wraps), its rows are those the log itself
gives, one per model and endpoint with an attempt in the last 24 hours, each with the number of attempts
and of failures in the last hour and the last day, the latest failure, and the start of the current
streak of failures. The ring of minute buckets neither loses an attempt in the window nor lets one from
an earlier day in.\<close>

theorem failure_window_is_exact:
  assumes "sorted (map log_time atts)" and "\<forall>a \<in> set atts. log_time a \<le> now" and "length atts < 2 ^ 31"
  shows "set (upstream_stats now (recorded atts)) =
     {window_row now key (history key atts) | key.
        fst key \<noteq> [] \<and> (\<exists>a \<in> set (history key atts). minute_of now - minute_of (fst a) < 24 * 60)}"
proof -
  have row: "series_row now (key, series_run (history key atts)) =
      (if young (minute_of now) (24 * 60) (\<lambda>_. True) (history key atts) = 0 then None
       else Some (window_row now key (history key atts)))" for key
  proof (rule series_row_exact)
    show "sorted (map fst (history key atts))" using assms(1) by (rule history_sorted)
    show "\<forall>(u, d) \<in> set (history key atts). u \<le> now"
      using assms(2) by (force simp: history_mem log_time_def)
    show "length (history key atts) < 2 ^ 31"
      using history_length[of key atts] assms(3) by simp
  qed
  have mem: "(key, s) \<in> set (recorded atts) \<longleftrightarrow>
      fst key \<noteq> [] \<and> history key atts \<noteq> [] \<and> s = series_run (history key atts)" for key s
    using map_of_eq_Some_iff[OF recorded_distinct[of atts], of key s] by (auto simp: recorded_lookup split: if_splits)
  have none: "young (minute_of now) (24 * 60) (\<lambda>_. True) h = 0 \<longleftrightarrow>
      \<not> (\<exists>a \<in> set h. minute_of now - minute_of (fst a) < 24 * 60)" for h
    by (simp add: young_def filter_empty_conv split_def)
  have "r \<in> set (upstream_stats now (recorded atts)) \<longleftrightarrow>
      (\<exists>key. fst key \<noteq> [] \<and> series_row now (key, series_run (history key atts)) = Some r \<and> history key atts \<noteq> [])" for r
    unfolding stats_rows mem by blast
  moreover have "series_row now (key, series_run (history key atts)) = Some r \<and> history key atts \<noteq> [] \<longleftrightarrow>
      r = window_row now key (history key atts)
      \<and> (\<exists>a \<in> set (history key atts). minute_of now - minute_of (fst a) < 24 * 60)" for key r
    unfolding row none by auto
  ultimately show ?thesis by blast
qed

text \<open>A failure at minute 10 and a success at minute 100, read at minute 120.\<close>

theorem failure_window_is_exact_witness:
  "\<exists>r \<in> set (upstream_stats (7200 * second)
                 (recorded [(''m'', ''b'', ClassTimeout, 600 * second), (''m'', ''b'', ClassNone, 6000 * second)])).
     ur_Total1h r = 1 \<and> ur_Failed1h r = 0 \<and> ur_Total24h r = 2 \<and> ur_Failed24h r = 1
     \<and> ur_FailingSince r = None \<and> ur_LastFailureAt r = Some (600 * second)"
proof -
  let ?log = "[(''m'', ''b'', ClassTimeout, 600 * second), (''m'', ''b'', ClassNone, 6000 * second)]"
  have h: "history (''m'', ''b'') ?log = [(600 * second, ClassTimeout), (6000 * second, ClassNone)]"
    by (simp add: history_def)
  have "window_row (7200 * second) (''m'', ''b'') (history (''m'', ''b'') ?log)
      \<in> set (upstream_stats (7200 * second) (recorded ?log))"
  proof (subst failure_window_is_exact)
    show "window_row (7200 * second) (''m'', ''b'') (history (''m'', ''b'') ?log) \<in>
        {window_row (7200 * second) key (history key ?log) | key.
           fst key \<noteq> [] \<and> (\<exists>a \<in> set (history key ?log). minute_of (7200 * second) - minute_of (fst a) < 24 * 60)}"
      by (rule CollectI, rule exI[of _ "(''m'', ''b'')"]) (unfold h, simp add: minute_of_def)
  qed (simp_all add: log_time_def)
  then show ?thesis
    by (rule bexI[rotated])
       (unfold h, simp add: window_row_def Let_def young_def minute_of_def last_failure_def first_failure_def since_success_def
          isUpstreamFailure_def isPolicyRefusal_def)
qed

end
