(* ===== verification/Tool_Text.thy ===== *)
theory Tool_Text
  imports Session Tracker
begin

text \<open>
  \<^verbatim>\<open>internal/toolproxy/extract.go\<close> and the content gate of \<^verbatim>\<open>stream.go\<close>: tool calls written as text in a
  model's answer, thinking written as text, and the part of a streamed answer that may be forwarded before
  it is known whether a tool call begins.

  The regular expressions are replaced by what they match: a block runs from its opening tag to the first
  closing tag after it. \<open>parse\<close> reads one JSON document and \<open>raw\<close> is the text of the member a field of it
  was decoded from.
\<close>

section \<open>Tool calls as text\<close>

definition toolCallTag :: string where "toolCallTag = ''<tool_call>''"
definition toolCallClose :: string where "toolCallClose = ''</tool_call>''"
definition thinkOpen :: string where "thinkOpen = ''<think>''"
definition thinkClose :: string where "thinkClose = ''</think>''"

text \<open>The insides of the blocks and the text outside of them.\<close>

function blocks :: "string \<Rightarrow> string \<Rightarrow> string \<Rightarrow> string list \<times> string" where
  "blocks opening closing s =
     (case cut_str opening s of
        None \<Rightarrow> ([], s)
      | Some (before, rest) \<Rightarrow>
          (case cut_str closing rest of
             None \<Rightarrow> ([], s)
           | Some (inner, after) \<Rightarrow>
               if opening = [] then ([], s)
               else (case blocks opening closing after of (bs, outside) \<Rightarrow> (inner # bs, before @ outside))))"
  by pat_completeness auto
termination
  by (relation "measure (\<lambda>(opening, closing, s). length s)") (auto dest!: cut_str_shorter simp flip: length_greater_0_conv)

declare blocks.simps [simp del]

text \<open>\<open>\s\<close> of a regular expression.\<close>

definition re_space :: "char \<Rightarrow> bool" where
  "re_space c \<longleftrightarrow> c \<in> {CHR '' '', CHR 0x09, CHR 0x0A, CHR 0x0C, CHR 0x0D}"

definition re_trim :: "string \<Rightarrow> string" where
  "re_trim s = rev (dropWhile re_space (rev (dropWhile re_space s)))"

record toolCall =
  tc_ID :: string
  tc_Name :: string
  tc_Arguments :: string

text \<open>What a block says, when it is a call.\<close>

definition block_call ::
    "(string \<Rightarrow> json option) \<Rightarrow> (string \<Rightarrow> string \<Rightarrow> string) \<Rightarrow> string \<Rightarrow> (string \<times> string) option" where
  "block_call parse raw inner =
     (case parse (re_trim inner) of
        Some (JObj kvs) \<Rightarrow>
          (case decode_string [] (struct_fields kvs ''name'') of
             None \<Rightarrow> None
           | Some name \<Rightarrow>
               if name = [] then None
               else
                 let args = (if struct_fields kvs ''arguments'' = [] then []
                             else trim_space (raw (re_trim inner) ''arguments'')) in
                 Some (name,
                   if args = [] \<or> args = ''null'' then ''{}''
                   else if has_prefix args [CHR 0x22]
                   then (case last (struct_fields kvs ''arguments'') of JStr s \<Rightarrow> s | _ \<Rightarrow> args)
                   else args))
      | _ \<Rightarrow> None)"

text \<open>The ids of calls are random: \<open>fresh\<close> takes the next one.\<close>

fun number_calls :: "('w \<Rightarrow> string \<times> 'w) \<Rightarrow> (string \<times> string) list \<Rightarrow> 'w \<Rightarrow> toolCall list \<times> 'w" where
  "number_calls fresh [] w = ([], w)"
| "number_calls fresh ((name, args) # cs) w =
     (let (i, w1) = fresh w; (calls, w2) = number_calls fresh cs w1
      in (\<lparr>tc_ID = ''call_'' @ i, tc_Name = name, tc_Arguments = args\<rparr> # calls, w2))"

definition extractToolCallsFromContent ::
    "(string \<Rightarrow> json option) \<Rightarrow> (string \<Rightarrow> string \<Rightarrow> string) \<Rightarrow> ('w \<Rightarrow> string \<times> 'w) \<Rightarrow> string \<Rightarrow> 'w
     \<Rightarrow> toolCall list \<times> 'w" where
  "extractToolCallsFromContent parse raw fresh content w =
     number_calls fresh (List.map_filter (block_call parse raw) (fst (blocks toolCallTag toolCallClose content))) w"

definition stripToolCallTags :: "string \<Rightarrow> string" where
  "stripToolCallTags content = trim_space (snd (blocks toolCallTag toolCallClose content))"

section \<open>Thinking as text\<close>

function strip_think :: "string \<Rightarrow> string" where
  "strip_think [] = []"
| "strip_think (c # s) =
     (if has_prefix (c # s) thinkOpen then
        (case cut_str thinkClose (drop (length thinkOpen) (c # s)) of
           Some (inner, after) \<Rightarrow> strip_think (dropWhile re_space after)
         | None \<Rightarrow> c # strip_think s)
      else if has_prefix (c # s) thinkClose then
        strip_think (dropWhile re_space (drop (length thinkClose) (c # s)))
      else c # strip_think s)"
  by pat_completeness auto
termination
proof (relation "measure length")
  fix c s x inner after
  assume "has_prefix (c # s) thinkOpen" "cut_str thinkClose (drop (length thinkOpen) (c # s)) = Some x"
    "(inner, after) = x"
  then have "length after \<le> length s" by (auto simp: thinkOpen_def dest!: cut_str_shorter)
  then show "(dropWhile re_space after, c # s) \<in> measure length"
    using length_dropWhile_le[of re_space after] by simp
next
  fix c :: char and s
  show "(dropWhile re_space (drop (length thinkClose) (c # s)), c # s) \<in> measure length"
    using length_dropWhile_le[of re_space "drop (length thinkClose) (c # s)"] by (simp add: thinkClose_def)
qed simp_all

declare strip_think.simps(2) [simp del]

definition extractThinking :: "string \<Rightarrow> string \<times> string" where
  "extractThinking content =
     (join [CHR 0x0A, CHR 0x0A] (map trim_space (fst (blocks thinkOpen thinkClose content))),
      trim_space (strip_think content))"

section \<open>The content gate\<close>

record contentGate =
  cg_pending :: string
  cg_capturing :: bool
  cg_captured :: string

definition empty_gate :: contentGate where
  "empty_gate = \<lparr>cg_pending = [], cg_capturing = False, cg_captured = []\<rparr>"

fun tag_hold :: "nat \<Rightarrow> string \<Rightarrow> nat" where
  "tag_hold 0 s = 0"
| "tag_hold (Suc n) s = (if has_suffix s (take (Suc n) toolCallTag) then Suc n else tag_hold n s)"

definition tagPrefixSuffix :: "string \<Rightarrow> nat" where
  "tagPrefixSuffix s = tag_hold (min (length s) (length toolCallTag - 1)) s"

definition gate_push :: "string \<Rightarrow> contentGate \<Rightarrow> string \<times> contentGate" where
  "gate_push s g =
     (if cg_capturing g then ([], g\<lparr>cg_captured := cg_captured g @ s\<rparr>)
      else
        let pending = cg_pending g @ s in
        case cut_str toolCallTag pending of
          Some (before, after) \<Rightarrow>
            (before, g\<lparr>cg_captured := toolCallTag @ after, cg_pending := [], cg_capturing := True\<rparr>)
        | None \<Rightarrow>
            let keep = tagPrefixSuffix pending
            in (take (length pending - keep) pending, g\<lparr>cg_pending := drop (length pending - keep) pending\<rparr>))"

text \<open>A stream of deltas through the gate: what was forwarded, and the gate after it.\<close>

fun gate_run :: "string list \<Rightarrow> contentGate \<Rightarrow> string \<times> contentGate" where
  "gate_run [] g = ([], g)"
| "gate_run (s # ss) g =
     (let (out, g1) = gate_push s g; (outs, g2) = gate_run ss g1 in (out @ outs, g2))"

lemma gate_run_snoc:
  "gate_run (ss @ [s]) g =
     (let (outs, g1) = gate_run ss g; (out, g2) = gate_push s g1 in (outs @ out, g2))"
  by (induction ss arbitrary: g) (auto split: prod.splits)

text \<open>The longest end of a text that could be the start of a tag.\<close>

definition tag_start :: "string \<Rightarrow> string \<Rightarrow> bool" where
  "tag_start q s \<longleftrightarrow> suffix q s \<and> strict_prefix q toolCallTag"

lemma has_suffix_suffix: "has_suffix s p \<longleftrightarrow> suffix p s"
proof
  assume "has_suffix s p"
  then have "take (length s - length p) s @ p = s"
    by (metis append_take_drop_id has_suffix_def)
  then show "suffix p s" by (metis suffixI)
qed (auto simp: suffix_def)

lemma take_tag_strict:
  assumes "n < length toolCallTag"
  shows "strict_prefix (take n toolCallTag) toolCallTag"
proof -
  have "length (take n toolCallTag) \<noteq> length toolCallTag" using assms by simp
  then have "take n toolCallTag \<noteq> toolCallTag" by metis
  then show ?thesis by (simp add: strict_prefix_def take_is_prefix)
qed

lemma tag_hold_start:
  "n < length toolCallTag \<Longrightarrow> n \<le> length s \<Longrightarrow>
   tag_hold n s \<le> n \<and> suffix (take (tag_hold n s) toolCallTag) s
   \<and> (\<forall>m \<le> n. suffix (take m toolCallTag) s \<longrightarrow> m \<le> tag_hold n s)"
  by (induction n) (auto simp: has_suffix_suffix le_Suc_eq)

lemma hold_is_longest:
  assumes "k = tagPrefixSuffix s"
  shows "k \<le> length s \<and> tag_start (drop (length s - k) s) s
    \<and> (\<forall>q. tag_start q s \<longrightarrow> length q \<le> k)"
proof -
  let ?n = "min (length s) (length toolCallTag - 1)"
  have n: "?n < length toolCallTag" "?n \<le> length s" by (auto simp: toolCallTag_def)
  note h = tag_hold_start[OF n]
  have k: "k = tag_hold ?n s" using assms by (simp add: tagPrefixSuffix_def)
  have kn: "k \<le> ?n" using h k by blast
  then have kt: "k < length toolCallTag" using n(1) by linarith
  then have len: "length (take k toolCallTag) = k" by simp
  have d: "drop (length s - k) s = take k toolCallTag"
    using h k len by (metis append_eq_conv_conj length_append add_diff_cancel_right' suffix_def)
  have "length q \<le> k" if q: "tag_start q s" for q
  proof -
    obtain zs where zs: "toolCallTag = q @ zs" "zs \<noteq> []"
      using q by (metis append_Nil2 prefixE strict_prefix_def tag_start_def)
    have qt: "q = take (length q) toolCallTag" unfolding zs(1) by simp
    have ql: "length q < length toolCallTag" unfolding zs(1) using zs(2) by simp
    have suf: "suffix q s" using q by (simp add: tag_start_def)
    then have "length q \<le> length s" by (rule suffix_length_le)
    then have "length q \<le> ?n" using ql by simp
    moreover have "suffix (take (length q) toolCallTag) s" using suf qt by simp
    ultimately show ?thesis using h k by blast
  qed
  moreover have "strict_prefix (take k toolCallTag) toolCallTag"
    using kt by (rule take_tag_strict)
  ultimately show ?thesis
    using h n k d by (auto simp: tag_start_def suffix_drop)
qed

text \<open>What the gate has done with a text, however it was cut into deltas.\<close>

definition gate_at :: "string \<Rightarrow> string \<Rightarrow> contentGate \<Rightarrow> bool" where
  "gate_at text out g \<longleftrightarrow>
     (case cut_str toolCallTag text of
        None \<Rightarrow> out @ cg_pending g = text \<and> \<not> cg_capturing g \<and> cg_captured g = []
          \<and> (\<forall>q. tag_start q text \<longrightarrow> length q \<le> length (cg_pending g))
      | Some (before, after) \<Rightarrow>
          out = before \<and> cg_pending g = [] \<and> cg_capturing g \<and> cg_captured g = toolCallTag @ after)"

text \<open>With every possible start of a tag held back, the next tag begins in what is held.\<close>

lemma tag_begins_late:
  assumes none: "cut_str toolCallTag (out @ p) = None"
    and held: "\<forall>q. tag_start q (out @ p) \<longrightarrow> length q \<le> length p"
    and tag: "(out @ p) @ s = x @ toolCallTag @ y"
  shows "length out \<le> length x"
proof (rule ccontr)
  assume "\<not> length out \<le> length x"
  then have lt: "length x < length out" by simp
  define q where "q = drop (length x) (out @ p)"
  have x: "x = take (length x) (out @ p)" and q: "q @ s = toolCallTag @ y"
    using arg_cong[OF tag, of "take (length x)"] arg_cong[OF tag, of "drop (length x)"] lt by (simp_all add: q_def)
  have split: "out @ p = x @ q" unfolding q_def by (metis append_take_drop_id x)
  have longer: "length p < length q" using lt by (simp add: q_def)
  show False
  proof (cases "length toolCallTag \<le> length q")
    case True
    then have "q = toolCallTag @ drop (length toolCallTag) q"
      using q by (metis append_eq_conv_conj append_take_drop_id drop_append take_append take_all_iff diff_is_0_eq take_0 append_Nil2)
    then have "out @ p = x @ toolCallTag @ drop (length toolCallTag) q" using split by simp
    then show False using none unfolding cut_str_None by blast
  next
    case False
    then have "q = take (length q) toolCallTag"
      using arg_cong[OF q, of "take (length q)"] by simp
    then have "strict_prefix q toolCallTag" using False take_tag_strict[of "length q"] by simp
    then have "tag_start q (out @ p)" by (simp add: tag_start_def split suffix_def)
    then show False using held longer by fastforce
  qed
qed

lemma starts_stay_held:
  assumes held: "\<forall>q. tag_start q (out @ p) \<longrightarrow> length q \<le> length p" and q: "tag_start q ((out @ p) @ s)"
  shows "suffix q (p @ s)"
proof -
  have suf: "suffix q (out @ p @ s)" "strict_prefix q toolCallTag" using q by (simp_all add: tag_start_def)
  show ?thesis
  proof (cases "length q \<le> length (p @ s)")
    case True
    then show ?thesis using suf(1) by (metis suffix_appendI suffix_length_suffix suffix_order.refl)
  next
    case False
    then obtain q0 where q0: "q = q0 @ s" "suffix q0 (out @ p)"
      using suf(1) by (auto simp: suffix_append dest: suffix_length_le)
    have "strict_prefix q0 toolCallTag"
      using suf(2) q0(1) by (metis append_prefixD prefix_order.antisym prefix_prefix strict_prefix_def append_Nil2 same_prefix_nil)
    then have "tag_start q0 (out @ p)" using q0(2) by (simp add: tag_start_def)
    then have "length q0 \<le> length p" using held by blast
    then show ?thesis using False q0(1) by simp
  qed
qed

lemma gate_push_at:
  assumes g: "gate_at text out g" and push: "gate_push s g = (new, g')"
  shows "gate_at (text @ s) (out @ new) g'"
proof (cases "cut_str toolCallTag text")
  case (Some ba)
  obtain b a where ba: "ba = (b, a)" by fastforce
  note c = Some[unfolded ba]
  have "cut_str toolCallTag (text @ s) = Some (b, a @ s)" by (rule cut_str_append[OF c])
  then show ?thesis using g push c by (auto simp: gate_at_def gate_push_def)
next
  case None
  then have inv: "out @ cg_pending g = text" "\<not> cg_capturing g" "cg_captured g = []"
      "\<forall>q. tag_start q (out @ cg_pending g) \<longrightarrow> length q \<le> length (cg_pending g)"
    using g by (auto simp: gate_at_def)
  have late: "length out \<le> length x" if "text @ s = x @ toolCallTag @ y" for x y
    by (rule tag_begins_late[of out "cg_pending g" s x y]) (use None inv that in auto)
  show ?thesis
  proof (cases "cut_str toolCallTag (cg_pending g @ s)")
    case (Some ba)
    obtain b a where ba: "ba = (b, a)" by fastforce
    note c = Some[unfolded ba]
    have "cut_str toolCallTag (text @ s) = Some (out @ b, a)"
      unfolding cut_str_iff
    proof (intro conjI allI impI)
      show "text @ s = (out @ b) @ toolCallTag @ a" using cut_str_Some[OF c] by (simp flip: inv(1))
    next
      fix x y assume x: "text @ s = x @ toolCallTag @ y"
      then obtain x' where x': "x = out @ x'"
        using late[OF x] inv(1) by (metis append_assoc append_eq_append_conv_if append_take_drop_id)
      then have "cg_pending g @ s = x' @ toolCallTag @ y" using x by (simp flip: inv(1))
      then show "length (out @ b) \<le> length x" using cut_str_first[OF c] x' by simp
    qed
    then show ?thesis using push c inv by (auto simp: gate_at_def gate_push_def)
  next
    case None2: None
    have "cut_str toolCallTag (text @ s) = None"
      unfolding cut_str_None
    proof (intro allI notI)
      fix x y assume x: "text @ s = x @ toolCallTag @ y"
      then obtain x' where x': "x = out @ x'"
        using late[OF x] inv(1) by (metis append_assoc append_eq_append_conv_if append_take_drop_id)
      then have "cg_pending g @ s = x' @ toolCallTag @ y" using x by (simp flip: inv(1))
      then show False using None2 unfolding cut_str_None by blast
    qed
    moreover define Q where "Q = cg_pending g @ s"
    have "length q \<le> tagPrefixSuffix Q" if "tag_start q (text @ s)" for q
      using starts_stay_held[OF inv(4), of q s] hold_is_longest[OF refl, of Q] inv(1) that
      unfolding Q_def by (auto simp: tag_start_def)
    moreover have "tagPrefixSuffix Q \<le> length Q" using hold_is_longest[OF refl, of Q] by blast
    moreover have "new = take (length Q - tagPrefixSuffix Q) Q"
        "g' = g\<lparr>cg_pending := drop (length Q - tagPrefixSuffix Q) Q\<rparr>"
      using push None2 inv(2) unfolding Q_def by (simp_all add: gate_push_def Let_def)
    moreover have "out @ Q = text @ s" using inv(1) by (simp add: Q_def)
    ultimately show ?thesis
      using inv(2,3) by (simp add: gate_at_def)
  qed
qed

lemma gate_run_at: "gate_run ss empty_gate = (out, g) \<Longrightarrow> gate_at (concat ss) out g"
proof (induction ss arbitrary: out g rule: rev_induct)
  case Nil
  then show ?case
    by (auto simp: gate_at_def empty_gate_def toolCallTag_def tag_start_def)
next
  case (snoc s ss)
  then show ?case by (auto simp: gate_run_snoc split: prod.splits intro: gate_push_at)
qed

text \<open>However a text is cut into deltas, what the gate lets through and what it holds make up the text, and
  nothing of a tool call gets through.\<close>

lemma gate_forwards_prose:
  assumes "gate_run ss empty_gate = (out, g)"
  shows "out @ cg_pending g @ cg_captured g = concat ss
    \<and> out @ cg_pending g = (case cut_str toolCallTag (concat ss) of None \<Rightarrow> concat ss | Some (before, after) \<Rightarrow> before)
    \<and> (cg_captured g \<noteq> [] \<longleftrightarrow> contains_str (concat ss) toolCallTag)"
  using gate_run_at[OF assms]
  by (auto simp: gate_at_def contains_str_def toolCallTag_def split: option.splits dest: cut_str_Some)

end
