(* ===== verification/Tool_Loop.thy ===== *)
theory Tool_Loop
  imports Tool_Text
begin

text \<open>
  \<^verbatim>\<open>internal/toolproxy/loop.go\<close>, \<^verbatim>\<open>response.go\<close>, the types of \<^verbatim>\<open>backend.go\<close> and the registry of
  \<^verbatim>\<open>internal/toolproxy/tools/registry.go\<close>: the conversation of the tool proxy with a backend, in rounds, in
  which the proxy runs the tools it owns.

  Everything outside the proxy is a state \<open>'w\<close>: running a tool, asking the backend and taking a random id
  read and change it. The loop of the source mutates one body map; every round writes the same members, so
  a round's body is the request's with those members set. Log lines are left out.
\<close>

section \<open>The registry of tools\<close>

record 'w tool =
  tl_Name :: string
  tl_Description :: string
  tl_Parameters :: json
  tl_Run :: "string \<Rightarrow> 'w \<Rightarrow> string \<times> 'w"

record 'w tool_registry =
  rg_tools :: "'w tool gomap"
  rg_order :: "string list"

definition NewRegistry :: "'w tool_registry" where
  "NewRegistry = \<lparr>rg_tools = [], rg_order = []\<rparr>"

definition Register :: "'w tool \<Rightarrow> 'w tool_registry \<Rightarrow> 'w tool_registry" where
  "Register t r =
     \<lparr>rg_tools = store (tl_Name t) t (rg_tools r),
      rg_order = (if lookup (rg_tools r) (tl_Name t) = None then rg_order r @ [tl_Name t] else rg_order r)\<rparr>"

definition Names :: "'w tool_registry \<Rightarrow> string list" where "Names r = rg_order r"

definition Has :: "'w tool_registry \<Rightarrow> string \<Rightarrow> bool" where
  "Has r name \<longleftrightarrow> lookup (rg_tools r) name \<noteq> None"

definition tool_definition :: "'w tool \<Rightarrow> json" where
  "tool_definition t =
     JObj [(''type'', JStr ''function''),
           (''function'', JObj [(''name'', JStr (tl_Name t)), (''description'', JStr (tl_Description t)),
                                (''parameters'', tl_Parameters t)])]"

definition Definitions :: "'w tool_registry \<Rightarrow> json list" where
  "Definitions r = List.map_filter (\<lambda>n. map_option tool_definition (lookup (rg_tools r) n)) (rg_order r)"

definition failurePrefixes :: "string list" where
  "failurePrefixes =
     [''Search failed:'', ''Fetch failed:'', ''Tavily search failed:'', ''Invalid arguments:'',
      ''Invalid expression:'', ''Unknown tool:'', ''Non-text content type:'',
      ''Could not extract text content from:'']"

definition IsFailure :: "string \<Rightarrow> bool" where
  "IsFailure output \<longleftrightarrow>
     (let trimmed = trim_space output
      in trimmed = [] \<or> trimmed = ''No results found.'' \<or> (\<exists>p \<in> set failurePrefixes. has_prefix trimmed p))"

definition Execute ::
    "(string \<Rightarrow> json option) \<Rightarrow> 'w tool_registry \<Rightarrow> string \<Rightarrow> string \<Rightarrow> 'w \<Rightarrow> string \<times> 'w" where
  "Execute parse r name arguments w =
     (case lookup (rg_tools r) name of
        None \<Rightarrow> (''Unknown tool: '' @ name, w)
      | Some t \<Rightarrow>
          if arguments \<noteq> [] \<and> parse arguments = None then (''Invalid arguments: '' @ arguments, w)
          else tl_Run t arguments w)"

section \<open>Answers of the backend\<close>

record usage =
  ug_PromptTokens :: int
  ug_CompletionTokens :: int
  ug_TotalTokens :: int
  ug_RespTokPerSec :: "rat option"

record chatMessage =
  cm_Content :: string
  cm_ReasoningContent :: string
  cm_Reasoning :: string
  cm_ToolCalls :: "toolCall list"

record chatChoice =
  ch_Message :: chatMessage
  ch_FinishReason :: string

record chatCompletion =
  cc_Choices :: "chatChoice list"
  cc_Usage :: "usage option"

definition reasoningText :: "chatMessage \<Rightarrow> string" where
  "reasoningText m = (if cm_Reasoning m \<noteq> [] then cm_Reasoning m else cm_ReasoningContent m)"

fun structured_calls :: "('w \<Rightarrow> string \<times> 'w) \<Rightarrow> toolCall list \<Rightarrow> 'w \<Rightarrow> toolCall list \<times> 'w" where
  "structured_calls fresh [] w = ([], w)"
| "structured_calls fresh (c # cs) w =
     (let (i, w1) = (if tc_ID c = [] then (case fresh w of (x, w1) \<Rightarrow> (''call_'' @ x, w1)) else (tc_ID c, w));
          (calls, w2) = structured_calls fresh cs w1
      in (c\<lparr>tc_ID := i\<rparr> # calls, w2))"

text \<open>What the proxy is configured with. \<open>px_backend\<close> is the call to the backend, \<open>px_fresh\<close> a random id.\<close>

record 'w proxy =
  px_tools :: "'w tool_registry"
  px_maxToolRounds :: nat
  px_backend :: "string \<Rightarrow> obj \<Rightarrow> 'w \<Rightarrow> (string + chatCompletion) \<times> 'w"
  px_fresh :: "'w \<Rightarrow> string \<times> 'w"
  px_parse :: "string \<Rightarrow> json option"
  px_raw :: "string \<Rightarrow> string \<Rightarrow> string"

definition extractToolCalls :: "'w proxy \<Rightarrow> chatMessage \<Rightarrow> 'w \<Rightarrow> toolCall list \<times> 'w" where
  "extractToolCalls px m w =
     (if length (cm_ToolCalls m) > 0 then structured_calls (px_fresh px) (cm_ToolCalls m) w
      else extractToolCallsFromContent (px_parse px) (px_raw px) (px_fresh px) (cm_Content m) w)"

section \<open>The conversation\<close>

definition call_json :: "toolCall \<Rightarrow> json" where
  "call_json c =
     JObj [(''id'', JStr (tc_ID c)), (''type'', JStr ''function''),
           (''function'', JObj [(''name'', JStr (tc_Name c)), (''arguments'', JStr (tc_Arguments c))])]"

definition assistantToolCallMessage :: "string \<Rightarrow> toolCall list \<Rightarrow> json" where
  "assistantToolCallMessage content calls =
     JObj [(''role'', JStr ''assistant''), (''content'', JStr content), (''tool_calls'', JArr (map call_json calls))]"

definition toolResultMessage :: "string \<Rightarrow> string \<Rightarrow> json" where
  "toolResultMessage i content =
     JObj [(''role'', JStr ''tool''), (''tool_call_id'', JStr i), (''content'', JStr content)]"

definition toolFunctionName :: "json \<Rightarrow> string" where
  "toolFunctionName t =
     (case t of
        JObj m \<Rightarrow> (case lookup m ''function'' of Some (JObj f) \<Rightarrow> str_field f ''name'' | _ \<Rightarrow> [])
      | _ \<Rightarrow> [])"

definition mergeTools :: "'w tool_registry \<Rightarrow> json list \<Rightarrow> json list" where
  "mergeTools r clientTools =
     Definitions r @ filter (\<lambda>t. toolFunctionName t \<noteq> [] \<and> toolFunctionName t \<notin> set (Names r)) clientTools"

section \<open>The loop\<close>

datatype loopOutcome = OutcomeFinal | OutcomeClientCalls | OutcomeMaxRounds

record toolStats =
  ts_executed :: nat
  ts_failed :: nat
  ts_firstFailure :: string

record rawMessageInfo =
  ri_finishReason :: string
  ri_completionTokens :: int
  ri_hadToolCalls :: bool
  ri_hadReasoning :: bool
  ri_contentLen :: nat

record loopResult =
  lp_outcome :: loopOutcome
  lp_content :: string
  lp_reasoning :: string
  lp_toolCalls :: "toolCall list"
  lp_usage :: "usage option"
  lp_messages :: "json list"
  lp_finishReason :: string
  lp_tools :: toolStats
  lp_lastRaw :: rawMessageInfo

definition no_stats :: toolStats where
  "no_stats = \<lparr>ts_executed = 0, ts_failed = 0, ts_firstFailure = []\<rparr>"

definition allFailed :: "toolStats \<Rightarrow> bool" where
  "allFailed t \<longleftrightarrow> ts_executed t > 0 \<and> ts_failed t = ts_executed t"

definition no_raw :: rawMessageInfo where
  "no_raw = \<lparr>ri_finishReason = [], ri_completionTokens = 0, ri_hadToolCalls = False, ri_hadReasoning = False,
             ri_contentLen = 0\<rparr>"

definition usageCompletionTokens :: "usage option \<Rightarrow> int" where
  "usageCompletionTokens u = (case u of None \<Rightarrow> 0 | Some u \<Rightarrow> ug_CompletionTokens u)"

definition ellipsis :: string where "ellipsis = [CHR 0xE2, CHR 0x80, CHR 0xA6]"

definition truncateForLog :: "string \<Rightarrow> nat \<Rightarrow> string" where
  "truncateForLog s0 n = (let s = trim_space s0 in if length s \<le> n then s else take n s @ ellipsis)"

definition count_tool :: "toolCall \<Rightarrow> string \<Rightarrow> toolStats \<Rightarrow> toolStats" where
  "count_tool c out st =
     (let st1 = st\<lparr>ts_executed := ts_executed st + 1\<rparr> in
      if IsFailure out then
        st1\<lparr>ts_failed := ts_failed st1 + 1,
            ts_firstFailure := (if ts_firstFailure st1 = [] then tc_Name c @ '': '' @ truncateForLog out 200
                                else ts_firstFailure st1)\<rparr>
      else st1)"

fun executeProxyCalls ::
    "'w proxy \<Rightarrow> toolCall list \<Rightarrow> toolStats \<Rightarrow> json list \<Rightarrow> 'w \<Rightarrow> toolStats \<times> json list \<times> 'w" where
  "executeProxyCalls px [] st messages w = (st, messages, w)"
| "executeProxyCalls px (c # cs) st messages w =
     (let (out, w1) = Execute (px_parse px) (px_tools px) (tc_Name c) (tc_Arguments c) w
      in executeProxyCalls px cs (count_tool c out st) (messages @ [toolResultMessage (tc_ID c) out]) w1)"

text \<open>The body of a round.\<close>

definition round_body :: "obj \<Rightarrow> json list \<Rightarrow> json list \<Rightarrow> json \<Rightarrow> obj" where
  "round_body body messages allTools toolChoice =
     AList.delete ''stream_options''
       (store ''stream'' (JBool False)
         (store ''tool_choice'' toolChoice
           (store ''tools'' (JArr allTools) (store ''messages'' (JArr messages) body))))"

text \<open>What the source keeps between rounds, and the bodies it has sent.\<close>

record 'w rounds =
  rd_messages :: "json list"
  rd_content :: string
  rd_reasoning :: string
  rd_stats :: toolStats
  rd_lastRaw :: rawMessageInfo
  rd_sent :: "obj list"
  rd_world :: 'w

text \<open>The message a round ended with, split into its parts.\<close>

definition answer_parts :: "chatMessage \<Rightarrow> string \<times> string" where
  "answer_parts m =
     (let (tagReasoning, clean) = extractThinking (stripToolCallTags (cm_Content m));
          structured = reasoningText m
      in (if structured = [] then tagReasoning else structured, clean))"

datatype 'w round_end = RoundFails string | RoundDone loopResult | RoundAgain

definition loop_round ::
    "'w proxy \<Rightarrow> string \<Rightarrow> obj \<Rightarrow> json list \<Rightarrow> json \<Rightarrow> 'w rounds \<Rightarrow> 'w round_end \<times> 'w rounds" where
  "loop_round px url body allTools toolChoice rd =
     (let sent = round_body body (rd_messages rd) allTools toolChoice;
          (answer, w1) = px_backend px url sent (rd_world rd);
          rd1 = rd\<lparr>rd_sent := rd_sent rd @ [sent], rd_world := w1\<rparr> in
      case answer of
        Inl e \<Rightarrow> (RoundFails e, rd1)
      | Inr cc \<Rightarrow>
          (case cc_Choices cc of
             [] \<Rightarrow> (RoundFails ''toolproxy: backend returned no choices'', rd1)
           | choice # rest \<Rightarrow>
               let m = ch_Message choice;
                   (reasoning, content) = answer_parts m;
                   (calls, w2) = extractToolCalls px m w1;
                   raw = \<lparr>ri_finishReason = ch_FinishReason choice,
                          ri_completionTokens = usageCompletionTokens (cc_Usage cc),
                          ri_hadToolCalls = length calls > 0, ri_hadReasoning = reasoning \<noteq> [],
                          ri_contentLen = length content\<rparr>;
                   rd2 = rd1\<lparr>rd_content := content, rd_reasoning := reasoning, rd_lastRaw := raw, rd_world := w2\<rparr>;
                   ended = (\<lambda>outcome cs.
                     \<lparr>lp_outcome = outcome, lp_content = content, lp_reasoning = reasoning, lp_toolCalls = cs,
                      lp_usage = cc_Usage cc, lp_messages = rd_messages rd, lp_finishReason = ch_FinishReason choice,
                      lp_tools = rd_stats rd, lp_lastRaw = raw\<rparr>)
               in if length calls = 0 then (RoundDone (ended OutcomeFinal []), rd2)
                  else if \<exists>c \<in> set calls. \<not> Has (px_tools px) (tc_Name c)
                  then (RoundDone (ended OutcomeClientCalls calls), rd2)
                  else
                    let (st, messages, w3) =
                          executeProxyCalls px calls (rd_stats rd)
                            (rd_messages rd @ [assistantToolCallMessage content calls]) w2
                    in (RoundAgain, rd2\<lparr>rd_messages := messages, rd_stats := st, rd_world := w3\<rparr>)))"

fun loop_from ::
    "'w proxy \<Rightarrow> string \<Rightarrow> obj \<Rightarrow> json list \<Rightarrow> json \<Rightarrow> nat \<Rightarrow> 'w rounds \<Rightarrow> (string + loopResult) \<times> 'w rounds" where
  "loop_from px url body allTools toolChoice 0 rd =
     (Inr \<lparr>lp_outcome = OutcomeMaxRounds, lp_content = rd_content rd, lp_reasoning = rd_reasoning rd,
           lp_toolCalls = [], lp_usage = None, lp_messages = rd_messages rd, lp_finishReason = [],
           lp_tools = rd_stats rd, lp_lastRaw = rd_lastRaw rd\<rparr>, rd)"
| "loop_from px url body allTools toolChoice (Suc n) rd =
     (case loop_round px url body allTools toolChoice rd of
        (RoundFails e, rd1) \<Rightarrow> (Inl e, rd1)
      | (RoundDone r, rd1) \<Rightarrow> (Inr r, rd1)
      | (RoundAgain, rd1) \<Rightarrow> loop_from px url body allTools toolChoice n rd1)"

definition runLoop ::
    "'w proxy \<Rightarrow> string \<Rightarrow> obj \<Rightarrow> json list \<Rightarrow> json list \<Rightarrow> json \<Rightarrow> 'w \<Rightarrow> (string + loopResult) \<times> 'w rounds" where
  "runLoop px url body messages allTools toolChoice w =
     loop_from px url body allTools toolChoice (px_maxToolRounds px)
       \<lparr>rd_messages = messages, rd_content = [], rd_reasoning = [], rd_stats = no_stats, rd_lastRaw = no_raw,
        rd_sent = [], rd_world = w\<rparr>"

section \<open>The answer\<close>

definition maxRoundsMessage :: string where "maxRoundsMessage = ''(max tool rounds reached)''"

definition em_dash_text :: string where "em_dash_text = [CHR '' '', CHR 0xE2, CHR 0x80, CHR 0x94, CHR '' '']"

definition truncatedFinal :: "loopResult \<Rightarrow> bool" where
  "truncatedFinal r \<longleftrightarrow> lp_outcome r = OutcomeFinal \<and> lp_finishReason r = ''length''"

definition regenerate_body :: "obj \<Rightarrow> json list \<Rightarrow> obj" where
  "regenerate_body body messages =
     AList.delete ''stream_options''
       (store ''stream'' (JBool False)
         (AList.delete ''tool_choice'' (AList.delete ''tools'' (store ''messages'' (JArr messages) body))))"

text \<open>The body handed over is the one the loop left, which has the members of its last round.\<close>

definition regenerateFinal ::
    "'w proxy \<Rightarrow> string \<Rightarrow> obj \<Rightarrow> loopResult \<Rightarrow> 'w \<Rightarrow> (string + loopResult) \<times> obj \<times> 'w" where
  "regenerateFinal px url body prior w =
     (let sent = regenerate_body body (lp_messages prior); (answer, w1) = px_backend px url sent w in
      case answer of
        Inl e \<Rightarrow> (Inl e, sent, w1)
      | Inr cc \<Rightarrow>
          (case cc_Choices cc of
             [] \<Rightarrow> (Inl ''toolproxy: backend returned no choices'', sent, w1)
           | choice # rest \<Rightarrow>
               let m = ch_Message choice;
                   (reasoning, content) = answer_parts m;
                   (calls, w2) = extractToolCalls px m w1
               in (Inr \<lparr>lp_outcome = OutcomeFinal, lp_content = content, lp_reasoning = reasoning, lp_toolCalls = [],
                        lp_usage = cc_Usage cc, lp_messages = lp_messages prior,
                        lp_finishReason = ch_FinishReason choice, lp_tools = lp_tools prior,
                        lp_lastRaw = \<lparr>ri_finishReason = ch_FinishReason choice,
                                      ri_completionTokens = usageCompletionTokens (cc_Usage cc),
                                      ri_hadToolCalls = length calls > 0, ri_hadReasoning = reasoning \<noteq> [],
                                      ri_contentLen = length content\<rparr>\<rparr>, sent, w2)))"

definition emptyAnswer :: "loopResult \<Rightarrow> bool" where
  "emptyAnswer r \<longleftrightarrow>
     (if lp_outcome r \<noteq> OutcomeFinal \<or> trim_space (lp_content r) \<noteq> [] then False
      else if lp_finishReason r = ''length'' \<and> lp_reasoning r \<noteq> [] then False
      else True)"

definition maxRoundsContent :: "loopResult \<Rightarrow> string" where
  "maxRoundsContent r =
     (if lp_content r \<noteq> [] then lp_content r
      else if ts_failed (lp_tools r) > 0 then
        maxRoundsMessage @ em_dash_text @ show_nat (ts_failed (lp_tools r)) @ '' of ''
          @ show_nat (ts_executed (lp_tools r)) @ '' tool call(s) failed. First failure''
          @ em_dash_text @ ts_firstFailure (lp_tools r)
      else maxRoundsMessage)"

definition show_bool :: "bool \<Rightarrow> string" where "show_bool b = (if b then ''true'' else ''false'')"

definition emptyAnswerMessage :: "loopResult \<Rightarrow> string" where
  "emptyAnswerMessage r =
     (let t = lp_tools r; raw = lp_lastRaw r in
      if allFailed t then
        ''tool proxy: model returned no answer after all '' @ show_nat (ts_executed t)
          @ '' tool call(s) failed (check the web-tool egress). First failure'' @ em_dash_text @ ts_firstFailure t
      else if ts_failed t > 0 then
        ''tool proxy: model returned no answer; '' @ show_nat (ts_failed t) @ '' of '' @ show_nat (ts_executed t)
          @ '' tool call(s) failed. First failure'' @ em_dash_text @ ts_firstFailure t
      else if ts_executed t = 0 then
        ''tool proxy: model returned no answer and executed no tools (backend finish_reason=''
          @ quoted (ri_finishReason raw) @ '', '' @ show_int (ri_completionTokens raw)
          @ '' completion tokens, tool_calls='' @ show_bool (ri_hadToolCalls raw)
          @ ''). The backend generated tokens that never surfaced as content''
          @ em_dash_text
          @ ''this happens when the model calls a tool the request didn't declare, so the engine discards the call. Check that every tool named in the system prompt is actually registered on the proxy.''
      else
        ''tool proxy: model returned no answer after '' @ show_nat (ts_executed t)
          @ '' successful tool call(s) (backend finish_reason='' @ quoted (ri_finishReason raw) @ '', ''
          @ show_int (ri_completionTokens raw) @ '' completion tokens).'')"

definition finalFinishReason :: "loopResult \<Rightarrow> string" where
  "finalFinishReason r = (if lp_finishReason r \<noteq> [] then lp_finishReason r else ''stop'')"

record chatCompletionOut =
  co_ID :: string
  co_Model :: string
  co_Content :: string
  co_ReasoningContent :: string
  co_ToolCalls :: "toolCall list"
  co_FinishReason :: string
  co_Usage :: "usage option"

definition newChatCompletion ::
    "string \<Rightarrow> string \<Rightarrow> string \<Rightarrow> string \<Rightarrow> toolCall list \<Rightarrow> usage option \<Rightarrow> string \<Rightarrow> chatCompletionOut" where
  "newChatCompletion i model content reasoning calls u finishReason =
     \<lparr>co_ID = i, co_Model = model, co_Content = content, co_ReasoningContent = reasoning, co_ToolCalls = calls,
      co_FinishReason = finishReason, co_Usage = u\<rparr>"

text \<open>What the client of the JSON path gets: an error envelope with a status, or a completion with 200.\<close>

datatype json_reply = ErrorReply nat string | CompletionReply chatCompletionOut

definition reply_of :: "string \<Rightarrow> string \<Rightarrow> loopResult \<Rightarrow> json_reply" where
  "reply_of i model r =
     (case lp_outcome r of
        OutcomeClientCalls \<Rightarrow>
          CompletionReply (newChatCompletion i model (lp_content r) (lp_reasoning r) (lp_toolCalls r) (lp_usage r) ''tool_calls'')
      | OutcomeMaxRounds \<Rightarrow>
          CompletionReply (newChatCompletion i model (maxRoundsContent r) (lp_reasoning r) [] None ''stop'')
      | OutcomeFinal \<Rightarrow>
          CompletionReply (newChatCompletion i model (lp_content r) (lp_reasoning r) [] (lp_usage r) (finalFinishReason r)))"

text \<open>The result after a truncated answer has been asked for once more, with the bodies sent.\<close>

definition settle ::
    "'w proxy \<Rightarrow> string \<Rightarrow> obj \<Rightarrow> loopResult \<Rightarrow> 'w rounds \<Rightarrow> loopResult \<times> 'w rounds" where
  "settle px url body r rd =
     (if truncatedFinal r then
        (let (again, sent, w1) = regenerateFinal px url body r (rd_world rd);
             rd1 = rd\<lparr>rd_sent := rd_sent rd @ [sent], rd_world := w1\<rparr>
         in case again of Inl e \<Rightarrow> (r, rd1) | Inr r1 \<Rightarrow> (r1, rd1))
      else (r, rd))"

definition runToolLoopJSON ::
    "'w proxy \<Rightarrow> string \<Rightarrow> string \<Rightarrow> obj \<Rightarrow> json list \<Rightarrow> json list \<Rightarrow> json \<Rightarrow> 'w \<Rightarrow> json_reply \<times> 'w rounds" where
  "runToolLoopJSON px url model body messages allTools toolChoice w =
     (case runLoop px url body messages allTools toolChoice w of
        (Inl e, rd) \<Rightarrow> (ErrorReply 502 (''backend error: '' @ e), rd)
      | (Inr r, rd) \<Rightarrow>
          let (r1, rd1) = settle px url (last (body # rd_sent rd)) r rd in
          if emptyAnswer r1 then (ErrorReply 502 (emptyAnswerMessage r1), rd1)
          else (case px_fresh px (rd_world rd1) of
                  (i, w2) \<Rightarrow> (reply_of (''chatcmpl-'' @ i) model r1, rd1\<lparr>rd_world := w2\<rparr>)))"

section \<open>Facts about a round\<close>

definition tool_turn :: "'w proxy \<Rightarrow> json list \<Rightarrow> bool" where
  "tool_turn px turn \<longleftrightarrow>
     (\<exists>content calls outs. calls \<noteq> [] \<and> length outs = length calls
        \<and> (\<forall>c \<in> set calls. Has (px_tools px) (tc_Name c))
        \<and> turn = assistantToolCallMessage content calls # map2 (\<lambda>c out. toolResultMessage (tc_ID c) out) calls outs)"

lemma execute_messages:
  "executeProxyCalls px cs st ms w = (st', ms', w') \<Longrightarrow>
   \<exists>outs. length outs = length cs \<and> ms' = ms @ map2 (\<lambda>c out. toolResultMessage (tc_ID c) out) cs outs
     \<and> ts_executed st' = ts_executed st + length cs
     \<and> ts_failed st' = ts_failed st + length (filter IsFailure outs)"
proof (induction cs arbitrary: st ms w)
  case (Cons c cs)
  obtain out w1 where e: "Execute (px_parse px) (px_tools px) (tc_Name c) (tc_Arguments c) w = (out, w1)" by fastforce
  from Cons.prems obtain outs where
    o: "length outs = length cs"
      "ms' = (ms @ [toolResultMessage (tc_ID c) out]) @ map2 (\<lambda>c out. toolResultMessage (tc_ID c) out) cs outs"
      "ts_executed st' = ts_executed (count_tool c out st) + length cs"
      "ts_failed st' = ts_failed (count_tool c out st) + length (filter IsFailure outs)"
    using Cons.IH[of "count_tool c out st" "ms @ [toolResultMessage (tc_ID c) out]" w1] by (auto simp: e)
  then show ?case
    by (intro exI[of _ "out # outs"]) (simp add: count_tool_def Let_def)
qed simp

lemma loop_round_again:
  assumes "loop_round px url body allTools toolChoice rd = (RoundAgain, rd')"
  shows "\<exists>turn. tool_turn px turn \<and> rd_messages rd' = rd_messages rd @ turn
    \<and> rd_sent rd' = rd_sent rd @ [round_body body (rd_messages rd) allTools toolChoice]"
proof -
  from assms obtain content calls w2 st w3 where
    c: "calls \<noteq> []" "\<forall>c \<in> set calls. Has (px_tools px) (tc_Name c)"
      "executeProxyCalls px calls (rd_stats rd) (rd_messages rd @ [assistantToolCallMessage content calls]) w2
         = (st, rd_messages rd', w3)"
      "rd_sent rd' = rd_sent rd @ [round_body body (rd_messages rd) allTools toolChoice]"
    by (auto simp: loop_round_def Let_def split: prod.splits sum.splits list.splits if_splits)
  obtain outs where "length outs = length calls"
      "rd_messages rd' = (rd_messages rd @ [assistantToolCallMessage content calls])
         @ map2 (\<lambda>c out. toolResultMessage (tc_ID c) out) calls outs"
    using execute_messages[OF c(3)] by blast
  then show ?thesis
    using c by (intro exI[of _ "assistantToolCallMessage content calls # map2 (\<lambda>c out. toolResultMessage (tc_ID c) out) calls outs"])
      (auto simp: tool_turn_def intro!: exI[of _ content] exI[of _ calls] exI[of _ outs])
qed

section \<open>The transcript\<close>

text \<open>What the rounds have sent: before each body one more complete tool turn.\<close>

definition sent_along :: "json list \<Rightarrow> json list list \<Rightarrow> obj list \<Rightarrow> bool" where
  "sent_along messages turns sent \<longleftrightarrow>
     map (\<lambda>b. lookup b ''messages'') sent =
       map (\<lambda>k. Some (JArr (messages @ concat (take k turns)))) [0..<length sent]
     \<and> list_all (\<lambda>b. lookup b ''stream'' = Some (JBool False) \<and> lookup b ''stream_options'' = None) sent"

lemma round_body_lookup [simp]:
  "lookup (round_body body ms tools choice) k =
     (if k = ''stream_options'' then None else if k = ''stream'' then Some (JBool False)
      else if k = ''tool_choice'' then Some choice else if k = ''tools'' then Some (JArr tools)
      else if k = ''messages'' then Some (JArr ms) else lookup body k)"
  by (simp add: round_body_def delete_conv)

lemma regenerate_body_lookup [simp]:
  "lookup (regenerate_body body ms) k =
     (if k = ''stream_options'' then None else if k = ''stream'' then Some (JBool False)
      else if k = ''tool_choice'' \<or> k = ''tools'' then None
      else if k = ''messages'' then Some (JArr ms) else lookup body k)"
  by (auto simp: regenerate_body_def delete_conv)

lemma sent_along_snoc:
  assumes "sent_along messages turns sent" "length turns \<le> length sent"
    and "lookup b ''messages'' = Some (JArr (messages @ concat turns))"
    and "lookup b ''stream'' = Some (JBool False)" "lookup b ''stream_options'' = None"
  shows "sent_along messages turns (sent @ [b])"
  using assms by (simp add: sent_along_def)

lemma loop_round_sent:
  "loop_round px url body allTools toolChoice rd = (e, rd') \<Longrightarrow>
   rd_sent rd' = rd_sent rd @ [round_body body (rd_messages rd) allTools toolChoice]"
  by (auto simp: loop_round_def Let_def split: prod.splits sum.splits list.splits if_splits)

lemma loop_round_done:
  "loop_round px url body allTools toolChoice rd = (RoundDone r, rd') \<Longrightarrow> lp_messages r = rd_messages rd"
  by (auto simp: loop_round_def Let_def split: prod.splits sum.splits list.splits if_splits)

text \<open>The invariant of the loop: the rounds so far, and what the result holds.\<close>

lemma loop_from_transcript:
  assumes "loop_from px url body allTools toolChoice n rd = (result, rd')"
    and "sent_along messages turns (rd_sent rd)" "length turns = length (rd_sent rd)"
    and "list_all (tool_turn px) turns" "rd_messages rd = messages @ concat turns"
  shows "\<exists>turns'. sent_along messages turns' (rd_sent rd') \<and> list_all (tool_turn px) turns'
    \<and> length turns' \<le> length (rd_sent rd') \<and> length (rd_sent rd') \<le> length (rd_sent rd) + n
    \<and> (\<forall>r. result = Inr r \<longrightarrow> lp_messages r = messages @ concat turns')"
  using assms
proof (induction n arbitrary: rd turns)
  case 0
  then show ?case by auto
next
  case (Suc n)
  obtain e rd1 where e: "loop_round px url body allTools toolChoice rd = (e, rd1)" by fastforce
  note sent = loop_round_sent[OF e]
  have along: "sent_along messages turns (rd_sent rd1)"
    unfolding sent by (rule sent_along_snoc) (use Suc.prems in simp_all)
  show ?case
  proof (cases e)
    case (RoundFails msg)
    then show ?thesis using Suc.prems e sent along by (intro exI[of _ turns]) auto
  next
    case (RoundDone r)
    then show ?thesis
      using Suc.prems e sent along loop_round_done[of px url body allTools toolChoice rd r rd1]
      by (intro exI[of _ turns]) auto
  next
    case RoundAgain
    then obtain turn where turn: "tool_turn px turn" "rd_messages rd1 = rd_messages rd @ turn"
      using loop_round_again e by blast
    have "sent_along messages (turns @ [turn]) (rd_sent rd1)"
      using along Suc.prems(3) sent by (simp add: sent_along_def)
    moreover have "loop_from px url body allTools toolChoice n rd1 = (result, rd')"
      using Suc.prems(1) e RoundAgain by simp
    ultimately obtain turns' where "sent_along messages turns' (rd_sent rd')" "list_all (tool_turn px) turns'"
        "length turns' \<le> length (rd_sent rd')" "length (rd_sent rd') \<le> length (rd_sent rd1) + n"
        "\<forall>r. result = Inr r \<longrightarrow> lp_messages r = messages @ concat turns'"
      using Suc.IH[of rd1 "turns @ [turn]"] Suc.prems turn sent by auto
    then show ?thesis using sent by (intro exI[of _ turns']) auto
  qed
qed

lemma settle_transcript:
  assumes "settle px url body r rd = (r1, rd1)" "sent_along messages turns (rd_sent rd)"
    and "length turns \<le> length (rd_sent rd)" "lp_messages r = messages @ concat turns"
  shows "sent_along messages turns (rd_sent rd1) \<and> length (rd_sent rd1) \<le> length (rd_sent rd) + 1"
proof (cases "truncatedFinal r")
  case True
  then obtain sent where "sent = regenerate_body body (lp_messages r)" "rd_sent rd1 = rd_sent rd @ [sent]"
    using assms(1)
    by (auto simp: settle_def regenerateFinal_def Let_def split: prod.splits sum.splits list.splits)
  then show ?thesis using assms by (auto intro!: sent_along_snoc)
qed (use assms in \<open>auto simp: settle_def\<close>)

text \<open>C9: The conversation with the backend is well-formed and bounded: a request makes at most one call
per round and one more, none of them streamed, and the messages of each call are the client's followed by
complete tool turns, one more than in the call before: an assistant message with the calls of the round,
all of tools the proxy owns, and one result for each of them, in order and under its id.\<close>

theorem tool_loop_transcript:
  "(let rd = snd (runToolLoopJSON px url model body messages allTools toolChoice w) in
     \<exists>turns. sent_along messages turns (rd_sent rd) \<and> list_all (tool_turn px) turns
       \<and> length (rd_sent rd) \<le> px_maxToolRounds px + 1)"
proof -
  obtain result rd where run: "runLoop px url body messages allTools toolChoice w = (result, rd)" by fastforce
  from loop_from_transcript[OF run[unfolded runLoop_def], of messages "[]"] obtain turns where
    t: "sent_along messages turns (rd_sent rd)" "list_all (tool_turn px) turns" "length turns \<le> length (rd_sent rd)"
      "length (rd_sent rd) \<le> px_maxToolRounds px" "\<forall>r. result = Inr r \<longrightarrow> lp_messages r = messages @ concat turns"
    by (auto simp: sent_along_def)
  show ?thesis
  proof (cases result)
    case (Inl e)
    then show ?thesis using run t by (auto simp: runToolLoopJSON_def Let_def)
  next
    case (Inr r)
    obtain r1 rd1 where s: "settle px url (last (body # rd_sent rd)) r rd = (r1, rd1)" by fastforce
    have "rd_sent (snd (runToolLoopJSON px url model body messages allTools toolChoice w)) = rd_sent rd1"
      by (simp add: runToolLoopJSON_def run Inr s[simplified] Let_def split: prod.splits)
    then show ?thesis using settle_transcript[OF s t(1,3)] t Inr by (auto simp: Let_def)
  qed
qed

section \<open>Never an empty answer\<close>

text \<open>A completion says something: it has text, hands back calls, or was cut off while thinking.\<close>

definition says_something :: "chatCompletionOut \<Rightarrow> bool" where
  "says_something co \<longleftrightarrow>
     \<not> (trim_space (co_Content co) = [] \<and> co_ToolCalls co = []
        \<and> \<not> (co_FinishReason co = ''length'' \<and> co_ReasoningContent co \<noteq> []))"

lemma trim_space_Nil: "trim_space s = [] \<longleftrightarrow> list_all is_space s"
proof -
  have "trim_space s = [] \<longleftrightarrow> (\<forall>x \<in> set (dropWhile is_space s). is_space x)"
    by (simp add: trim_space_def dropWhile_eq_Nil_conv)
  also have "\<dots> \<longleftrightarrow> dropWhile is_space s = []"
    by (metis hd_dropWhile hd_in_set list.set_cases list.distinct(1) empty_iff empty_set)
  finally show ?thesis by (simp add: dropWhile_eq_Nil_conv list_all_iff)
qed

lemma trim_space_twice: "trim_space (trim_space s) = [] \<longleftrightarrow> trim_space s = []"
proof
  assume t: "trim_space (trim_space s) = []"
  show "trim_space s = []"
  proof (rule ccontr)
    assume ne: "trim_space s \<noteq> []"
    have r: "rev (trim_space s) = dropWhile is_space (rev (dropWhile is_space s))" by (simp add: trim_space_def)
    then have "\<not> is_space (hd (rev (trim_space s)))" using hd_dropWhile ne by (metis rev_is_Nil_conv)
    then have "\<not> is_space (last (trim_space s))" using ne by (simp add: hd_rev)
    then show False using t ne by (auto simp: trim_space_Nil list_all_iff)
  qed
next
  assume e: "trim_space s = []"
  show "trim_space (trim_space s) = []" unfolding e by (simp add: trim_space_def)
qed

lemma answer_parts_trimmed: "answer_parts m = (reasoning, content) \<Longrightarrow> trim_space content = [] \<longleftrightarrow> content = []"
  by (auto simp: answer_parts_def extractThinking_def Let_def trim_space_twice)
     (simp add: trim_space_def)

lemma loop_round_says:
  assumes "loop_round px url body allTools toolChoice rd = (e, rd')"
    and "trim_space (rd_content rd) = [] \<longleftrightarrow> rd_content rd = []"
  shows "(trim_space (rd_content rd') = [] \<longleftrightarrow> rd_content rd' = [])
    \<and> (\<forall>r. e = RoundDone r \<longrightarrow> lp_outcome r = OutcomeFinal \<or> lp_outcome r = OutcomeClientCalls \<and> lp_toolCalls r \<noteq> [])"
  using assms
  by (auto simp: loop_round_def Let_def answer_parts_trimmed
      split: prod.splits sum.splits list.splits if_splits)

lemma loop_from_says:
  assumes "loop_from px url body allTools toolChoice n rd = (Inr r, rd')"
    and "trim_space (rd_content rd) = [] \<longleftrightarrow> rd_content rd = []"
  shows "lp_outcome r = OutcomeFinal \<or> lp_outcome r = OutcomeClientCalls \<and> lp_toolCalls r \<noteq> []
    \<or> lp_outcome r = OutcomeMaxRounds \<and> (trim_space (lp_content r) = [] \<longleftrightarrow> lp_content r = [])"
  using assms
proof (induction n arbitrary: rd)
  case (Suc n)
  obtain e rd1 where e: "loop_round px url body allTools toolChoice rd = (e, rd1)" by fastforce
  note says = loop_round_says[OF e Suc.prems(2)]
  show ?case
    using Suc.prems(1) Suc.IH[of rd1] says by (cases e) (auto simp: e)
qed auto

lemma maxRoundsContent_says:
  "(trim_space (lp_content r) = [] \<longleftrightarrow> lp_content r = []) \<Longrightarrow> trim_space (maxRoundsContent r) \<noteq> []"
  by (auto simp: maxRoundsContent_def trim_space_Nil maxRoundsMessage_def is_space_def)

lemma reply_says:
  assumes "lp_outcome r = OutcomeFinal \<or> lp_outcome r = OutcomeClientCalls \<and> lp_toolCalls r \<noteq> []
      \<or> lp_outcome r = OutcomeMaxRounds \<and> (trim_space (lp_content r) = [] \<longleftrightarrow> lp_content r = [])"
    and "\<not> emptyAnswer r"
  shows "\<exists>co. reply_of i model r = CompletionReply co \<and> says_something co"
  using assms maxRoundsContent_says[of r]
  by (cases "lp_outcome r")
     (auto simp: reply_of_def says_something_def newChatCompletion_def emptyAnswer_def finalFinishReason_def split: if_splits)

lemma settle_outcome:
  assumes "settle px url body r rd = (r1, rd1)"
  shows "r1 = r \<or> lp_outcome r1 = OutcomeFinal"
  using assms by (auto simp: settle_def regenerateFinal_def Let_def split: if_splits prod.splits sum.splits list.splits)

text \<open>C10: A request through the tool loop is never answered with an empty success: the reply is a 502 with
a message, or a completion that has text, hands tool calls back to the client, or says that the model was
cut off while it was thinking.\<close>

theorem no_empty_success:
  "case fst (runToolLoopJSON px url model body messages allTools toolChoice w) of
     ErrorReply status message \<Rightarrow> status = 502 \<and> trim_space message \<noteq> []
   | CompletionReply co \<Rightarrow> says_something co"
proof -
  obtain result rd where run: "runLoop px url body messages allTools toolChoice w = (result, rd)" by fastforce
  show ?thesis
  proof (cases result)
    case (Inl e)
    then show ?thesis using run by (simp add: runToolLoopJSON_def trim_space_Nil is_space_def)
  next
    case (Inr r)
    from loop_from_says[OF run[unfolded runLoop_def Inr]] have r:
      "lp_outcome r = OutcomeFinal \<or> lp_outcome r = OutcomeClientCalls \<and> lp_toolCalls r \<noteq> []
       \<or> lp_outcome r = OutcomeMaxRounds \<and> (trim_space (lp_content r) = [] \<longleftrightarrow> lp_content r = [])"
      by (simp add: trim_space_def)
    obtain r1 rd1 where s: "settle px url (last (body # rd_sent rd)) r rd = (r1, rd1)" by fastforce
    have "trim_space (emptyAnswerMessage r1) \<noteq> []"
      by (simp add: emptyAnswerMessage_def Let_def trim_space_Nil is_space_def)
    then show ?thesis
      using run Inr s[simplified] settle_outcome[OF s] r reply_says[of r1]
      by (auto simp: runToolLoopJSON_def Let_def split: prod.splits json_reply.splits)
        (metis json_reply.distinct(1) json_reply.inject(2))+
  qed
qed

section \<open>The tools of a request\<close>

definition registry_of :: "'w tool list \<Rightarrow> 'w tool_registry" where
  "registry_of ts = fold Register ts NewRegistry"

lemma registry_ok:
  "distinct (rg_order (registry_of ts)) \<and> set (rg_order (registry_of ts)) = dom (lookup (rg_tools (registry_of ts)))
   \<and> (\<forall>n t. lookup (rg_tools (registry_of ts)) n = Some t \<longrightarrow> tl_Name t = n)"
proof (induction ts rule: rev_induct)
  case (snoc t ts)
  then show ?case by (auto simp: registry_of_def Register_def split: if_splits)
qed (simp add: registry_of_def NewRegistry_def)

lemma toolFunctionName_definition [simp]: "toolFunctionName (tool_definition t) = tl_Name t"
  by (simp add: toolFunctionName_def tool_definition_def str_field_def)

text \<open>In the tools of a request the name of a tool the proxy owns has exactly one definition, the
proxy's, whatever the client sent under it; and every other tool is the client's own, in its order.\<close>

theorem proxy_names_win:
  "(let r = registry_of ts; merged = mergeTools r clientTools in
     (case lookup (rg_tools r) name of
        Some t \<Rightarrow> filter (\<lambda>d. toolFunctionName d = name) merged = [tool_definition t]
      | None \<Rightarrow>
          filter (\<lambda>d. toolFunctionName d = name) merged =
            (if name = [] then [] else filter (\<lambda>d. toolFunctionName d = name) clientTools)))"
proof -
  let ?r = "registry_of ts"
  have ok: "distinct (rg_order ?r)" "set (rg_order ?r) = dom (lookup (rg_tools ?r))"
    "\<And>n t. lookup (rg_tools ?r) n = Some t \<Longrightarrow> tl_Name t = n"
    using registry_ok[of ts] by auto
  have defs: "filter (\<lambda>d. toolFunctionName d = name) (Definitions ?r) =
      (case lookup (rg_tools ?r) name of Some t \<Rightarrow> [tool_definition t] | None \<Rightarrow> [])"
  proof -
    have "filter (\<lambda>d. toolFunctionName d = name) (List.map_filter (\<lambda>n. map_option tool_definition (lookup (rg_tools ?r) n)) ns) =
        (if name \<in> set ns then (case lookup (rg_tools ?r) name of Some t \<Rightarrow> [tool_definition t] | None \<Rightarrow> []) else [])"
      if "distinct ns" for ns
      using that by (induction ns) (auto simp: map_filter_simps ok(3) split: option.splits)
    from this[OF ok(1)] show ?thesis using ok(2) by (auto simp: Definitions_def split: option.splits)
  qed
  show ?thesis
  proof (cases "lookup (rg_tools ?r) name")
    case None
    then have "filter (\<lambda>d. toolFunctionName d = name)
          (filter (\<lambda>d. toolFunctionName d \<noteq> [] \<and> toolFunctionName d \<notin> set (rg_order ?r)) clientTools) =
        (if name = [] then [] else filter (\<lambda>d. toolFunctionName d = name) clientTools)"
      using ok(2) by (auto simp: filter_empty_conv intro!: filter_cong)
    then show ?thesis using None defs by (simp add: Let_def mergeTools_def Names_def)
  next
    case (Some t)
    then have "filter (\<lambda>d. toolFunctionName d = name)
          (filter (\<lambda>d. toolFunctionName d \<noteq> [] \<and> toolFunctionName d \<notin> set (rg_order ?r)) clientTools) = []"
      using ok(2) by (auto simp: filter_empty_conv)
    then show ?thesis using Some defs by (simp add: Let_def mergeTools_def Names_def)
  qed
qed

end
