(* ===== verification/Tool_Stream.thy ===== *)
theory Tool_Stream
  imports Tool_Loop Capture
begin

text \<open>
  \<^verbatim>\<open>internal/toolproxy/backend.go\<close> (what an answer of the backend decodes to) and \<^verbatim>\<open>stream.go\<close>: the tool loop
  with streamed rounds, in which what the model writes goes to the client as it arrives.

  A streamed answer is the lines the scanner yields and the error it ends with, if any (a line above
  \<^verbatim>\<open>maxSSELine\<close> is such an error). The client's stream is the list of events written to it; \<open>started\<close> in
  the source is a non-empty list. The encoding of an event into bytes is left to the library, the creation
  time of a chunk is left out.
\<close>

section \<open>Decoding answers\<close>

definition decode_chat_usage :: "(string \<times> json) list \<Rightarrow> usage option" where
  "decode_chat_usage u =
     (case (decode_plain_int 0 (struct_fields u ''prompt_tokens''),
            decode_plain_int 0 (struct_fields u ''completion_tokens''),
            decode_plain_int 0 (struct_fields u ''total_tokens''),
            decode_num None (struct_fields u ''response_token/s'')) of
        (Some p, Some c, Some t, Some r) \<Rightarrow>
          Some \<lparr>ug_PromptTokens = p, ug_CompletionTokens = c, ug_TotalTokens = t, ug_RespTokPerSec = r\<rparr>
      | _ \<Rightarrow> None)"

text \<open>The usage member of an answer: absent, or there.\<close>

definition decode_usage_member :: "(string \<times> json) list \<Rightarrow> usage option option" where
  "decode_usage_member kvs =
     (case decode_struct None (struct_fields kvs ''usage'') of
        None \<Rightarrow> None
      | Some None \<Rightarrow> Some None
      | Some (Some u) \<Rightarrow> map_option Some (decode_chat_usage u))"

definition decode_tool_call :: "(string \<times> json) list \<Rightarrow> toolCall option" where
  "decode_tool_call kvs =
     (case decode_object [] (struct_fields kvs ''function'') of
        None \<Rightarrow> None
      | Some f \<Rightarrow>
          (case (decode_string [] (struct_fields kvs ''id''), decode_string [] (struct_fields kvs ''type''),
                 decode_string [] (struct_fields f ''name''), decode_string [] (struct_fields f ''arguments'')) of
             (Some i, Some ty, Some n, Some a) \<Rightarrow> Some \<lparr>tc_ID = i, tc_Name = n, tc_Arguments = a\<rparr>
           | _ \<Rightarrow> None))"

definition decode_message :: "(string \<times> json) list \<Rightarrow> chatMessage option" where
  "decode_message kvs =
     (case (decode_string [] (struct_fields kvs ''role''), decode_string [] (struct_fields kvs ''content''),
            decode_string [] (struct_fields kvs ''reasoning_content''), decode_string [] (struct_fields kvs ''reasoning''),
            decode_array [] (struct_fields kvs ''tool_calls'')) of
        (Some role, Some c, Some rc, Some r, Some calls) \<Rightarrow>
          map_option (\<lambda>cs. \<lparr>cm_Content = c, cm_ReasoningContent = rc, cm_Reasoning = r, cm_ToolCalls = cs\<rparr>)
            (decode_structs decode_tool_call calls)
      | _ \<Rightarrow> None)"

definition decode_choice :: "(string \<times> json) list \<Rightarrow> chatChoice option" where
  "decode_choice kvs =
     (case (decode_plain_int 0 (struct_fields kvs ''index''), decode_object [] (struct_fields kvs ''message''),
            decode_string [] (struct_fields kvs ''finish_reason'')) of
        (Some i, Some m, Some fr) \<Rightarrow> map_option (\<lambda>m. \<lparr>ch_Message = m, ch_FinishReason = fr\<rparr>) (decode_message m)
      | _ \<Rightarrow> None)"

definition decode_completion :: "json \<Rightarrow> chatCompletion option" where
  "decode_completion doc =
     (case doc of
        JObj kvs \<Rightarrow>
          (case (decode_string [] (struct_fields kvs ''id''), decode_string [] (struct_fields kvs ''object''),
                 decode_plain_int 0 (struct_fields kvs ''created''), decode_string [] (struct_fields kvs ''model''),
                 decode_array [] (struct_fields kvs ''choices'')) of
             (Some i, Some ob, Some created, Some model, Some choices) \<Rightarrow>
               (case (decode_structs decode_choice choices, decode_usage_member kvs) of
                  (Some cs, Some u) \<Rightarrow> Some \<lparr>cc_Choices = cs, cc_Usage = u\<rparr>
                | _ \<Rightarrow> None)
           | _ \<Rightarrow> None)
      | JNull \<Rightarrow> Some \<lparr>cc_Choices = [], cc_Usage = None\<rparr>
      | _ \<Rightarrow> None)"

text \<open>The text of a \<^verbatim>\<open>backendError\<close>.\<close>

definition backend_error_text :: "int \<Rightarrow> string \<Rightarrow> string" where
  "backend_error_text status body =
     ''backend returned HTTP '' @ show_int status @ '': ''
       @ (if length body > 500 then take 500 body @ ellipsis else body)"

text \<open>One call: the transport answers with a status and the bytes read, or with an error.\<close>

definition backendComplete ::
    "(string \<Rightarrow> json option) \<Rightarrow> (string \<Rightarrow> obj \<Rightarrow> 'w \<Rightarrow> (string + int \<times> string) \<times> 'w)
     \<Rightarrow> string \<Rightarrow> obj \<Rightarrow> 'w \<Rightarrow> (string + chatCompletion) \<times> 'w" where
  "backendComplete parse transport url body w =
     (let (answer, w1) = transport (trim_suffix url ''/'' @ ''/v1/chat/completions'') body w in
      (case answer of
         Inl e \<Rightarrow> Inl (''toolproxy: backend request: '' @ e)
       | Inr (status, raw) \<Rightarrow>
           if status < 200 \<or> status \<ge> 300 then Inl (backend_error_text status raw)
           else (case parse raw of
                   None \<Rightarrow> Inl ''toolproxy: decode backend response''
                 | Some doc \<Rightarrow>
                     (case decode_completion doc of
                        None \<Rightarrow> Inl ''toolproxy: decode backend response''
                      | Some cc \<Rightarrow> Inr cc)), w1))"

section \<open>Decoding a streamed chunk\<close>

record callDelta =
  cd_Index :: int
  cd_ID :: string
  cd_Name :: string
  cd_Arguments :: string

record streamDelta =
  sd_Content :: "string option"
  sd_ReasoningContent :: string
  sd_Reasoning :: string
  sd_ToolCalls :: "callDelta list"

record streamChoice =
  sc_Delta :: streamDelta
  sc_FinishReason :: "string option"

record streamChunk =
  sk_Choices :: "streamChoice list"
  sk_Usage :: "usage option"

text \<open>A pointer to a string.\<close>

fun decode_string_ptr :: "string option \<Rightarrow> json list \<Rightarrow> string option option" where
  "decode_string_ptr s [] = Some s"
| "decode_string_ptr s (JStr t # vs) = decode_string_ptr (Some t) vs"
| "decode_string_ptr s (JNull # vs) = decode_string_ptr None vs"
| "decode_string_ptr s (v # vs) = None"

definition decode_call_delta :: "(string \<times> json) list \<Rightarrow> callDelta option" where
  "decode_call_delta kvs =
     (case (decode_plain_int 0 (struct_fields kvs ''index''), decode_tool_call kvs) of
        (Some i, Some c) \<Rightarrow>
          Some \<lparr>cd_Index = i, cd_ID = tc_ID c, cd_Name = tc_Name c, cd_Arguments = tc_Arguments c\<rparr>
      | _ \<Rightarrow> None)"

definition decode_delta :: "(string \<times> json) list \<Rightarrow> streamDelta option" where
  "decode_delta kvs =
     (case (decode_string_ptr None (struct_fields kvs ''content''), decode_string [] (struct_fields kvs ''reasoning_content''),
            decode_string [] (struct_fields kvs ''reasoning''), decode_array [] (struct_fields kvs ''tool_calls'')) of
        (Some c, Some rc, Some r, Some calls) \<Rightarrow>
          map_option (\<lambda>cs. \<lparr>sd_Content = c, sd_ReasoningContent = rc, sd_Reasoning = r, sd_ToolCalls = cs\<rparr>)
            (decode_structs decode_call_delta calls)
      | _ \<Rightarrow> None)"

definition decode_stream_choice :: "(string \<times> json) list \<Rightarrow> streamChoice option" where
  "decode_stream_choice kvs =
     (case (decode_object [] (struct_fields kvs ''delta''), decode_string_ptr None (struct_fields kvs ''finish_reason'')) of
        (Some d, Some fr) \<Rightarrow> map_option (\<lambda>d. \<lparr>sc_Delta = d, sc_FinishReason = fr\<rparr>) (decode_delta d)
      | _ \<Rightarrow> None)"

definition decode_chunk :: "json \<Rightarrow> streamChunk option" where
  "decode_chunk doc =
     (case doc of
        JObj kvs \<Rightarrow>
          (case decode_array [] (struct_fields kvs ''choices'') of
             None \<Rightarrow> None
           | Some choices \<Rightarrow>
               (case (decode_structs decode_stream_choice choices, decode_usage_member kvs) of
                  (Some cs, Some u) \<Rightarrow> Some \<lparr>sk_Choices = cs, sk_Usage = u\<rparr>
                | _ \<Rightarrow> None))
      | JNull \<Rightarrow> Some \<lparr>sk_Choices = [], sk_Usage = None\<rparr>
      | _ \<Rightarrow> None)"

section \<open>The client's stream\<close>

datatype sse =
    SSEDelta string string string string
  | SSETerminal obj
  | SSECompletion chatCompletionOut
  | SSEUsage usage
  | SSEDone

record sseOut =
  so_events :: "sse list"
  so_roleSent :: bool

definition newSSEOut :: sseOut where "newSSEOut = \<lparr>so_events = [], so_roleSent = False\<rparr>"

definition started :: "sseOut \<Rightarrow> bool" where "started out \<longleftrightarrow> so_events out \<noteq> []"

definition sse_raw :: "sse \<Rightarrow> sseOut \<Rightarrow> sseOut" where
  "sse_raw e out = out\<lparr>so_events := so_events out @ [e]\<rparr>"

definition sse_delta :: "string \<Rightarrow> string \<Rightarrow> sseOut \<Rightarrow> sseOut" where
  "sse_delta content reasoning out =
     (if content = [] \<and> reasoning = [] then out
      else sse_raw (SSEDelta (if so_roleSent out then [] else ''assistant'') content reasoning [])
             (out\<lparr>so_roleSent := True\<rparr>))"

section \<open>A streamed round\<close>

text \<open>The lines the scanner yields and the error it ends with; the error of the reader comes after them.\<close>

definition maxSSELine :: nat where "maxSSELine = 8 * 1024 * 1024"

definition scan_lines :: "nat \<Rightarrow> string \<Rightarrow> string option \<Rightarrow> string list \<times> string option" where
  "scan_lines limit body err =
     (let pieces = split_on newline body;
          ls = (if last pieces = [] then butlast pieces else pieces);
          good = takeWhile (\<lambda>l. length l < limit) ls
      in (good, if length good < length ls then Some ''bufio.Scanner: token too long'' else err))"

record partialCall =
  pc_id :: string
  pc_name :: string
  pc_args :: string

record roundResult =
  rn_content :: string
  rn_reasoning :: string
  rn_toolCalls :: "toolCall list"
  rn_finishReason :: string
  rn_usage :: "usage option"
  rn_terminal :: "obj list"
  rn_forwarded :: bool
  rn_held :: string

text \<open>The variables of a round while its stream is read.\<close>

record streamState =
  st_out :: sseOut
  st_gate :: contentGate
  st_content :: string
  st_reasoning :: string
  st_calls :: "(int \<times> partialCall) list"
  st_finishReason :: string
  st_usage :: "usage option"
  st_terminal :: "obj list"
  st_forwarded :: bool

definition new_state :: "sseOut \<Rightarrow> streamState" where
  "new_state out =
     \<lparr>st_out = out, st_gate = empty_gate, st_content = [], st_reasoning = [], st_calls = [], st_finishReason = [],
      st_usage = None, st_terminal = [], st_forwarded = False\<rparr>"

definition merge_call :: "callDelta \<Rightarrow> (int \<times> partialCall) list \<Rightarrow> (int \<times> partialCall) list" where
  "merge_call d calls =
     (let pc = (case map_of calls (cd_Index d) of None \<Rightarrow> \<lparr>pc_id = [], pc_name = [], pc_args = []\<rparr> | Some pc \<Rightarrow> pc)
      in AList.update (cd_Index d)
           \<lparr>pc_id = (if cd_ID d \<noteq> [] then cd_ID d else pc_id pc),
            pc_name = (if cd_Name d \<noteq> [] then cd_Name d else pc_name pc),
            pc_args = pc_args pc @ cd_Arguments d\<rparr> calls)"

definition delta_reasoning :: "streamDelta \<Rightarrow> string" where
  "delta_reasoning d = (if sd_Reasoning d = [] then sd_ReasoningContent d else sd_Reasoning d)"

definition delta_content :: "streamDelta \<Rightarrow> string" where
  "delta_content d = (case sd_Content d of None \<Rightarrow> [] | Some c \<Rightarrow> c)"

definition choice_step :: "streamChoice \<Rightarrow> streamState \<Rightarrow> streamState" where
  "choice_step c st =
     (let d = sc_Delta c; r = delta_reasoning d; text = delta_content d;
          (fwd, gate) = (if text \<noteq> [] then gate_push text (st_gate st) else ([], st_gate st))
      in st\<lparr>st_reasoning := st_reasoning st @ r,
            st_content := st_content st @ text,
            st_gate := gate,
            st_forwarded := st_forwarded st \<or> fwd \<noteq> [],
            st_out := sse_delta fwd r (st_out st),
            st_calls := fold merge_call (sd_ToolCalls d) (st_calls st),
            st_finishReason := (case sc_FinishReason c of
                                  Some fr \<Rightarrow> if fr \<noteq> [] then fr else st_finishReason st
                                | None \<Rightarrow> st_finishReason st)\<rparr>)"

definition stripDeltas :: "obj \<Rightarrow> obj" where
  "stripDeltas m =
     (case lookup m ''choices'' of
        Some (JArr choices) \<Rightarrow>
          store ''choices''
            (JArr (map (\<lambda>c. case c of JObj cm \<Rightarrow> JObj (store ''delta'' (JObj []) cm) | v \<Rightarrow> v) choices)) m
      | _ \<Rightarrow> m)"

text \<open>A document decoded into a map: of members of one name the last counts.\<close>

definition as_map :: "json \<Rightarrow> obj" where
  "as_map doc = (case doc of JObj kvs \<Rightarrow> fold (\<lambda>(k, v). store k v) kvs [] | _ \<Rightarrow> [])"

definition is_terminal :: "string \<Rightarrow> streamChunk \<Rightarrow> bool" where
  "is_terminal data ch \<longleftrightarrow>
     sk_Usage ch \<noteq> None
     \<or> (\<exists>c \<in> set (sk_Choices ch). case sc_FinishReason c of None \<Rightarrow> False | Some fr \<Rightarrow> fr \<noteq> [])
     \<or> contains_str data (CHR 0x22 # ''timings'' @ [CHR 0x22])"

definition chunk_step :: "string \<Rightarrow> json \<Rightarrow> streamChunk \<Rightarrow> streamState \<Rightarrow> streamState" where
  "chunk_step data doc ch st0 =
     (let st1 = (if sk_Usage ch \<noteq> None then st0\<lparr>st_usage := sk_Usage ch\<rparr> else st0);
          st2 = fold choice_step (sk_Choices ch) st1
      in if is_terminal data ch then st2\<lparr>st_terminal := st_terminal st2 @ [stripDeltas (as_map doc)]\<rparr> else st2)"

text \<open>The payload of a line of the stream.\<close>

definition line_data :: "string \<Rightarrow> string option" where
  "line_data line0 =
     (let line = trim_space line0
      in if has_prefix line ''data:'' then Some (trim_space (trim_prefix line ''data:'')) else None)"

text \<open>The loop over the lines; it tells whether it was left at the end marker.\<close>

fun read_lines ::
    "(string \<Rightarrow> json option) \<Rightarrow> string list \<Rightarrow> streamState \<Rightarrow> streamState \<times> bool" where
  "read_lines parse [] st = (st, False)"
| "read_lines parse (l # ls) st =
     (case line_data l of
        None \<Rightarrow> read_lines parse ls st
      | Some data \<Rightarrow>
          if data = ''[DONE]'' then (st, True)
          else (case parse data of
                  None \<Rightarrow> read_lines parse ls st
                | Some doc \<Rightarrow>
                    (case decode_chunk doc of
                       None \<Rightarrow> read_lines parse ls st
                     | Some ch \<Rightarrow> read_lines parse ls (chunk_step data doc ch st))))"

fun finish_calls :: "('w \<Rightarrow> string \<times> 'w) \<Rightarrow> partialCall list \<Rightarrow> 'w \<Rightarrow> toolCall list \<times> 'w" where
  "finish_calls fresh [] w = ([], w)"
| "finish_calls fresh (pc # pcs) w =
     (if pc_name pc = [] then finish_calls fresh pcs w
      else
        let (i, w1) = (if pc_id pc = [] then (case fresh w of (x, w1) \<Rightarrow> (''call_'' @ x, w1)) else (pc_id pc, w));
            args = (if trim_space (pc_args pc) = [] then ''{}'' else pc_args pc);
            (calls, w2) = finish_calls fresh pcs w1
        in (\<lparr>tc_ID = i, tc_Name = pc_name pc, tc_Arguments = args\<rparr> # calls, w2))"

text \<open>The streamed call to the backend: its status, the bytes of its body and the error the reading of it
  ends with, or the error of the transport.\<close>

type_synonym 'w stream_backend = "string \<Rightarrow> obj \<Rightarrow> 'w \<Rightarrow> (string + int \<times> string \<times> string option) \<times> 'w"

definition backendStream ::
    "'w stream_backend \<Rightarrow> string \<Rightarrow> obj \<Rightarrow> 'w \<Rightarrow> (string + string \<times> string option) \<times> 'w" where
  "backendStream transport url body w =
     (let (answer, w1) = transport (trim_suffix url ''/'' @ ''/v1/chat/completions'') body w in
      (case answer of
         Inl e \<Rightarrow> Inl (''toolproxy: backend request: '' @ e)
       | Inr (status, raw, err) \<Rightarrow>
           if status < 200 \<or> status \<ge> 300 then Inl (backend_error_text status (take (64 * 1024) raw))
           else Inr (raw, err), w1))"

definition streamRound ::
    "'w stream_backend \<Rightarrow> 'w proxy \<Rightarrow> sseOut \<Rightarrow> string \<Rightarrow> obj \<Rightarrow> 'w \<Rightarrow> (string + roundResult) \<times> sseOut \<times> 'w" where
  "streamRound transport px out url body w =
     (case backendStream transport url body w of
        (Inl e, w1) \<Rightarrow> (Inl e, out, w1)
      | (Inr (raw, err), w1) \<Rightarrow>
          let (ls, err) = scan_lines maxSSELine raw err;
              (st, stopped) = read_lines (px_parse px) ls (new_state out)
          in if \<not> stopped \<and> err \<noteq> None
             then (Inl (''toolproxy: read backend stream: '' @ the err), st_out st, w1)
             else
               let pending = cg_pending (st_gate st);
                   out1 = (if pending \<noteq> [] then sse_delta pending [] (st_out st) else st_out st);
                   (calls, w2) = finish_calls (px_fresh px) (map snd (sort_key fst (st_calls st))) w1
               in (Inr \<lparr>rn_content = st_content st, rn_reasoning = st_reasoning st, rn_toolCalls = calls,
                        rn_finishReason = st_finishReason st, rn_usage = st_usage st, rn_terminal = st_terminal st,
                        rn_forwarded = st_forwarded st \<or> pending \<noteq> [], rn_held = cg_captured (st_gate st)\<rparr>,
                   out1, w2))"

section \<open>The streamed loop\<close>

definition addUsage :: "usage option \<Rightarrow> usage option \<Rightarrow> usage option" where
  "addUsage a b =
     (case (a, b) of
        (None, b) \<Rightarrow> b
      | (a, None) \<Rightarrow> a
      | (Some a, Some b) \<Rightarrow>
          Some \<lparr>ug_PromptTokens = ug_PromptTokens a + ug_PromptTokens b,
                ug_CompletionTokens = ug_CompletionTokens a + ug_CompletionTokens b,
                ug_TotalTokens = ug_TotalTokens a + ug_TotalTokens b,
                ug_RespTokPerSec = ug_RespTokPerSec b\<rparr>)"

definition usage_json :: "usage \<Rightarrow> json" where
  "usage_json u =
     JObj ([(''prompt_tokens'', JNum (of_int (ug_PromptTokens u))),
            (''completion_tokens'', JNum (of_int (ug_CompletionTokens u))),
            (''total_tokens'', JNum (of_int (ug_TotalTokens u)))]
           @ (case ug_RespTokPerSec u of None \<Rightarrow> [] | Some r \<Rightarrow> [(''response_token/s'', JNum r)]))"

text \<open>The body of a streamed round.\<close>

definition stream_body :: "obj \<Rightarrow> json list \<Rightarrow> json list \<Rightarrow> json \<Rightarrow> obj" where
  "stream_body body messages allTools toolChoice =
     (let so = (case lookup body ''stream_options'' of Some (JObj so) \<Rightarrow> so | _ \<Rightarrow> [])
      in store ''stream_options'' (JObj (store ''include_usage'' (JBool True) so))
           (store ''stream'' (JBool True)
             (store ''tool_choice'' toolChoice
               (store ''tools'' (JArr allTools) (store ''messages'' (JArr messages) body)))))"

fun replay :: "usage option \<Rightarrow> obj list \<Rightarrow> sseOut \<Rightarrow> bool \<times> sseOut" where
  "replay tot [] out = (False, out)"
| "replay tot (m # ms) out =
     (let (m1, here) =
            (case (lookup m ''usage'', tot) of
               (Some v, Some u) \<Rightarrow> (store ''usage'' (usage_json u) m, True)
             | _ \<Rightarrow> (m, False));
          (later, out1) = replay tot ms (sse_raw (SSETerminal m1) out)
      in (here \<or> later, out1))"

definition finishStream :: "sseOut \<Rightarrow> roundResult \<Rightarrow> usage option \<Rightarrow> sseOut" where
  "finishStream out rr tot =
     (let (usageSent, out1) = replay tot (rn_terminal rr) out;
          out2 = (if length (rn_terminal rr) = 0 then sse_raw (SSEDelta [] [] [] ''stop'') out1 else out1);
          out3 = (if \<not> usageSent \<and> tot \<noteq> None then sse_raw (SSEUsage (the tot)) out2 else out2)
      in sse_raw SSEDone out3)"

text \<open>What the client gets: a plain error, or a stream.\<close>

datatype stream_reply = Refused nat string | Streamed sseOut

definition fail_stream :: "string \<Rightarrow> sseOut \<Rightarrow> stream_reply" where
  "fail_stream e out =
     Streamed (sse_raw SSEDone (sse_raw (SSEDelta [] (''Error: '' @ e) [] ''stop'')
       (sse_raw (SSEDelta ''assistant'' [] [] []) out)))"

record 'w streamLoop =
  sl_messages :: "json list"
  sl_stats :: toolStats
  sl_total :: "usage option"
  sl_lastForwarded :: bool
  sl_out :: sseOut
  sl_sent :: "obj list"
  sl_world :: 'w

text \<open>One round, with the answer when it is the last one. \<open>i\<close> and \<open>model\<close> head every chunk.\<close>

definition stream_step ::
    "'w stream_backend \<Rightarrow> 'w proxy \<Rightarrow> string \<Rightarrow> string \<Rightarrow> string \<Rightarrow> obj \<Rightarrow> json list \<Rightarrow> json
     \<Rightarrow> 'w streamLoop \<Rightarrow> stream_reply option \<times> 'w streamLoop" where
  "stream_step transport px i model url body allTools toolChoice sl =
     (let sent = stream_body body (sl_messages sl) allTools toolChoice;
          (result, out, w1) = streamRound transport px (sl_out sl) url sent (sl_world sl);
          sl1 = sl\<lparr>sl_out := out, sl_sent := sl_sent sl @ [sent], sl_world := w1\<rparr> in
      case result of
        Inl e \<Rightarrow> (Some (fail_stream e out), sl1)
      | Inr rr \<Rightarrow>
          let tot = addUsage (sl_total sl) (rn_usage rr);
              (calls, w2) =
                (if length (rn_toolCalls rr) = 0 \<and> rn_held rr \<noteq> []
                 then extractToolCallsFromContent (px_parse px) (px_raw px) (px_fresh px) (rn_held rr) w1
                 else (rn_toolCalls rr, w1));
              prose = length (rn_toolCalls rr) = 0 \<and> rn_held rr \<noteq> [] \<and> length calls = 0;
              out1 = (if prose then sse_delta (rn_held rr) [] out else out);
              forwarded = rn_forwarded rr \<or> prose;
              clean = snd (extractThinking (stripToolCallTags (rn_content rr)));
              sl2 = sl1\<lparr>sl_total := tot, sl_lastForwarded := forwarded, sl_out := out1, sl_world := w2\<rparr>
          in if length calls = 0 then
               let final = \<lparr>lp_outcome = OutcomeFinal, lp_content = clean, lp_reasoning = rn_reasoning rr,
                            lp_toolCalls = [], lp_usage = None, lp_messages = [],
                            lp_finishReason = rn_finishReason rr, lp_tools = sl_stats sl,
                            lp_lastRaw = \<lparr>ri_finishReason = rn_finishReason rr,
                                          ri_completionTokens = usageCompletionTokens (rn_usage rr),
                                          ri_hadToolCalls = False, ri_hadReasoning = rn_reasoning rr \<noteq> [],
                                          ri_contentLen = length clean\<rparr>\<rparr>
               in if \<not> started out1 \<and> emptyAnswer final
                  then (Some (Refused 502 (emptyAnswerMessage final)), sl2)
                  else (Some (Streamed (finishStream out1 rr tot)), sl2)
             else if \<exists>c \<in> set calls. \<not> Has (px_tools px) (tc_Name c) then
               (Some (Streamed (sse_raw SSEDone (sse_raw
                  (SSECompletion (newChatCompletion i model (if forwarded then [] else clean) [] calls tot ''tool_calls''))
                  out1))), sl2)
             else
               let (stats, messages, w3) =
                     executeProxyCalls px calls (sl_stats sl) (sl_messages sl @ [assistantToolCallMessage clean calls]) w2
               in (None, sl2\<lparr>sl_messages := messages, sl_stats := stats, sl_world := w3\<rparr>))"

text \<open>The content of the message about too many rounds looks at the tool stats only.\<close>

definition give_up :: "'w streamLoop \<Rightarrow> stream_reply" where
  "give_up sl =
     (let text = maxRoundsContent \<lparr>lp_outcome = OutcomeFinal, lp_content = [], lp_reasoning = [], lp_toolCalls = [],
                    lp_usage = None, lp_messages = [], lp_finishReason = [], lp_tools = sl_stats sl,
                    lp_lastRaw = no_raw\<rparr>;
          out1 = (if sl_lastForwarded sl then sl_out sl else sse_delta text [] (sl_out sl));
          out2 = sse_raw (SSEDelta [] [] [] ''stop'') out1;
          out3 = (case sl_total sl of None \<Rightarrow> out2 | Some u \<Rightarrow> sse_raw (SSEUsage u) out2)
      in Streamed (sse_raw SSEDone out3))"

fun stream_from ::
    "'w stream_backend \<Rightarrow> 'w proxy \<Rightarrow> string \<Rightarrow> string \<Rightarrow> string \<Rightarrow> obj \<Rightarrow> json list \<Rightarrow> json
     \<Rightarrow> nat \<Rightarrow> 'w streamLoop \<Rightarrow> stream_reply \<times> 'w streamLoop" where
  "stream_from transport px i model url body allTools toolChoice 0 sl = (give_up sl, sl)"
| "stream_from transport px i model url body allTools toolChoice (Suc n) sl =
     (case stream_step transport px i model url body allTools toolChoice sl of
        (Some reply, sl1) \<Rightarrow> (reply, sl1)
      | (None, sl1) \<Rightarrow> stream_from transport px i model url body allTools toolChoice n sl1)"

definition runToolLoopStreaming ::
    "'w stream_backend \<Rightarrow> 'w proxy \<Rightarrow> string \<Rightarrow> string \<Rightarrow> obj \<Rightarrow> json list \<Rightarrow> json list \<Rightarrow> json \<Rightarrow> 'w
     \<Rightarrow> stream_reply \<times> 'w streamLoop" where
  "runToolLoopStreaming transport px url model body messages allTools toolChoice w =
     (case px_fresh px w of
        (x, w1) \<Rightarrow>
          stream_from transport px (''chatcmpl-'' @ x) model url body allTools toolChoice (px_maxToolRounds px)
            \<lparr>sl_messages = messages, sl_stats = no_stats, sl_total = None, sl_lastForwarded = False,
             sl_out = newSSEOut, sl_sent = [], sl_world = w1\<rparr>)"

section \<open>What a round forwards\<close>

fun sse_text :: "sse \<Rightarrow> string" where
  "sse_text (SSEDelta role content reasoning finish) = content"
| "sse_text e = []"

fun sse_reasoning :: "sse \<Rightarrow> string" where
  "sse_reasoning (SSEDelta role content reasoning finish) = reasoning"
| "sse_reasoning e = []"

definition stream_text :: "sseOut \<Rightarrow> string" where "stream_text out = concat (map sse_text (so_events out))"

definition stream_reasoning :: "sseOut \<Rightarrow> string" where
  "stream_reasoning out = concat (map sse_reasoning (so_events out))"

text \<open>The chunks of a stream: the lines that decode, up to the end marker.\<close>

fun stream_chunks :: "(string \<Rightarrow> json option) \<Rightarrow> string list \<Rightarrow> streamChunk list" where
  "stream_chunks parse [] = []"
| "stream_chunks parse (l # ls) =
     (case line_data l of
        None \<Rightarrow> stream_chunks parse ls
      | Some data \<Rightarrow>
          if data = ''[DONE]'' then []
          else (case Option.bind (parse data) decode_chunk of
                  None \<Rightarrow> stream_chunks parse ls
                | Some ch \<Rightarrow> ch # stream_chunks parse ls))"

definition written_content :: "streamChunk list \<Rightarrow> string" where
  "written_content chs = concat (map (\<lambda>c. delta_content (sc_Delta c)) (concat (map sk_Choices chs)))"

definition written_reasoning :: "streamChunk list \<Rightarrow> string" where
  "written_reasoning chs = concat (map (\<lambda>c. delta_reasoning (sc_Delta c)) (concat (map sk_Choices chs)))"

definition state_at :: "sseOut \<Rightarrow> string \<Rightarrow> string \<Rightarrow> streamState \<Rightarrow> bool" where
  "state_at out content reasoning st \<longleftrightarrow>
     st_content st = content \<and> st_reasoning st = reasoning
     \<and> stream_reasoning (st_out st) = stream_reasoning out @ reasoning
     \<and> (\<exists>fwd. stream_text (st_out st) = stream_text out @ fwd \<and> gate_at content fwd (st_gate st)
          \<and> (st_forwarded st \<longleftrightarrow> fwd \<noteq> []))"

lemma sse_delta_text [simp]:
  "stream_text (sse_delta c r out) = stream_text out @ c"
  "stream_reasoning (sse_delta c r out) = stream_reasoning out @ r"
  by (auto simp: sse_delta_def sse_raw_def stream_text_def stream_reasoning_def)

lemma new_state_at: "state_at out [] [] (new_state out)"
  using gate_run_at[of "[]" "[]" empty_gate] by (auto simp: state_at_def new_state_def)

lemma choice_step_at:
  assumes "state_at out content reasoning st"
  shows "state_at out (content @ delta_content (sc_Delta c)) (reasoning @ delta_reasoning (sc_Delta c)) (choice_step c st)"
proof -
  obtain fwd where fwd: "stream_text (st_out st) = stream_text out @ fwd" "gate_at content fwd (st_gate st)"
      "st_forwarded st \<longleftrightarrow> fwd \<noteq> []"
    using assms by (auto simp: state_at_def)
  obtain new g where push: "gate_push (delta_content (sc_Delta c)) (st_gate st) = (new, g)" by fastforce
  show ?thesis
    using assms fwd gate_push_at[OF fwd(2) push] push
    by (auto simp: state_at_def choice_step_def Let_def intro!: exI[of _ "fwd @ new"])
qed

lemma choices_at:
  "state_at out content reasoning st \<Longrightarrow>
   state_at out (content @ concat (map (\<lambda>c. delta_content (sc_Delta c)) cs))
     (reasoning @ concat (map (\<lambda>c. delta_reasoning (sc_Delta c)) cs)) (fold choice_step cs st)"
proof (induction cs arbitrary: content reasoning st)
  case (Cons c cs)
  then show ?case using Cons.IH[OF choice_step_at[OF Cons.prems, of c]] by simp
qed simp

lemma state_at_fields [simp]:
  "state_at out content reasoning (st\<lparr>st_usage := u\<rparr>) = state_at out content reasoning st"
  "state_at out content reasoning (st\<lparr>st_terminal := t\<rparr>) = state_at out content reasoning st"
  by (simp_all add: state_at_def)

lemma chunk_step_at:
  assumes "state_at out content reasoning st"
  shows "state_at out (content @ written_content [ch]) (reasoning @ written_reasoning [ch]) (chunk_step data doc ch st)"
  using assms by (simp add: chunk_step_def Let_def written_content_def written_reasoning_def choices_at)

lemma read_lines_at:
  "state_at out content reasoning st \<Longrightarrow>
   state_at out (content @ written_content (stream_chunks parse ls)) (reasoning @ written_reasoning (stream_chunks parse ls))
     (fst (read_lines parse ls st))"
proof (induction parse ls st arbitrary: content reasoning rule: read_lines.induct)
  case (2 parse l ls st)
  show ?case
  proof (cases "line_data l")
    case (Some data)
    show ?thesis
    proof (cases "data = ''[DONE]'' \<or> Option.bind (parse data) decode_chunk = None")
      case True
      then show ?thesis using Some 2
        by (auto simp: bind_eq_None_conv written_content_def written_reasoning_def split: option.splits)
    next
      case False
      then obtain doc ch where d: "parse data = Some doc" "decode_chunk doc = Some ch" "data \<noteq> ''[DONE]''"
        by (auto simp: bind_eq_None_conv)
      show ?thesis
        using 2(4)[OF Some d(3,1,2) chunk_step_at[OF 2(5)]] Some d
        by (simp add: written_content_def written_reasoning_def)
    qed
  qed (use 2 in auto)
qed (simp add: written_content_def written_reasoning_def)

text \<open>The text of an answer before the first textual tool call in it.\<close>

definition prose_of :: "string \<Rightarrow> string" where
  "prose_of content = (case cut_str toolCallTag content of None \<Rightarrow> content | Some (before, after) \<Rightarrow> before)"

lemma gate_prose:
  assumes "gate_at content fwd g"
  shows "fwd @ cg_pending g = prose_of content" "prose_of content @ cg_captured g = content"
  using assms by (auto simp: gate_at_def prose_of_def split: option.splits dest: cut_str_Some)

text \<open>C12: What a streamed round writes to its client is the answer's prose and reasoning, each once and in
order, however the backend cut it into chunks: the content up to the first textual tool call, all of it when
there is none, and of a round whose stream breaks a prefix of that; the content kept back is exactly the rest.\<close>

theorem round_relays_prose:
  "case backendStream transport url body w of
     (Inl e, w1) \<Rightarrow> streamRound transport px out url body w = (Inl e, out, w1)
   | (Inr (raw, err), w1) \<Rightarrow>
       let chunks = stream_chunks (px_parse px) (fst (scan_lines maxSSELine raw err));
           content = written_content chunks in
       (case streamRound transport px out url body w of
          (Inr rr, out', w') \<Rightarrow>
            rn_content rr = content \<and> rn_reasoning rr = written_reasoning chunks
            \<and> stream_text out' = stream_text out @ prose_of content
            \<and> stream_reasoning out' = stream_reasoning out @ written_reasoning chunks
            \<and> prose_of content @ rn_held rr = content \<and> (rn_forwarded rr \<longleftrightarrow> prose_of content \<noteq> [])
        | (Inl e, out', w') \<Rightarrow>
            \<exists>relayed. stream_text out' = stream_text out @ relayed \<and> prefix relayed (prose_of content))"
proof (cases "backendStream transport url body w")
  case (Pair answer w1)
  show ?thesis
  proof (cases answer)
    case (Inl e)
    then show ?thesis using Pair by (simp add: streamRound_def)
  next
    case (Inr re)
    obtain raw err where re: "re = (raw, err)" by fastforce
    obtain ls err1 where ls: "scan_lines maxSSELine raw err = (ls, err1)" by fastforce
    obtain st stopped where st: "read_lines (px_parse px) ls (new_state out) = (st, stopped)" by fastforce
    let ?chs = "stream_chunks (px_parse px) ls"
    have "state_at out (written_content ?chs) (written_reasoning ?chs) st"
      using read_lines_at[OF new_state_at, where parse = "px_parse px" and ls = ls and out = out] st by simp
    then obtain fwd where fwd: "stream_text (st_out st) = stream_text out @ fwd"
        "gate_at (written_content ?chs) fwd (st_gate st)" "st_forwarded st \<longleftrightarrow> fwd \<noteq> []"
        "st_content st = written_content ?chs" "st_reasoning st = written_reasoning ?chs"
        "stream_reasoning (st_out st) = stream_reasoning out @ written_reasoning ?chs"
      by (auto simp: state_at_def)
    note prose = gate_prose[OF fwd(2)]
    show ?thesis
      using fwd prose
      by (auto simp: streamRound_def Pair Inr re ls st Let_def prefix_def simp flip: prose(1) split: prod.splits)
  qed
qed

section \<open>How a stream ends\<close>

definition no_done :: "sseOut \<Rightarrow> bool" where "no_done out \<longleftrightarrow> SSEDone \<notin> set (so_events out)"

lemma sse_raw_no_done [simp]: "no_done (sse_raw e out) \<longleftrightarrow> e \<noteq> SSEDone \<and> no_done out"
  by (auto simp: no_done_def sse_raw_def)

lemma sse_delta_no_done [simp]: "no_done (sse_delta c r out) \<longleftrightarrow> no_done out"
  by (auto simp: no_done_def sse_delta_def sse_raw_def)

lemma choices_no_done: "no_done (st_out (fold choice_step cs st)) \<longleftrightarrow> no_done (st_out st)"
  by (induction cs arbitrary: st) (auto simp: choice_step_def Let_def split: prod.splits)

lemma chunk_step_no_done [simp]: "no_done (st_out (chunk_step data doc ch st)) \<longleftrightarrow> no_done (st_out st)"
  by (simp add: chunk_step_def Let_def choices_no_done)

lemma read_lines_no_done: "no_done (st_out (fst (read_lines parse ls st))) \<longleftrightarrow> no_done (st_out st)"
  by (induction parse ls st rule: read_lines.induct) (auto split: option.splits)

lemma streamRound_no_done:
  assumes "streamRound transport px out url body w = (result, out', w')"
  shows "no_done out' \<longleftrightarrow> no_done out"
  using assms read_lines_no_done[of "px_parse px" _ "new_state out"]
  by (auto simp: streamRound_def Let_def new_state_def split: prod.splits sum.splits if_splits)
     (metis fst_conv)+

lemma replay_no_done [simp]: "no_done (snd (replay tot ms out)) \<longleftrightarrow> no_done out"
  by (induction tot ms out rule: replay.induct) (auto simp: Let_def split: prod.splits)

text \<open>A stream that has ended: one end marker, the last event, after something else.\<close>

definition ended_once :: "sseOut \<Rightarrow> bool" where
  "ended_once out \<longleftrightarrow> (\<exists>es. so_events out = es @ [SSEDone] \<and> SSEDone \<notin> set es \<and> es \<noteq> [])"

lemma ended_onceI: "no_done out \<Longrightarrow> started out \<Longrightarrow> ended_once (sse_raw SSEDone out)"
  by (auto simp: ended_once_def no_done_def started_def sse_raw_def)

lemma started_raw [simp]: "started (sse_raw e out)" by (simp add: started_def sse_raw_def)

lemma replay_started: "started out \<or> ms \<noteq> [] \<Longrightarrow> started (snd (replay tot ms out))"
  by (induction tot ms out rule: replay.induct) (auto simp: Let_def split: prod.splits)

lemma finishStream_ends: "no_done out \<Longrightarrow> ended_once (finishStream out rr tot)"
proof -
  assume "no_done out"
  then show ?thesis
    using replay_no_done[of tot "rn_terminal rr" out] replay_started[of out "rn_terminal rr" tot]
    by (cases "replay tot (rn_terminal rr) out") (auto simp: finishStream_def intro!: ended_onceI)
qed

definition proper_reply :: "stream_reply \<Rightarrow> sseOut \<Rightarrow> bool" where
  "proper_reply reply out \<longleftrightarrow>
     (case reply of
        Refused status message \<Rightarrow> status = 502 \<and> trim_space message \<noteq> [] \<and> \<not> started out
      | Streamed out' \<Rightarrow> ended_once out')"

lemma emptyAnswerMessage_says: "trim_space (emptyAnswerMessage r) \<noteq> []"
  by (simp add: emptyAnswerMessage_def Let_def trim_space_Nil is_space_def)

lemma stream_step_proper:
  assumes "stream_step transport px i model url body allTools toolChoice sl = (reply, sl')" "no_done (sl_out sl)"
  shows "(case reply of None \<Rightarrow> no_done (sl_out sl') | Some r \<Rightarrow> proper_reply r (sl_out sl'))"
proof -
  obtain result out w1 where round:
    "streamRound transport px (sl_out sl) url (stream_body body (sl_messages sl) allTools toolChoice) (sl_world sl)
       = (result, out, w1)"
    by (metis prod_cases3)
  have nd: "no_done out" using streamRound_no_done[OF round] assms(2) by simp
  show ?thesis
    using assms(1) nd
    by (auto simp: stream_step_def Let_def round proper_reply_def fail_stream_def emptyAnswerMessage_says finishStream_ends
        intro!: ended_onceI split: sum.splits prod.splits if_splits)
qed

text \<open>C11: A request through the streamed tool loop gets either a 502 with a message, with nothing of a stream
written, or a stream with something in it that ends with its only end marker; failures of the backend in the
middle, tool calls handed back and the end of the rounds included.\<close>

theorem stream_ends_once:
  "(let (reply, sl) = runToolLoopStreaming transport px url model body messages allTools toolChoice w
    in proper_reply reply (sl_out sl))"
proof -
  have "proper_reply reply (sl_out sl')"
    if "stream_from transport px i model url body allTools toolChoice n sl = (reply, sl')" "no_done (sl_out sl)"
    for i n sl reply sl'
    using that
  proof (induction n arbitrary: sl)
    case 0
    then show ?case
      by (auto simp: give_up_def Let_def proper_reply_def intro!: ended_onceI split: option.splits)
  next
    case (Suc n)
    obtain r sl1 where s: "stream_step transport px i model url body allTools toolChoice sl = (r, sl1)" by fastforce
    show ?case
      using stream_step_proper[OF s Suc.prems(2)] Suc.IH[of sl1] Suc.prems(1) s by (auto split: option.splits)
  qed
  moreover have "no_done newSSEOut" by (simp add: no_done_def newSSEOut_def)
  ultimately show ?thesis
    by (auto simp: runToolLoopStreaming_def split: prod.splits)
qed


end
