(* ===== verification/Auto_Router.thy ===== *)
theory Auto_Router
  imports Tool_Stream
begin

text \<open>
  \<^verbatim>\<open>internal/toolproxy/autorouter.go\<close>: the classifier behind the model names \<open>auto\<close>, \<open>auto-free\<close> and
  \<open>auto-full\<close>. It embeds the last user message, compares it with the embeddings of four categories and
  answers with a name the router resolves.

  A \<open>float64\<close> is a rational, rounded to 53 bits after every operation (\<open>fl\<close>); its range, infinities
  and NaN are left out. The square root of the library is a parameter. Whether a name is routable does not
  change while one request is classified. Log lines are left out.
\<close>

section \<open>Rounding\<close>

function bits :: "int \<Rightarrow> nat" where
  "bits n = (if n \<le> 0 then 0 else Suc (bits (n div 2)))"
  by pat_completeness auto
termination
  by (relation "measure nat") auto

declare bits.simps [simp del]

text \<open>\<open>x * 2 ^ e\<close>.\<close>

definition scaled :: "rat \<Rightarrow> int \<Rightarrow> rat" where
  "scaled x e = (if e \<ge> 0 then x * 2 ^ nat e else x / 2 ^ nat (- e))"

text \<open>The exponent of a positive number.\<close>

definition exponent_of :: "rat \<Rightarrow> int" where
  "exponent_of x =
     (let (p, q) = quotient_of x; e = int (bits p) - int (bits q)
      in if scaled x (- e) \<ge> 1 then e else e - 1)"

definition round_even :: "rat \<Rightarrow> int" where
  "round_even x =
     (let n = \<lfloor>x\<rfloor>; d = x - of_int n
      in if d < 1 / 2 then n else if d > 1 / 2 then n + 1 else if even n then n else n + 1)"

text \<open>A number as a \<open>float64\<close>: 53 bits, to nearest, ties to even.\<close>

definition fl :: "rat \<Rightarrow> rat" where
  "fl x =
     (if x = 0 then 0
      else let e = exponent_of \<bar>x\<bar>; y = scaled (of_int (round_even (scaled \<bar>x\<bar> (52 - e)))) (e - 52)
           in if x < 0 then - y else y)"

lemma scaled_nonneg: "0 \<le> x \<Longrightarrow> 0 \<le> scaled x e"
  by (simp add: scaled_def)

lemma round_even_nonneg: "0 \<le> x \<Longrightarrow> 0 \<le> round_even x"
  by (auto simp: round_even_def Let_def intro: add_nonneg_nonneg)

lemma fl_nonneg: "0 \<le> x \<Longrightarrow> 0 \<le> fl x"
  by (auto simp: fl_def Let_def intro!: scaled_nonneg round_even_nonneg)

section \<open>The tiers\<close>

datatype AutoTier = TierAuto | TierFree | TierFull

definition autoTier :: "string \<Rightarrow> AutoTier option" where
  "autoTier model =
     (let t = trim_prefix model ''openai/'' in
      if t = ''auto'' then Some TierAuto
      else if t = ''auto-free'' then Some TierFree
      else if t = ''auto-full'' then Some TierFull
      else None)"

record routeCategory =
  ca_alias :: string
  ca_desc :: string

definition routeCategories :: "routeCategory list" where
  "routeCategories =
     [\<lparr>ca_alias = ''coder'',
       ca_desc = ''Write code, debug, fix bugs, refactor, implement features, ''
         @ ''programming, software development, functions, classes, algorithms''\<rparr>,
      \<lparr>ca_alias = ''thinker'',
       ca_desc = ''Explain in depth, analyze, reason about, compare tradeoffs, ''
         @ ''plan architecture, think through, complex analysis, strategy''\<rparr>,
      \<lparr>ca_alias = ''research'',
       ca_desc = ''Search the web, find current information, latest news, ''
         @ ''look up, what happened, recent events, fact check''\<rparr>,
      \<lparr>ca_alias = ''vision'',
       ca_desc = ''Describe this image, what do you see, screenshot, photo, ''
         @ ''picture, visual, diagram, chart, OCR, read this image''\<rparr>]"

definition hardThreshold :: rat where "hardThreshold = fl (45 / 100)"
definition veryHardThreshold :: rat where "veryHardThreshold = fl (70 / 100)"

definition complexityKeywords :: "string list" where
  "complexityKeywords =
     [''refactor'', ''debug'', ''fix bug'', ''implement'', ''migrate'',
      ''redesign'', ''optimize'', ''rewrite'', ''multi-file'', ''across files'',
      ''architecture'', ''integration'', ''end-to-end'', ''full-stack'',
      ''complex'', ''large-scale'', ''entire codebase'', ''comprehensive'']"

definition escalationModel :: string where "escalationModel = ''opus''"

section \<open>Reading the conversation\<close>

text \<open>The parts of a multimodal message: an image decides, of texts the last one counts.\<close>

fun scan_parts :: "json list \<Rightarrow> string \<Rightarrow> string \<times> bool" where
  "scan_parts [] text = (text, False)"
| "scan_parts (JObj p # ps) text =
     (case lookup p ''type'' of
        Some (JStr t) \<Rightarrow>
          if t = ''image_url'' \<or> t = ''image'' then ([], True)
          else if t = ''text'' then
            scan_parts ps (case lookup p ''text'' of Some (JStr s) \<Rightarrow> s | _ \<Rightarrow> text)
          else scan_parts ps text
      | _ \<Rightarrow> scan_parts ps text)"
| "scan_parts (v # ps) text = scan_parts ps text"

fun last_user :: "json list \<Rightarrow> string \<times> bool" where
  "last_user [] = ([], False)"
| "last_user (JObj m # ms) =
     (if lookup m ''role'' = Some (JStr ''user'') then
        (case lookup m ''content'' of
           Some (JStr c) \<Rightarrow> (c, False)
         | Some (JArr parts) \<Rightarrow> scan_parts parts []
         | _ \<Rightarrow> ([], False))
      else last_user ms)"
| "last_user (v # ms) = last_user ms"

definition lastUserMessage :: "json list \<Rightarrow> string \<times> bool" where
  "lastUserMessage messages = last_user (rev messages)"

fun content_chars :: "json option \<Rightarrow> nat" where
  "content_chars (Some (JStr c)) = length c"
| "content_chars (Some (JArr parts)) =
     sum_list (map (\<lambda>p. case p of JObj kvs \<Rightarrow> (case lookup kvs ''text'' of Some (JStr t) \<Rightarrow> length t | _ \<Rightarrow> 0)
                                 | _ \<Rightarrow> 0) parts)"
| "content_chars v = 0"

definition transcriptChars :: "json list \<Rightarrow> nat" where
  "transcriptChars messages =
     sum_list (map (\<lambda>m. case m of JObj kvs \<Rightarrow> content_chars (lookup kvs ''content'') | _ \<Rightarrow> 0) messages)"

section \<open>Complexity\<close>

text \<open>\<open>strings.Count\<close> of a separator that is not empty.\<close>

function count_str :: "string \<Rightarrow> string \<Rightarrow> nat" where
  "count_str sep s =
     (if sep = [] then 0
      else case cut_str sep s of None \<Rightarrow> 0 | Some (a, b) \<Rightarrow> Suc (count_str sep b))"
  by pat_completeness auto
termination
  by (relation "measure (\<lambda>(sep, s). length s)") (auto dest!: cut_str_shorter simp flip: length_greater_0_conv)

declare count_str.simps [simp del]

definition size_score :: "nat \<Rightarrow> rat" where
  "size_score sizeChars =
     (if sizeChars > 20000 then fl (45 / 100)
      else if sizeChars > 500 then fl (3 / 10)
      else if sizeChars > 200 then fl (15 / 100)
      else 0)"

definition keyword_score :: "nat \<Rightarrow> rat" where
  "keyword_score matches = min (fl (of_nat matches * fl (15 / 100))) (fl (4 / 10))"

definition fileExtensions :: "string list" where
  "fileExtensions = [''.py'', ''.ts'', ''.js'', ''.go'', ''.rs'', ''.java'', ''.tsx'', ''.jsx'']"

definition scoreComplexity :: "string \<Rightarrow> nat \<Rightarrow> rat" where
  "scoreComplexity text sizeChars =
     (let lower = to_lower text;
          matches = length (filter (contains_str lower) complexityKeywords);
          s1 = fl (size_score sizeChars + keyword_score matches);
          s2 = (if contains_str text (replicate 3 CHR 0x60) then fl (s1 + fl (2 / 10)) else s1);
          fileRefs = sum_list (map (\<lambda>ext. count_str ext lower) fileExtensions);
          s3 = (if fileRefs \<ge> 2 then fl (s2 + fl (2 / 10)) else s2)
      in min s3 1)"

section \<open>Runes\<close>

definition cont_byte :: "char \<Rightarrow> bool" where "cont_byte c \<longleftrightarrow> (0x80 :: nat) \<le> of_char c \<and> of_char c \<le> (0xBF :: nat)"

text \<open>How many bytes the first rune takes; none when they do not encode one.\<close>

definition rune_width :: "string \<Rightarrow> nat option" where
  "rune_width s =
     (case s of
        [] \<Rightarrow> None
      | c # r \<Rightarrow>
          let b = (of_char c :: nat);
              b1 = (if r = [] then 0 else of_char (hd r) :: nat);
              conts = length (takeWhile cont_byte (take 3 r))
          in if b < 0x80 then Some 1
             else if 0xC2 \<le> b \<and> b \<le> 0xDF \<and> conts \<ge> 1 then Some 2
             else if 0xE0 \<le> b \<and> b \<le> 0xEF \<and> conts \<ge> 2
               \<and> (b = 0xE0 \<longrightarrow> b1 \<ge> 0xA0) \<and> (b = 0xED \<longrightarrow> b1 \<le> 0x9F) then Some 3
             else if 0xF0 \<le> b \<and> b \<le> 0xF4 \<and> conts \<ge> 3
               \<and> (b = 0xF0 \<longrightarrow> b1 \<ge> 0x90) \<and> (b = 0xF4 \<longrightarrow> b1 \<le> 0x8F) then Some 4
             else None)"

text \<open>The runes of a text, each in its encoding; a byte that belongs to none becomes U+FFFD.\<close>

function runes :: "string \<Rightarrow> string list" where
  "runes [] = []"
| "runes (c # s) =
     (case rune_width (c # s) of
        Some (Suc n) \<Rightarrow> (c # take n s) # runes (drop n s)
      | _ \<Rightarrow> [CHR 0xEF, CHR 0xBF, CHR 0xBD] # runes s)"
  by pat_completeness auto
termination
  by (relation "measure length") auto

declare runes.simps(2) [simp del]

definition truncateRunes :: "string \<Rightarrow> nat \<Rightarrow> string" where
  "truncateRunes s n = (if length (runes s) \<le> n then s else concat (take n (runes s)))"

section \<open>Embeddings\<close>

text \<open>The elements of a JSON array as floats.\<close>

fun decode_floats :: "json list \<Rightarrow> rat list option" where
  "decode_floats [] = Some []"
| "decode_floats (JNum x # vs) = map_option (Cons (fl x)) (decode_floats vs)"
| "decode_floats (JNull # vs) = map_option (Cons 0) (decode_floats vs)"
| "decode_floats (v # vs) = None"

definition decode_embedding :: "(string \<times> json) list \<Rightarrow> rat list option" where
  "decode_embedding kvs = Option.bind (decode_array [] (struct_fields kvs ''embedding'')) decode_floats"

definition decode_embeddings :: "json \<Rightarrow> rat list list option" where
  "decode_embeddings doc =
     (case doc of
        JObj kvs \<Rightarrow> Option.bind (decode_array [] (struct_fields kvs ''data'')) (decode_structs decode_embedding)
      | JNull \<Rightarrow> Some []
      | _ \<Rightarrow> None)"

record 'w AutoRouter =
  ar_embedURL :: string
  ar_embedModel :: string
  ar_client :: "string \<Rightarrow> obj \<Rightarrow> 'w \<Rightarrow> (string + int \<times> string) \<times> 'w"
  ar_parse :: "string \<Rightarrow> json option"
  ar_sqrt :: "rat \<Rightarrow> rat"
  ar_routable :: "(string \<Rightarrow> bool) option"
  ar_embeddings :: "rat list gomap option"

definition getEmbedding :: "'w AutoRouter \<Rightarrow> string \<Rightarrow> 'w \<Rightarrow> (string + rat list) \<times> 'w" where
  "getEmbedding ar text w =
     (let (answer, w1) =
            ar_client ar (trim_suffix (ar_embedURL ar) ''/'' @ ''/v1/embeddings'')
              [(''model'', JStr (ar_embedModel ar)), (''input'', JStr text)] w in
      (case answer of
         Inl e \<Rightarrow> Inl e
       | Inr (status, raw) \<Rightarrow>
           if status < 200 \<or> status \<ge> 300 then
             Inl (''embeddings HTTP '' @ show_int status @ '': ''
                  @ (if length raw > 200 then take 200 raw @ ellipsis else raw))
           else
             (case Option.bind (ar_parse ar raw) decode_embeddings of
                None \<Rightarrow> Inl ''decode embeddings response''
              | Some [] \<Rightarrow> Inl ''embeddings response had no vector''
              | Some (v # vs) \<Rightarrow> if length v = 0 then Inl ''embeddings response had no vector'' else Inr v), w1))"

definition Ready :: "'w AutoRouter \<Rightarrow> bool" where
  "Ready ar \<longleftrightarrow> (case ar_embeddings ar of None \<Rightarrow> False | Some e \<Rightarrow> length e > 0)"

fun embed_all ::
    "'w AutoRouter \<Rightarrow> routeCategory list \<Rightarrow> rat list gomap \<Rightarrow> string option \<Rightarrow> 'w
     \<Rightarrow> rat list gomap \<times> string option \<times> 'w" where
  "embed_all ar [] embeddings firstErr w = (embeddings, firstErr, w)"
| "embed_all ar (cat # cats) embeddings firstErr w =
     (case getEmbedding ar (ca_desc cat) w of
        (Inl e, w1) \<Rightarrow> embed_all ar cats embeddings (if firstErr = None then Some e else firstErr) w1
      | (Inr emb, w1) \<Rightarrow> embed_all ar cats (store (ca_alias cat) emb embeddings) firstErr w1)"

text \<open>The error, if any, and the router with what it published.\<close>

definition Initialize :: "'w AutoRouter \<Rightarrow> 'w \<Rightarrow> string option \<times> 'w AutoRouter \<times> 'w" where
  "Initialize ar w =
     (case embed_all ar routeCategories [] None w of
        (embeddings, firstErr, w1) \<Rightarrow>
          if length embeddings = 0 then
            (Some (case firstErr of
                     Some e \<Rightarrow> ''auto-router: no categories embedded: '' @ e
                   | None \<Rightarrow> ''auto-router: no active categories to embed''), ar, w1)
          else (None, ar\<lparr>ar_embeddings := Some embeddings\<rparr>, w1))"

text \<open>\<open>RunInit\<close>, cancelled while it waits after the last of so many attempts: the waits it started.\<close>

definition maxBackoff :: duration where "maxBackoff = 60 * second"

fun RunInit :: "nat \<Rightarrow> duration \<Rightarrow> 'w AutoRouter \<Rightarrow> 'w \<Rightarrow> duration list \<times> 'w AutoRouter \<times> 'w" where
  "RunInit 0 wait ar w = ([], ar, w)"
| "RunInit (Suc attempts) wait ar w =
     (case Initialize ar w of
        (None, ar1, w1) \<Rightarrow> ([], ar1, w1)
      | (Some e, ar1, w1) \<Rightarrow>
          (case RunInit attempts (if wait * 2 > maxBackoff then maxBackoff else wait * 2) ar1 w1 of
             (waits, ar2, w2) \<Rightarrow> (wait # waits, ar2, w2)))"

definition dot :: "rat list \<Rightarrow> rat list \<Rightarrow> rat" where
  "dot a b = foldl (\<lambda>acc (x, y). fl (acc + fl (x * y))) 0 (zip a b)"

definition cosineSimilarity :: "(rat \<Rightarrow> rat) \<Rightarrow> rat list \<Rightarrow> rat list \<Rightarrow> rat" where
  "cosineSimilarity sqrtf a b =
     (let normA = dot a a; normB = dot b b in
      if normA = 0 \<or> normB = 0 then 0
      else fl (dot a b / fl (sqrtf normA * sqrtf normB)))"

section \<open>The decision\<close>

definition canRoute :: "'w AutoRouter \<Rightarrow> string \<Rightarrow> bool" where
  "canRoute ar name \<longleftrightarrow> (case ar_routable ar of None \<Rightarrow> True | Some f \<Rightarrow> f name)"

definition firstRoutable :: "'w AutoRouter \<Rightarrow> string \<Rightarrow> string" where
  "firstRoutable ar preferred =
     (if canRoute ar preferred then preferred
      else case find (\<lambda>cat. canRoute ar (ca_alias cat)) routeCategories of
             Some cat \<Rightarrow> ca_alias cat
           | None \<Rightarrow> preferred)"

record tally =
  ty_bestRoutable :: string
  ty_bestRoutableScore :: rat

text \<open>One category; the best one regardless of availability is only logged.\<close>

definition tally_one :: "'w AutoRouter \<Rightarrow> rat list gomap \<Rightarrow> rat list \<Rightarrow> routeCategory \<Rightarrow> tally \<Rightarrow> tally" where
  "tally_one ar embeddings promptEmb cat ty =
     (case lookup embeddings (ca_alias cat) of
        None \<Rightarrow> ty
      | Some catEmb \<Rightarrow>
          let s = cosineSimilarity (ar_sqrt ar) promptEmb catEmb in
          if s > ty_bestRoutableScore ty \<and> canRoute ar (ca_alias cat)
          then \<lparr>ty_bestRoutable = ca_alias cat, ty_bestRoutableScore = s\<rparr> else ty)"

definition escalate :: "'w AutoRouter \<Rightarrow> AutoTier \<Rightarrow> string \<Rightarrow> nat \<Rightarrow> string \<Rightarrow> string" where
  "escalate ar tier userMsg sizeChars bestRoutable =
     (if bestRoutable = ''coder'' \<and> (tier = TierFree \<or> tier = TierFull) then
        let complexity = scoreComplexity userMsg sizeChars in
        if tier = TierFull \<and> complexity \<ge> veryHardThreshold \<and> canRoute ar escalationModel then escalationModel
        else if complexity \<ge> hardThreshold \<and> canRoute ar ''coder-hard'' then ''coder-hard''
        else bestRoutable
      else bestRoutable)"

definition Classify :: "'w AutoRouter \<Rightarrow> json list \<Rightarrow> AutoTier \<Rightarrow> 'w \<Rightarrow> string \<times> 'w" where
  "Classify ar messages tier w =
     (case ar_embeddings ar of
        None \<Rightarrow> (''coder'', w)
      | Some embeddings \<Rightarrow>
          if length embeddings = 0 then (''coder'', w)
          else
            let (userMsg, hasImage) = lastUserMessage messages; sizeChars = transcriptChars messages in
            if hasImage \<and> canRoute ar ''vision'' then (''vision'', w)
            else if userMsg = [] then (firstRoutable ar ''coder'', w)
            else
              (case getEmbedding ar (truncateRunes userMsg 500) w of
                 (Inl e, w1) \<Rightarrow> (firstRoutable ar ''coder'', w1)
               | (Inr promptEmb, w1) \<Rightarrow>
                   let ty = fold (tally_one ar embeddings promptEmb) routeCategories
                              \<lparr>ty_bestRoutable = [], ty_bestRoutableScore = -1\<rparr>;
                       bestRoutable = (if ty_bestRoutable ty = [] then firstRoutable ar ''coder''
                                       else ty_bestRoutable ty)
                   in (escalate ar tier userMsg sizeChars bestRoutable, w1)))"

section \<open>What it answers\<close>

definition names_of :: "AutoTier \<Rightarrow> string list" where
  "names_of tier =
     map ca_alias routeCategories
     @ (case tier of TierAuto \<Rightarrow> [] | TierFree \<Rightarrow> [''coder-hard''] | TierFull \<Rightarrow> [''coder-hard'', ''opus''])"

definition some_category_up :: "'w AutoRouter \<Rightarrow> bool" where
  "some_category_up ar \<longleftrightarrow> (\<exists>cat \<in> set routeCategories. canRoute ar (ca_alias cat))"

lemma coder_category: "''coder'' \<in> ca_alias ` set routeCategories" "''vision'' \<in> ca_alias ` set routeCategories"
  by (simp_all add: routeCategories_def)

definition answerable :: "'w AutoRouter \<Rightarrow> string \<Rightarrow> bool" where
  "answerable ar name \<longleftrightarrow>
     name \<in> ca_alias ` set routeCategories \<and> (if some_category_up ar then canRoute ar name else name = ''coder'')"

lemma firstRoutable_answerable: "answerable ar (firstRoutable ar ''coder'')"
proof (cases "canRoute ar ''coder''")
  case True
  then show ?thesis using coder_category(1) by (auto simp: firstRoutable_def answerable_def some_category_up_def)
next
  case False
  show ?thesis
  proof (cases "find (\<lambda>cat. canRoute ar (ca_alias cat)) routeCategories")
    case None
    then have "firstRoutable ar ''coder'' = ''coder''" by (simp add: firstRoutable_def)
    then show ?thesis
      using None coder_category(1) by (auto simp: answerable_def some_category_up_def find_None_iff)
  next
    case (Some cat)
    then have "cat \<in> set routeCategories" "canRoute ar (ca_alias cat)"
      by (auto simp: find_Some_iff)
    moreover have "firstRoutable ar ''coder'' = ca_alias cat" using False Some by (simp add: firstRoutable_def)
    ultimately show ?thesis by (auto simp: answerable_def some_category_up_def)
  qed
qed

lemma tally_answerable:
  assumes "ty_bestRoutable ty = [] \<or> answerable ar (ty_bestRoutable ty)" "set cats \<subseteq> set routeCategories"
  shows "ty_bestRoutable (fold (tally_one ar embeddings emb) cats ty) = []
    \<or> answerable ar (ty_bestRoutable (fold (tally_one ar embeddings emb) cats ty))"
  using assms
proof (induction cats arbitrary: ty)
  case (Cons cat cats)
  have "ty_bestRoutable (tally_one ar embeddings emb cat ty) = []
      \<or> answerable ar (ty_bestRoutable (tally_one ar embeddings emb cat ty))"
    using Cons.prems
    by (auto simp: tally_one_def Let_def answerable_def some_category_up_def split: option.splits if_splits)
  then show ?case using Cons by simp
qed simp

lemma escalate_within:
  "answerable ar name \<Longrightarrow>
   escalate ar tier userMsg sizeChars name \<in> set (names_of tier)
   \<and> (if some_category_up ar \<or> escalate ar tier userMsg sizeChars name \<noteq> ''coder''
      then canRoute ar (escalate ar tier userMsg sizeChars name) else True)"
  using coder_category
  by (cases tier) (auto simp: escalate_def answerable_def names_of_def Let_def escalationModel_def split: if_splits)

lemma auto_route_answers:
  "(let name = fst (Classify ar messages tier w) in
     name \<in> set (names_of tier)
     \<and> (if Ready ar then (if some_category_up ar \<or> name \<noteq> ''coder'' then canRoute ar name else True)
        else name = ''coder''))"
proof -
  have coder: "''coder'' \<in> set (names_of tier)" by (cases tier) (simp_all add: names_of_def routeCategories_def)
  have ok: "name \<in> set (names_of tier) \<and> (if some_category_up ar \<or> name \<noteq> ''coder'' then canRoute ar name else True)"
    if "answerable ar name" for name
    using that by (cases tier) (auto simp: answerable_def names_of_def split: if_splits)
  show ?thesis
  proof (cases "Ready ar")
    case False
    then show ?thesis using coder by (auto simp: Classify_def Ready_def Let_def split: option.splits)
  next
    case True
    then obtain embeddings where e: "ar_embeddings ar = Some embeddings" "length embeddings \<noteq> 0"
      by (auto simp: Ready_def split: option.splits)
    obtain userMsg hasImage where u: "lastUserMessage messages = (userMsg, hasImage)" by fastforce
    have vision: "answerable ar ''vision''" if "canRoute ar ''vision''"
      using that coder_category(2) by (auto simp: answerable_def some_category_up_def)
    have best: "answerable ar (if ty_bestRoutable ty = [] then firstRoutable ar ''coder'' else ty_bestRoutable ty)"
      if "ty = fold (tally_one ar embeddings emb) routeCategories \<lparr>ty_bestRoutable = [], ty_bestRoutableScore = -1\<rparr>"
      for ty emb
      using tally_answerable[of "\<lparr>ty_bestRoutable = [], ty_bestRoutableScore = -1\<rparr>" ar routeCategories embeddings emb]
        firstRoutable_answerable that by auto
    show ?thesis
      using True e u ok vision firstRoutable_answerable[of ar] escalate_within[OF best[OF refl]] coder
      by (simp add: Classify_def Let_def split: prod.splits sum.splits)
  qed
qed


section \<open>The best category\<close>

text \<open>The scores of the categories that have an embedding, and the first of the best ones that can be
  routed. A score of -1 or less never wins.\<close>

definition category_scores :: "'w AutoRouter \<Rightarrow> rat list gomap \<Rightarrow> rat list \<Rightarrow> (string \<times> rat) list" where
  "category_scores ar embeddings emb =
     List.map_filter
       (\<lambda>cat. map_option (\<lambda>e. (ca_alias cat, cosineSimilarity (ar_sqrt ar) emb e)) (lookup embeddings (ca_alias cat)))
       routeCategories"

definition eligible :: "'w AutoRouter \<Rightarrow> (string \<times> rat) list \<Rightarrow> (string \<times> rat) list" where
  "eligible ar scores = filter (\<lambda>(a, s). canRoute ar a \<and> s > -1) scores"

definition best_of :: "(string \<times> rat) list \<Rightarrow> string" where
  "best_of scores =
     (if scores = [] then [] else fst (hd (filter (\<lambda>(a, s). s = Max (snd ` set scores)) scores)))"

definition tally_score :: "'w AutoRouter \<Rightarrow> string \<times> rat \<Rightarrow> tally \<Rightarrow> tally" where
  "tally_score ar x ty =
     (if snd x > ty_bestRoutableScore ty \<and> canRoute ar (fst x)
      then \<lparr>ty_bestRoutable = fst x, ty_bestRoutableScore = snd x\<rparr> else ty)"

lemma tally_fold:
  "fold (tally_one ar embeddings emb) cats ty =
   fold (tally_score ar)
     (List.map_filter
       (\<lambda>cat. map_option (\<lambda>e. (ca_alias cat, cosineSimilarity (ar_sqrt ar) emb e)) (lookup embeddings (ca_alias cat)))
       cats) ty"
  by (induction cats arbitrary: ty)
    (auto simp: map_filter_simps tally_one_def tally_score_def Let_def split: option.splits)

lemma best_of_snoc:
  "best_of (xs @ [x]) =
     (if xs = [] \<or> snd x > Max (snd ` set xs) then fst x else best_of xs)"
proof (cases "xs = []")
  case False
  let ?M = "Max (snd ` set xs)"
  have fin: "finite (snd ` set xs)" "snd ` set xs \<noteq> {}" using False by auto
  have "?M \<in> snd ` set xs" using fin by (rule Max_in)
  then have some: "filter (\<lambda>(a, s). s = ?M) xs \<noteq> []" by (fastforce simp: filter_empty_conv)
  have m: "Max (snd ` set (xs @ [x])) = max (snd x) ?M" using fin by simp
  show ?thesis
  proof (cases "snd x > ?M")
    case True
    have "s \<noteq> snd x" if "(a, s) \<in> set xs" for a s
    proof -
      have "s \<in> snd ` set xs" using that by force
      then show ?thesis using Max_ge[OF fin(1)] True by fastforce
    qed
    then have "filter (\<lambda>(a, s). s = snd x) xs = []" by (auto simp: filter_empty_conv)
    moreover have "Max (snd ` set (xs @ [x])) = snd x" unfolding m using True by simp
    ultimately show ?thesis using True by (simp add: best_of_def case_prod_beta)
  next
    case False
    then have top: "Max (snd ` set (xs @ [x])) = ?M" unfolding m by simp
    have "best_of (xs @ [x]) = fst (hd (filter (\<lambda>(a, s). s = ?M) (xs @ [x])))"
      unfolding best_of_def top by simp
    also have "\<dots> = best_of xs" using some \<open>xs \<noteq> []\<close> by (simp add: best_of_def)
    finally have "best_of (xs @ [x]) = best_of xs" .
    moreover have "\<not> (xs = [] \<or> snd x > ?M)" using False \<open>xs \<noteq> []\<close> by blast
    ultimately show ?thesis by (simp only: if_False)
  qed
qed (simp add: best_of_def case_prod_beta)

lemma fold_tally_score:
  "(let ys = eligible ar xs; ty = fold (tally_score ar) xs \<lparr>ty_bestRoutable = [], ty_bestRoutableScore = -1\<rparr> in
     ty_bestRoutable ty = best_of ys
     \<and> ty_bestRoutableScore ty = (if ys = [] then -1 else Max (snd ` set ys)))"
proof (induction xs rule: rev_induct)
  case (snoc x xs)
  define ys where "ys = eligible ar xs"
  define ty where "ty = fold (tally_score ar) xs \<lparr>ty_bestRoutable = [], ty_bestRoutableScore = -1\<rparr>"
  have IH: "ty_bestRoutable ty = best_of ys" "ty_bestRoutableScore ty = (if ys = [] then -1 else Max (snd ` set ys))"
    using snoc.IH by (simp_all add: ys_def ty_def Let_def)
  have step: "fold (tally_score ar) (xs @ [x]) \<lparr>ty_bestRoutable = [], ty_bestRoutableScore = -1\<rparr> = tally_score ar x ty"
    by (simp add: ty_def)
  have el: "eligible ar (xs @ [x]) = (if canRoute ar (fst x) \<and> snd x > -1 then ys @ [x] else ys)"
    by (cases x) (simp add: eligible_def ys_def)
  have fin: "finite (snd ` set ys)" by simp
  define M where "M = Max (snd ` set ys)"
  have bound: "Max (snd ` set ys) > -1" if "ys \<noteq> []"
  proof -
    have "Max (snd ` set ys) \<in> snd ` set ys" using that by (intro Max_in) auto
    then show ?thesis by (auto simp: ys_def eligible_def)
  qed
  have new: "Max (snd ` set (ys @ [x])) = max (snd x) (Max (snd ` set ys))" if "ys \<noteq> []"
    using that fin by simp
  show ?case
    unfolding Let_def step el
    using IH bound new best_of_snoc[of ys x]
    by (cases "ys = []"; cases "snd x > M")
      (auto simp: tally_score_def max_def best_of_def[of "[]"] simp del: set_append simp flip: M_def)
qed (simp add: eligible_def best_of_def)

text \<open>Of the categories that can be routed right now the auto-router takes one whose embedding is the
closest to the prompt's, the first one declared among equals.\<close>

theorem auto_route_takes_best:
  "ty_bestRoutable (fold (tally_one ar embeddings emb) routeCategories
     \<lparr>ty_bestRoutable = [], ty_bestRoutableScore = -1\<rparr>)
   = best_of (eligible ar (category_scores ar embeddings emb))"
  using fold_tally_score[of ar "category_scores ar embeddings emb"]
  by (simp add: tally_fold category_scores_def Let_def)

section \<open>Complexity\<close>

text \<open>A request of a middling size with one keyword adds up to the hard threshold in decimal, and stays below
  it in \<open>float64\<close>: the sum of 0.3 and 0.15 is the number just under 0.45.\<close>

lemma one_keyword_stays_below:
  "scoreComplexity ''debug this'' 600 < hardThreshold \<and> (3 / 10 + 15 / 100 :: rat) = 45 / 100"
  by code_simp

lemma scoreComplexity_bounds: "0 \<le> scoreComplexity text n \<and> scoreComplexity text n \<le> 1"
proof -
  have "0 \<le> size_score n" "0 \<le> keyword_score m" for m
    by (auto simp: size_score_def keyword_score_def intro!: fl_nonneg mult_nonneg_nonneg)
  then show ?thesis
    by (auto simp: scoreComplexity_def Let_def intro!: fl_nonneg add_nonneg_nonneg)
qed

end
