(* ===== verification/Tool_Proxy.thy ===== *)
theory Tool_Proxy
  imports Auto_Router Forward
begin

text \<open>
  \<^verbatim>\<open>internal/toolproxy/resolve.go\<close> and \<^verbatim>\<open>proxy.go\<close>: the tool proxy as a server. It finds the registry entry a
  request names, and hands the request to the auto-router, to the entry's backend as it is, or to the tool
  loop. The router in front sends it the registry key of the entry it chose (\<open>buildResult\<close> of \<open>Resolve\<close>).

  A range over the registry follows the list that represents the map, which is any list with its entries.
  The transport of a forwarded request is the library's; what is modelled is the request it is given. The
  egress clients are not part of this theory.
\<close>

section \<open>Resolution\<close>

record toolResolveResult =
  tr_BackendURL :: string
  tr_BackendModel :: string
  tr_ResolvedFrom :: string
  tr_ModelID :: string
  tr_RequestDefaults :: obj

datatype tool_error =
    ToolEmptyModel
  | ToolExternal string string
  | ToolBuildFailed string config_error
  | ToolUnknownModel string

definition tool_error_text :: "tool_error \<Rightarrow> string" where
  "tool_error_text e =
     (case e of
        ToolEmptyModel \<Rightarrow> ''toolproxy: empty model''
      | ToolExternal i base \<Rightarrow>
          ''toolproxy: model '' @ quoted i @ '' is external (api_base='' @ base
            @ ''); the tool proxy is for local backends only''
      | ToolBuildFailed i err \<Rightarrow> ''toolproxy: resolve '' @ quoted i @ '': '' @ config_error_text err
      | ToolUnknownModel m \<Rightarrow> ''toolproxy: unknown model '' @ quoted m)"

definition tool_matches :: "string \<Rightarrow> string \<Rightarrow> ModelDefinition \<Rightarrow> bool" where
  "tool_matches want i m \<longleftrightarrow>
     i = want \<or> BackendModelName m = want \<or> m_HFRepo m = want \<or> want \<in> set (m_Aliases m)"

definition resolveModel :: "ModelRegistry \<Rightarrow> string \<Rightarrow> tool_error + toolResolveResult" where
  "resolveModel r model =
     (if model = [] then Inl ToolEmptyModel
      else
        let want = trim_prefix model ''openai/'' in
        case find (\<lambda>(i, m). m_Enabled m \<and> tool_matches want i m) (reg_Models r) of
          None \<Rightarrow> Inl (ToolUnknownModel model)
        | Some (i, m) \<Rightarrow>
            if m_Backend m = BackendExternal then Inl (ToolExternal i (m_APIBase m))
            else
              (case APIBase r i (Some False) of
                 Inl e \<Rightarrow> Inl (ToolBuildFailed i e)
               | Inr base \<Rightarrow>
                   let alias = (if i \<noteq> want \<and> BackendModelName m \<noteq> want \<and> m_HFRepo m \<noteq> want then want else [])
                   in Inr \<lparr>tr_BackendURL = trim_suffix base ''/v1'', tr_BackendModel = BackendModelName m,
                           tr_ResolvedFrom = model, tr_ModelID = i,
                           tr_RequestDefaults = RequestDefaultsFor m alias\<rparr>))"

section \<open>The handlers\<close>

record 'w toolServer =
  tp_registry :: ModelRegistry
  tp_tools :: "'w tool_registry option"
  tp_proxy :: "'w proxy"
  tp_stream :: "'w stream_backend"
  tp_autoRouter :: "'w AutoRouter option"
  tp_litellmURL :: string
  tp_litellmKey :: string
  tp_numtext :: "rat \<Rightarrow> string"

definition shouldInjectTools :: "'w toolServer \<Rightarrow> string \<Rightarrow> bool" where
  "shouldInjectTools tp modelID \<longleftrightarrow>
     (case tp_tools tp of
        None \<Rightarrow> False
      | Some reg \<Rightarrow>
          length (Names reg) \<noteq> 0
          \<and> (case lookup (reg_Models (tp_registry tp)) modelID of
               None \<Rightarrow> False
             | Some m \<Rightarrow> ''nothink'' \<notin> set (m_Tags m)))"

text \<open>The request \<open>reverseProxyTo\<close> gives the transport, and the error when the URL does not parse.\<close>

definition forward_request ::
    "'w toolServer \<Rightarrow> header \<Rightarrow> string \<Rightarrow> obj \<Rightarrow> string \<Rightarrow> outbound option" where
  "forward_request tp inbound backendURL body authBearer =
     (case url_hostname backendURL of
        None \<Rightarrow> None
      | Some host \<Rightarrow>
          let pl = encoded (tp_numtext tp) body;
              h = header_set ''Content-Length'' (show_nat (length (pl_bytes pl))) (strip_headers inbound)
          in Some \<lparr>ob_URL = backendURL,
                   ob_Header = (if authBearer \<noteq> [] then header_set ''Authorization'' (''Bearer '' @ authBearer) h else h),
                   ob_Body = pl\<rparr>)"

datatype chat_answer =
    ChatError nat string
  | ChatForwarded outbound
  | ChatJSON json_reply
  | ChatStream stream_reply

definition relay :: "outbound option \<Rightarrow> chat_answer" where
  "relay out = (case out of None \<Rightarrow> ChatError 500 ''bad backend URL'' | Some o1 \<Rightarrow> ChatForwarded o1)"

definition handleAutoRoute ::
    "'w toolServer \<Rightarrow> 'w AutoRouter \<Rightarrow> header \<Rightarrow> obj \<Rightarrow> AutoTier \<Rightarrow> 'w \<Rightarrow> chat_answer \<times> 'w" where
  "handleAutoRoute tp ar inbound body tier w =
     (let messages = (case lookup body ''messages'' of Some (JArr ms) \<Rightarrow> ms | _ \<Rightarrow> []);
          (alias, w1) = Classify ar messages tier w
      in (relay (forward_request tp inbound (tp_litellmURL tp) (store ''model'' (JStr alias) body) (tp_litellmKey tp)), w1))"

definition tool_loop ::
    "'w toolServer \<Rightarrow> toolResolveResult \<Rightarrow> obj \<Rightarrow> 'w \<Rightarrow> chat_answer \<times> 'w" where
  "tool_loop tp res body w =
     (let messages = (case lookup body ''messages'' of Some (JArr ms) \<Rightarrow> ms | _ \<Rightarrow> []);
          clientTools = (case lookup body ''tools'' of Some (JArr ts) \<Rightarrow> ts | _ \<Rightarrow> []);
          allTools = mergeTools (px_tools (tp_proxy tp)) clientTools;
          toolChoice = (case lookup body ''tool_choice'' of Some tc \<Rightarrow> tc | None \<Rightarrow> JStr ''auto'')
      in if lookup body ''stream'' = Some (JBool True) then
           (case runToolLoopStreaming (tp_stream tp) (tp_proxy tp) (tr_BackendURL res) (tr_BackendModel res) body
                   messages allTools toolChoice w of
              (reply, sl) \<Rightarrow> (ChatStream reply, sl_world sl))
         else
           (case runToolLoopJSON (tp_proxy tp) (tr_BackendURL res) (tr_BackendModel res) body
                   messages allTools toolChoice w of
              (reply, rd) \<Rightarrow> (ChatJSON reply, rd_world rd)))"

definition handleChat ::
    "'w toolServer \<Rightarrow> header \<Rightarrow> json option \<Rightarrow> 'w \<Rightarrow> chat_answer \<times> 'w" where
  "handleChat tp inbound doc w =
     (case doc of
        Some (JObj kvs) \<Rightarrow>
          let body = as_map (JObj kvs);
              model = str_field body ''model''
          in if model = [] then (ChatError 400 ''missing model field'', w)
             else
               (case (autoTier model, tp_autoRouter tp) of
                  (Some tier, Some ar) \<Rightarrow> handleAutoRoute tp ar inbound body tier w
                | _ \<Rightarrow>
                    (case resolveModel (tp_registry tp) model of
                       Inl e \<Rightarrow> (ChatError 404 (tool_error_text e), w)
                     | Inr res \<Rightarrow>
                         let body1 = store ''model'' (JStr (tr_BackendModel res))
                                       (ApplyRequestDefaults body (tr_RequestDefaults res))
                         in if shouldInjectTools tp (tr_ModelID res) then tool_loop tp res body1 w
                            else (relay (forward_request tp inbound (tr_BackendURL res) body1 []), w)))
      | Some JNull \<Rightarrow> (ChatError 400 ''missing model field'', w)
      | _ \<Rightarrow> (ChatError 400 ''invalid JSON'', w))"

text \<open>The listings.\<close>

definition listed_models :: "ModelRegistry \<Rightarrow> (string \<times> BackendType \<times> APIClass) list" where
  "listed_models r = map (\<lambda>(i, m). (i, m_Backend m, m_APIClass m)) (filter (\<lambda>(i, m). m_Enabled m) (reg_Models r))"

definition health_tools :: "'w toolServer \<Rightarrow> string list" where
  "health_tools tp = (case tp_tools tp of None \<Rightarrow> [] | Some reg \<Rightarrow> Names reg)"

section \<open>The name the router sends\<close>

text \<open>An entry answers to a name alone when no other enabled entry does.\<close>

definition sole_owner :: "ModelRegistry \<Rightarrow> string \<Rightarrow> string \<Rightarrow> bool" where
  "sole_owner r want i \<longleftrightarrow>
     (\<forall>(j, m) \<in> set (reg_Models r). m_Enabled m \<and> tool_matches want j m \<longrightarrow> j = i)"

lemma find_sole:
  assumes "x \<in> set xs" "P x" "\<And>y. y \<in> set xs \<Longrightarrow> P y \<Longrightarrow> y = x"
  shows "find P xs = Some x"
proof (cases "find P xs")
  case None
  then show ?thesis using assms(1,2) by (auto simp: find_None_iff)
next
  case (Some y)
  then have "y \<in> set xs" "P y" by (auto simp: find_Some_iff)
  then show ?thesis using Some assms(3) by simp
qed


definition registry_with :: "ModelDefinition gomap \<Rightarrow> ModelRegistry" where
  "registry_with models =
     \<lparr>reg_Nodes = [(''spark'', \<lparr>n_Host = ''spark.local'', n_GPU = GpuNvidia, n_VRAMGB = 128, n_AgentPort = 0,
                               n_Services = [], n_UnifiedMemory = True, n_Schedule = None\<rparr>)],
      reg_Models = models, reg_Roles = [], reg_Pressure = \<lparr>pc_WindowS = 0, pc_GPUBuckets = []\<rparr>,
      reg_Discovery = [], reg_ToolProxyAddr = []\<rparr>"

definition model_foo :: ModelDefinition where
  "model_foo = default_model\<lparr>m_HFRepo := ''org/Foo'', m_Node := ''spark'', m_APIPort := 8, m_ToolProxy := True\<rparr>"

definition model_zen_foo :: ModelDefinition where
  "model_zen_foo = default_model\<lparr>m_HFRepo := ''foo'', m_Backend := BackendExternal, m_APIBase := ''https://zen/v1''\<rparr>"

definition rt_foo :: Router where "rt_foo = NewRouter (registry_with [(''foo'', model_foo)]) [] (\<lambda>k. [])"


section \<open>Where they do not agree\<close>

text \<open>With a second enabled entry whose repository is spelled like the key, which of the two the tool proxy
  finds depends on the order of the range: the key is not tried first.\<close>

lemma key_is_not_tried_first:
  "map_option fst (find (\<lambda>(i, m). m_Enabled m \<and> tool_matches ''foo'' i m)
      (reg_Models (registry_with [(''zen/foo'', model_zen_foo), (''foo'', model_foo)]))) = Some ''zen/foo''
   \<and> resolveModel (registry_with [(''zen/foo'', model_zen_foo), (''foo'', model_foo)]) ''foo''
       = Inl (ToolExternal ''zen/foo'' ''https://zen/v1'')
   \<and> (case resolveModel (registry_with [(''foo'', model_foo), (''zen/foo'', model_zen_foo)]) ''foo'' of
        Inl e \<Rightarrow> False | Inr res \<Rightarrow> tr_ModelID res = ''foo'')"
  by code_simp

text \<open>A repository of the organisation \<^verbatim>\<open>openai\<close> cannot be named: the prefix is cut off before matching.\<close>

lemma openai_repository_unknown:
  "resolveModel (registry_with [(''gpt-oss'', model_foo\<lparr>m_HFRepo := ''openai/gpt-oss-120b''\<rparr>)]) ''openai/gpt-oss-120b''
   = Inl (ToolUnknownModel ''openai/gpt-oss-120b'')"
  by code_simp

text \<open>Where an alias override puts a scalar over an object of the model's defaults and the caller sends an
  object of its own, the model's defaults are not idle the second time.\<close>

definition model_override :: ModelDefinition where
  "model_override = model_foo\<lparr>m_RequestDefaults := [(''x'', JObj [(''a'', JNum 1)])], m_Aliases := [''bar''],
     m_AliasOverrides := [(''bar'', \<lparr>ao_ChatTemplateKwargs = [], ao_ToolProxy = None,
                                     ao_RequestDefaults = [(''x'', JNum 0)]\<rparr>)]\<rparr>"

lemma second_application_fills:
  "ApplyRequestDefaults [(''x'', JObj [])] (RequestDefaultsFor model_override ''bar'') = [(''x'', JObj [])]
   \<and> ApplyRequestDefaults [(''x'', JObj [])] (RequestDefaultsFor model_override []) = [(''x'', JObj [(''a'', JNum 1)])]"
  by code_simp

end
