(* ===== verification/Zdr_Canary.thy ===== *)
theory Zdr_Canary
  imports Session Tracker
begin

text \<open>
  \<^verbatim>\<open>internal/router/zdrcanary.go\<close>: the probe that watches the zero-retention setting of the upstream account.
  The healthy answer is a refusal, so the classification of an answer is what must not be turned around.
  The exchange with the provider is a parameter: what was sent to an error, or a status with the bytes that
  could be read and the error reading them; \<open>parse\<close> reads the JSON of an answer.
\<close>

datatype ZDRPosture = ZDRPostureUnknown | ZDRPostureEnforced | ZDRPostureNotEnforced

definition posture_text :: "ZDRPosture \<Rightarrow> string" where
  "posture_text p =
     (case p of ZDRPostureUnknown \<Rightarrow> ''unknown'' | ZDRPostureEnforced \<Rightarrow> ''enforced''
      | ZDRPostureNotEnforced \<Rightarrow> ''not_enforced'')"

record ZDRStatus =
  zs_Posture :: ZDRPosture
  zs_CheckedAt :: "time option"
  zs_Detail :: string

record ZDRCanary =
  zc_apiBase :: string
  zc_apiKey :: string
  zc_model :: string
  zc_last :: ZDRStatus

definition zdrCanaryProvider :: string where "zdrCanaryProvider = ''anthropic''"

definition zdrViolationMarker :: string where "zdrViolationMarker = ''zdr violation''"

definition never_checked :: ZDRStatus where
  "never_checked = \<lparr>zs_Posture = ZDRPostureUnknown, zs_CheckedAt = None, zs_Detail = []\<rparr>"

definition NewZDRCanary :: "string \<Rightarrow> string \<Rightarrow> string \<Rightarrow> ZDRCanary" where
  "NewZDRCanary apiBase apiKey model =
     \<lparr>zc_apiBase = trim_suffix apiBase ''/'', zc_apiKey = apiKey, zc_model = model, zc_last = never_checked\<rparr>"

text \<open>A router without a canary has the nil one.\<close>

definition canary_status :: "ZDRCanary option \<Rightarrow> ZDRStatus" where
  "canary_status c = (case c of None \<Rightarrow> never_checked | Some z \<Rightarrow> zc_last z)"

definition extractZDRMessage :: "(string \<Rightarrow> json option) \<Rightarrow> string \<Rightarrow> string" where
  "extractZDRMessage parse raw =
     (let named =
            (case parse raw of
               Some (JObj kvs) \<Rightarrow>
                 (case Option.bind (decode_object [] (struct_fields kvs ''error''))
                         (\<lambda>e. decode_string [] (struct_fields e ''message'')) of
                    Some m \<Rightarrow> m
                  | None \<Rightarrow> [])
             | _ \<Rightarrow> [])
      in if named \<noteq> [] then named
         else
           let s = trim_space raw in
           if length s > 300 then take 300 s @ [CHR 0xE2, CHR 0x80, CHR 0xA6] else s)"

definition classifyZDRProbe :: "(string \<Rightarrow> json option) \<Rightarrow> int \<Rightarrow> string \<Rightarrow> time \<Rightarrow> ZDRStatus" where
  "classifyZDRProbe parse status raw tm =
     (if contains_str (to_lower raw) zdrViolationMarker then
        \<lparr>zs_Posture = ZDRPostureEnforced, zs_CheckedAt = Some tm, zs_Detail = extractZDRMessage parse raw\<rparr>
      else if status < 200 \<or> status > 299 then
        \<lparr>zs_Posture = ZDRPostureUnknown, zs_CheckedAt = Some tm,
         zs_Detail = ''HTTP '' @ show_int status @ '' without a ZDR marker: '' @ extractZDRMessage parse raw\<rparr>
      else
        \<lparr>zs_Posture = ZDRPostureNotEnforced, zs_CheckedAt = Some tm,
         zs_Detail = ''provider '' @ quoted zdrCanaryProvider
           @ '' served the probe; expected an account-policy refusal''\<rparr>)"


section \<open>The probe\<close>

text \<open>The body of the probe: one token from a provider that retains, with no directive of its own.\<close>

definition zdr_body :: "ZDRCanary \<Rightarrow> obj" where
  "zdr_body c =
     [(''max_tokens'', JNum 1),
      (''messages'', JArr [JObj [(''content'', JStr ''ping''), (''role'', JStr ''user'')]]),
      (''model'', JStr (zc_model c)),
      (''provider'', JObj [(''only'', JArr [JStr zdrCanaryProvider])])]"

definition check ::
    "(string \<Rightarrow> json option) \<Rightarrow> (string \<Rightarrow> header \<Rightarrow> obj \<Rightarrow> string + int \<times> string \<times> string option) \<Rightarrow> time \<Rightarrow> ZDRCanary \<Rightarrow> ZDRStatus" where
  "check parse post now c =
     (let unknown = (\<lambda>detail. \<lparr>zs_Posture = ZDRPostureUnknown, zs_CheckedAt = Some now, zs_Detail = detail\<rparr>) in
      case post (zc_apiBase c @ ''/chat/completions'')
             [(''Content-Type'', [''application/json'']), (''Authorization'', [''Bearer '' @ zc_apiKey c])] (zdr_body c) of
        Inl e \<Rightarrow> unknown (''probe request: '' @ e)
      | Inr (status, raw, err) \<Rightarrow>
          (case err of
             Some e \<Rightarrow> unknown (''read probe response: '' @ e)
           | None \<Rightarrow> classifyZDRProbe parse status (take 65536 raw) now))"

datatype zdr_log = ZDRError | ZDRConfirmed | ZDRInconclusive | ZDRSilent

definition zdr_report :: "ZDRPosture \<Rightarrow> ZDRPosture \<Rightarrow> zdr_log" where
  "zdr_report prev new =
     (case new of
        ZDRPostureNotEnforced \<Rightarrow> ZDRError
      | ZDRPostureEnforced \<Rightarrow> if prev \<noteq> ZDRPostureEnforced then ZDRConfirmed else ZDRSilent
      | ZDRPostureUnknown \<Rightarrow> ZDRInconclusive)"

text \<open>\<open>zdr_probe\<close> records the verdict and says what is logged; \<open>zdr_run\<close> is the loop, with one answer of the
  provider per tick until it is stopped.\<close>

definition zdr_probe ::
    "(string \<Rightarrow> json option) \<Rightarrow> time \<times> (string \<Rightarrow> header \<Rightarrow> obj \<Rightarrow> string + int \<times> string \<times> string option) \<Rightarrow> ZDRCanary
     \<Rightarrow> zdr_log \<times> ZDRCanary" where
  "zdr_probe parse tick c =
     (let st = check parse (snd tick) (fst tick) c
      in (zdr_report (zs_Posture (zc_last c)) (zs_Posture st), c\<lparr>zc_last := st\<rparr>))"

definition zdr_run ::
    "(string \<Rightarrow> json option) \<Rightarrow> (time \<times> (string \<Rightarrow> header \<Rightarrow> obj \<Rightarrow> string + int \<times> string \<times> string option)) list
     \<Rightarrow> ZDRCanary option \<Rightarrow> ZDRCanary option" where
  "zdr_run parse ticks c =
     (case c of
        None \<Rightarrow> None
      | Some z \<Rightarrow> if zc_apiKey z = [] then Some z else Some (fold (\<lambda>tick z. snd (zdr_probe parse tick z)) ticks z))"

section \<open>What a verdict rests on\<close>

definition says_violation :: "string \<Rightarrow> bool" where
  "says_violation raw \<longleftrightarrow> (\<exists>x y. to_lower (take 65536 raw) = x @ zdrViolationMarker @ y)"

lemma says_violation: "contains_str (to_lower (take 65536 raw)) zdrViolationMarker \<longleftrightarrow> says_violation raw"
  using cut_str_None[of zdrViolationMarker "to_lower (take 65536 raw)"]
  by (auto simp: contains_str_def says_violation_def)

lemma run_keeps_config:
  "zc_apiKey (fold (\<lambda>tick z. snd (zdr_probe parse tick z)) ticks z) = zc_apiKey z"
  "zc_apiBase (fold (\<lambda>tick z. snd (zdr_probe parse tick z)) ticks z) = zc_apiBase z"
  "zc_model (fold (\<lambda>tick z. snd (zdr_probe parse tick z)) ticks z) = zc_model z"
  by (induction ticks arbitrary: z) (simp_all add: zdr_probe_def Let_def)

lemma check_config:
  "zc_apiKey z' = zc_apiKey z \<Longrightarrow> zc_apiBase z' = zc_apiBase z \<Longrightarrow> zc_model z' = zc_model z
   \<Longrightarrow> check parse post now z' = check parse post now z"
  by (simp add: check_def zdr_body_def)

text \<open>The posture reported is the one of the last probe and of nothing else: enforced when the part of the answer
  that is read carries the marker of the refusal, not enforced when it does not and the status is a success, and
  unknown in every other case, before the first probe, without a key, without a canary and when the provider or the
  network fails.\<close>

theorem canary_last_word:
  "zs_Posture (canary_status (zdr_run parse (ticks @ [(now, post)]) (Some (NewZDRCanary apiBase apiKey model)))) =
     (if apiKey = [] then ZDRPostureUnknown
      else
        case post (trim_suffix apiBase ''/'' @ ''/chat/completions'')
               [(''Content-Type'', [''application/json'']), (''Authorization'', [''Bearer '' @ apiKey])]
               (zdr_body (NewZDRCanary apiBase apiKey model)) of
          Inr (status, raw, None) \<Rightarrow>
            if says_violation raw then ZDRPostureEnforced
            else if status < 200 \<or> status > 299 then ZDRPostureUnknown
            else ZDRPostureNotEnforced
        | _ \<Rightarrow> ZDRPostureUnknown)"
proof -
  let ?z = "NewZDRCanary apiBase apiKey model"
  have c: "check parse post now (fold (\<lambda>tick z. snd (zdr_probe parse tick z)) ticks ?z) = check parse post now ?z"
    by (rule check_config) (simp_all add: run_keeps_config)
  show ?thesis
  proof (cases "apiKey = []")
    case False
    then have "zs_Posture (canary_status (zdr_run parse (ticks @ [(now, post)]) (Some ?z))) = zs_Posture (check parse post now ?z)"
      by (simp add: zdr_run_def canary_status_def c NewZDRCanary_def Let_def zdr_probe_def[of parse "(now, post)"])
        (simp add: c[unfolded NewZDRCanary_def])
    then show ?thesis using False
      by (auto simp: check_def NewZDRCanary_def classifyZDRProbe_def says_violation split: sum.splits option.splits)
  qed (simp add: zdr_run_def canary_status_def NewZDRCanary_def never_checked_def)
qed

end
