(* ===== verification/Listings.thy ===== *)
theory Listings
  imports Resolve_Props Zdr_Canary
begin

text \<open>
  What the router tells others it serves: \<^verbatim>\<open>GET /v1/models\<close> and \<^verbatim>\<open>/health\<close> (\<^verbatim>\<open>internal/router/router.go\<close>),
  \<^verbatim>\<open>GET /v1/availability\<close> (\<^verbatim>\<open>availability.go\<close>) and the OpenCode document (\<^verbatim>\<open>wellknown.go\<close>). All of them read
  the catalogue and ask the tracker; \<open>/v1/availability\<close> resolves every role for real. The optional
  interface \<open>availabilityReporter\<close> is a record of views that a router without a tracker has not. The
  questions thread the tracker's state, as the handlers do, at one instant.

  A document is a record here; its JSON is written out where another component reads it (\<open>Mirror\<close>).
\<close>

section \<open>Roles and models as they stand\<close>

record roleBinding =
  rb_Role :: string
  rb_Target :: string
  rb_Overflowed :: bool
  rb_Available :: bool
  rb_Reasons :: "string list"
  rb_Candidates :: "string list"
  rb_Overflow :: "string list"
  rb_Describes :: string

definition role_binding ::
    "'s availability \<Rightarrow> time \<Rightarrow> pressureTracker \<Rightarrow> Router \<Rightarrow> string \<Rightarrow> 's \<Rightarrow> roleBinding \<times> 's" where
  "role_binding av now p rt name s =
     (let rd = role_of rt name;
          b = \<lparr>rb_Role = name, rb_Target = [], rb_Overflowed = False, rb_Available = False, rb_Reasons = [],
               rb_Candidates = r_Candidates rd, rb_Overflow = r_Overflow rd, rb_Describes = r_Description rd\<rparr> in
      case resolveRole av now p rt name name False 0 TierNone s of
        (Inl e, s1) \<Rightarrow>
          (b\<lparr>rb_Reasons := (case e of RoleUnavailable r reasons \<Rightarrow> reasons | _ \<Rightarrow> [resolve_error_text e])\<rparr>, s1)
      | (Inr res, s1) \<Rightarrow>
          (b\<lparr>rb_Available := True, rb_Target := rr_ModelID res, rb_Overflowed := rr_Overflowed res\<rparr>, s1))"

fun bind_roles ::
    "'s availability \<Rightarrow> time \<Rightarrow> pressureTracker \<Rightarrow> Router \<Rightarrow> string list \<Rightarrow> 's \<Rightarrow> roleBinding list \<times> 's" where
  "bind_roles av now p rt [] s = ([], s)"
| "bind_roles av now p rt (name # names) s =
     (let (b, s1) = role_binding av now p rt name s; (bs, s2) = bind_roles av now p rt names s1 in (b # bs, s2))"

definition roleBindings ::
    "'s availability \<Rightarrow> time \<Rightarrow> pressureTracker \<Rightarrow> Router \<Rightarrow> 's \<Rightarrow> roleBinding list \<times> 's" where
  "roleBindings av now p rt s = bind_roles av now p rt (RoleNames rt) s"

text \<open>The richer half of the interface; a tracker without a registry panics in \<open>Snapshot\<close>.\<close>

record 's availabilityReporter =
  rp_Snapshot :: "'s \<Rightarrow> (Status list \<times> 's) option"
  rp_NodeStatuses :: "'s \<Rightarrow> NodeStatus list"
  rp_Inventory :: "bool \<Rightarrow> 's \<Rightarrow> BaseInventoryView list"

definition tracker_reporter :: "time \<Rightarrow> Tracker availabilityReporter" where
  "tracker_reporter now =
     \<lparr>rp_Snapshot = Snapshot now,
      rp_NodeStatuses = (\<lambda>t. case NodeStatuses now t of None \<Rightarrow> [] | Some ns \<Rightarrow> ns),
      rp_Inventory = Inventory now\<rparr>"

record availabilityResponse =
  dc_Mode :: string
  dc_Models :: "Status list"
  dc_Nodes :: "NodeStatus list"
  dc_Roles :: "roleBinding list"
  dc_Inventory :: "BaseInventoryView list"
  dc_Tracking :: bool

definition handleAvailability ::
    "'s availability \<Rightarrow> 's availabilityReporter option \<Rightarrow> time \<Rightarrow> pressureTracker \<Rightarrow> Router \<Rightarrow> 's
     \<Rightarrow> (availabilityResponse \<times> 's) option" where
  "handleAvailability av reporter now p rt s =
     (let (roles, s1) = roleBindings av now p rt s;
          resp = \<lparr>dc_Mode = rt_mode rt, dc_Models = [], dc_Nodes = [], dc_Roles = roles, dc_Inventory = [],
                  dc_Tracking = False\<rparr> in
      case reporter of
        None \<Rightarrow> Some (resp, s1)
      | Some rep \<Rightarrow>
          (case rp_Snapshot rep s1 of
             None \<Rightarrow> None
           | Some (models, s2) \<Rightarrow>
               Some (resp\<lparr>dc_Tracking := True, dc_Models := models, dc_Nodes := rp_NodeStatuses rep s2,
                          dc_Inventory := rp_Inventory rep True s2\<rparr>, s2)))"

section \<open>The list of models\<close>

definition backend_text :: "BackendType \<Rightarrow> string" where
  "backend_text b =
     (case b of
        BackendVLLM \<Rightarrow> ''vllm'' | BackendLlamaCPP \<Rightarrow> ''llamacpp'' | BackendLMStudio \<Rightarrow> ''lmstudio''
      | BackendExternal \<Rightarrow> ''external'' | BackendOther s \<Rightarrow> s)"

record model_entry =
  me_ID :: string
  me_OwnedBy :: string
  me_APIClass :: APIClass
  me_Role :: bool
  me_Discovered :: bool

text \<open>\<open>add\<close>: the first entry under a name stands.\<close>

definition add_name :: "ModelDefinition \<Rightarrow> string \<Rightarrow> model_entry list \<Rightarrow> model_entry list" where
  "add_name m name out =
     (if name \<in> me_ID ` set out then out
      else out @ [\<lparr>me_ID = name, me_OwnedBy = backend_text (m_Backend m), me_APIClass = m_APIClass m,
                   me_Role = False, me_Discovered = IsDiscovered m\<rparr>])"

definition add_entry :: "string \<Rightarrow> ModelDefinition \<Rightarrow> model_entry list \<Rightarrow> model_entry list" where
  "add_entry i m out = fold (add_name m) (i # m_Aliases m) out"

fun add_models ::
    "'s availability \<Rightarrow> ModelDefinition gomap \<Rightarrow> string list \<Rightarrow> model_entry list \<Rightarrow> 's \<Rightarrow> model_entry list \<times> 's" where
  "add_models av cat [] out s = (out, s)"
| "add_models av cat (i # is) out s =
     (case av_Absent av i s of
        (True, s1) \<Rightarrow> add_models av cat is out s1
      | (False, s1) \<Rightarrow>
          (case lookup cat i of
             None \<Rightarrow> add_models av cat is out s1
           | Some m \<Rightarrow> add_models av cat is (add_entry i m out) s1))"

definition role_class ::
    "'s availability \<Rightarrow> time \<Rightarrow> pressureTracker \<Rightarrow> Router \<Rightarrow> string \<Rightarrow> 's \<Rightarrow> APIClass \<times> 's" where
  "role_class av now p rt name s =
     (case resolveRole av now p rt name name False 0 TierNone s of
        (Inr res, s1) \<Rightarrow> (rr_APIClass res, s1)
      | (Inl e, s1) \<Rightarrow>
          let cands = r_Candidates (role_of rt name) in
          if length cands > 0 then
            (case lookupModel rt (av_Discovered av s1) (cands ! 0) of
               Some m \<Rightarrow> (m_APIClass m, s1)
             | None \<Rightarrow> (APIClassUnset, s1))
          else (APIClassUnset, s1))"

fun add_roles ::
    "'s availability \<Rightarrow> time \<Rightarrow> pressureTracker \<Rightarrow> Router \<Rightarrow> string list \<Rightarrow> model_entry list \<Rightarrow> 's
     \<Rightarrow> model_entry list \<times> 's" where
  "add_roles av now p rt [] out s = (out, s)"
| "add_roles av now p rt (name # names) out s =
     (if name \<in> me_ID ` set out then add_roles av now p rt names out s
      else
        (case role_class av now p rt name s of
           (c, s1) \<Rightarrow>
             add_roles av now p rt names
               (out @ [\<lparr>me_ID = name, me_OwnedBy = ''role'', me_APIClass = c, me_Role = True, me_Discovered = False\<rparr>]) s1))"

definition handleModels ::
    "'s availability \<Rightarrow> time \<Rightarrow> pressureTracker \<Rightarrow> Router \<Rightarrow> 's \<Rightarrow> model_entry list \<times> 's" where
  "handleModels av now p rt s =
     (let (cat, ids) = catalog rt (av_Discovered av s); (out, s1) = add_models av cat ids [] s
      in add_roles av now p rt (RoleNames rt) out s1)"


section \<open>The OpenCode document\<close>

record WellKnownConfig =
  wc_ProviderID :: string
  wc_ProviderName :: string
  wc_BaseURL :: string
  wc_SetupURL :: string
  wc_AuthEnv :: string
  wc_DefaultContext :: int
  wc_DefaultOutput :: int
  wc_HeaderTimeout :: duration
  wc_ChunkTimeout :: duration
  wc_NoRequestTimeout :: bool

definition configured :: "WellKnownConfig \<Rightarrow> bool" where
  "configured cfg \<longleftrightarrow> wc_ProviderID cfg \<noteq> []"

record wellKnownModel =
  wm_Name :: string
  wm_Context :: int
  wm_Output :: int
  wm_Cost :: "(rat \<times> rat) option"

record wellKnownPrvOpts =
  wo_BaseURL :: string
  wo_Timeout :: "bool option"
  wo_HeaderTimeout :: int
  wo_ChunkTimeout :: int

record wellKnownDoc =
  wd_Command :: "string list"
  wd_Env :: string
  wd_ProviderID :: string
  wd_ProviderName :: string
  wd_Options :: wellKnownPrvOpts
  wd_Models :: "wellKnownModel gomap"

definition derefFloat :: "rat option \<Rightarrow> rat" where
  "derefFloat p = (case p of None \<Rightarrow> 0 | Some x \<Rightarrow> x)"

definition wellKnownCost :: "ModelDefinition \<Rightarrow> (rat \<times> rat) option" where
  "wellKnownCost m =
     (if m_InputCostPerMillion m \<noteq> None \<or> m_OutputCostPerMillion m \<noteq> None
      then Some (derefFloat (m_InputCostPerMillion m), derefFloat (m_OutputCostPerMillion m)) else None)"

definition known_model :: "Router \<Rightarrow> int \<Rightarrow> int \<Rightarrow> ModelDefinition \<Rightarrow> string \<Rightarrow> wellKnownModel" where
  "known_model rt ctxLimit outLimit m name =
     \<lparr>wm_Name = name, wm_Context = wellKnownContext (rt_active rt) m ctxLimit,
      wm_Output = wellKnownOutput (rt_active rt) m outLimit, wm_Cost = wellKnownCost m\<rparr>"

definition emit_entry :: "Router \<Rightarrow> int \<Rightarrow> int \<Rightarrow> string \<Rightarrow> ModelDefinition \<Rightarrow> wellKnownModel gomap \<Rightarrow> wellKnownModel gomap" where
  "emit_entry rt ctxLimit outLimit i m models =
     fold (\<lambda>n. store n (known_model rt ctxLimit outLimit m n)) (i # m_Aliases m) models"

fun known_models ::
    "'s availability \<Rightarrow> Router \<Rightarrow> int \<Rightarrow> int \<Rightarrow> ModelDefinition gomap \<Rightarrow> string list \<Rightarrow> wellKnownModel gomap \<Rightarrow> 's
     \<Rightarrow> wellKnownModel gomap \<times> 's" where
  "known_models av rt ctxLimit outLimit cat [] models s = (models, s)"
| "known_models av rt ctxLimit outLimit cat (i # is) models s =
     (case lookup cat i of
        None \<Rightarrow> known_models av rt ctxLimit outLimit cat is models s
      | Some m \<Rightarrow>
          if m_APIClass m \<noteq> APIClassChat then known_models av rt ctxLimit outLimit cat is models s
          else
            (case av_Absent av i s of
               (True, s1) \<Rightarrow> known_models av rt ctxLimit outLimit cat is models s1
             | (False, s1) \<Rightarrow>
                 known_models av rt ctxLimit outLimit cat is (emit_entry rt ctxLimit outLimit i m models) s1))"

text \<open>A role is described by the first of its candidates.\<close>

definition known_role ::
    "Router \<Rightarrow> ModelDefinition gomap \<Rightarrow> int \<Rightarrow> int \<Rightarrow> string \<times> RoleDefinition \<Rightarrow> wellKnownModel gomap \<Rightarrow> wellKnownModel gomap" where
  "known_role rt disc ctxLimit outLimit r models =
     (let (name, rd) = r;
          plain = \<lparr>wm_Name = name, wm_Context = ctxLimit, wm_Output = outLimit, wm_Cost = None\<rparr> in
      if lookup models name \<noteq> None then models
      else if length (r_Candidates rd) > 0 then
        (case lookupModel rt disc (r_Candidates rd ! 0) of
           Some m \<Rightarrow>
             if m_APIClass m \<noteq> APIClassChat then models else store name (known_model rt ctxLimit outLimit m name) models
         | None \<Rightarrow> store name plain models)
      else store name plain models)"

definition SetupInstructions :: "string \<Rightarrow> string \<Rightarrow> string \<Rightarrow> string" where
  "SetupInstructions providerID setupURL authEnv =
     ''This provider needs a personal access token. Mint one ''
       @ (if setupURL \<noteq> [] then ''at '' @ setupURL @ '' (Tokens)'' else ''from the router dashboard (Tokens)'')
       @ '', then in OpenCode run /connect (or: opencode auth login), choose Other, enter provider id ''
       @ (if providerID = [] then ''llm'' else providerID)
       @ '', and paste the token. Scripts can export '' @ authEnv @ '' instead.''"

definition setupCommand :: "WellKnownConfig \<Rightarrow> string \<Rightarrow> string list" where
  "setupCommand cfg authEnv =
     [''sh'', ''-c'',
      ''printf '' @ [CHR 0x27] @ ''%s'' @ [CHR 0x5C] @ ''n'' @ [CHR 0x27] @ '' '' @ [CHR 0x22] @ ''$1'' @ [CHR 0x22] @ '' >&2; exit 1'',
      ''opencode-setup'', SetupInstructions (wc_ProviderID cfg) (wc_SetupURL cfg) authEnv]"

text \<open>\<open>Duration.Milliseconds\<close> truncates.\<close>

definition Milliseconds :: "duration \<Rightarrow> int" where
  "Milliseconds d = sgn d * (\<bar>d\<bar> div 1000000)"

definition wellKnownOptions :: "WellKnownConfig \<Rightarrow> wellKnownPrvOpts" where
  "wellKnownOptions cfg =
     \<lparr>wo_BaseURL = wc_BaseURL cfg, wo_Timeout = (if wc_NoRequestTimeout cfg then Some False else None),
      wo_HeaderTimeout = Milliseconds (wc_HeaderTimeout cfg), wo_ChunkTimeout = Milliseconds (wc_ChunkTimeout cfg)\<rparr>"

definition buildWellKnown :: "'s availability \<Rightarrow> Router \<Rightarrow> WellKnownConfig \<Rightarrow> 's \<Rightarrow> wellKnownDoc \<times> 's" where
  "buildWellKnown av rt cfg s =
     (let ctxLimit = (if wc_DefaultContext cfg = 0 then 131072 else wc_DefaultContext cfg);
          outLimit = (if wc_DefaultOutput cfg = 0 then 32768 else wc_DefaultOutput cfg);
          (cat, ids) = catalog rt (av_Discovered av s);
          (models, s1) = known_models av rt ctxLimit outLimit cat ids [] s;
          models1 = fold (known_role rt (av_Discovered av s1) ctxLimit outLimit) (rt_roles rt) models;
          authEnv = (if wc_AuthEnv cfg = [] then ''LLM_ROUTER_API_KEY'' else wc_AuthEnv cfg)
      in (\<lparr>wd_Command = setupCommand cfg authEnv, wd_Env = authEnv, wd_ProviderID = wc_ProviderID cfg,
           wd_ProviderName = wc_ProviderName cfg, wd_Options = wellKnownOptions cfg, wd_Models = models1\<rparr>, s1))"

text \<open>\<open>None\<close> is the 404 of an endpoint that is not configured.\<close>

definition handleWellKnown :: "'s availability \<Rightarrow> Router \<Rightarrow> WellKnownConfig \<Rightarrow> 's \<Rightarrow> wellKnownDoc option \<times> 's" where
  "handleWellKnown av rt cfg s =
     (if \<not> configured cfg then (None, s) else (case buildWellKnown av rt cfg s of (d, s1) \<Rightarrow> (Some d, s1)))"

section \<open>Health\<close>

record healthBody =
  hb_mode :: string
  hb_models :: nat
  hb_modelsByClass :: "APIClass \<Rightarrow> nat"
  hb_zdrAccount :: ZDRStatus
  hb_availability :: "(Availability \<Rightarrow> nat) option"
  hb_discovered :: "nat option"
  hb_inventory :: "BaseInventoryView list"

definition handleHealth ::
    "'s availabilityReporter option \<Rightarrow> Router \<Rightarrow> ZDRCanary option \<Rightarrow> 's \<Rightarrow> (healthBody \<times> 's) option" where
  "handleHealth reporter rt canary s =
     (let body = \<lparr>hb_mode = rt_mode rt, hb_models = length (rt_active rt),
                  hb_modelsByClass = (\<lambda>c. length (filter (\<lambda>(i, m). m_APIClass m = c) (rt_active rt))),
                  hb_zdrAccount = canary_status canary, hb_availability = None, hb_discovered = None,
                  hb_inventory = []\<rparr> in
      case reporter of
        None \<Rightarrow> Some (body, s)
      | Some rep \<Rightarrow>
          (case rp_Snapshot rep s of
             None \<Rightarrow> None
           | Some (ss, s1) \<Rightarrow>
               let counted = filter (\<lambda>st. lookup (rt_active rt) (ss_Model st) \<noteq> None \<or> ss_Discovered st) ss
               in Some (body\<lparr>hb_availability := Some (\<lambda>a. length (filter (\<lambda>st. ss_State st = a) counted)),
                             hb_discovered := Some (length (filter ss_Discovered ss)),
                             hb_inventory := rp_Inventory rep False s1\<rparr>, s1)))"


section \<open>The names a step adds\<close>

lemma add_name_ids: "me_ID ` set (fold (add_name m) ns out) = me_ID ` set out \<union> set ns"
  by (induction ns arbitrary: out) (auto simp: add_name_def)

lemma add_name_distinct: "distinct (map me_ID out) \<Longrightarrow> distinct (map me_ID (fold (add_name m) ns out))"
  by (induction ns arbitrary: out) (auto simp: add_name_def)

lemma add_entry_ids: "me_ID ` set (add_entry i m out) = me_ID ` set out \<union> set (i # m_Aliases m)"
  unfolding add_entry_def by (rule add_name_ids)

lemma add_entry_distinct: "distinct (map me_ID out) \<Longrightarrow> distinct (map me_ID (add_entry i m out))"
  unfolding add_entry_def by (rule add_name_distinct)

lemma fold_store_names:
  "{n. lookup (fold (\<lambda>n. store n (f n)) ns models) n \<noteq> None} = {n. lookup models n \<noteq> None} \<union> set ns"
  by (induction ns arbitrary: models) auto

lemma emit_entry_names:
  "{n. lookup (emit_entry rt cl ol i m models) n \<noteq> None} = {n. lookup models n \<noteq> None} \<union> set (i # m_Aliases m)"
  unfolding emit_entry_def by (rule fold_store_names)

section \<open>The contract of a listing\<close>

text \<open>Besides what resolution needs, a listing relies on a question about one entry leaving the answers about the
  others as they are.\<close>

locale listing_view = availability_view av for av :: "'s availability" +
  assumes absent_answers: "fst (av_Absent av j (snd (av_Absent av i s))) = fst (av_Absent av j s)"
begin

text \<open>The names of the entries of a catalogue that are not absent, those that pass a test.\<close>

definition names_in :: "(ModelDefinition \<Rightarrow> bool) \<Rightarrow> ModelDefinition gomap \<Rightarrow> string list \<Rightarrow> 's \<Rightarrow> string set" where
  "names_in P cat is s =
     {n. \<exists>i \<in> set is. \<exists>m. lookup cat i = Some m \<and> P m \<and> \<not> fst (av_Absent av i s) \<and> n \<in> set (i # m_Aliases m)}"

lemma names_in_Cons:
  "names_in P cat (i # is) s =
     (case lookup cat i of
        None \<Rightarrow> {}
      | Some m \<Rightarrow> if P m \<and> \<not> fst (av_Absent av i s) then set (i # m_Aliases m) else {}) \<union> names_in P cat is s"
  unfolding names_in_def by (auto split: option.splits)

lemma names_in_after: "names_in P cat is (snd (av_Absent av i s)) = names_in P cat is s"
  by (simp add: names_in_def absent_answers)

lemma names_in_all: "set is = set js \<Longrightarrow> names_in P cat is s = names_in P cat js s"
  by (simp add: names_in_def)

lemma add_models_ids:
  "me_ID ` set (fst (add_models av cat is out s)) = me_ID ` set out \<union> names_in (\<lambda>m. True) cat is s"
proof (induction "is" arbitrary: out s)
  case (Cons i "is")
  obtain b s1 where b: "av_Absent av i s = (b, s1)" by fastforce
  then have s1: "s1 = snd (av_Absent av i s)" by simp
  show ?case
    by (cases b; cases "lookup cat i")
      (simp_all add: b Cons names_in_Cons add_entry_ids Un_assoc names_in_after[of _ _ _ i s, folded s1])
qed (simp add: names_in_def)

lemma add_models_distinct:
  "distinct (map me_ID out) \<Longrightarrow> distinct (map me_ID (fst (add_models av cat is out s)))"
  by (induction "is" arbitrary: out s) (auto simp: add_entry_distinct split: prod.splits bool.splits option.splits)

lemma add_roles_ids: "me_ID ` set (fst (add_roles av now p rt names out s)) = me_ID ` set out \<union> set names"
  by (induction names arbitrary: out s) (auto split: prod.splits)

lemma add_roles_distinct: "distinct (map me_ID out) \<Longrightarrow> distinct (map me_ID (fst (add_roles av now p rt names out s)))"
  by (induction names arbitrary: out s) (auto split: prod.splits)

lemma known_models_names:
  "{n. lookup (fst (known_models av rt cl ol cat is models s)) n \<noteq> None}
   = {n. lookup models n \<noteq> None} \<union> names_in (\<lambda>m. m_APIClass m = APIClassChat) cat is s"
proof (induction "is" arbitrary: models s)
  case (Cons i "is")
  obtain b s1 where b: "av_Absent av i s = (b, s1)" by fastforce
  then have s1: "s1 = snd (av_Absent av i s)" by simp
  show ?case
    by (cases b; cases "lookup cat i")
      (simp_all add: b Cons names_in_Cons emit_entry_names Un_assoc names_in_after[of _ _ _ i s, folded s1] del: not_None_eq)
qed (simp add: names_in_def)

end

lemma lookup_fold_store:
  "wf_map xs \<Longrightarrow> lookup (fold (\<lambda>(i, m). store i m) xs m0) i = (case lookup xs i of Some v \<Rightarrow> Some v | None \<Rightarrow> lookup m0 i)"
proof (induction xs arbitrary: m0)
  case (Cons q xs)
  then show ?case by (cases q) (auto simp: map_of_eq_None_iff image_iff split: option.splits)
qed simp

lemma catalog_lookup:
  assumes "wf_map (rt_active rt)" "wf_map disc"
  shows "lookup (fst (catalog rt disc)) i = lookupModel rt disc i"
    "i \<in> set (snd (catalog rt disc)) \<longleftrightarrow> lookupModel rt disc i \<noteq> None"
proof -
  show l: "lookup (fst (catalog rt disc)) i = lookupModel rt disc i"
    using assms by (auto simp: catalog_def Let_def lookup_fold_store lookupModel_def split: option.splits)
  have "i \<in> set (snd (catalog rt disc)) \<longleftrightarrow> lookup (fst (catalog rt disc)) i \<noteq> None"
    by (simp add: catalog_def Let_def map_of_eq_None_iff)
  then show "i \<in> set (snd (catalog rt disc)) \<longleftrightarrow> lookupModel rt disc i \<noteq> None" using l by simp
qed


lemma seat_verdict_again:
  "fst (seat_verdict cfg polled now (snd (seat_verdict cfg polled now st))) = fst (seat_verdict cfg polled now st)"
  by (simp add: seat_verdict_seat) (simp add: seat_verdict_def)

lemma fst_stateLocked:
  "fst (stateLocked now i t) =
     (case lookup (t_models t) i of
        None \<Rightarrow> if \<not> t_polled t then (Unknown, SourceAssumed, ''not yet polled'') else (Available, SourceAssumed, [])
      | Some st \<Rightarrow> fst (seat_verdict (t_cfg t) (t_polled t) now st))"
  by (simp add: stateLocked_def Let_def split: option.split prod.split)

lemma query_keeps_state: "fst (stateLocked now j (snd (stateLocked now i t))) = fst (stateLocked now j t)"
  by (simp add: fst_stateLocked lookup_after_query seat_verdict_again split: option.split)

definition gone :: "time \<Rightarrow> Tracker \<Rightarrow> string \<Rightarrow> bool" where
  "gone now t i \<longleftrightarrow> fst (fst (stateLocked now i t)) = Absent"

lemma tracker_Absent:
  "fst (av_Absent (tracker_avail now) i t) = gone now t i"
  "snd (av_Absent (tracker_avail now) i t) = snd (stateLocked now i t)"
  by (simp_all add: tracker_avail_def gone_def Let_def split: prod.splits)

interpretation tracker_listing: listing_view "tracker_avail now" for now
  by unfold_locales (simp add: tracker_Absent, simp add: gone_def query_keeps_state)

interpretation untracked_listing: listing_view alwaysRoutable
  by unfold_locales (simp add: alwaysRoutable_def)

lemma tracker_Discovered: "av_Discovered (tracker_avail now) = Discovered"
  by (simp add: tracker_avail_def)

text \<open>The names of the entries of a router's catalogue that are not absent.\<close>

definition named :: "time \<Rightarrow> Tracker \<Rightarrow> Router \<Rightarrow> (ModelDefinition \<Rightarrow> bool) \<Rightarrow> string \<Rightarrow> bool" where
  "named now t rt P name \<longleftrightarrow>
     (\<exists>i m. lookupModel rt (Discovered t) i = Some m \<and> P m \<and> \<not> gone now t i \<and> name \<in> set (i # m_Aliases m))"

lemma named_in:
  assumes "wf_map (rt_active rt)" "wf_map (Discovered t)"
  shows "tracker_listing.names_in now P (fst (catalog rt (Discovered t))) (snd (catalog rt (Discovered t))) t = {n. named now t rt P n}"
  unfolding tracker_listing.names_in_def named_def tracker_Absent
  using catalog_lookup[OF assms] by fastforce

lemma listing_ids:
  assumes "wf_map (rt_active rt)" and "wf_map (Discovered t)"
  shows "me_ID ` set (fst (handleModels (tracker_avail now) now p rt t))
    = {name. named now t rt (\<lambda>m. True) name \<or> lookup (rt_roles rt) name \<noteq> None}"
proof -
  obtain cat ids where cat: "catalog rt (Discovered t) = (cat, ids)" by fastforce
  obtain out s1 where out: "add_models (tracker_avail now) cat ids [] t = (out, s1)" by fastforce
  have ids: "me_ID ` set out = {n. named now t rt (\<lambda>m. True) n}"
    using tracker_listing.add_models_ids[of now cat ids "[]" t] named_in[OF assms, of now "\<lambda>m. True"] by (simp add: out cat)
  show ?thesis
    using tracker_listing.add_roles_ids[of now now p rt "RoleNames rt" out s1]
    by (auto simp: handleModels_def tracker_Discovered cat out ids RoleNames_def Let_def map_of_eq_None_iff image_iff split_beta)
qed

text \<open>The entries of \<open>/v1/models\<close> are exactly the names that can be asked for: the ids and aliases of the catalogue,
  discovered entries included, but for those absent from their server's own listing, and the roles, each once.\<close>

theorem models_listing_exact:
  assumes "wf_map (rt_active rt)" and "wf_map (Discovered t)"
  shows "(let out = fst (handleModels (tracker_avail now) now p rt t) in
     distinct (map me_ID out)
     \<and> me_ID ` set out = {name. named now t rt (\<lambda>m. True) name \<or> lookup (rt_roles rt) name \<noteq> None})"
proof -
  obtain cat ids where cat: "catalog rt (Discovered t) = (cat, ids)" by fastforce
  obtain out s1 where out: "add_models (tracker_avail now) cat ids [] t = (out, s1)" by fastforce
  have "distinct (map me_ID out)" using tracker_listing.add_models_distinct[of "[]" now cat ids t] by (simp add: out)
  then have "distinct (map me_ID (fst (handleModels (tracker_avail now) now p rt t)))"
    using tracker_listing.add_roles_distinct[of out now now p rt "RoleNames rt" s1]
    by (simp add: handleModels_def tracker_Discovered cat out Let_def)
  then show ?thesis using listing_ids[OF assms] by (simp add: Let_def)
qed

text \<open>A role is offered when the first of its candidates is a chat model, or is not known right now.\<close>

definition offered :: "Router \<Rightarrow> ModelDefinition gomap \<Rightarrow> RoleDefinition \<Rightarrow> bool" where
  "offered rt disc rd \<longleftrightarrow>
     (case r_Candidates rd of
        [] \<Rightarrow> True
      | i # is \<Rightarrow> (case lookupModel rt disc i of None \<Rightarrow> True | Some m \<Rightarrow> m_APIClass m = APIClassChat))"

lemma known_role_lookup:
  "lookup (known_role rt disc cl ol (n, rd) models) k \<noteq> None \<longleftrightarrow> lookup models k \<noteq> None \<or> (k = n \<and> offered rt disc rd)"
  by (cases "r_Candidates rd") (auto simp: known_role_def offered_def Let_def split: option.split)

lemma known_roles_lookup:
  "lookup (fold (known_role rt disc cl ol) rs models) k \<noteq> None \<longleftrightarrow>
     lookup models k \<noteq> None \<or> (\<exists>rd. (k, rd) \<in> set rs \<and> offered rt disc rd)"
proof (induction rs arbitrary: models)
  case (Cons r rs)
  obtain n rd where r: "r = (n, rd)" by fastforce
  show ?case by (auto simp: r Cons known_role_lookup simp del: not_None_eq)
qed simp

lemma Discovered_query [simp]: "Discovered (snd (stateLocked now i t)) = Discovered t"
  by (simp add: Discovered_def)

lemma known_models_Discovered:
  "Discovered (snd (known_models (tracker_avail now) rt cl ol cat is models t)) = Discovered t"
proof (induction "is" arbitrary: models t)
  case (Cons i "is")
  obtain b t1 where b: "av_Absent (tracker_avail now) i t = (b, t1)" by fastforce
  then have "Discovered t1 = Discovered t" using tracker_Absent(2)[of now i t] by simp
  then show ?case by (simp add: b Cons split: option.split bool.split)
qed simp

lemma named_mono: "named now t rt P name \<Longrightarrow> (\<And>m. P m \<Longrightarrow> Q m) \<Longrightarrow> named now t rt Q name"
  unfolding named_def by blast



theorem models_listing_exact_witness:
  "(let out = fst (handleModels (tracker_avail 0) 0 idle_pressure rt_small tracker_up) in
     distinct (map me_ID out)
     \<and> me_ID ` set out = {name. named 0 tracker_up rt_small (\<lambda>m. True) name \<or> lookup (rt_roles rt_small) name \<noteq> None})"
  by (rule models_listing_exact) (simp_all only: rt_small_wf discovered_up list.map distinct.simps)

lemma rt_small_roles_wf: "wf_map (rt_roles rt_small)"
  by code_simp


section \<open>Bindings and what a request would get\<close>

context availability_view
begin

text \<open>Whether a role is bound, and the model it is bound to, are read off the answers of the tracker.\<close>

definition binds :: "time \<Rightarrow> pressureTracker \<Rightarrow> Router \<Rightarrow> string \<Rightarrow> 's \<Rightarrow> bool" where
  "binds now p rt name s \<longleftrightarrow> \<not> isl (fst (resolveRole av now p rt name name False 0 TierNone s))"

lemma binds_iff:
  "binds now p rt name s \<longleftrightarrow>
     (case lookup (rt_roles rt) name of
        None \<Rightarrow> False
      | Some rd \<Rightarrow>
          \<exists>c \<in> set (preference now p rt (av_Discovered av s) (up s) rd).
            servable rt (av_Discovered av s) (up s) rd (effectiveTier rd TierNone) False 0 c)"
proof (cases "lookup (rt_roles rt) name")
  case (Some rd)
  let ?P = "servable rt (av_Discovered av s) (up s) rd (effectiveTier rd TierNone) False 0"
  show ?thesis
  proof (cases "\<exists>u \<in> set (preference now p rt (av_Discovered av s) (up s) rd). ?P u")
    case True
    from split_list_first_prop[OF this] obtain us c vs where
      "preference now p rt (av_Discovered av s) (up s) rd = us @ c # vs" "?P c" "\<forall>u \<in> set us. \<not> ?P u" by blast
    from resolveRole_first[OF Some this(1,3,2), of name] obtain res s' where
      "resolveRole av now p rt name name False 0 TierNone s = (Inr res, s')" by blast
    then show ?thesis using True by (simp add: binds_def Some)
  next
    case False
    with resolveRole_nothing[OF Some, of now p s TierNone False 0 name] obtain e s' where
      "resolveRole av now p rt name name False 0 TierNone s = (Inl e, s')" by blast
    then show ?thesis using False by (simp add: binds_def Some)
  qed
qed (simp add: binds_def resolveRole_def)

lemma binds_same_view:
  assumes v: "same_view s s'"
  shows "binds now p rt name s' = binds now p rt name s"
  unfolding binds_iff same_view_up[OF v] by (rule refl)

lemma role_binding_reads:
  "rb_Role (fst (role_binding av now p rt name s)) = name"
  "rb_Available (fst (role_binding av now p rt name s)) = binds now p rt name s"
  "same_view s (snd (role_binding av now p rt name s))"
  using resolveRole_same_view[of s now p rt name name False 0 TierNone]
  by (auto simp: role_binding_def binds_def Let_def split: prod.splits sum.splits)

lemma bind_roles_reads:
  "map rb_Role (fst (bind_roles av now p rt names s)) = names
   \<and> (\<forall>b \<in> set (fst (bind_roles av now p rt names s)). rb_Available b = binds now p rt (rb_Role b) s)
   \<and> same_view s (snd (bind_roles av now p rt names s))"
proof (induction names arbitrary: s)
  case (Cons name names)
  obtain b s1 where b: "role_binding av now p rt name s = (b, s1)" by fastforce
  note r = role_binding_reads[where now = now and p = p and rt = rt and name = name and s = s, unfolded b fst_conv snd_conv]
  obtain bs s2 where bs: "bind_roles av now p rt names s1 = (bs, s2)" by fastforce
  show ?case
    using r Cons[of s1] same_view_trans[OF r(3)] by (simp add: b bs binds_same_view[OF r(3)])
qed simp

end

end
