(* ===== verification/Mirror.thy ===== *)
theory Mirror
  imports Listings Auto_Router
begin

text \<open>
  \<^verbatim>\<open>internal/health/mirror.go\<close>: the read-only half of availability, which the tool proxy asks before it sends a
  request on. It reads \<^verbatim>\<open>GET /v1/availability\<close>, so this theory writes out that document's JSON and proves that
  the two processes agree. What the router answered is a parameter: an error, or a status with the first
  value of the body, if it has one. How a time is printed (\<open>pt\<close>) is a parameter too.
\<close>

section \<open>The document on the wire\<close>

definition omit_str :: "string \<Rightarrow> string \<Rightarrow> (string \<times> json) list" where
  "omit_str k s = (if s = [] then [] else [(k, JStr s)])"

definition omit_list :: "string \<Rightarrow> json list \<Rightarrow> (string \<times> json) list" where
  "omit_list k xs = (if xs = [] then [] else [(k, JArr xs)])"

definition omit_flag :: "string \<Rightarrow> bool \<Rightarrow> (string \<times> json) list" where
  "omit_flag k b = (if b then [(k, JBool True)] else [])"

definition warming_json :: "(time option \<Rightarrow> string) \<Rightarrow> WarmingInfo \<Rightarrow> json" where
  "warming_json pt wi =
     JObj ([(''since'', JStr (pt (wi_Since wi))), (''attempts'', JNum (of_int (wi_Attempts wi)))]
           @ omit_str ''last_error'' (wi_LastError wi) @ [(''next_probe'', JStr (pt (wi_NextProbe wi)))])"

definition status_fields :: "(time option \<Rightarrow> string) \<Rightarrow> Status \<Rightarrow> (string \<times> json) list" where
  "status_fields pt st =
     [(''model'', JStr (ss_Model st)), (''state'', JStr (availability_text (ss_State st)))]
     @ omit_str ''reason'' (ss_Reason st) @ [(''source'', JStr (source_text (ss_Source st)))]
     @ omit_str ''node'' (ss_Node st) @ [(''since'', JStr (pt (ss_Since st)))]
     @ omit_flag ''expected_down'' (ss_ExpectedDown st)
     @ (case ss_Warming st of None \<Rightarrow> [] | Some wi \<Rightarrow> [(''warming'', warming_json pt wi)])
     @ omit_flag ''discovered'' (ss_Discovered st)"

definition node_json :: "(time option \<Rightarrow> string) \<Rightarrow> NodeStatus \<Rightarrow> json" where
  "node_json pt n =
     JObj ([(''node'', JStr (ns_Node n)), (''host'', JStr (ns_Host n)), (''reachable'', JBool (ns_Reachable n)),
            (''probed_at'', JStr (pt (ns_ProbedAt n)))] @ omit_flag ''expected_down'' (ns_ExpectedDown n))"

definition binding_fields :: "roleBinding \<Rightarrow> (string \<times> json) list" where
  "binding_fields b =
     [(''role'', JStr (rb_Role b))] @ omit_str ''target'' (rb_Target b) @ omit_flag ''overflowed'' (rb_Overflowed b)
     @ [(''available'', JBool (rb_Available b))] @ omit_list ''reasons'' (map JStr (rb_Reasons b))
     @ [(''candidates'', JArr (map JStr (rb_Candidates b)))] @ omit_list ''overflow'' (map JStr (rb_Overflow b))
     @ omit_str ''description'' (rb_Describes b)"

text \<open>\<open>Duration.Seconds\<close> of an age.\<close>

definition seconds_of :: "duration \<Rightarrow> rat" where
  "seconds_of d = fl (of_int (d div second) + fl (of_int (d mod second) / of_int second))"

definition inventory_json :: "(time option \<Rightarrow> string) \<Rightarrow> BaseInventoryView \<Rightarrow> json" where
  "inventory_json pt b =
     JObj ([(''base'', JStr (bi_Base b))] @ omit_list ''members'' (map JStr (bi_Members b))
           @ [(''ids'', JNum (of_nat (bi_IDs b)))] @ omit_list ''listed'' (map JStr (bi_Listed b))
           @ (if bi_FetchedAt b = None then [] else [(''fetched_at'', JStr (pt (bi_FetchedAt b)))])
           @ (case bi_Age b of None \<Rightarrow> [] | Some d \<Rightarrow> [(''age_s'', JNum (seconds_of d))])
           @ omit_str ''error'' (bi_Error b) @ omit_flag ''stale'' (bi_Stale b)
           @ omit_list ''absent'' (map JStr (bi_Absent b)) @ omit_list ''discovered'' (map JStr (bi_Discovered b)))"

definition availability_json :: "(time option \<Rightarrow> string) \<Rightarrow> availabilityResponse \<Rightarrow> json" where
  "availability_json pt d =
     JObj ([(''mode'', JStr (dc_Mode d))]
           @ omit_list ''models'' (map (\<lambda>st. JObj (status_fields pt st)) (dc_Models d))
           @ omit_list ''nodes'' (map (node_json pt) (dc_Nodes d))
           @ [(''roles'', JArr (map (\<lambda>b. JObj (binding_fields b)) (dc_Roles d)))]
           @ omit_list ''inventory'' (map (inventory_json pt) (dc_Inventory d))
           @ [(''tracking'', JBool (dc_Tracking d))])"

section \<open>The mirror\<close>

record MirrorState =
  mi_routable :: "bool gomap"
  mi_fresh :: bool

record Mirror =
  mr_url :: string
  mr_bearer :: string
  mr_state :: "MirrorState option"

definition NewMirror :: "string \<Rightarrow> string \<Rightarrow> Mirror" where
  "NewMirror url bearer = \<lparr>mr_url = trim_suffix url ''/'' @ ''/v1/availability'', mr_bearer = bearer, mr_state = None\<rparr>"

record mirrorDoc =
  md_Models :: "(string \<times> string) list"
  md_Roles :: "(string \<times> bool) list"

definition decode_mirror_model :: "(string \<times> json) list \<Rightarrow> (string \<times> string) option" where
  "decode_mirror_model kvs =
     (case (decode_string [] (struct_fields kvs ''model''), decode_string [] (struct_fields kvs ''state'')) of
        (Some m, Some s) \<Rightarrow> Some (m, s) | _ \<Rightarrow> None)"

definition decode_mirror_role :: "(string \<times> json) list \<Rightarrow> (string \<times> bool) option" where
  "decode_mirror_role kvs =
     (case (decode_string [] (struct_fields kvs ''role''), decode_flag False (struct_fields kvs ''available''),
            decode_string [] (struct_fields kvs ''target'')) of
        (Some r, Some b, Some t) \<Rightarrow> Some (r, b) | _ \<Rightarrow> None)"

definition decode_mirror :: "json \<Rightarrow> mirrorDoc option" where
  "decode_mirror v =
     (case v of
        JObj kvs \<Rightarrow>
          (case (Option.bind (decode_array [] (struct_fields kvs ''models'')) (decode_structs decode_mirror_model),
                 Option.bind (decode_array [] (struct_fields kvs ''roles'')) (decode_structs decode_mirror_role),
                 decode_flag False (struct_fields kvs ''tracking'')) of
             (Some ms, Some rs, Some b) \<Rightarrow> Some \<lparr>md_Models = ms, md_Roles = rs\<rparr>
           | _ \<Rightarrow> None)
      | JNull \<Rightarrow> Some \<lparr>md_Models = [], md_Roles = []\<rparr>
      | _ \<Rightarrow> None)"

definition markStale :: "Mirror \<Rightarrow> Mirror" where
  "markStale m = m\<lparr>mr_state := Some \<lparr>mi_routable = [], mi_fresh = False\<rparr>\<rparr>"

definition routable_state :: "string \<Rightarrow> bool" where
  "routable_state s \<longleftrightarrow>
     s \<noteq> availability_text Unavailable \<and> s \<noteq> availability_text Warming \<and> s \<noteq> availability_text Absent"

definition routable_map :: "mirrorDoc \<Rightarrow> bool gomap" where
  "routable_map d =
     fold (\<lambda>(r, b). store r b) (md_Roles d) (fold (\<lambda>(i, s). store i (routable_state s)) (md_Models d) [])"

definition FetchOnce :: "string + int \<times> json option \<Rightarrow> Mirror \<Rightarrow> Mirror" where
  "FetchOnce answer m =
     (case answer of
        Inl e \<Rightarrow> markStale m
      | Inr (status, body) \<Rightarrow>
          if status \<noteq> 200 then markStale m
          else
            (case Option.bind body decode_mirror of
               None \<Rightarrow> markStale m
             | Some d \<Rightarrow> m\<lparr>mr_state := Some \<lparr>mi_routable = routable_map d, mi_fresh = True\<rparr>\<rparr>))"

definition Mirror_Routable :: "Mirror \<Rightarrow> string \<Rightarrow> bool" where
  "Mirror_Routable m name =
     (case mr_state m of
        None \<Rightarrow> True
      | Some st \<Rightarrow>
          if \<not> mi_fresh st then True
          else (case lookup (mi_routable st) name of None \<Rightarrow> True | Some up \<Rightarrow> up))"

definition Fresh :: "Mirror \<Rightarrow> bool" where
  "Fresh m \<longleftrightarrow> (case mr_state m of None \<Rightarrow> False | Some st \<Rightarrow> mi_fresh st)"

section \<open>The document read back\<close>

lemma field_names [simp]:
  "to_lower ''mode'' = ''mode'' \<and> to_lower ''models'' = ''models'' \<and> to_lower ''model'' = ''model'' \<and> to_lower ''state'' = ''state''
   \<and> to_lower ''reason'' = ''reason'' \<and> to_lower ''source'' = ''source'' \<and> to_lower ''node'' = ''node'' \<and> to_lower ''nodes'' = ''nodes''
   \<and> to_lower ''since'' = ''since'' \<and> to_lower ''expected_down'' = ''expected_down'' \<and> to_lower ''warming'' = ''warming'' \<and> to_lower ''discovered'' = ''discovered''
   \<and> to_lower ''role'' = ''role'' \<and> to_lower ''roles'' = ''roles'' \<and> to_lower ''target'' = ''target'' \<and> to_lower ''overflowed'' = ''overflowed''
   \<and> to_lower ''available'' = ''available'' \<and> to_lower ''reasons'' = ''reasons'' \<and> to_lower ''candidates'' = ''candidates'' \<and> to_lower ''overflow'' = ''overflow''
   \<and> to_lower ''description'' = ''description'' \<and> to_lower ''inventory'' = ''inventory'' \<and> to_lower ''tracking'' = ''tracking''"
  by code_simp

lemma struct_fields_simps [simp]:
  "struct_fields [] n = []" "struct_fields (a @ b) n = struct_fields a n @ struct_fields b n"
  "struct_fields ((k, v) # kvs) n = (if to_lower k = to_lower n then [v] else []) @ struct_fields kvs n"
  by (simp_all add: struct_fields_def)

lemma struct_fields_omit [simp]:
  "to_lower k \<noteq> to_lower n \<Longrightarrow> struct_fields (omit_str k s) n = []"
  "to_lower k \<noteq> to_lower n \<Longrightarrow> struct_fields (omit_list k xs) n = []"
  "to_lower k \<noteq> to_lower n \<Longrightarrow> struct_fields (omit_flag k b) n = []"
  by (simp_all add: omit_str_def omit_list_def omit_flag_def)

lemma read_status: "decode_mirror_model (status_fields pt st) = Some (ss_Model st, availability_text (ss_State st))"
  by (simp add: decode_mirror_model_def status_fields_def split: option.split)

lemma read_binding: "decode_mirror_role (binding_fields b) = Some (rb_Role b, rb_Available b)"
  by (simp add: decode_mirror_role_def binding_fields_def) (simp add: omit_str_def)

lemma decode_structs_map:
  "(\<And>x. f (g x) = Some (h x)) \<Longrightarrow> decode_structs f (map (\<lambda>x. JObj (g x)) xs) = Some (map h xs)"
  by (induction xs) simp_all

lemma read_document:
  "decode_mirror (availability_json pt d) =
     Some \<lparr>md_Models = map (\<lambda>st. (ss_Model st, availability_text (ss_State st))) (dc_Models d),
           md_Roles = map (\<lambda>b. (rb_Role b, rb_Available b)) (dc_Roles d)\<rparr>"
proof -
  have models: "decode_structs decode_mirror_model (map (\<lambda>st. JObj (status_fields pt st)) xs)
      = Some (map (\<lambda>st. (ss_Model st, availability_text (ss_State st))) xs)" for xs
    by (rule decode_structs_map) (rule read_status)
  have roles: "decode_structs decode_mirror_role (map (\<lambda>b. JObj (binding_fields b)) xs)
      = Some (map (\<lambda>b. (rb_Role b, rb_Available b)) xs)" for xs
    by (rule decode_structs_map) (rule read_binding)
  show ?thesis
    by (simp add: decode_mirror_def availability_json_def models roles) (simp add: omit_list_def models)
qed


section \<open>What the document says\<close>

lemma routable_text: "routable_state (availability_text a) \<longleftrightarrow> a \<noteq> Unavailable \<and> a \<noteq> Warming \<and> a \<noteq> Absent"
  by (cases a) (simp_all add: routable_state_def availability_text_def)

lemma lookup_fold_graph:
  "(\<And>k v. (k, v) \<in> set kvs \<Longrightarrow> v = f k)
   \<Longrightarrow> lookup (fold (\<lambda>(k, v). store k (g v)) kvs m0) n = (if n \<in> fst ` set kvs then Some (g (f n)) else lookup m0 n)"
proof (induction kvs arbitrary: m0)
  case (Cons q kvs)
  obtain k v where q: "q = (k, v)" by fastforce
  have "v = f k" using Cons.prems[of k v] by (simp add: q)
  moreover have "lookup (fold (\<lambda>(k, v). store k (g v)) kvs (store k (g v) m0)) n
      = (if n \<in> fst ` set kvs then Some (g (f n)) else lookup (store k (g v) m0) n)"
    by (rule Cons.IH) (use Cons.prems in auto)
  ultimately show ?case by (auto simp: q)
qed simp

lemma live_state:
  "live now t i \<longleftrightarrow>
     (let a = fst (fst (stateLocked now i t)) in a \<noteq> Unavailable \<and> a \<noteq> Warming \<and> a \<noteq> Absent)"
  by (simp add: live_def Routable_def Let_def split: prod.split)

lemma touch_keeps_verdict: "seat_routable cfg now (touch_state a tm st) = seat_routable cfg now st"
  by (simp add: touch_state_def seat_routable_def cooldownOf_def)

lemma live_touched:
  assumes "lookup (t_models t) i = Some st"
  shows "live now (set_seat i (touch_state a tm st) t) j = live now t j"
  using assms by (auto simp: live_def fst_Routable set_seat_def touch_keeps_verdict split: option.split)

lemma live_status_of: "live now (snd (status_of reg tm i t)) j = live now t j"
proof -
  obtain a b c t1 where v: "stateLocked tm i t = ((a, b, c), t1)" by (metis prod_cases3 surj_pair)
  have "live now t1 j = live now t j" using query_keeps_verdicts[of now j tm i t] by (simp add: live_def v)
  moreover have "snd (status_of reg tm i t) = (case lookup (t_models t1) i of None \<Rightarrow> t1 | Some st \<Rightarrow> set_seat i (touch_state a tm st) t1)"
    by (simp add: status_of_def v Let_def split: option.split prod.split)
  ultimately show ?thesis by (simp add: live_touched split: option.split)
qed

lemma statuses_read:
  "map ss_Model (fst (statuses reg now is t)) = is
   \<and> (\<forall>st \<in> set (fst (statuses reg now is t)). routable_state (availability_text (ss_State st)) = live now t (ss_Model st))"
proof (induction "is" arbitrary: t)
  case (Cons i "is")
  obtain st t1 where st: "status_of reg now i t = (st, t1)" by fastforce
  obtain sts t2 where sts: "statuses reg now is t1 = (sts, t2)" by fastforce
  have "ss_Model st = i" "ss_State st = fst (fst (stateLocked now i t))"
    using arg_cong[OF st, of fst] by (auto simp: status_of_def Let_def split: prod.splits option.splits)
  moreover have "live now t1 j = live now t j" for j using live_status_of[of now reg now i t j] by (simp add: st)
  ultimately show ?case
    using Cons[of t1] by (simp add: st sts routable_text live_state[of now t i] Let_def)
qed simp


section \<open>The two processes agree\<close>

definition can_bind :: "time \<Rightarrow> pressureTracker \<Rightarrow> Router \<Rightarrow> Tracker \<Rightarrow> string \<Rightarrow> bool" where
  "can_bind now p rt t name \<longleftrightarrow> \<not> isl (fst (resolveRole (tracker_avail now) now p rt name name False 0 TierNone t))"

text \<open>The questions of a resolution leave the configuration alone.\<close>

lemma question_cfg:
  "av_Routable (tracker_avail now) i t = (b, t1) \<Longrightarrow> t_cfg t1 = t_cfg t"
  "av_Reason (tracker_avail now) i t = (r, t2) \<Longrightarrow> t_cfg t2 = t_cfg t"
  using query_frame(1)[of now i t] snd_Routable[of now i t] snd_Reason[of now i t] by (auto simp: tracker_avail_def)

lemma ask_all_cfg: "t_cfg (snd (ask_all (tracker_avail now) cs ans t)) = t_cfg t"
  by (induction cs arbitrary: ans t) (auto simp: question_cfg split: prod.split)

lemma note_entries_cfg: "t_cfg (snd (note_entries (tracker_avail now) pr cs t)) = t_cfg t"
proof (induction cs arbitrary: t)
  case (Cons c cs)
  obtain b t1 where b: "av_Routable (tracker_avail now) (rc_ModelID c) t = (b, t1)" by fastforce
  show ?case using Cons[of t] Cons[of t1] question_cfg(1)[OF b] by (simp add: b split_beta)
qed simp

lemma role_walk_cfg: "t_cfg (snd (role_walk (tracker_avail now) rt q cs w t)) = t_cfg t"
proof (induction cs arbitrary: w t)
  case (Cons c cs)
  obtain b t1 where b: "av_Routable (tracker_avail now) (rc_ModelID c) t = (b, t1)" by fastforce
  obtain r t2 where r: "av_Reason (tracker_avail now) (rc_ModelID c) t1 = (r, t2)" by fastforce
  show ?case
    using question_cfg(1)[OF b] question_cfg(2)[OF r] by (simp add: Cons b r Let_def split: option.split bool.split sum.split)
qed simp

lemma resolveRole_cfg: "t_cfg (snd (resolveRole (tracker_avail now) tm p rt name orig fd tokens caller t)) = t_cfg t"
proof -
  have order: "t_cfg t1 = t_cfg t" if "role_order (tracker_avail now) tm p rt rd t = (o1, t1)" for rd o1 t1
    using that ask_all_cfg[of now "roleOrder rd" "[]" t] note_entries_cfg[of now]
    by (auto simp: role_order_def balance_order_def Let_def split: prod.splits if_splits) (metis snd_conv)
  have walk: "t_cfg t1 = t_cfg t0" if "role_walk (tracker_avail now) rt q cs w t0 = (r, t1)" for q cs w t0 r t1
    using role_walk_cfg[of now rt q cs w t0] that by simp
  show ?thesis
    by (auto simp: resolveRole_def Let_def split: option.split prod.split sum.split dest!: order walk)
qed

lemma bind_roles_cfg: "t_cfg (snd (bind_roles (tracker_avail now) tm p rt names t)) = t_cfg t"
proof (induction names arbitrary: t)
  case (Cons name names)
  obtain b t1 where b: "role_binding (tracker_avail now) tm p rt name t = (b, t1)" by fastforce
  have "t_cfg t1 = t_cfg t"
    using resolveRole_cfg[of now tm p rt name name False 0 TierNone t] arg_cong[OF b, of snd]
    by (auto simp: role_binding_def Let_def split: prod.splits sum.splits)
  then show ?case using Cons[of t1] by (simp add: b split_beta)
qed simp

lemma document_reads:
  assumes reg: "c_Registry (t_cfg t) = Some reg"
    and doc: "handleAvailability (tracker_avail now) (Some (tracker_reporter now)) now p rt t = Some (d, t')"
  shows "map rb_Role (dc_Roles d) = RoleNames rt"
    and "\<forall>b \<in> set (dc_Roles d). rb_Available b = can_bind now p rt t (rb_Role b)"
    and "ss_Model ` set (dc_Models d) = set (map fst (reg_Models reg)) \<union> set (map fst (t_discovered t))"
    and "\<forall>st \<in> set (dc_Models d). routable_state (availability_text (ss_State st)) = live now t (ss_Model st)"
proof -
  obtain bs t1 where bs: "bind_roles (tracker_avail now) now p rt (RoleNames rt) t = (bs, t1)" by fastforce
  note roles = tracker.bind_roles_reads[of now now p rt "RoleNames rt" t, unfolded bs fst_conv snd_conv]
  have v: "tracker.same_view now t t1" using roles by blast
  have live: "live now t1 j = live now t j" for j using tracker.same_view_up_at[OF v, of j] by simp
  have disc: "map fst (t_discovered t1) = map fst (t_discovered t)"
    using arg_cong[OF tracker.same_view_up(2)[OF v], of "map fst"] by (simp add: Discovered_def case_prod_beta comp_def)
  obtain sts t2 where sts: "statuses reg now (sort (map fst (reg_Models reg) @ map fst (t_discovered t1))) t1 = (sts, t2)" by fastforce
  have cfg: "c_Registry (t_cfg t1) = Some reg"
    using bind_roles_cfg[of now now p rt "RoleNames rt" t] reg by (simp add: bs)
  have resp: "dc_Roles d = bs" "dc_Models d = sts"
    using doc cfg sts by (auto simp: handleAvailability_def roleBindings_def bs tracker_reporter_def Snapshot_def)
  note models = statuses_read[of reg now "sort (map fst (reg_Models reg) @ map fst (t_discovered t1))" t1, unfolded sts fst_conv]
  show "map rb_Role (dc_Roles d) = RoleNames rt" using roles by (simp add: resp)
  show "\<forall>b \<in> set (dc_Roles d). rb_Available b = can_bind now p rt t (rb_Role b)"
    using roles by (simp add: resp can_bind_def tracker.binds_def)
  show "ss_Model ` set (dc_Models d) = set (map fst (reg_Models reg)) \<union> set (map fst (t_discovered t))"
    using arg_cong[OF conjunct1[OF models], of set] by (simp add: resp disc[symmetric])
  show "\<forall>st \<in> set (dc_Models d). routable_state (availability_text (ss_State st)) = live now t (ss_Model st)"
    using models by (simp add: resp live)
qed

lemma mirror_reads:
  assumes "c_Registry (t_cfg t) = Some reg"
    and "handleAvailability (tracker_avail now) (Some (tracker_reporter now)) now p rt t = Some (d, t')"
  shows "Mirror_Routable (FetchOnce (Inr (200, Some (availability_json pt d))) m) name =
    (case lookup (rt_roles rt) name of
       Some rd \<Rightarrow> can_bind now p rt t name
     | None \<Rightarrow> if lookup (reg_Models reg) name = None \<and> lookup (Discovered t) name = None then True else live now t name)"
proof -
  note doc = document_reads[OF assms]
  let ?models = "map (\<lambda>st. (ss_Model st, availability_text (ss_State st))) (dc_Models d)"
  let ?m0 = "fold (\<lambda>(i, s). store i (routable_state s)) ?models []"
  have roles: "fst ` set (map (\<lambda>b. (rb_Role b, rb_Available b)) (dc_Roles d)) = set (RoleNames rt)"
    using arg_cong[OF doc(1), of set] by (simp add: image_image)
  have models: "lookup ?m0 name = (if name \<in> ss_Model ` set (dc_Models d) then Some (live now t name) else None)"
  proof -
    have "?m0 = fold (\<lambda>(k, v). store k v) (map (\<lambda>st. (ss_Model st, routable_state (availability_text (ss_State st)))) (dc_Models d)) []"
      by (simp add: fold_map comp_def)
    also have "lookup \<dots> name = (if name \<in> fst ` set (map (\<lambda>st. (ss_Model st, routable_state (availability_text (ss_State st)))) (dc_Models d))
        then Some (live now t name) else lookup [] name)"
      by (rule lookup_fold_graph) (use doc(4) in auto)
    finally show ?thesis by (simp add: image_image)
  qed
  have "lookup (routable_map \<lparr>md_Models = ?models, md_Roles = map (\<lambda>b. (rb_Role b, rb_Available b)) (dc_Roles d)\<rparr>) name
      = (if name \<in> set (RoleNames rt) then Some (can_bind now p rt t name) else lookup ?m0 name)"
  proof -
    have "lookup (fold (\<lambda>(k, v). store k v) (map (\<lambda>b. (rb_Role b, rb_Available b)) (dc_Roles d)) ?m0) name
        = (if name \<in> fst ` set (map (\<lambda>b. (rb_Role b, rb_Available b)) (dc_Roles d)) then Some (can_bind now p rt t name)
           else lookup ?m0 name)"
      by (rule lookup_fold_graph) (use doc(2) in auto)
    then show ?thesis unfolding roles by (simp add: routable_map_def)
  qed
  moreover have "name \<in> set (RoleNames rt) \<longleftrightarrow> lookup (rt_roles rt) name \<noteq> None"
    by (simp add: RoleNames_def map_of_eq_None_iff)
  moreover have "name \<in> ss_Model ` set (dc_Models d) \<longleftrightarrow> lookup (reg_Models reg) name \<noteq> None \<or> lookup (Discovered t) name \<noteq> None"
    unfolding doc(3) by (auto simp: map_of_eq_None_iff Discovered_def image_iff split_beta)
  ultimately show ?thesis
    by (auto simp: FetchOnce_def read_document Mirror_Routable_def models split: option.split)
qed


lemma document_answered:
  assumes "c_Registry (t_cfg t) = Some reg"
  shows "\<exists>d t'. handleAvailability (tracker_avail now) (Some (tracker_reporter now)) now p rt t = Some (d, t')"
  using bind_roles_cfg[of now now p rt "RoleNames rt" t] assms
  by (simp add: handleAvailability_def roleBindings_def tracker_reporter_def Snapshot_def Let_def split_beta)


text \<open>The auto-router on the mirror: when it has read the router's document and at least one of its categories is a role
  the router could bind, a role it picks is one the router could bind.\<close>

theorem auto_route_follows_router:
  assumes "c_Registry (t_cfg t) = Some reg"
    and "handleAvailability (tracker_avail now) (Some (tracker_reporter now)) now p rt t = Some (d, t')"
    and "ar_routable ar = Some (Mirror_Routable (FetchOnce (Inr (200, Some (availability_json pt d))) m))" and "Ready ar"
    and "cat \<in> set routeCategories" "lookup (rt_roles rt) (ca_alias cat) \<noteq> None" "can_bind now p rt t (ca_alias cat)"
    and "lookup (rt_roles rt) (fst (Classify ar messages tier w)) \<noteq> None"
  shows "can_bind now p rt t (fst (Classify ar messages tier w))"
proof -
  have up: "canRoute ar n = can_bind now p rt t n" if "lookup (rt_roles rt) n \<noteq> None" for n
    using mirror_reads[OF assms(1,2), of pt m n] that by (auto simp: canRoute_def assms(3))
  have "some_category_up ar" using up[OF assms(6)] assms(5,7) by (auto simp: some_category_up_def)
  then show ?thesis using auto_route_answers[of ar messages tier w] up[OF assms(8)] assms(4) by (simp add: Let_def)
qed

text \<open>An alias is not in the document, so the mirror takes it for routable whatever becomes of its model.\<close>

lemma alias_unseen:
  assumes "c_Registry (t_cfg t) = Some reg"
    and "handleAvailability (tracker_avail now) (Some (tracker_reporter now)) now p rt t = Some (d, t')"
    and "lookupAlias rt name = Some (i, m, name)" "\<not> live now t i"
    and "lookup (rt_roles rt) name = None" "lookup (reg_Models reg) name = None" "lookup (Discovered t) name = None"
  shows "Mirror_Routable (FetchOnce (Inr (200, Some (availability_json pt d))) mi) name"
  using mirror_reads[OF assms(1,2), of pt mi name] assms(5-7) by simp

end
