(* ===== verification/Egress.thy ===== *)
theory Egress
  imports Tool_Stream
begin

text \<open>
  \<^verbatim>\<open>internal/toolproxy/egress/catalogue.go\<close> and \<^verbatim>\<open>selector.go\<close>: which VPN relay the web tools of a request leave
  through, and the failover to another relay when one is dead.

  The clock, the fetch of the relay list, the random choice and a round trip through a relay are parameters
  over a state \<open>'w\<close>. An index the random choice gives out of range is a panic, a value here. The cache of
  transports per relay and the rewinding of a request body are left out, and so are the locks: a client
  belongs to one request, and the catalogue's fields are read and written as one.
\<close>

section \<open>The catalogue\<close>

record Relay =
  rl_Hostname :: string
  rl_CountryCode :: string
  rl_CityCode :: string
  rl_SocksName :: string
  rl_SocksPort :: int

definition relay_addr :: "Relay \<Rightarrow> string" where
  "relay_addr r = rl_SocksName r @ '':'' @ show_int (if rl_SocksPort r = 0 then 1080 else rl_SocksPort r)"

record relayJSON =
  rj_relay :: Relay
  rj_Active :: bool

definition decode_relay :: "(string \<times> json) list \<Rightarrow> relayJSON option" where
  "decode_relay kvs =
     (case (decode_string [] (struct_fields kvs ''hostname''), decode_string [] (struct_fields kvs ''country_code''),
            decode_string [] (struct_fields kvs ''city_code''), decode_flag False (struct_fields kvs ''active''),
            decode_string [] (struct_fields kvs ''socks_name''), decode_plain_int 0 (struct_fields kvs ''socks_port'')) of
        (Some h, Some cc, Some ci, Some act, Some sn, Some sp) \<Rightarrow>
          Some \<lparr>rj_relay = \<lparr>rl_Hostname = h, rl_CountryCode = cc, rl_CityCode = ci, rl_SocksName = sn, rl_SocksPort = sp\<rparr>,
                rj_Active = act\<rparr>
      | _ \<Rightarrow> None)"

definition usable_relays :: "relayJSON list \<Rightarrow> Relay list" where
  "usable_relays raw =
     map (\<lambda>j. (rj_relay j)\<lparr>rl_CountryCode := to_lower (rl_CountryCode (rj_relay j)),
                           rl_CityCode := to_lower (rl_CityCode (rj_relay j))\<rparr>)
       (filter (\<lambda>j. \<not> (\<not> rj_Active j \<or> rl_SocksName (rj_relay j) = [])) raw)"

record 'w egress_env =
  eg_now :: "'w \<Rightarrow> time"
  eg_get :: "'w \<Rightarrow> (string + int \<times> string) \<times> 'w"
  eg_parse :: "string \<Rightarrow> json option"
  eg_rng :: "nat \<Rightarrow> 'w \<Rightarrow> nat \<times> 'w"
  eg_cancelled :: "'w \<Rightarrow> bool"
  eg_ttl :: duration

record Catalogue =
  ct_relays :: "Relay list"
  ct_fetchedAt :: time

definition fetch :: "'w egress_env \<Rightarrow> 'w \<Rightarrow> (string + Relay list) \<times> 'w" where
  "fetch eg w =
     (let (answer, w1) = eg_get eg w in
      (case answer of
         Inl e \<Rightarrow> Inl (''egress: fetch relays: '' @ e)
       | Inr (status, body) \<Rightarrow>
           if status \<noteq> 200 then Inl (''egress: relay list HTTP '' @ show_int status)
           else
             (case (case eg_parse eg body of
                      Some (JArr xs) \<Rightarrow> decode_structs decode_relay xs
                    | Some JNull \<Rightarrow> Some []
                    | _ \<Rightarrow> None) of
                None \<Rightarrow> Inl ''egress: parse relays''
              | Some raw \<Rightarrow>
                  let out = usable_relays raw
                  in if length out = 0 then Inl ''egress: relay list had no active SOCKS5 relays'' else Inr out), w1))"

definition ensureFresh :: "'w egress_env \<Rightarrow> Catalogue \<Rightarrow> 'w \<Rightarrow> string option \<times> Catalogue \<times> 'w" where
  "ensureFresh eg c w =
     (if length (ct_relays c) > 0 \<and> eg_now eg w - ct_fetchedAt c < eg_ttl eg then (None, c, w)
      else
        (case fetch eg w of
           (Inl e, w1) \<Rightarrow> (if length (ct_relays c) > 0 then None else Some e, c, w1)
         | (Inr relays, w1) \<Rightarrow> (None, c\<lparr>ct_relays := relays, ct_fetchedAt := eg_now eg w1\<rparr>, w1)))"

definition euCountries :: "string list" where
  "euCountries =
     [''at'', ''be'', ''bg'', ''hr'', ''cy'', ''cz'', ''dk'', ''ee'', ''fi'', ''fr'', ''de'', ''gr'', ''hu'', ''ie'', ''it'', ''lv'', ''lt'', ''lu'',
      ''mt'', ''nl'', ''pl'', ''pt'', ''ro'', ''sk'', ''si'', ''es'', ''se'', ''is'', ''li'', ''no'']"

definition is_named :: "string \<Rightarrow> Relay \<Rightarrow> bool" where
  "is_named spec r \<longleftrightarrow> spec = to_lower (rl_Hostname r) \<or> spec = to_lower (rl_SocksName r)"

text \<open>The relays a broad specification stands for.\<close>

definition in_area :: "string \<Rightarrow> Relay \<Rightarrow> bool" where
  "in_area spec r \<longleftrightarrow>
     (if spec = ''any'' \<or> spec = ''random'' then True
      else if spec = ''eu'' then rl_CountryCode r \<in> set euCountries
      else
        let parts = split_on (CHR ''-'') spec;
            country = parts ! 0;
            city = (if length parts \<ge> 2 then parts ! 1 else [])
        in rl_CountryCode r = country \<and> \<not> (city \<noteq> [] \<and> rl_CityCode r \<noteq> city))"

definition ResolveExcluding ::
    "'w egress_env \<Rightarrow> string \<Rightarrow> string list \<Rightarrow> Catalogue \<Rightarrow> 'w \<Rightarrow> (string + Relay) \<times> Catalogue \<times> 'w" where
  "ResolveExcluding eg spec0 exclude c w =
     (case ensureFresh eg c w of
        (Some e, c1, w1) \<Rightarrow> (Inl e, c1, w1)
      | (None, c1, w1) \<Rightarrow>
          let spec = to_lower (trim_space spec0) in
          case find (\<lambda>r. is_named spec r \<and> rl_SocksName r \<notin> set exclude) (ct_relays c1) of
            Some r \<Rightarrow> (Inr r, c1, w1)
          | None \<Rightarrow>
              let matches = filter (\<lambda>r. in_area spec r \<and> rl_SocksName r \<notin> set exclude) (ct_relays c1) in
              if length matches = 0 then (Inl (''egress: no active relay matches '' @ quoted spec), c1, w1)
              else
                (case eg_rng eg (length matches) w1 of
                   (i, w2) \<Rightarrow>
                     if i < length matches then (Inr (matches ! i), c1, w2)
                     else (Inl ''panic: index out of range'', c1, w2)))"

definition Catalogue_Resolve :: "'w egress_env \<Rightarrow> string \<Rightarrow> Catalogue \<Rightarrow> 'w \<Rightarrow> (string + Relay) \<times> Catalogue \<times> 'w" where
  "Catalogue_Resolve eg spec c w = ResolveExcluding eg spec [] c w"

section \<open>The selector\<close>

record retryTransport =
  rt_spec :: string
  rt_maxTries :: nat
  rt_relay :: "Relay option"
  rt_tried :: "string list"

datatype egress_client = BaseClient | RelayClient retryTransport

record Selector =
  se_available :: bool
  se_DefaultSpec :: string
  se_maxTries :: nat

definition NewSelector :: "bool \<Rightarrow> string \<Rightarrow> int \<Rightarrow> Selector" where
  "NewSelector available defaultSpec maxTries =
     \<lparr>se_available = available, se_DefaultSpec = defaultSpec,
      se_maxTries = (if maxTries \<le> 0 then 3 else nat maxTries)\<rparr>"

text \<open>The client, the label of its exit and the error, if any.\<close>

definition ClientFor ::
    "'w egress_env \<Rightarrow> Selector \<Rightarrow> string \<Rightarrow> Catalogue \<Rightarrow> 'w
     \<Rightarrow> (egress_client \<times> string \<times> string option) \<times> Catalogue \<times> 'w" where
  "ClientFor eg se spec0 c w =
     (let s = to_lower (trim_space spec0);
          spec = (if s = [] then to_lower (trim_space (se_DefaultSpec se)) else s) in
      if spec = [] \<or> spec = ''default'' \<or> spec = ''none'' then ((BaseClient, ''default'', None), c, w)
      else if \<not> se_available se then
        ((BaseClient, ''default'', Some ''egress: selection unavailable (no forward dialer/catalogue)''), c, w)
      else
        (case Catalogue_Resolve eg spec c w of
           (Inl e, c1, w1) \<Rightarrow> ((BaseClient, ''default'', Some e), c1, w1)
         | (Inr relay, c1, w1) \<Rightarrow>
             ((RelayClient \<lparr>rt_spec = spec, rt_maxTries = se_maxTries se, rt_relay = Some relay, rt_tried = []\<rparr>,
               rl_Hostname relay, None), c1, w1)))"

text \<open>A round trip, with the relays it used, in order.\<close>

record ('r, 'w) trip =
  ti_answer :: "string + 'r"
  ti_used :: "Relay list"
  ti_transport :: retryTransport
  ti_catalogue :: Catalogue
  ti_world :: 'w

fun round_trip ::
    "'w egress_env \<Rightarrow> (Relay \<Rightarrow> 'w \<Rightarrow> (string + 'r) \<times> 'w) \<Rightarrow> nat \<Rightarrow> string option \<Rightarrow> retryTransport \<Rightarrow> Relay list
     \<Rightarrow> Catalogue \<Rightarrow> 'w \<Rightarrow> ('r, 'w) trip" where
  "round_trip eg via 0 lastErr t used c w =
     \<lparr>ti_answer = Inl (''egress: spec '' @ quoted (rt_spec t) @ '' exhausted '' @ show_nat (rt_maxTries t) @ '' relays: ''
                       @ (case lastErr of None \<Rightarrow> [] | Some e \<Rightarrow> e)),
      ti_used = used, ti_transport = t, ti_catalogue = c, ti_world = w\<rparr>"
| "round_trip eg via (Suc n) lastErr t used c w =
     (case (case rt_relay t of
              Some r \<Rightarrow> (Inr r, c, w)
            | None \<Rightarrow> ResolveExcluding eg (rt_spec t) (rt_tried t) c w) of
        (Inl e, c1, w1) \<Rightarrow>
          \<lparr>ti_answer = Inl (case lastErr of
                              None \<Rightarrow> e
                            | Some le \<Rightarrow> ''egress: no more relays for '' @ quoted (rt_spec t) @ '' after failures: '' @ e
                                @ '' (last: '' @ le @ '')''),
           ti_used = used, ti_transport = t, ti_catalogue = c1, ti_world = w1\<rparr>
      | (Inr relay, c1, w1) \<Rightarrow>
          let t1 = t\<lparr>rt_relay := Some relay\<rparr> in
          (case via relay w1 of
             (Inr resp, w2) \<Rightarrow>
               \<lparr>ti_answer = Inr resp, ti_used = used @ [relay], ti_transport = t1, ti_catalogue = c1, ti_world = w2\<rparr>
           | (Inl e, w2) \<Rightarrow>
               if eg_cancelled eg w2 then
                 \<lparr>ti_answer = Inl e, ti_used = used @ [relay], ti_transport = t1, ti_catalogue = c1, ti_world = w2\<rparr>
               else
                 round_trip eg via n (Some e) (t1\<lparr>rt_relay := None, rt_tried := rl_SocksName relay # rt_tried t\<rparr>)
                   (used @ [relay]) c1 w2))"

definition RoundTrip ::
    "'w egress_env \<Rightarrow> (Relay \<Rightarrow> 'w \<Rightarrow> (string + 'r) \<times> 'w) \<Rightarrow> retryTransport \<Rightarrow> Catalogue \<Rightarrow> 'w \<Rightarrow> ('r, 'w) trip" where
  "RoundTrip eg via t c w = round_trip eg via (rt_maxTries t) None t [] c w"

section \<open>Which relays a request can leave through\<close>

definition spec_allows :: "string \<Rightarrow> Relay \<Rightarrow> bool" where
  "spec_allows spec r \<longleftrightarrow> is_named spec r \<or> in_area spec r"

lemma resolve_allowed:
  "ResolveExcluding eg spec exclude c w = (Inr r, c', w') \<Longrightarrow>
   spec_allows (to_lower (trim_space spec)) r \<and> rl_SocksName r \<notin> set exclude"
  by (auto simp: ResolveExcluding_def Let_def spec_allows_def find_Some_iff
      split: prod.splits option.splits if_splits dest!: nth_mem)

text \<open>What the transport of a request has been through.\<close>

definition transport_ok :: "string \<Rightarrow> retryTransport \<Rightarrow> Relay list \<Rightarrow> bool" where
  "transport_ok spec t used \<longleftrightarrow>
     list_all (spec_allows spec) used \<and> distinct (map rl_SocksName used)
     \<and> set (rt_tried t) = set (map rl_SocksName used)
     \<and> (case rt_relay t of None \<Rightarrow> True | Some r \<Rightarrow> spec_allows spec r \<and> rl_SocksName r \<notin> set (rt_tried t))"

lemma round_trip_ok:
  assumes "transport_ok (to_lower (trim_space (rt_spec t))) t used"
  shows "(let tr = round_trip eg via n lastErr t used c w in
     list_all (spec_allows (to_lower (trim_space (rt_spec t)))) (ti_used tr)
     \<and> distinct (map rl_SocksName (ti_used tr)) \<and> length (ti_used tr) \<le> length used + n)"
  using assms
proof (induction n arbitrary: lastErr t used c w)
  case 0
  then show ?case by (simp add: transport_ok_def)
next
  case (Suc n)
  obtain res c1 w1 where r:
    "(case rt_relay t of Some r \<Rightarrow> (Inr r, c, w) | None \<Rightarrow> ResolveExcluding eg (rt_spec t) (rt_tried t) c w) = (res, c1, w1)"
    by (metis prod_cases3)
  show ?case
  proof (cases res)
    case (Inl e)
    then show ?thesis using Suc.prems r by (simp add: transport_ok_def)
  next
    case (Inr relay)
    have relay: "spec_allows (to_lower (trim_space (rt_spec t))) relay" "rl_SocksName relay \<notin> set (rt_tried t)"
      using r Inr Suc.prems resolve_allowed[of eg "rt_spec t" "rt_tried t" c w relay c1 w1]
      by (auto simp: transport_ok_def split: option.splits)
    obtain ans w2 where v: "via relay w1 = (ans, w2)" by fastforce
    let ?t = "t\<lparr>rt_relay := None, rt_tried := rl_SocksName relay # rt_tried t\<rparr>"
    have "transport_ok (to_lower (trim_space (rt_spec ?t))) ?t (used @ [relay])"
      using Suc.prems relay by (auto simp: transport_ok_def)
    from Suc.IH[OF this] Suc.prems relay r Inr v show ?thesis
      by (auto simp: Let_def transport_ok_def split: sum.splits)
  qed
qed


text \<open>A specification that names one relay falls back on the relays of its city, as a mistyped name does.\<close>

definition relay_atl :: "nat \<Rightarrow> Relay" where
  "relay_atl n =
     \<lparr>rl_Hostname = ''us-atl-wg-00'' @ show_nat n, rl_CountryCode = ''us'', rl_CityCode = ''atl'',
      rl_SocksName = ''us-atl-wg-socks5-00'' @ show_nat n, rl_SocksPort = 1080\<rparr>"

lemma named_relay_falls_back:
  "spec_allows ''us-atl-wg-001'' (relay_atl 2) \<and> spec_allows ''us-atl-wg-999'' (relay_atl 2)"
  by code_simp

end
