(* ===== verification/Lint.thy ===== *)
theory Lint
  imports Resolve
begin

text \<open>
  \<^verbatim>\<open>internal/config/lint.go\<close>: the advisory findings about a registry that loads. Ports two enabled models
  claim, names two entries claim, roles and categories of the auto-router nothing serves in a mode.

  The range over a map follows the list that represents it, and a map grown while ranging keeps the order in
  which its keys were added: Go leaves both open.
\<close>

section \<open>Data\<close>

datatype Severity = SevWarn | SevError | SevInfo

record Diagnostic =
  dg_Severity :: Severity
  dg_Code :: string
  dg_Subject :: string
  dg_Mode :: string
  dg_Message :: string

definition LintEnabledPortCollision :: string where "LintEnabledPortCollision = ''enabled-port-collision''"
definition LintDupAlias :: string where "LintDupAlias = ''dup-alias''"
definition LintAliasShadowsModel :: string where "LintAliasShadowsModel = ''alias-shadows-model''"
definition LintDupHFRepo :: string where "LintDupHFRepo = ''dup-hf-repo''"
definition LintRoleEmptyInMode :: string where "LintRoleEmptyInMode = ''role-empty-in-mode''"
definition LintRouteCategoryUnresolved :: string where
  "LintRouteCategoryUnresolved = ''route-category-unresolvable''"

definition ToolProxyRouteCategories :: "string list" where
  "ToolProxyRouteCategories = [''coder'', ''thinker'', ''research'', ''vision'']"

section \<open>Groups\<close>

text \<open>\<open>m[k] = append(m[k], v)\<close> over a list of pairs.\<close>

definition add_to :: "'k \<Rightarrow> 'v \<Rightarrow> ('k \<times> 'v list) list \<Rightarrow> ('k \<times> 'v list) list" where
  "add_to k v m = AList.update k ((case map_of m k of None \<Rightarrow> [] | Some vs \<Rightarrow> vs) @ [v]) m"

definition grouped :: "('k \<times> 'v) list \<Rightarrow> ('k \<times> 'v list) list" where
  "grouped kvs = fold (\<lambda>(k, v). add_to k v) kvs []"

lemma grouped_snoc: "grouped (kvs @ [(k, v)]) = add_to k v (grouped kvs)"
  by (simp add: grouped_def)

lemma grouped_lookup:
  "map_of (grouped kvs) k =
     (let vs = map snd (filter (\<lambda>(k', v). k' = k) kvs) in if vs = [] then None else Some vs)"
proof (induction kvs rule: rev_induct)
  case (snoc kv kvs)
  obtain k' v where kv: "kv = (k', v)" by fastforce
  show ?case unfolding kv grouped_snoc using snoc.IH
    by (auto simp: add_to_def update_conv' Let_def filter_empty_conv)
qed (simp add: grouped_def)

lemma grouped_distinct: "distinct (map fst (grouped kvs))"
proof (induction kvs rule: rev_induct)
  case (snoc kv kvs)
  then show ?case by (cases kv) (simp add: grouped_snoc add_to_def distinct_update)
qed (simp add: grouped_def)

lemma grouped_mem:
  "(k, vs) \<in> set (grouped kvs) \<longleftrightarrow> vs = map snd (filter (\<lambda>(k', v). k' = k) kvs) \<and> vs \<noteq> []"
proof -
  have "(k, vs) \<in> set (grouped kvs) \<longleftrightarrow> map_of (grouped kvs) k = Some vs"
    using grouped_distinct[of kvs] by (simp add: map_of_eq_Some_iff)
  then show ?thesis by (auto simp: grouped_lookup Let_def)
qed

section \<open>Ports\<close>

definition lint_port :: "ModelDefinition \<Rightarrow> int" where
  "lint_port m = (if m_APIPort m = 0 then DefaultAPIPort else m_APIPort m)"

definition port_claims :: "ModelRegistry \<Rightarrow> ((string \<times> int) \<times> string) list" where
  "port_claims r =
     map (\<lambda>(i, m). ((m_Node m, lint_port m), i))
       (filter (\<lambda>(i, m). \<not> (\<not> m_Enabled m \<or> m_Backend m = BackendExternal \<or> m_Node m = [])) (reg_Models r))"

definition lintPortCollisions :: "ModelRegistry \<Rightarrow> Diagnostic list" where
  "lintPortCollisions r =
     map (\<lambda>((node, port), ids).
        \<lparr>dg_Severity = SevError, dg_Code = LintEnabledPortCollision,
         dg_Subject = node @ '':'' @ show_int port, dg_Mode = [],
         dg_Message = show_nat (length ids) @ '' enabled models claim this address ('' @ join '', '' (sort ids)
           @ ''); at most one can be serving, so the others are unreachable''\<rparr>)
       (filter (\<lambda>(slot, ids). \<not> length ids < 2) (grouped (port_claims r)))"

section \<open>Names\<close>

record lintOwner =
  lo_id :: string
  lo_enabled :: bool

definition describeOwners :: "lintOwner list \<Rightarrow> string" where
  "describeOwners owners =
     join '', '' (map (\<lambda>ow. lo_id ow @ '' ('' @ (if lo_enabled ow then ''enabled'' else ''disabled'') @ '')'') owners)"

definition alias_claims :: "ModelRegistry \<Rightarrow> (string \<times> lintOwner) list" where
  "alias_claims r =
     concat (map (\<lambda>(i, m). map (\<lambda>a. (a, \<lparr>lo_id = i, lo_enabled = m_Enabled m\<rparr>)) (m_Aliases m)) (reg_Models r))"

definition enabled_owners :: "lintOwner list \<Rightarrow> nat" where
  "enabled_owners owners = length (filter lo_enabled owners)"

definition lint_alias :: "string \<Rightarrow> lintOwner list \<Rightarrow> Diagnostic" where
  "lint_alias a owners0 =
     (let owners = sort_key lo_id owners0;
          (sev, hint) =
            (if enabled_owners owners > 1 then
               (SevError, ''MORE THAN ONE IS ENABLED: alias resolution iterates a map, so which model answers can change on every restart'')
             else
               (SevWarn, ''only one is enabled, so resolution is unambiguous today'' @ [CHR '' '', CHR 0xE2, CHR 0x80, CHR 0x94, CHR '' '']
                  @ ''re-enabling the other makes it nondeterministic''))
      in \<lparr>dg_Severity = sev, dg_Code = LintDupAlias, dg_Subject = a, dg_Mode = [],
          dg_Message = ''alias declared on '' @ describeOwners owners @ ''; '' @ hint\<rparr>)"

definition lint_shadow :: "ModelRegistry \<Rightarrow> string \<Rightarrow> string \<Rightarrow> Diagnostic option" where
  "lint_shadow r i a =
     (case lookup (reg_Models r) a of
        None \<Rightarrow> None
      | Some shadowed \<Rightarrow>
          if a = i then None
          else
            let (sev, state) =
                  (if m_Enabled shadowed
                   then (SevError, ''ENABLED, so this alias is already dead: concrete-name lookup wins'')
                   else (SevWarn, ''disabled today, so the alias works'' @ [CHR '' '', CHR 0xE2, CHR 0x80, CHR 0x94, CHR '' '']
                           @ ''enabling it silently steals the name''))
            in Some \<lparr>dg_Severity = sev, dg_Code = LintAliasShadowsModel, dg_Subject = a, dg_Mode = [],
                     dg_Message = ''alias of '' @ quoted i @ '' collides with the registry key of model '' @ quoted a
                       @ '', which is '' @ state\<rparr>)"

definition repo_claims :: "ModelRegistry \<Rightarrow> (string \<times> lintOwner) list" where
  "repo_claims r =
     map (\<lambda>(i, m). (m_HFRepo m, \<lparr>lo_id = i, lo_enabled = m_Enabled m\<rparr>))
       (filter (\<lambda>(i, m). m_HFRepo m \<noteq> []) (reg_Models r))"

definition repo_contested :: "string \<Rightarrow> lintOwner list \<Rightarrow> bool" where
  "repo_contested repo owners \<longleftrightarrow> \<not> (enabled_owners owners < 2 \<or> (\<exists>ow \<in> set owners. lo_id ow = repo))"

definition lintNameCollisions :: "ModelRegistry \<Rightarrow> Diagnostic list" where
  "lintNameCollisions r =
     map (\<lambda>(a, owners). lint_alias a owners)
       (filter (\<lambda>(a, owners). \<not> length owners < 2) (grouped (alias_claims r)))
     @ concat (map (\<lambda>(i, m). List.map_filter (lint_shadow r i) (m_Aliases m)) (reg_Models r))
     @ map (\<lambda>(repo, owners).
          \<lparr>dg_Severity = SevError, dg_Code = LintDupHFRepo, dg_Subject = repo, dg_Mode = [],
           dg_Message = ''hf_repo shared by '' @ describeOwners (sort_key lo_id owners)
             @ ''; concrete-name lookup iterates a map, so requests naming this repo resolve nondeterministically''\<rparr>)
         (filter (\<lambda>(repo, owners). repo_contested repo owners) (grouped (repo_claims r)))"

section \<open>Roles and categories\<close>

definition lintRolesForMode :: "ModelRegistry \<Rightarrow> string \<Rightarrow> Diagnostic list" where
  "lintRolesForMode r mode =
     List.map_filter (\<lambda>(name, role).
       if lookup (RolesForMode r mode) name \<noteq> None then None
       else Some \<lparr>dg_Severity = SevWarn, dg_Code = LintRoleEmptyInMode, dg_Subject = name, dg_Mode = mode,
                  dg_Message = ''every candidate is disabled or tagged for another mode (''
                    @ join '', '' (sort (r_Candidates role @ r_Overflow role))
                    @ ''); the role will NOT appear in /v1/models or /v1/availability''\<rparr>)
       (reg_Roles r)"

definition lint_resolves :: "ModelRegistry \<Rightarrow> string \<Rightarrow> string \<Rightarrow> bool" where
  "lint_resolves r mode name \<longleftrightarrow>
     (let active = ModelsForMode r mode in
      lookup (RolesForMode r mode) name \<noteq> None \<or> lookup active name \<noteq> None
      \<or> (\<exists>(i, m) \<in> set active. m_HFRepo m = name \<or> name \<in> set (m_Aliases m)))"

definition lintRouteCategories :: "ModelRegistry \<Rightarrow> string \<Rightarrow> Diagnostic list" where
  "lintRouteCategories r mode =
     map (\<lambda>cat.
        \<lparr>dg_Severity = SevWarn, dg_Code = LintRouteCategoryUnresolved, dg_Subject = cat, dg_Mode = mode,
         dg_Message = ''the tool proxy auto-router advertises this category but nothing in this mode resolves it; a prompt classified here 404s''\<rparr>)
       (filter (\<lambda>cat. \<not> lint_resolves r mode cat) ToolProxyRouteCategories)"

definition Lint :: "ModelRegistry \<Rightarrow> string \<Rightarrow> Diagnostic list" where
  "Lint r mode =
     sort_key (\<lambda>d. (dg_Code d, dg_Subject d))
       (lintPortCollisions r @ lintNameCollisions r @ lintRolesForMode r mode @ lintRouteCategories r mode)"

section \<open>What a finding says\<close>

definition flagged :: "Diagnostic list \<Rightarrow> string \<Rightarrow> string \<Rightarrow> bool" where
  "flagged ds code subject \<longleftrightarrow> (\<exists>d \<in> set ds. dg_Code d = code \<and> dg_Subject d = subject)"

definition flagged_error :: "Diagnostic list \<Rightarrow> string \<Rightarrow> string \<Rightarrow> bool" where
  "flagged_error ds code subject \<longleftrightarrow>
     (\<exists>d \<in> set ds. dg_Code d = code \<and> dg_Subject d = subject \<and> dg_Severity d = SevError)"

lemmas lint_codes =
  LintEnabledPortCollision_def LintDupAlias_def LintAliasShadowsModel_def LintDupHFRepo_def
  LintRoleEmptyInMode_def LintRouteCategoryUnresolved_def

lemma shadow_code: "lint_shadow r i a = Some d \<Longrightarrow> dg_Code d = LintAliasShadowsModel"
  by (auto simp: lint_shadow_def Let_def split: option.splits if_splits)

lemma alias_code: "dg_Code (lint_alias a owners) = LintDupAlias" "dg_Subject (lint_alias a owners) = a"
  by (simp_all add: lint_alias_def Let_def split: prod.splits)

lemma alias_severity: "dg_Severity (lint_alias a owners) = (if enabled_owners owners > 1 then SevError else SevWarn)"
proof -
  have "enabled_owners (sort_key lo_id owners) = enabled_owners owners"
    by (simp add: enabled_owners_def filter_sort)
  then show ?thesis by (simp add: lint_alias_def Let_def)
qed

lemma map_filterE: "y \<in> set (List.map_filter f xs) \<Longrightarrow> \<exists>x \<in> set xs. f x = Some y"
  by (auto simp: List.map_filter_def)

lemma flagged_Lint_ports: "flagged (Lint r mode) LintEnabledPortCollision s \<longleftrightarrow> flagged (lintPortCollisions r) LintEnabledPortCollision s"
proof -
  have "dg_Code d \<noteq> LintEnabledPortCollision" if "d \<in> set (lintNameCollisions r @ lintRolesForMode r mode @ lintRouteCategories r mode)" for d
    using that
    by (auto simp: lintNameCollisions_def lintRolesForMode_def lintRouteCategories_def alias_code lint_codes
        dest!: map_filterE shadow_code split: if_splits)
  then show ?thesis unfolding flagged_def Lint_def by auto
qed

lemma flagged_error_Lint_alias:
  "flagged_error (Lint r mode) LintDupAlias a \<longleftrightarrow>
   enabled_owners (map snd (filter (\<lambda>(k, v). k = a) (alias_claims r))) > 1"
proof -
  have other: "dg_Code d \<noteq> LintDupAlias"
    if "d \<in> set (lintPortCollisions r @ lintRolesForMode r mode @ lintRouteCategories r mode)" for d
    using that
    by (auto simp: lintPortCollisions_def lintRolesForMode_def lintRouteCategories_def lint_codes
        dest!: map_filterE split: if_splits)
  have names: "d \<in> set (lintNameCollisions r) \<and> dg_Code d = LintDupAlias \<longleftrightarrow>
      (\<exists>x owners. (x, owners) \<in> set (grouped (alias_claims r)) \<and> length owners \<ge> 2 \<and> d = lint_alias x owners)" for d
    by (auto 4 4 simp: lintNameCollisions_def alias_code lint_codes not_less dest!: map_filterE shadow_code split: if_splits)
  have len: "enabled_owners owners \<le> length owners" for owners by (simp add: enabled_owners_def)
  have "flagged_error (Lint r mode) LintDupAlias a \<longleftrightarrow>
      (\<exists>d. (d \<in> set (lintNameCollisions r) \<and> dg_Code d = LintDupAlias) \<and> dg_Subject d = a \<and> dg_Severity d = SevError)"
    unfolding flagged_error_def Lint_def using other by auto
  also have "\<dots> \<longleftrightarrow> (\<exists>owners. (a, owners) \<in> set (grouped (alias_claims r)) \<and> enabled_owners owners > 1)"
  proof -
    have "(\<exists>d. (\<exists>x owners. (x, owners) \<in> set (grouped (alias_claims r)) \<and> length owners \<ge> 2 \<and> d = lint_alias x owners)
          \<and> dg_Subject d = a \<and> dg_Severity d = SevError) \<longleftrightarrow>
        (\<exists>owners. (a, owners) \<in> set (grouped (alias_claims r)) \<and> length owners \<ge> 2
           \<and> dg_Severity (lint_alias a owners) = SevError)"
      by (auto simp: alias_code) (metis alias_code(2))
    also have "\<dots> \<longleftrightarrow> (\<exists>owners. (a, owners) \<in> set (grouped (alias_claims r)) \<and> enabled_owners owners > 1)"
      using len by (metis alias_severity One_nat_def Severity.distinct(1) Suc_leI le_trans numeral_2_eq_2)
    finally show ?thesis unfolding names .
  qed
  also have "\<dots> \<longleftrightarrow> enabled_owners (map snd (filter (\<lambda>(k, v). k = a) (alias_claims r))) > 1"
    by (auto simp: grouped_mem) (auto simp: enabled_owners_def)
  finally show ?thesis .
qed

section \<open>Ports\<close>

text \<open>An enabled local model at an address.\<close>

definition listens :: "ModelRegistry \<Rightarrow> string \<Rightarrow> string \<Rightarrow> int \<Rightarrow> bool" where
  "listens r i node port \<longleftrightarrow>
     (case lookup (reg_Models r) i of
        None \<Rightarrow> False
      | Some m \<Rightarrow> m_Enabled m \<and> m_Backend m \<noteq> BackendExternal \<and> m_Node m = node \<and> node \<noteq> [] \<and> lint_port m = port)"

lemma two_of_distinct: "distinct xs \<Longrightarrow> \<not> length xs < 2 \<longleftrightarrow> (\<exists>a b. a \<noteq> b \<and> a \<in> set xs \<and> b \<in> set xs)"
proof
  assume d: "distinct xs" and "\<not> length xs < 2"
  then obtain a b ys where "xs = a # b # ys" by (cases xs rule: remdups_adj.cases) auto
  then show "\<exists>a b. a \<noteq> b \<and> a \<in> set xs \<and> b \<in> set xs" using d by auto
next
  assume "distinct xs" "\<exists>a b. a \<noteq> b \<and> a \<in> set xs \<and> b \<in> set xs"
  then show "\<not> length xs < 2" by (cases xs rule: remdups_adj.cases) auto
qed

lemma port_claims_mem:
  assumes "wf_map (reg_Models r)"
  shows "i \<in> set (map snd (filter (\<lambda>(k, v). k = (node, port)) (port_claims r))) \<longleftrightarrow> listens r i node port"
proof -
  have "i \<in> set (map snd (filter (\<lambda>(k, v). k = (node, port)) (port_claims r))) \<longleftrightarrow>
      (\<exists>m. (i, m) \<in> set (reg_Models r) \<and> m_Enabled m \<and> m_Backend m \<noteq> BackendExternal \<and> m_Node m \<noteq> []
         \<and> m_Node m = node \<and> lint_port m = port)"
    by (force simp: port_claims_def)
  also have "\<dots> \<longleftrightarrow> listens r i node port"
  proof -
    have mem: "(i, m) \<in> set (reg_Models r) \<longleftrightarrow> lookup (reg_Models r) i = Some m" for m
      using map_of_eq_Some_iff[OF assms] by simp
    show ?thesis unfolding mem by (cases "lookup (reg_Models r) i") (auto simp: listens_def)
  qed
  finally show ?thesis .
qed

lemma port_claims_distinct:
  "wf_map (reg_Models r) \<Longrightarrow> distinct (map snd (filter (\<lambda>(k, v). k = slot) (port_claims r)))"
proof -
  assume "wf_map (reg_Models r)"
  then have "distinct (map snd (port_claims r))"
    by (auto simp: port_claims_def case_prod_beta comp_def distinct_map intro: inj_on_subset)
  then show ?thesis by (simp add: distinct_map inj_on_def)
qed

text \<open>Lint names an address as contested exactly when two different enabled local models would listen on
it, whatever the mode.\<close>

theorem lint_ports_exact:
  assumes "wf_map (reg_Models r)"
  shows "flagged (Lint r mode) LintEnabledPortCollision subject \<longleftrightarrow>
    (\<exists>i j node port. i \<noteq> j \<and> listens r i node port \<and> listens r j node port \<and> subject = node @ '':'' @ show_int port)"
proof -
  have "flagged (Lint r mode) LintEnabledPortCollision subject \<longleftrightarrow>
      (\<exists>node port ids. ((node, port), ids) \<in> set (grouped (port_claims r)) \<and> \<not> length ids < 2
         \<and> subject = node @ '':'' @ show_int port)"
    unfolding flagged_Lint_ports unfolding flagged_def lintPortCollisions_def
    by (auto simp: image_iff)
  also have "\<dots> \<longleftrightarrow> (\<exists>node port. \<not> length (map snd (filter (\<lambda>(k, v). k = (node, port)) (port_claims r))) < 2
         \<and> subject = node @ '':'' @ show_int port)"
  proof -
    have "(\<exists>ids. ((node, port), ids) \<in> set (grouped (port_claims r)) \<and> \<not> length ids < 2) \<longleftrightarrow>
        \<not> length (map snd (filter (\<lambda>(k, v). k = (node, port)) (port_claims r))) < 2" for node port
      unfolding grouped_mem by auto
    then show ?thesis by metis
  qed
  also have "\<dots> \<longleftrightarrow> (\<exists>node port. (\<exists>i j. i \<noteq> j \<and> listens r i node port \<and> listens r j node port)
         \<and> subject = node @ '':'' @ show_int port)"
    unfolding two_of_distinct[OF port_claims_distinct[OF assms]] port_claims_mem[OF assms] ..
  finally show ?thesis by blast
qed

definition model_on :: "string \<Rightarrow> string list \<Rightarrow> ModelDefinition" where
  "model_on repo aliases = default_model\<lparr>m_HFRepo := repo, m_Node := ''spark'', m_APIPort := 8, m_Aliases := aliases\<rparr>"

definition lint_registry :: "ModelDefinition gomap \<Rightarrow> ModelRegistry" where
  "lint_registry models =
     \<lparr>reg_Nodes = [], reg_Models = models, reg_Roles = [], reg_Pressure = \<lparr>pc_WindowS = 0, pc_GPUBuckets = []\<rparr>,
      reg_Discovery = [], reg_ToolProxyAddr = []\<rparr>"

theorem lint_ports_exact_witness:
  "flagged (Lint (lint_registry [(''a'', model_on ''x'' []), (''b'', model_on ''y'' [])]) []) LintEnabledPortCollision ''spark:8''"
proof -
  have l: "listens (lint_registry [(''a'', model_on ''x'' []), (''b'', model_on ''y'' [])]) i ''spark'' 8"
    if "i = ''a'' \<or> i = ''b''" for i
    using that by (auto simp: listens_def lint_registry_def model_on_def default_model_def lint_port_def)
  have "wf_map (reg_Models (lint_registry [(''a'', model_on ''x'' []), (''b'', model_on ''y'' [])]))"
    by (simp add: lint_registry_def)
  moreover have "''spark:8'' = ''spark'' @ '':'' @ show_int 8" by code_simp
  ultimately show ?thesis
    by (subst lint_ports_exact)
      (assumption, intro exI[of _ "''a''"] exI[of _ "''b''"] exI[of _ "''spark''"] exI[of _ "8 :: int"] conjI,
        simp_all add: l)
qed

section \<open>Aliases\<close>

text \<open>The same registry in another order of its models.\<close>

definition reordered :: "ModelRegistry \<Rightarrow> ModelRegistry \<Rightarrow> bool" where
  "reordered r r' \<longleftrightarrow> r' = r\<lparr>reg_Models := reg_Models r'\<rparr> \<and> mset (reg_Models r') = mset (reg_Models r)"

lemma enabled_owners_append: "enabled_owners (xs @ ys) = enabled_owners xs + enabled_owners ys"
  by (simp add: enabled_owners_def)

lemma owners_count:
  "length (filter (\<lambda>(i, m). m_Enabled m \<and> a \<in> set (m_Aliases m)) ms) \<le>
   enabled_owners (map snd (filter (\<lambda>(k, v). k = a)
     (concat (map (\<lambda>(i, m). map (\<lambda>a. (a, \<lparr>lo_id = i, lo_enabled = m_Enabled m\<rparr>)) (m_Aliases m)) ms))))"
proof (induction ms)
  case (Cons im ms)
  obtain i m where im: "im = (i, m)" by fastforce
  have "1 \<le> enabled_owners (map snd (filter (\<lambda>(k, v). k = a) (map (\<lambda>a. (a, \<lparr>lo_id = i, lo_enabled = True\<rparr>)) as)))"
    if "a \<in> set as" for as
    using that by (induction as) (auto simp: enabled_owners_def)
  then show ?case using Cons by (auto simp: im enabled_owners_append intro: le_trans add_mono)
qed simp

lemma find_unique:
  assumes "\<And>x y. x \<in> set xs \<Longrightarrow> y \<in> set xs \<Longrightarrow> P x \<Longrightarrow> P y \<Longrightarrow> x = y" and "set ys = set xs"
  shows "find P ys = find P xs"
proof (cases "find P xs")
  case None
  then have "\<not> (\<exists>y \<in> set ys. P y)" using assms(2) by (auto simp: find_None_iff)
  then have "find P ys = None" by (auto simp: find_None_iff)
  then show ?thesis unfolding None .
next
  case (Some x)
  have x: "x \<in> set xs" "P x" using Some by (auto simp: find_Some_iff)
  then have "find P ys \<noteq> None" unfolding find_None_iff assms(2) by blast
  then obtain y where y: "find P ys = Some y" by blast
  have "y \<in> set ys" "P y" using y by (auto simp: find_Some_iff)
  then have "y = x" using assms x by blast
  then show ?thesis unfolding Some y by simp
qed

text \<open>C18: When lint reports no error about an alias, what the alias resolves to does not depend on the order in
which the router ranges over its models, in any mode.\<close>

theorem lint_clean_alias_is_stable:
  assumes clean: "\<not> flagged_error (Lint r mode) LintDupAlias a" and order: "reordered r r'"
  shows "lookupAlias (NewRouter r' mode' env) a = lookupAlias (NewRouter r mode' env) a"
proof -
  let ?P = "\<lambda>(i, m). m_Enabled m \<and> a \<in> set (m_Aliases m)"
  have few: "length (filter ?P (reg_Models r)) \<le> 1"
    using clean owners_count[of a "reg_Models r"] unfolding flagged_error_Lint_alias alias_claims_def by simp
  have one: "x = y" if "x \<in> set (reg_Models r)" "y \<in> set (reg_Models r)" "?P x" "?P y" for x y
  proof -
    have "x \<in> set (filter ?P (reg_Models r))" "y \<in> set (filter ?P (reg_Models r))" using that by auto
    then show ?thesis using few by (cases "filter ?P (reg_Models r)") auto
  qed
  have enabled: "in_mode mode' m \<Longrightarrow> m_Enabled m" for m by (simp add: in_mode_def split: if_splits)
  have "find (\<lambda>(i, m). a \<in> set (m_Aliases m)) (ModelsForMode r' mode')
      = find (\<lambda>(i, m). a \<in> set (m_Aliases m)) (ModelsForMode r mode')"
  proof (rule find_unique)
    show "set (ModelsForMode r' mode') = set (ModelsForMode r mode')"
      using order mset_eq_setD[of "reg_Models r'" "reg_Models r"] by (auto simp: ModelsForMode_def reordered_def)
    fix x y
    assume "x \<in> set (ModelsForMode r mode')" "y \<in> set (ModelsForMode r mode')"
      "case x of (i, m) \<Rightarrow> a \<in> set (m_Aliases m)" "case y of (i, m) \<Rightarrow> a \<in> set (m_Aliases m)"
    then show "x = y" by (intro one) (auto simp: ModelsForMode_def dest: enabled)
  qed
  then show ?thesis by (simp add: lookupAlias_def NewRouter_def)
qed

theorem lint_clean_alias_is_stable_witness:
  "lookupAlias (NewRouter (lint_registry [(''b'', model_on ''y'' [''fast'']), (''a'', model_on ''x'' [''slow''])]) [] (\<lambda>k. [])) ''fast''
   = Some (''b'', model_on ''y'' [''fast''], ''fast'')"
proof -
  let ?r = "lint_registry [(''a'', model_on ''x'' [''slow'']), (''b'', model_on ''y'' [''fast''])]"
  let ?r' = "lint_registry [(''b'', model_on ''y'' [''fast'']), (''a'', model_on ''x'' [''slow''])]"
  have "\<not> flagged_error (Lint ?r []) LintDupAlias ''fast''"
    unfolding flagged_error_Lint_alias
    by (simp add: alias_claims_def lint_registry_def model_on_def default_model_def enabled_owners_def)
  moreover have "reordered ?r ?r'" by (simp add: reordered_def lint_registry_def)
  ultimately have "lookupAlias (NewRouter ?r' [] (\<lambda>k. [])) ''fast'' = lookupAlias (NewRouter ?r [] (\<lambda>k. [])) ''fast''"
    by (rule lint_clean_alias_is_stable)
  then show ?thesis
    by (simp add: lookupAlias_def NewRouter_def ModelsForMode_def in_mode_def ModeTag_def lint_registry_def
        model_on_def default_model_def)
qed

section \<open>What lint does not see\<close>

text \<open>A repository two enabled entries share is passed over when a third one has it for its key, a disabled one
  included, whose key no lookup finds.\<close>

definition masked :: "ModelDefinition gomap" where
  "masked = [(''M'', (model_on ''M'' [])\<lparr>m_Enabled := False\<rparr>), (''p/M'', model_on ''M'' []), (''q/M'', (model_on ''M'' [])\<lparr>m_APIPort := 9\<rparr>)]"

lemma disabled_key_masks:
  "lintNameCollisions (lint_registry masked) = [] \<and> lintPortCollisions (lint_registry masked) = []
   \<and> map_option fst (lookupConcrete (NewRouter (lint_registry masked) [] (\<lambda>k. [])) [] ''M'') = Some ''p/M''
   \<and> map_option fst (lookupConcrete (NewRouter (lint_registry (rev masked)) [] (\<lambda>k. [])) [] ''M'') = Some ''q/M''"
  by code_simp

text \<open>Two variants of one repository answer to its name without their suffixes, and lint compares the names with
  them.\<close>

definition variants :: "ModelDefinition gomap" where
  "variants = [(''a'', model_on ''org/M#a'' []), (''b'', (model_on ''org/M#b'' [])\<lparr>m_APIPort := 9\<rparr>)]"

lemma variants_unseen:
  "lintNameCollisions (lint_registry variants) = [] \<and> lintPortCollisions (lint_registry variants) = []
   \<and> map_option fst (lookupConcrete (NewRouter (lint_registry variants) [] (\<lambda>k. [])) [] ''org/M'') = Some ''a''
   \<and> map_option fst (lookupConcrete (NewRouter (lint_registry (rev variants)) [] (\<lambda>k. [])) [] ''org/M'') = Some ''b''"
  by code_simp

text \<open>Two findings with one code and one subject stay in the order of the range.\<close>

definition shadowing :: "ModelDefinition gomap" where
  "shadowing = [(''a'', model_on ''x'' [''k'']), (''b'', (model_on ''y'' [''k''])\<lparr>m_Enabled := False\<rparr>),
                (''k'', (model_on ''z'' [])\<lparr>m_Enabled := False\<rparr>)]"

lemma ties_follow_the_range:
  "map dg_Message (filter (\<lambda>d. dg_Code d = LintAliasShadowsModel) (lintNameCollisions (lint_registry shadowing)))
   \<noteq> map dg_Message (filter (\<lambda>d. dg_Code d = LintAliasShadowsModel) (lintNameCollisions (lint_registry (rev shadowing))))"
  by code_simp

end
