(* ===== verification/Anthropic.thy ===== *)
theory Anthropic
  imports Images
begin

text \<open>
  \<^verbatim>\<open>internal/router/anthropic.go\<close>: the passthrough of the Anthropic Messages API. The body and the
  caller's credentials go out as they came, the tiers still hold, usage is read from the stream as it
  flows, and the prompt is logged as a chain of hashes.

  How the transport cuts a stream into reads is a parameter. The hash is the library's, in hex; the text of
  a number is a function of its value. The metrics and the log lines are left out, and of the log record
  the fields this handler computes are kept.
\<close>

section \<open>The target\<close>

definition anthropicBackendRoot :: "Router \<Rightarrow> string \<times> string" where
  "anthropicBackendRoot rt =
     (case find_map (\<lambda>(i, m).
              if m_APIClass m \<noteq> APIClassAnthropic then None
              else (case APIBase (rt_registry rt) i None of
                      Inl e \<Rightarrow> None
                    | Inr base \<Rightarrow> Some (i, trim_suffix base ''/v1''))) (rt_active rt) of
        None \<Rightarrow> ([], [])
      | Some t \<Rightarrow> t)"

section \<open>Usage\<close>

record anthropicUsage =
  au_input :: "int option"
  au_output :: "int option"
  au_cacheCreation :: "int option"
  au_cacheRead :: "int option"

definition no_anthropic_usage :: anthropicUsage where
  "no_anthropic_usage = \<lparr>au_input = None, au_output = None, au_cacheCreation = None, au_cacheRead = None\<rparr>"

definition merge :: "anthropicUsage \<Rightarrow> anthropicUsage \<Rightarrow> anthropicUsage" where
  "merge j u =
     \<lparr>au_input = (if au_input j \<noteq> None then au_input j else au_input u),
      au_output = (if au_output j \<noteq> None then au_output j else au_output u),
      au_cacheCreation = (if au_cacheCreation j \<noteq> None then au_cacheCreation j else au_cacheCreation u),
      au_cacheRead = (if au_cacheRead j \<noteq> None then au_cacheRead j else au_cacheRead u)\<rparr>"

definition decode_anthropic_usage :: "(string \<times> json) list \<Rightarrow> anthropicUsage option" where
  "decode_anthropic_usage u =
     (case (decode_int None (struct_fields u ''input_tokens''), decode_int None (struct_fields u ''output_tokens''),
            decode_int None (struct_fields u ''cache_creation_input_tokens''),
            decode_int None (struct_fields u ''cache_read_input_tokens'')) of
        (Some i, Some ou, Some cc, Some cr) \<Rightarrow>
          Some \<lparr>au_input = i, au_output = ou, au_cacheCreation = cc, au_cacheRead = cr\<rparr>
      | _ \<Rightarrow> None)"

definition decode_usage_of :: "(string \<times> json) list \<Rightarrow> anthropicUsage option" where
  "decode_usage_of kvs = Option.bind (decode_object [] (struct_fields kvs ''usage'')) decode_anthropic_usage"

definition parseAnthropicResponseUsage :: "json option \<Rightarrow> anthropicUsage \<Rightarrow> anthropicUsage" where
  "parseAnthropicResponseUsage body u =
     (case body of
        Some (JObj kvs) \<Rightarrow>
          (case (decode_usage_of kvs, decode_int None (struct_fields kvs ''input_tokens'')) of
             (Some j, Some bare) \<Rightarrow>
               let u1 = merge j u
               in if bare \<noteq> None \<and> au_input u1 = None then u1\<lparr>au_input := bare\<rparr> else u1
           | _ \<Rightarrow> u)
      | _ \<Rightarrow> u)"

definition handleLine :: "(string \<Rightarrow> json option) \<Rightarrow> string \<Rightarrow> anthropicUsage \<Rightarrow> anthropicUsage" where
  "handleLine parse line0 u =
     (let line = trim_space line0 in
      if \<not> has_prefix line ''data:'' then u
      else
        let payload = trim_space (drop 5 line) in
        if payload = [] \<or> hd payload \<noteq> CHR ''{'' then u
        else
          (case parse payload of
             Some (JObj kvs) \<Rightarrow>
               (case (decode_string [] (struct_fields kvs ''type''),
                      Option.bind (decode_object [] (struct_fields kvs ''message'')) decode_usage_of, decode_usage_of kvs) of
                  (Some ty, Some started, Some running) \<Rightarrow>
                    if ty = ''message_start'' then merge started u
                    else if ty = ''message_delta'' then merge running u
                    else u
                | _ \<Rightarrow> u)
           | _ \<Rightarrow> u))"

record anthropicSSECapture =
  ac_buf :: string
  ac_usage :: anthropicUsage

definition maxSSELineBuffer :: nat where "maxSSELineBuffer = 1048576"

text \<open>The loop over the buffer: the usage and what is left of it.\<close>

function scan_buffer :: "(string \<Rightarrow> json option) \<Rightarrow> nat \<Rightarrow> anthropicSSECapture \<Rightarrow> anthropicSSECapture" where
  "scan_buffer parse limit c =
     (if newline \<notin> set (ac_buf c) then (if length (ac_buf c) > limit then c\<lparr>ac_buf := []\<rparr> else c)
      else
        let line = takeWhile (\<lambda>x. x \<noteq> newline) (ac_buf c) in
        scan_buffer parse limit
          \<lparr>ac_buf = drop (length line + 1) (ac_buf c), ac_usage = handleLine parse line (ac_usage c)\<rparr>)"
  by pat_completeness auto
termination
  by (relation "measure (\<lambda>(parse, limit, c). length (ac_buf c))")
    (auto simp flip: length_greater_0_conv intro!: diff_less dest: length_pos_if_in_set)

declare scan_buffer.simps [simp del]

definition scan :: "(string \<Rightarrow> json option) \<Rightarrow> nat \<Rightarrow> string \<Rightarrow> anthropicSSECapture \<Rightarrow> anthropicSSECapture" where
  "scan parse limit b c = scan_buffer parse limit (c\<lparr>ac_buf := ac_buf c @ b\<rparr>)"

section \<open>The chain of hashes\<close>

definition stripCacheControl :: "json \<Rightarrow> json" where
  "stripCacheControl v =
     (case v of
        JArr es \<Rightarrow> JArr (map drop_cache_control es)
      | JObj m \<Rightarrow>
          JObj (map (\<lambda>(k, c). (k, if k = ''content'' then (case c of JArr bs \<Rightarrow> JArr (map drop_cache_control bs) | _ \<Rightarrow> c) else c))
                 (AList.delete ''cache_control'' m))
      | _ \<Rightarrow> v)"

definition canonicalSegment :: "(rat \<Rightarrow> string) \<Rightarrow> json \<Rightarrow> string" where
  "canonicalSegment numtext seg = marshal numtext (stripCacheControl seg)"

text \<open>A raw member: there when the document has it, the last one when it has several.\<close>

definition raw_member :: "json list \<Rightarrow> json list" where
  "raw_member vs = (if vs = [] then [] else [last vs])"

text \<open>The model and the segments of a request, in the order of the cache.\<close>

definition anthropic_segments :: "json option \<Rightarrow> (string \<times> json list) option" where
  "anthropic_segments body =
     (case body of
        Some (JObj kvs) \<Rightarrow>
          (case (decode_string [] (struct_fields kvs ''model''), decode_array [] (struct_fields kvs ''messages'')) of
             (Some model, Some messages) \<Rightarrow>
               Some (model, raw_member (struct_fields kvs ''tools'') @ raw_member (struct_fields kvs ''system'') @ messages)
           | _ \<Rightarrow> None)
      | Some JNull \<Rightarrow> Some ([], [])
      | _ \<Rightarrow> None)"

text \<open>\<open>feed\<close> for every segment: what the hash has been given, and the parts.\<close>

fun chain_parts :: "(string \<Rightarrow> string) \<Rightarrow> (rat \<Rightarrow> string) \<Rightarrow> json list \<Rightarrow> string \<Rightarrow> string list" where
  "chain_parts hash numtext [] fed = []"
| "chain_parts hash numtext (seg # segs) fed =
     (let fed1 = fed @ canonicalSegment numtext seg
      in take 16 (hash fed1) # chain_parts hash numtext segs fed1)"

definition anthropicPrefixChain ::
    "(string \<Rightarrow> string) \<Rightarrow> (rat \<Rightarrow> string) \<Rightarrow> json option \<Rightarrow> string \<times> string" where
  "anthropicPrefixChain hash numtext body =
     (case anthropic_segments body of
        None \<Rightarrow> ([], [])
      | Some (model, segs) \<Rightarrow> (model, join '','' (chain_parts hash numtext segs [])))"

section \<open>The handler\<close>

record anthropic_request =
  aq_Path :: string
  aq_Header :: header
  aq_Read :: "string option"
  aq_Body :: payload
  aq_Identity :: "Identity option"

record anthropic_exchange =
  ax_model :: string
  ax_chain :: string
  ax_session :: string
  ax_error :: string
  ax_refusalClass :: error_class
  ax_tolerance :: string
  ax_out :: "outbound option"
  ax_isSSE :: bool
  ax_usage :: anthropicUsage
  ax_result :: forward_result
  ax_writer :: writer

text \<open>\<open>singleJoiningSlash\<close>.\<close>

definition join_paths :: "string \<Rightarrow> string \<Rightarrow> string" where
  "join_paths a b =
     (if has_suffix a ''/'' \<and> has_prefix b ''/'' then a @ drop 1 b
      else if \<not> has_suffix a ''/'' \<and> \<not> has_prefix b ''/'' then a @ ''/'' @ b
      else a @ b)"

definition anthropic_headers :: "payload \<Rightarrow> header \<Rightarrow> header" where
  "anthropic_headers body inbound =
     header_del ''Accept-Encoding''
       (header_set ''Content-Length'' (show_nat (length (pl_bytes body))) (strip_headers inbound))"

definition anthropic_answer ::
    "platform \<Rightarrow> (string \<Rightarrow> string list) \<Rightarrow> upstream_answer \<Rightarrow> writer
     \<Rightarrow> forward_result \<times> bool \<times> anthropicUsage \<times> writer" where
  "anthropic_answer pf reads ua w0 =
     (let w = pass_info (ua_Info ua) w0 in
      case ua_Final ua of
        Inl e \<Rightarrow> (Failed e, False, no_anthropic_usage, WriteHeader 502 w)
      | Inr r \<Rightarrow>
          if contentTypeIsSSE (ur_ContentType r) then
            let c = fold (scan (pf_parse pf) maxSSELineBuffer) (reads (ur_Body r)) \<lparr>ac_buf = [], ac_usage = no_anthropic_usage\<rparr>;
                (res, w') = stream_out r w
            in (res, True, ac_usage c, w')
          else
            (case ur_Broken r of
               Some e \<Rightarrow> (Failed e, False, no_anthropic_usage, WriteHeader 502 w)
             | None \<Rightarrow>
                 let (res, w') = stream_out r w
                 in (res, False, parseAnthropicResponseUsage (pf_parse pf (ur_Body r)) no_anthropic_usage, w')))"

definition anthropicProxy ::
    "platform \<Rightarrow> (string \<Rightarrow> string list) \<Rightarrow> (outbound \<Rightarrow> upstream_answer) \<Rightarrow> anthropic_request \<Rightarrow> string \<Rightarrow> writer
     \<Rightarrow> outbound option \<times> forward_result \<times> bool \<times> anthropicUsage \<times> writer" where
  "anthropicProxy pf reads upstream rq backendRoot w =
     (case url_hostname backendRoot of
        None \<Rightarrow> (None, Proxied, False, no_anthropic_usage, http_Error ''bad anthropic backend URL'' 500 w)
      | Some hostname \<Rightarrow>
          let out = \<lparr>ob_URL = join_paths backendRoot (aq_Path rq),
                     ob_Header = anthropic_headers (aq_Body rq) (aq_Header rq), ob_Body = aq_Body rq\<rparr>
          in (Some out, anthropic_answer pf reads (upstream out) w))"

definition anthropic_session :: "platform \<Rightarrow> anthropic_request \<Rightarrow> string" where
  "anthropic_session pf rq =
     (let s = callerSessionID (pf_parse pf) (aq_Header rq) [] in
      if s = [] \<and> aq_Read rq = None then callerSessionID (pf_parse pf) [] (anthropicUserID (pl_json (aq_Body rq)))
      else s)"

definition handleAnthropic ::
    "Router \<Rightarrow> platform \<Rightarrow> (string \<Rightarrow> string list) \<Rightarrow> (outbound \<Rightarrow> upstream_answer) \<Rightarrow> string \<Rightarrow> string \<Rightarrow> anthropic_request
     \<Rightarrow> anthropic_exchange" where
  "handleAnthropic rt pf reads upstream modelID backendRoot rq =
     (let base = \<lparr>ax_model = [], ax_chain = [], ax_session = anthropic_session pf rq, ax_error = [],
                  ax_refusalClass = ClassNone, ax_tolerance = [], ax_out = None, ax_isSSE = False,
                  ax_usage = no_anthropic_usage, ax_result = Proxied, ax_writer = fresh_writer\<rparr> in
      case aq_Read rq of
        Some e \<Rightarrow> base\<lparr>ax_error := ''read body: '' @ e, ax_writer := http_Error (''read body: '' @ e) 400 fresh_writer\<rparr>
      | None \<Rightarrow>
          let (model, chain) = anthropicPrefixChain (pf_hash pf) (pf_numtext pf) (pl_json (aq_Body rq));
              read = base\<lparr>ax_model := model, ax_chain := chain\<rparr>;
              (demand, refuse) = privacyDemandFor (header_get (aq_Header rq) PrivacyHeader) (aq_Identity rq)
          in if refuse \<noteq> [] then
               read\<lparr>ax_error := refuse, ax_refusalClass := ClassPrivacyRefused,
                    ax_writer := send_refusal (pf_numtext pf) (writePrivacyRefusal TierNone refuse []) fresh_writer\<rparr>
             else
               let why = tier_gate (rt_registry rt) (pd_tier demand) modelID;
                   told = read\<lparr>ax_tolerance := tier_String (pd_tier demand)\<rparr>
               in if why \<noteq> [] then
                    let msg = pd_source demand @ '', but '' @ quoted modelID @ '' is '' @ why
                    in told\<lparr>ax_error := msg, ax_refusalClass := demand_errorClass demand,
                            ax_writer := send_refusal (pf_numtext pf) (writeRefusal demand (pd_tier demand) msg []) fresh_writer\<rparr>
                  else
                    let (out, res, isSSE, usage, w) = anthropicProxy pf reads upstream rq backendRoot fresh_writer
                    in told\<lparr>ax_out := out, ax_result := res, ax_isSSE := isSSE, ax_usage := usage, ax_writer := w\<rparr>)"

section \<open>The passthrough is transparent\<close>

text \<open>C8: An Anthropic request that leaves the router carries the caller's bytes, and the caller's headers as they
are but for the length, the encoding the transport negotiates itself and what a proxy must drop, so that its
credentials are its own; and it leaves only when the target meets the tier of its header and token scope.\<close>

theorem anthropic_transparent_within_tier:
  "case ax_out (handleAnthropic rt pf reads upstream modelID backendRoot rq) of
     None \<Rightarrow> True
   | Some out \<Rightarrow>
       ob_Body out = aq_Body rq
       \<and> lookup (ob_Header out) k =
           (if k = ''Accept-Encoding'' then None
            else if k = ''Content-Length'' then Some [show_nat (length (pl_bytes (aq_Body rq)))]
            else lookup (strip_headers (aq_Header rq)) k)
       \<and> (case lookup (reg_Models (rt_registry rt)) modelID of
            None \<Rightarrow> True
          | Some m \<Rightarrow> satisfies_tier m (pd_tier (fst (privacyDemandFor (header_get (aq_Header rq) PrivacyHeader) (aq_Identity rq)))))"
proof -
  have canon: "canonical_key ''Accept-Encoding'' = ''Accept-Encoding''" "canonical_key ''Content-Length'' = ''Content-Length''"
    by code_simp+
  obtain demand refuse where d: "privacyDemandFor (header_get (aq_Header rq) PrivacyHeader) (aq_Identity rq) = (demand, refuse)"
    by fastforce
  obtain model chain where c: "anthropicPrefixChain (pf_hash pf) (pf_numtext pf) (pl_json (aq_Body rq)) = (model, chain)"
    by fastforce
  have gate: "tier_gate (rt_registry rt) (pd_tier demand) modelID = [] \<Longrightarrow>
      lookup (reg_Models (rt_registry rt)) modelID = Some m \<Longrightarrow> satisfies_tier m (pd_tier demand)" for m
    by (auto simp: tier_gate_def privacyGate_iff split: if_splits) (simp add: satisfies_tier_def)
  show ?thesis
    using gate
    by (auto simp: handleAnthropic_def anthropicProxy_def anthropic_headers_def Let_def d c canon
        split: option.splits prod.splits)
qed

section \<open>Usage does not depend on the reads\<close>

lemma split_on_takeWhile:
  "split_on c s = (if c \<notin> set s then [s]
     else takeWhile (\<lambda>x. x \<noteq> c) s # split_on c (drop (length (takeWhile (\<lambda>x. x \<noteq> c) s) + 1) s))"
  by (induction s) auto

lemma scan_buffer_lines:
  "scan_buffer parse limit c =
     (let ls = split_on newline (ac_buf c) in
      \<lparr>ac_buf = (if length (last ls) > limit then [] else last ls),
       ac_usage = fold (handleLine parse) (butlast ls) (ac_usage c)\<rparr>)"
proof (induction parse limit c rule: scan_buffer.induct)
  case (1 parse limit c)
  show ?case
  proof (cases "newline \<notin> set (ac_buf c)")
    case True
    then have "split_on newline (ac_buf c) = [ac_buf c]" by (subst split_on_takeWhile) simp
    then show ?thesis using True by (subst scan_buffer.simps) (simp add: Let_def)
  next
    case False
    then show ?thesis
      using "1.IH"[OF False refl] split_on_takeWhile[of newline "ac_buf c"]
      by (subst scan_buffer.simps) (simp add: Let_def)
  qed
qed

lemma split_on_grow: "split_on c (s @ b) = butlast (split_on c s) @ split_on c (last (split_on c s) @ b)"
proof (induction s)
  case (Cons a s)
  obtain p ps where "split_on c s = p # ps" using split_on_nonempty[of c s] by (cases "split_on c s") auto
  then show ?case using Cons by (cases ps) (auto split: list.splits)
qed simp

lemma reads_scanned:
  assumes "list_all (\<lambda>l. length l \<le> limit) (split_on newline (concat bs))"
  shows "fold (scan parse limit) bs \<lparr>ac_buf = [], ac_usage = u\<rparr> =
    \<lparr>ac_buf = last (split_on newline (concat bs)), ac_usage = fold (handleLine parse) (butlast (split_on newline (concat bs))) u\<rparr>"
  using assms
proof (induction bs rule: rev_induct)
  case (snoc b bs)
  let ?ls = "split_on newline (concat bs)"
  have grow: "split_on newline (concat bs @ b) = butlast ?ls @ split_on newline (last ?ls @ b)" by (rule split_on_grow)
  have ok: "list_all (\<lambda>l. length l \<le> limit) (split_on newline (last ?ls @ b))" "list_all (\<lambda>l. length l \<le> limit) (butlast ?ls)"
    using snoc.prems by (simp_all add: grow)
  have "length (last ?ls) \<le> length (hd (split_on newline (last ?ls @ b)))"
  proof -
    have free: "newline \<notin> set (last ?ls)"
    proof -
      have "newline \<notin> set l" if "l \<in> set (split_on newline s)" for l s
        using that by (induction s arbitrary: l) (auto split: list.splits if_splits)
      from this[OF last_in_set[OF split_on_nonempty]] show ?thesis .
    qed
    have "length x \<le> length (hd (split_on newline (x @ b)))" if "newline \<notin> set x" for x
      using that by (induction x) (auto split: list.splits)
    then show ?thesis using free by blast
  qed
  moreover have "length (hd (split_on newline (last ?ls @ b))) \<le> limit"
    using ok(1) hd_in_set[of "split_on newline (last ?ls @ b)"] by (simp add: list_all_iff)
  ultimately have "list_all (\<lambda>l. length l \<le> limit) (butlast ?ls @ [last ?ls])"
    unfolding list_all_append using ok(2) by simp
  then have "list_all (\<lambda>l. length l \<le> limit) ?ls" by simp
  note IH = snoc.IH[OF this]
  have "length (last (split_on newline (last ?ls @ b))) \<le> limit"
    using ok(1) last_in_set[of "split_on newline (last ?ls @ b)"] by (simp add: list_all_iff)
  then have "scan parse limit b \<lparr>ac_buf = last ?ls, ac_usage = v\<rparr> =
      \<lparr>ac_buf = last (split_on newline (last ?ls @ b)),
       ac_usage = fold (handleLine parse) (butlast (split_on newline (last ?ls @ b))) v\<rparr>" for v
    by (simp add: scan_def scan_buffer_lines Let_def)
  then show ?case by (simp add: IH grow butlast_append)
qed simp

text \<open>The usage read off a stream while it flows is that of its complete lines, one after the other, however
the transport cuts the stream, as long as no line outgrows the buffer.\<close>

theorem stream_usage_any_reads:
  assumes "concat reads = text" and "list_all (\<lambda>l. length l \<le> limit) (split_on newline text)"
  shows "ac_usage (fold (scan parse limit) reads \<lparr>ac_buf = [], ac_usage = u\<rparr>)
    = fold (handleLine parse) (butlast (split_on newline text)) u"
  using reads_scanned[of limit reads parse u] assms by simp

section \<open>The chain\<close>

lemma chain_parts_canonical:
  "map stripCacheControl segs = map stripCacheControl segs' \<Longrightarrow>
   chain_parts hash numtext segs fed = chain_parts hash numtext segs' fed"
proof (induction segs arbitrary: segs' fed)
  case (Cons seg segs)
  then obtain x xs where "segs' = x # xs" "stripCacheControl seg = stripCacheControl x"
      "map stripCacheControl segs = map stripCacheControl xs" by (cases segs') auto
  then show ?case using Cons.IH[of xs] by (simp add: canonicalSegment_def Let_def)
qed simp

lemma chain_parts_append:
  "take (length segs) (chain_parts hash numtext (segs @ later) fed) = chain_parts hash numtext segs fed"
  by (induction segs arbitrary: fed) (simp_all add: Let_def)

text \<open>A request that continues a conversation shares its chain with the one before: the chain of its segments
begins with the earlier chain, wherever the cache markers have moved to.\<close>

theorem chain_continues:
  assumes "map stripCacheControl segs = map stripCacheControl earlier"
  shows "prefix (chain_parts hash numtext earlier []) (chain_parts hash numtext (segs @ later) [])"
proof -
  have "chain_parts hash numtext earlier [] = take (length segs) (chain_parts hash numtext (segs @ later) [])"
    unfolding chain_parts_append by (rule chain_parts_canonical) (simp add: assms)
  then show ?thesis by (simp add: take_is_prefix)
qed

definition usage_line :: string where "usage_line = ''data: {1'' @ [newline]"

theorem stream_usage_any_reads_witness:
  "let parse = (\<lambda>d. Some (JObj [(''type'', JStr ''message_delta''), (''usage'', JObj [(''output_tokens'', JNum 7)])])) in
   ac_usage (fold (scan parse 20) [''dat'', ''a: {1'', [newline]] \<lparr>ac_buf = [], ac_usage = no_anthropic_usage\<rparr>)
     = no_anthropic_usage\<lparr>au_output := Some 7\<rparr>"
proof -
  let ?p = "\<lambda>d. Some (JObj [(''type'', JStr ''message_delta''), (''usage'', JObj [(''output_tokens'', JNum 7)])])"
  have ok: "concat [''dat'', ''a: {1'', [newline]] = usage_line"
    "list_all (\<lambda>l. length l \<le> 20) (split_on newline usage_line)"
    "fold (handleLine ?p) (butlast (split_on newline usage_line)) no_anthropic_usage = no_anthropic_usage\<lparr>au_output := Some 7\<rparr>"
    by code_simp+
  show ?thesis unfolding Let_def stream_usage_any_reads[OF ok(1,2)] by (rule ok(3))
qed

theorem chain_continues_witness:
  "prefix (chain_parts (\<lambda>s. s) (\<lambda>x. []) [JObj [(''role'', JStr ''user''), (''cache_control'', JNull)]] [])
     (chain_parts (\<lambda>s. s) (\<lambda>x. []) ([JObj [(''role'', JStr ''user'')]] @ [JStr ''more'']) [])"
  by (rule chain_continues) (simp add: stripCacheControl_def)

text \<open>A last line without its end is not looked at.\<close>

lemma unterminated_line_ignored:
  "ac_usage (scan (\<lambda>d. Some (JObj [(''type'', JStr ''message_delta''), (''usage'', JObj [(''output_tokens'', JNum 7)])]))
       20 (butlast usage_line) \<lparr>ac_buf = [], ac_usage = no_anthropic_usage\<rparr>) = no_anthropic_usage"
  by code_simp

end
