(* ===== verification/Request_Log.thy ===== *)
theory Request_Log
  imports Upstream_Window Tracker "HOL-Library.Signed_Division"
begin

text \<open>
  The request log (\<^verbatim>\<open>internal/router/reqlog\<close>): the record of a request, the queue in front of
  the database sinks, the column list of the insert, the migrations of the local database, and the read
  side: usage by principal, the time series, the failures and the requests of one session.

  \<^item> A record's \<open>TS\<close> is \<^const>\<open>None\<close> when it is the zero time, which is before every other time. Counts are
    unbounded integers and a cost is the rational number the source adds up in \<open>float64\<close>. The difference of
    two times does not saturate (it would after 292 years).
  \<^item> The read side is modelled over the records in memory (\<open>MemorySink\<close>), where the source computes the
    answer itself; over a database it is \<open>assembleSeries\<close> of the points the query returns.
  \<^item> \<open>sort.Slice\<close> leaves the order of equal elements open. The model keeps the order of the map; no
    statement depends on it.
\<close>

section \<open>Grouping\<close>

text \<open>The idiom of the read side: a map from a key of the element to a value that starts at \<open>init\<close> and
  takes up each element of its group.\<close>

definition group_into :: "('a \<Rightarrow> 'k) \<Rightarrow> ('k \<Rightarrow> 'v) \<Rightarrow> ('a \<Rightarrow> 'v \<Rightarrow> 'v) \<Rightarrow> 'a \<Rightarrow> ('k \<times> 'v) list \<Rightarrow> ('k \<times> 'v) list" where
  "group_into key init upd x m =
     AList.update (key x) (upd x (case map_of m (key x) of None \<Rightarrow> init (key x) | Some v \<Rightarrow> v)) m"

definition group_by :: "('a \<Rightarrow> 'k) \<Rightarrow> ('k \<Rightarrow> 'v) \<Rightarrow> ('a \<Rightarrow> 'v \<Rightarrow> 'v) \<Rightarrow> 'a list \<Rightarrow> ('k \<times> 'v) list" where
  "group_by key init upd xs = fold (group_into key init upd) xs []"

lemma group_by_distinct: "distinct (map fst (group_by key init upd xs))"
proof -
  have "distinct (map fst m) \<Longrightarrow> distinct (map fst (fold (group_into key init upd) xs m))" for m
    by (induction xs arbitrary: m) (auto simp: group_into_def distinct_update)
  then show ?thesis by (simp add: group_by_def)
qed

lemma group_by_lookup:
  "map_of (group_by key init upd xs) k
     = (if k \<in> key ` set xs then Some (fold upd (filter (\<lambda>x. key x = k) xs) (init k)) else None)"
proof (induction xs rule: rev_induct)
  case Nil then show ?case by (simp add: group_by_def)
next
  case (snoc x xs)
  have e: "group_by key init upd (xs @ [x]) = group_into key init upd x (group_by key init upd xs)"
    by (simp add: group_by_def)
  show ?case
  proof (cases "key x = k")
    case True
    have none: "k \<notin> key ` set xs \<Longrightarrow> filter (\<lambda>x. key x = k) xs = []" by (auto simp: filter_empty_conv)
    from True show ?thesis
      by (cases "k \<in> key ` set xs") (auto simp: e group_into_def update_conv' snoc.IH none)
  next
    case False
    then show ?thesis by (auto simp: e group_into_def update_conv' snoc.IH)
  qed
qed

lemma group_by_entry:
  "(k, v) \<in> set (group_by key init upd xs)
     \<longleftrightarrow> k \<in> key ` set xs \<and> v = fold upd (filter (\<lambda>x. key x = k) xs) (init k)"
  using group_by_lookup[of key init upd xs k] map_of_eq_Some_iff[OF group_by_distinct, of key init upd xs k v]
  by (auto split: if_splits)

lemma group_by_keys: "set (map fst (group_by key init upd xs)) = key ` set xs"
  by (auto simp: dom_map_of_conv_image_fst[symmetric] group_by_lookup dom_def)

text \<open>A field that every step increases by the weight of the element ends as the sum of the weights.\<close>

lemma fold_measure:
  fixes f :: "'v \<Rightarrow> 'n::comm_monoid_add"
  assumes "\<And>x v. f (upd x v) = f v + w x"
  shows "f (fold upd xs v) = f v + sum_list (map w xs)"
  by (induction xs arbitrary: v) (simp_all add: assms add_ac)

lemma sum_filter_if:
  "sum_list (map w (filter P xs)) = sum_list (map (\<lambda>x. if P x then w x else (0::'n::comm_monoid_add)) xs)"
  by (induction xs) simp_all

lemma sum_ones: "sum_list (map (\<lambda>x. 1) xs) = int (length xs)"
  by (induction xs) simp_all

section \<open>The record\<close>

record Record =
  re_RequestID :: string
  re_TS :: "time option"
  re_Method :: string
  re_Path :: string
  re_Model :: string
  re_BackendModel :: string
  re_BackendURL :: string
  re_ResolvedVia :: string
  re_APIClass :: string
  re_ViaToolProxy :: bool
  re_Stream :: bool
  re_Status :: int
  re_LatencyMS :: int
  re_PromptTokens :: "int option"
  re_CompletionTokens :: "int option"
  re_TotalTokens :: "int option"
  re_CacheCreationInputTokens :: "int option"
  re_CacheReadInputTokens :: "int option"
  re_PrefixHashChain :: string
  re_Role :: string
  re_RoleOverflowed :: bool
  re_CandidatePressure :: "int option"
  re_FailoverFrom :: string
  re_Error :: string
  re_UpstreamStatus :: int
  re_ErrorClass :: string
  re_Principal :: string
  re_TokenID :: string
  re_UpstreamProvider :: string
  re_UpstreamCostUSD :: "rat option"
  re_CachedPromptTokens :: "int option"
  re_PrivacyTolerance :: string
  re_Discovered :: bool
  re_SessionID :: string

definition zero_record :: Record where
  "zero_record =
     \<lparr>re_RequestID = [], re_TS = None, re_Method = [], re_Path = [], re_Model = [], re_BackendModel = [],
      re_BackendURL = [], re_ResolvedVia = [], re_APIClass = [], re_ViaToolProxy = False, re_Stream = False,
      re_Status = 0, re_LatencyMS = 0, re_PromptTokens = None, re_CompletionTokens = None, re_TotalTokens = None,
      re_CacheCreationInputTokens = None, re_CacheReadInputTokens = None, re_PrefixHashChain = [], re_Role = [],
      re_RoleOverflowed = False, re_CandidatePressure = None, re_FailoverFrom = [], re_Error = [],
      re_UpstreamStatus = 0, re_ErrorClass = [], re_Principal = [], re_TokenID = [], re_UpstreamProvider = [],
      re_UpstreamCostUSD = None, re_CachedPromptTokens = None, re_PrivacyTolerance = [], re_Discovered = False,
      re_SessionID = []\<rparr>"

definition class_text :: "error_class \<Rightarrow> string" where
  "class_text c =
     (case c of ClassNone \<Rightarrow> [] | ClassTimeout \<Rightarrow> ''timeout'' | ClassConnect \<Rightarrow> ''connect''
      | ClassTransport \<Rightarrow> ''transport'' | ClassServerError \<Rightarrow> ''server_error'' | ClassRateLimited \<Rightarrow> ''rate_limited''
      | ClassClientError \<Rightarrow> ''client_error'' | ClassEnvelope \<Rightarrow> ''error_envelope''
      | ClassPrivacyRefused \<Rightarrow> ''privacy_refused'' | ClassScopeRefused \<Rightarrow> ''scope_refused'')"

text \<open>\<open>a.After(b)\<close>.\<close>

fun isAfter :: "time option \<Rightarrow> time option \<Rightarrow> bool" where
  "isAfter None b = False"
| "isAfter (Some a) None = True"
| "isAfter (Some a) (Some b) = (a > b)"

definition deref :: "int option \<Rightarrow> int" where "deref x = (case x of None \<Rightarrow> 0 | Some n \<Rightarrow> n)"
definition deref_cost :: "rat option \<Rightarrow> rat" where "deref_cost x = (case x of None \<Rightarrow> 0 | Some c \<Rightarrow> c)"

section \<open>The queue in front of the database\<close>

text \<open>\<open>SQLiteSink\<close> and \<open>PostgresSink\<close> share it: \<open>Log\<close> puts a record into a channel of 256 and drops it when
  the channel is full, one writer takes them out in order, and \<open>Close\<close> closes the channel and waits until
  the writer has emptied it. \<open>Log\<close> on a closed channel panics.\<close>

definition sink_capacity :: nat where "sink_capacity = 256"

record sink =
  sk_ch :: "Record list"
  sk_dropped :: nat
  sk_closed :: bool
  sk_inserted :: "Record list"

definition new_sink :: sink where
  "new_sink = \<lparr>sk_ch = [], sk_dropped = 0, sk_closed = False, sk_inserted = []\<rparr>"

text \<open>\<^const>\<open>None\<close> is the panic.\<close>

definition sink_Log :: "Record \<Rightarrow> sink \<Rightarrow> sink option" where
  "sink_Log rec s =
     (if sk_closed s then None
      else if length (sk_ch s) < sink_capacity then Some (s\<lparr>sk_ch := sk_ch s @ [rec]\<rparr>)
      else Some (s\<lparr>sk_dropped := sk_dropped s + 1\<rparr>))"

definition sink_run :: "sink \<Rightarrow> sink" where
  "sink_run s =
     (case sk_ch s of [] \<Rightarrow> s | rec # rest \<Rightarrow> s\<lparr>sk_ch := rest, sk_inserted := sk_inserted s @ [rec]\<rparr>)"

text \<open>\<open>Close\<close> with the writer's remaining turns; the second call does nothing.\<close>

definition sink_Close :: "sink \<Rightarrow> sink" where
  "sink_Close s =
     (if sk_closed s then s
      else s\<lparr>sk_closed := True, sk_ch := [], sk_inserted := sk_inserted s @ sk_ch s\<rparr>)"

definition Dropped :: "sink \<Rightarrow> nat" where "Dropped s = sk_dropped s"

text \<open>The runs of a sink, with the records handed to \<open>Log\<close> so far.\<close>

inductive sink_reachable :: "Record list \<Rightarrow> sink \<Rightarrow> bool" where
  start: "sink_reachable [] new_sink"
| log: "sink_reachable logged s \<Longrightarrow> sink_Log rec s = Some s' \<Longrightarrow> sink_reachable (logged @ [rec]) s'"
| run: "sink_reachable logged s \<Longrightarrow> sink_reachable logged (sink_run s)"
| close: "sink_reachable logged s \<Longrightarrow> sink_reachable logged (sink_Close s)"

lemma sink_invariant:
  "sink_reachable logged s \<Longrightarrow>
     length (sk_ch s) \<le> sink_capacity
   \<and> length (sk_inserted s) + length (sk_ch s) + sk_dropped s = length logged
   \<and> subseq (sk_inserted s @ sk_ch s) logged \<and> (sk_closed s \<longrightarrow> sk_ch s = [])"
proof (induction rule: sink_reachable.induct)
  case start
  show ?case by (simp add: new_sink_def)
next
  case (log logged s rec s')
  show ?case
  proof (cases "length (sk_ch s) < sink_capacity")
    case True
    with log.hyps(2) have *: "s' = s\<lparr>sk_ch := sk_ch s @ [rec]\<rparr>" by (auto simp: sink_Log_def split: if_splits)
    from log.hyps(2) have "\<not> sk_closed s" by (auto simp: sink_Log_def)
    with * True log.IH show ?thesis by (simp add: list_emb_append_mono flip: append_assoc)
  next
    case False
    with log.hyps(2) have *: "s' = s\<lparr>sk_dropped := sk_dropped s + 1\<rparr>" by (auto simp: sink_Log_def split: if_splits)
    from log.hyps(2) have "\<not> sk_closed s" by (auto simp: sink_Log_def)
    with * log.IH show ?thesis by (auto intro: subseq_order.trans)
  qed
next
  case (run logged s)
  then show ?case by (auto simp: sink_run_def split: list.splits)
next
  case (close logged s)
  then show ?case by (auto simp: sink_Close_def)
qed

text \<open>Every record handed to a database sink is written, waiting or counted as dropped; what is written
  keeps the order of the requests; nothing is dropped that finds room; and once the sink is closed
  everything that was waiting has been written.\<close>

theorem sink_loses_only_what_it_counts:
  assumes "sink_reachable logged s"
  shows "length (sk_inserted (sink_Close s)) + Dropped s = length logged
       \<and> subseq (sk_inserted (sink_Close s)) logged"
  using sink_invariant[OF assms] by (auto simp: sink_Close_def Dropped_def)

theorem sink_loses_only_what_it_counts_witness:
  "length (sk_inserted (sink_Close (sink_run new_sink))) + Dropped (sink_run new_sink) = length ([] :: Record list)"
  using sink_loses_only_what_it_counts[OF sink_reachable.run[OF sink_reachable.start]] by simp

section \<open>What is written\<close>

datatype sql_value = SqlNull | SqlText string | SqlInt int | SqlReal rat | SqlBool bool

definition nullIfEmpty :: "string \<Rightarrow> sql_value" where
  "nullIfEmpty s = (if s = [] then SqlNull else SqlText s)"

definition nullIfZero :: "int \<Rightarrow> sql_value" where
  "nullIfZero n = (if n = 0 then SqlNull else SqlInt n)"

definition b2i :: "bool \<Rightarrow> sql_value" where "b2i b = SqlInt (if b then 1 else 0)"

definition int_value :: "int option \<Rightarrow> sql_value" where
  "int_value x = (case x of None \<Rightarrow> SqlNull | Some n \<Rightarrow> SqlInt n)"

definition cost_value :: "rat option \<Rightarrow> sql_value" where
  "cost_value x = (case x of None \<Rightarrow> SqlNull | Some c \<Rightarrow> SqlReal c)"

text \<open>The columns of \<open>sqliteInsertSQL\<close> and the arguments of \<open>insertRec\<close>, in their order. A time is written
  by \<open>format\<close> (RFC 3339 in UTC); the zero time becomes the time of the write.\<close>

definition insert_columns :: "string list" where
  "insert_columns =
     [''request_id'', ''ts'', ''method'', ''path'', ''model'', ''backend_model'', ''backend_url'', ''resolved_via'',
      ''api_class'', ''via_tool_proxy'', ''stream'', ''status'', ''latency_ms'',
      ''prompt_tokens'', ''completion_tokens'', ''total_tokens'',
      ''cache_creation_input_tokens'', ''cache_read_input_tokens'', ''prefix_hash_chain'',
      ''role'', ''role_overflowed'', ''failover_from'', ''error'', ''upstream_status'', ''error_class'',
      ''principal'', ''token_id'', ''upstream_provider'', ''privacy_tolerance'',
      ''upstream_cost_usd'', ''cached_prompt_tokens'', ''candidate_pressure'', ''discovered'',
      ''session_id'']"

definition insertRec :: "(time \<Rightarrow> string) \<Rightarrow> time \<Rightarrow> Record \<Rightarrow> sql_value list" where
  "insertRec format now r =
     [nullIfEmpty (re_RequestID r), SqlText (format (case re_TS r of None \<Rightarrow> now | Some t \<Rightarrow> t)),
      SqlText (re_Method r), SqlText (re_Path r), SqlText (re_Model r),
      nullIfEmpty (re_BackendModel r), nullIfEmpty (re_BackendURL r),
      nullIfEmpty (re_ResolvedVia r), nullIfEmpty (re_APIClass r),
      b2i (re_ViaToolProxy r), b2i (re_Stream r), SqlInt (re_Status r), SqlInt (re_LatencyMS r),
      int_value (re_PromptTokens r), int_value (re_CompletionTokens r), int_value (re_TotalTokens r),
      int_value (re_CacheCreationInputTokens r), int_value (re_CacheReadInputTokens r),
      nullIfEmpty (re_PrefixHashChain r),
      nullIfEmpty (re_Role r), SqlBool (re_RoleOverflowed r), nullIfEmpty (re_FailoverFrom r),
      nullIfEmpty (re_Error r),
      nullIfZero (re_UpstreamStatus r), nullIfEmpty (re_ErrorClass r),
      nullIfEmpty (re_Principal r), nullIfEmpty (re_TokenID r),
      nullIfEmpty (re_UpstreamProvider r), nullIfEmpty (re_PrivacyTolerance r),
      cost_value (re_UpstreamCostUSD r), int_value (re_CachedPromptTokens r),
      int_value (re_CandidatePressure r), b2i (re_Discovered r),
      nullIfEmpty (re_SessionID r)]"

text \<open>The columns \<open>SQLiteSchemaSQL\<close> creates, and the columns added after the first release. The indexes made
  before the migrations are over columns every table has.\<close>

definition schema_columns :: "string list" where
  "schema_columns =
     [''id'', ''request_id'', ''ts'', ''method'', ''path'', ''model'', ''backend_model'', ''backend_url'',
      ''resolved_via'', ''api_class'', ''via_tool_proxy'', ''stream'', ''status'', ''latency_ms'', ''prompt_tokens'',
      ''completion_tokens'', ''total_tokens'', ''cache_creation_input_tokens'', ''cache_read_input_tokens'',
      ''prefix_hash_chain'', ''role'', ''role_overflowed'', ''candidate_pressure'', ''failover_from'', ''error'',
      ''upstream_status'', ''error_class'', ''principal'', ''token_id'', ''upstream_provider'', ''privacy_tolerance'',
      ''upstream_cost_usd'', ''cached_prompt_tokens'', ''discovered'', ''session_id'']"

definition schema_indexes :: "string list" where
  "schema_indexes = [''ts'', ''request_id'', ''model'']"

definition add_column :: "string \<Rightarrow> string \<Rightarrow> string \<times> string" where
  "add_column name type = (name, ''ALTER TABLE router_requests ADD COLUMN '' @ name @ '' '' @ type)"

definition sqliteMigrations :: "(string \<times> string) list" where
  "sqliteMigrations =
     [add_column ''cache_creation_input_tokens'' ''INTEGER'', add_column ''cache_read_input_tokens'' ''INTEGER'',
      add_column ''prefix_hash_chain'' ''TEXT'', add_column ''role'' ''TEXT'',
      add_column ''role_overflowed'' ''INTEGER NOT NULL DEFAULT 0'', add_column ''failover_from'' ''TEXT'',
      add_column ''upstream_status'' ''INTEGER'', add_column ''error_class'' ''TEXT'', add_column ''principal'' ''TEXT'',
      add_column ''token_id'' ''TEXT'', add_column ''upstream_provider'' ''TEXT'',
      add_column ''privacy_tolerance'' ''TEXT'', add_column ''upstream_cost_usd'' ''REAL'',
      add_column ''cached_prompt_tokens'' ''INTEGER'', add_column ''candidate_pressure'' ''INTEGER'',
      add_column ''discovered'' ''INTEGER NOT NULL DEFAULT 0'', add_column ''session_id'' ''TEXT'']"

definition sqlitePostMigrate_indexes :: "string list" where
  "sqlitePostMigrate_indexes = [''principal'', ''upstream_provider'', ''session_id'']"

text \<open>\<open>migrateSQLite\<close> over a database: \<open>tableInfo\<close> lists the columns the table has, \<open>exec\<close> runs one statement
  and returns its error. It stops at the first failure.\<close>

fun run_migrations ::
    "(string \<Rightarrow> 'db \<Rightarrow> string option \<times> 'db) \<Rightarrow> string list \<Rightarrow> (string \<times> string) list \<Rightarrow> 'db \<Rightarrow> string option \<times> 'db" where
  "run_migrations exec have [] db = (None, db)"
| "run_migrations exec have ((name, ddl) # ms) db =
     (if name \<in> set have then run_migrations exec have ms db
      else case exec ddl db of
             (Some err, db') \<Rightarrow> (Some (''add column '' @ name @ '': '' @ err), db')
           | (None, db') \<Rightarrow> run_migrations exec have ms db')"

definition migrateSQLite ::
    "('db \<Rightarrow> string + string list) \<Rightarrow> (string \<Rightarrow> 'db \<Rightarrow> string option \<times> 'db) \<Rightarrow> 'db \<Rightarrow> string option \<times> 'db" where
  "migrateSQLite tableInfo exec db =
     (case tableInfo db of Inl err \<Rightarrow> (Some err, db)
      | Inr have \<Rightarrow> run_migrations exec have sqliteMigrations db)"

text \<open>The documented behaviour of \<open>ALTER TABLE ... ADD COLUMN\<close> on a table given by the list of its columns:
  a name the table does not have becomes its last column.\<close>

definition adds_columns :: "('db \<Rightarrow> string list) \<Rightarrow> (string \<Rightarrow> 'db \<Rightarrow> string option \<times> 'db) \<Rightarrow> bool" where
  "adds_columns cols exec \<longleftrightarrow>
     (\<forall>name type db. CHR '' '' \<notin> set name \<and> name \<notin> set (cols db) \<longrightarrow>
        fst (exec (snd (add_column name type)) db) = None
      \<and> cols (snd (exec (snd (add_column name type)) db)) = cols db @ [name])"

lemma run_migrations_columns:
  assumes "adds_columns cols exec"
    and "\<forall>m \<in> set ms. CHR '' '' \<notin> set (fst m) \<and> (\<exists>type. m = add_column (fst m) type)"
    and "distinct (map fst ms)" and "set (map fst ms) \<inter> set (cols db) \<subseteq> set have" and "set have \<subseteq> set (cols db)"
  shows "fst (run_migrations exec have ms db) = None
       \<and> cols (snd (run_migrations exec have ms db)) = cols db @ filter (\<lambda>n. n \<notin> set have) (map fst ms)"
  using assms(2-5)
proof (induction ms arbitrary: db)
  case Nil
  then show ?case by simp
next
  case (Cons m ms)
  obtain name ddl where m: "m = (name, ddl)" by (rule prod.exhaust)
  show ?case
  proof (cases "name \<in> set have")
    case True
    have "fst (run_migrations exec have ms db) = None
        \<and> cols (snd (run_migrations exec have ms db)) = cols db @ filter (\<lambda>n. n \<notin> set have) (map fst ms)"
      by (rule Cons.IH) (use Cons.prems m in auto)
    with True show ?thesis by (simp add: m)
  next
    case False
    obtain type where ddl: "ddl = snd (add_column name type)" and plain: "CHR '' '' \<notin> set name"
      using Cons.prems(1) by (auto simp: m add_column_def)
    obtain err db' where e: "exec ddl db = (err, db')" by (rule prod.exhaust)
    have "name \<notin> set (cols db)" using Cons.prems(3) False by (auto simp: m)
    with assms(1) have *: "err = None" "cols db' = cols db @ [name]"
      unfolding adds_columns_def by (metis ddl e plain fst_conv snd_conv)+
    have "fst (run_migrations exec have ms db') = None
        \<and> cols (snd (run_migrations exec have ms db')) = cols db' @ filter (\<lambda>n. n \<notin> set have) (map fst ms)"
      by (rule Cons.IH) (use Cons.prems m * in auto)
    then show ?thesis by (simp add: m False e *)
  qed
qed

lemma migrations_are_columns:
  "\<forall>m \<in> set sqliteMigrations. CHR '' '' \<notin> set (fst m) \<and> (\<exists>type. m = add_column (fst m) type)"
  by (auto simp: sqliteMigrations_def add_column_def)

lemma migrations_distinct: "distinct (map fst sqliteMigrations)" by code_simp

lemma insert_columns_known:
  "set insert_columns \<union> set sqlitePostMigrate_indexes
     \<subseteq> set schema_columns" "set schema_indexes \<inter> set (map fst sqliteMigrations) = {}"
  by code_simp+

text \<open>A table made by any release, that is one with every column of the schema that no migration adds, ends
  with every column the insert and the late indexes name; the early indexes are over columns it had
  before; and running the migrations again changes nothing.\<close>

theorem migration_completes:
  assumes "adds_columns cols exec" and "tableInfo db = Inr (cols db)"
    and "set schema_columns - set (map fst sqliteMigrations) \<subseteq> set (cols db)"
  shows "fst (migrateSQLite tableInfo exec db) = None
       \<and> set insert_columns \<union> set sqlitePostMigrate_indexes \<subseteq> set (cols (snd (migrateSQLite tableInfo exec db)))
       \<and> set schema_indexes \<subseteq> set (cols db)
       \<and> (set schema_columns \<subseteq> set (cols db) \<longrightarrow> cols (snd (migrateSQLite tableInfo exec db)) = cols db)"
proof -
  let ?db = "snd (migrateSQLite tableInfo exec db)"
  have r: "fst (migrateSQLite tableInfo exec db) = None
      \<and> cols ?db = cols db @ filter (\<lambda>n. n \<notin> set (cols db)) (map fst sqliteMigrations)"
    using run_migrations_columns[OF assms(1) migrations_are_columns migrations_distinct, of db "cols db"]
    by (simp add: migrateSQLite_def assms(2))
  then have all: "set schema_columns \<subseteq> set (cols ?db)" using assms(3) by auto
  have "set schema_indexes \<subseteq> set schema_columns" by code_simp
  then have early: "set schema_indexes \<subseteq> set (cols db)" using assms(3) insert_columns_known(2) by blast
  have "set (map fst sqliteMigrations) \<subseteq> set schema_columns" by code_simp
  then have "set schema_columns \<subseteq> set (cols db) \<longrightarrow> cols ?db = cols db" using r by (auto simp: filter_empty_conv)
  with r all early insert_columns_known(1) show ?thesis by blast
qed

definition alter_table :: "string \<Rightarrow> string list \<Rightarrow> string option \<times> string list" where
  "alter_table ddl cols =
     (let name = before_char (CHR '' '') (trim_prefix ddl ''ALTER TABLE router_requests ADD COLUMN '')
      in if name \<in> set cols then (Some ''duplicate column name'', cols) else (None, cols @ [name]))"

lemma alter_table_adds: "adds_columns (\<lambda>cols. cols) alter_table"
proof -
  have "before_char (CHR '' '') (name @ '' '' @ type) = name" if "CHR '' '' \<notin> set name" for name type
    using that by (induction name) (auto simp: before_char_def)
  then show ?thesis
    unfolding adds_columns_def alter_table_def add_column_def snd_conv trim_prefix_append by (simp add: Let_def)
qed

theorem migration_completes_witness:
  "set insert_columns \<subseteq> set (snd (migrateSQLite Inr alter_table [''id'', ''request_id'', ''ts'', ''method'', ''path'',
     ''model'', ''backend_model'', ''backend_url'', ''resolved_via'', ''api_class'', ''via_tool_proxy'', ''stream'',
     ''status'', ''latency_ms'', ''prompt_tokens'', ''completion_tokens'', ''total_tokens'', ''error'']))"
proof -
  have "set schema_columns - set (map fst sqliteMigrations) \<subseteq> set [''id'', ''request_id'', ''ts'', ''method'', ''path'',
     ''model'', ''backend_model'', ''backend_url'', ''resolved_via'', ''api_class'', ''via_tool_proxy'', ''stream'',
     ''status'', ''latency_ms'', ''prompt_tokens'', ''completion_tokens'', ''total_tokens'', ''error'']" by code_simp
  from migration_completes[OF alter_table_adds, where tableInfo = Inr, OF refl this] show ?thesis by blast
qed

text \<open>The arguments fit the columns.\<close>

lemma insert_args_fit: "length (insertRec format now r) = length insert_columns"
  by (simp add: insertRec_def insert_columns_def)

section \<open>Usage by principal\<close>

record UsageRow =
  ug_Principal :: string
  ug_Requests :: int
  ug_Failures :: int
  ug_PromptTokens :: int
  ug_CompletionTokens :: int
  ug_CostUSD :: rat
  ug_LastSeen :: "time option"

definition usage_failure :: "Record \<Rightarrow> bool" where
  "usage_failure r \<longleftrightarrow>
     (re_ErrorClass r \<noteq> [] \<and> re_ErrorClass r \<noteq> ''client_error'') \<or> (re_ErrorClass r = [] \<and> re_Status r \<ge> 500)"

definition usage_add :: "Record \<Rightarrow> UsageRow \<Rightarrow> UsageRow" where
  "usage_add rec r =
     r\<lparr>ug_Requests := ug_Requests r + 1,
       ug_Failures := ug_Failures r + (if usage_failure rec then 1 else 0),
       ug_PromptTokens := ug_PromptTokens r + deref (re_PromptTokens rec),
       ug_CompletionTokens := ug_CompletionTokens r + deref (re_CompletionTokens rec),
       ug_CostUSD := ug_CostUSD r + deref_cost (re_UpstreamCostUSD rec),
       ug_LastSeen := (if isAfter (re_TS rec) (ug_LastSeen r) then re_TS rec else ug_LastSeen r)\<rparr>"

definition empty_usage :: "string \<Rightarrow> UsageRow" where
  "empty_usage p = \<lparr>ug_Principal = p, ug_Requests = 0, ug_Failures = 0, ug_PromptTokens = 0, ug_CompletionTokens = 0,
                    ug_CostUSD = 0, ug_LastSeen = None\<rparr>"

definition UsageByPrincipal :: "time \<Rightarrow> Record list \<Rightarrow> UsageRow list" where
  "UsageByPrincipal cutoff records =
     sort_key (\<lambda>r. (- ug_Requests r, ug_Principal r))
       (map snd (group_by re_Principal empty_usage usage_add
          (filter (\<lambda>rec. isAfter (re_TS rec) (Some cutoff)) records)))"

section \<open>The series\<close>

record SeriesBucket =
  se_Start :: time
  se_Requests :: int
  se_Errors :: int
  se_PromptTokens :: int
  se_CompletionTokens :: int
  se_CostUSD :: rat
  se_LatencyAvgMS :: int

record SeriesRow =
  sw_Key :: string
  sw_Requests :: int
  sw_Buckets :: "SeriesBucket list"

definition empty_bucket_at :: "time \<Rightarrow> SeriesBucket" where
  "empty_bucket_at t = \<lparr>se_Start = t, se_Requests = 0, se_Errors = 0, se_PromptTokens = 0, se_CompletionTokens = 0,
                        se_CostUSD = 0, se_LatencyAvgMS = 0\<rparr>"

definition groupColumn :: "string \<Rightarrow> string + string" where
  "groupColumn groupBy =
     (if groupBy = ''model'' then Inr (''COALESCE(resolved_via, '' @ [CHR 0x27, CHR 0x27] @ '')'')
      else if groupBy = ''principal'' then Inr (''COALESCE(principal, '' @ [CHR 0x27, CHR 0x27] @ '')'')
      else Inl (''reqlog: series group_by '' @ quoted groupBy @ '' (want model or principal)''))"

text \<open>\<open>t.Truncate(d)\<close> counts from the zero time, the first instant of the year 1.\<close>

definition zero_time_offset :: duration where "zero_time_offset = 62135596800 * second"

definition Truncate :: "time \<Rightarrow> duration \<Rightarrow> time" where
  "Truncate t d = (if d \<le> 0 then t else t - (t + zero_time_offset) mod d)"

text \<open>The pieces of \<open>assembleSeries\<close>: a row with the whole grid, the merge of two buckets, and the place of
  a point. Division of integers truncates toward zero.\<close>

definition series_row_at :: "time \<Rightarrow> duration \<Rightarrow> nat \<Rightarrow> string \<Rightarrow> SeriesRow" where
  "series_row_at start bucket n key =
     \<lparr>sw_Key = key, sw_Requests = 0, sw_Buckets = map (\<lambda>i. empty_bucket_at (start + int i * bucket)) [0..<n]\<rparr>"

definition merge_bucket :: "SeriesBucket \<Rightarrow> SeriesBucket \<Rightarrow> SeriesBucket" where
  "merge_bucket dst src =
     dst\<lparr>se_LatencyAvgMS :=
           (if se_Requests dst + se_Requests src > 0
            then (se_LatencyAvgMS dst * se_Requests dst + se_LatencyAvgMS src * se_Requests src)
                   sdiv (se_Requests dst + se_Requests src)
            else se_LatencyAvgMS dst),
         se_Requests := se_Requests dst + se_Requests src, se_Errors := se_Errors dst + se_Errors src,
         se_PromptTokens := se_PromptTokens dst + se_PromptTokens src,
         se_CompletionTokens := se_CompletionTokens dst + se_CompletionTokens src,
         se_CostUSD := se_CostUSD dst + se_CostUSD src\<rparr>"

definition point_index :: "time \<Rightarrow> duration \<Rightarrow> SeriesBucket \<Rightarrow> int" where
  "point_index start bucket b = (se_Start b - start) sdiv bucket"

definition add_point :: "time \<Rightarrow> duration \<Rightarrow> string \<times> SeriesBucket \<Rightarrow> SeriesRow \<Rightarrow> SeriesRow" where
  "add_point start bucket p r =
     (let i = nat (point_index start bucket (snd p))
      in r\<lparr>sw_Buckets := (sw_Buckets r)[i := merge_bucket (sw_Buckets r ! i) (snd p)],
           sw_Requests := sw_Requests r + se_Requests (snd p)\<rparr>)"

definition merge_row :: "SeriesRow \<Rightarrow> SeriesRow \<Rightarrow> SeriesRow" where
  "merge_row r other =
     other\<lparr>sw_Requests := sw_Requests other + sw_Requests r,
           sw_Buckets := map2 merge_bucket (sw_Buckets other) (sw_Buckets r)\<rparr>"

definition other_key :: string where "other_key = ''other''"

definition series_width :: "duration \<Rightarrow> duration" where
  "series_width bucket = (if bucket \<le> 0 then 3600 * second else bucket)"

definition series_len :: "time \<Rightarrow> duration \<Rightarrow> time \<Rightarrow> nat" where
  "series_len start bucket now = nat (max 1 ((now - start) sdiv bucket + 1))"

definition assembleSeries ::
    "(string \<times> SeriesBucket) list \<Rightarrow> time \<Rightarrow> duration \<Rightarrow> int \<Rightarrow> time \<Rightarrow> SeriesRow list" where
  "assembleSeries points cutoff bucket0 limit now =
     (let bucket = series_width bucket0; start = Truncate cutoff bucket; n = series_len start bucket now;
          inside = filter (\<lambda>p. 0 \<le> point_index start bucket (snd p) \<and> point_index start bucket (snd p) < int n) points;
          rows = group_by fst (series_row_at start bucket n) (add_point start bucket) inside;
          out = sort_key (\<lambda>r. (- sw_Requests r, sw_Key r)) (map snd rows)
      in if limit > 0 \<and> int (length out) > limit
         then take (nat limit) out @ [fold merge_row (drop (nat limit) out) (series_row_at start bucket n other_key)]
         else out)"

definition isFailure :: "Record \<Rightarrow> bool" where
  "isFailure r \<longleftrightarrow>
     (if re_ErrorClass r \<noteq> [] then re_ErrorClass r \<noteq> ''client_error'' \<and> \<not> has_suffix (re_ErrorClass r) ''_refused''
      else re_Status r \<ge> 500)"

text \<open>The series of the records in memory: an accumulator per key and bucket, then one point for each.\<close>

record series_acc =
  sa_b :: SeriesBucket
  sa_n :: int
  sa_l :: int

definition empty_acc :: "time \<Rightarrow> series_acc" where
  "empty_acc t = \<lparr>sa_b = empty_bucket_at t, sa_n = 0, sa_l = 0\<rparr>"

definition acc_add :: "Record \<Rightarrow> series_acc \<Rightarrow> series_acc" where
  "acc_add rec a =
     (let b = sa_b a
      in \<lparr>sa_b = b\<lparr>se_Requests := se_Requests b + 1,
                   se_Errors := se_Errors b + (if isFailure rec then 1 else 0),
                   se_PromptTokens := se_PromptTokens b + deref (re_PromptTokens rec),
                   se_CompletionTokens := se_CompletionTokens b + deref (re_CompletionTokens rec),
                   se_CostUSD := se_CostUSD b + deref_cost (re_UpstreamCostUSD rec)\<rparr>,
          sa_n = sa_n a + 1, sa_l = sa_l a + re_LatencyMS rec\<rparr>)"

definition series_key :: "string \<Rightarrow> Record \<Rightarrow> string" where
  "series_key groupBy rec = (if groupBy = ''principal'' then re_Principal rec else re_ResolvedVia rec)"

definition record_time :: "Record \<Rightarrow> time" where
  "record_time rec = (case re_TS rec of Some t \<Rightarrow> t | None \<Rightarrow> - zero_time_offset)"

definition acc_point :: "series_acc \<Rightarrow> SeriesBucket" where
  "acc_point a = (if sa_n a > 0 then (sa_b a)\<lparr>se_LatencyAvgMS := sa_l a sdiv sa_n a\<rparr> else sa_b a)"

definition memory_points :: "string \<Rightarrow> duration \<Rightarrow> time \<Rightarrow> Record list \<Rightarrow> (string \<times> SeriesBucket) list" where
  "memory_points groupBy bucket cutoff records =
     concat (map (\<lambda>(key, bm). map (\<lambda>(bs, a). (key, acc_point a)) bm)
       (group_by (series_key groupBy) (\<lambda>key. [])
          (\<lambda>rec bm. group_into (\<lambda>r. Truncate (record_time r) bucket) empty_acc acc_add rec bm)
          (filter (\<lambda>rec. isAfter (re_TS rec) (Some cutoff)) records)))"

definition Series :: "Record list \<Rightarrow> time \<Rightarrow> duration \<Rightarrow> string \<Rightarrow> int \<Rightarrow> time \<Rightarrow> string + SeriesRow list" where
  "Series records cutoff bucket0 groupBy limit now =
     (case groupColumn groupBy of
        Inl err \<Rightarrow> Inl err
      | Inr _ \<Rightarrow> let bucket = series_width bucket0
                 in Inr (assembleSeries (memory_points groupBy bucket cutoff records) cutoff bucket limit now))"

section \<open>What failed, and one session\<close>

record FailureRow =
  fr_Model :: string
  fr_BackendURL :: string
  fr_ErrorClass :: string
  fr_Count :: int
  fr_Last :: "time option"

definition failure_key :: "Record \<Rightarrow> string \<times> string \<times> string" where
  "failure_key rec = (re_ResolvedVia rec, re_BackendURL rec, re_ErrorClass rec)"

definition failure_add :: "Record \<Rightarrow> FailureRow \<Rightarrow> FailureRow" where
  "failure_add rec r =
     r\<lparr>fr_Count := fr_Count r + 1, fr_Last := (if isAfter (re_TS rec) (fr_Last r) then re_TS rec else fr_Last r)\<rparr>"

definition Failures :: "Record list \<Rightarrow> time \<Rightarrow> FailureRow list" where
  "Failures records cutoff =
     sort_key (\<lambda>r. (- fr_Count r, fr_Model r))
       (map snd (group_by failure_key
          (\<lambda>(model, url, class). \<lparr>fr_Model = model, fr_BackendURL = url, fr_ErrorClass = class, fr_Count = 0, fr_Last = None\<rparr>)
          failure_add (filter (\<lambda>rec. isAfter (re_TS rec) (Some cutoff) \<and> isFailure rec) records)))"

record RequestRow =
  qr_TS :: "time option"
  qr_RequestID :: string
  qr_SessionID :: string
  qr_Path :: string
  qr_Model :: string
  qr_ResolvedVia :: string
  qr_Status :: int
  qr_LatencyMS :: int
  qr_PromptTokens :: "int option"
  qr_CompletionTokens :: "int option"
  qr_CacheReadTokens :: "int option"
  qr_UpstreamProvider :: string
  qr_ErrorClass :: string
  qr_Principal :: string

definition request_row :: "Record \<Rightarrow> RequestRow" where
  "request_row rec =
     \<lparr>qr_TS = re_TS rec, qr_RequestID = re_RequestID rec, qr_SessionID = re_SessionID rec, qr_Path = re_Path rec,
      qr_Model = re_Model rec, qr_ResolvedVia = re_ResolvedVia rec, qr_Status = re_Status rec,
      qr_LatencyMS = re_LatencyMS rec, qr_PromptTokens = re_PromptTokens rec,
      qr_CompletionTokens = re_CompletionTokens rec, qr_CacheReadTokens = re_CacheReadInputTokens rec,
      qr_UpstreamProvider = re_UpstreamProvider rec, qr_ErrorClass = re_ErrorClass rec, qr_Principal = re_Principal rec\<rparr>"

text \<open>Newest first, as \<open>sort.SliceStable\<close> with \<open>After\<close> orders them.\<close>

definition newest_key :: "time option \<Rightarrow> bool \<times> int" where
  "newest_key t = (case t of None \<Rightarrow> (True, 0) | Some n \<Rightarrow> (False, - n))"

definition RequestsBySession :: "Record list \<Rightarrow> string \<Rightarrow> string \<Rightarrow> int \<Rightarrow> RequestRow list" where
  "RequestsBySession records pre who limit =
     (let want = to_lower pre;
          out = sort_key (\<lambda>r. newest_key (qr_TS r))
            (map request_row (filter (\<lambda>rec. re_SessionID rec \<noteq> [] \<and> has_prefix (to_lower (re_SessionID rec)) want
                                          \<and> (who \<noteq> [] \<longrightarrow> re_Principal rec = who)) records))
      in if limit > 0 \<and> int (length out) > limit then take (nat limit) out else out)"

section \<open>Placeholders and patterns of the queries\<close>

fun rebind_from :: "nat \<Rightarrow> string \<Rightarrow> string" where
  "rebind_from n [] = []"
| "rebind_from n (c # cs) =
     (if c = CHR ''?'' then CHR ''$'' # show_nat (n + 1) @ rebind_from (n + 1) cs else c # rebind_from n cs)"

definition rebindPG :: "string \<Rightarrow> string" where "rebindPG q = rebind_from 0 q"

text \<open>\<open>strings.NewReplacer\<close> with one-character patterns works character by character.\<close>

definition like_escape :: "char \<Rightarrow> string" where
  "like_escape c = (if c = CHR 0x5C \<or> c = CHR ''%'' \<or> c = CHR ''_'' then [CHR 0x5C, c] else [c])"

definition likePrefix :: "string \<Rightarrow> string" where
  "likePrefix pre = concat (map like_escape (to_lower pre)) @ ''%''"

end
