(* ===== verification/Series_Props.thy ===== *)
theory Series_Props
  imports Request_Log
begin

text \<open>
  The read side of the request log is exact: what \<^verbatim>\<open>reqlog/usage.go\<close> and \<^verbatim>\<open>reqlog/series.go\<close>
  add up, by principal, by model and by time slot, is what the records say, and folding the rows beyond the
  limit into one loses nothing.
\<close>

section \<open>Sums over groups\<close>

lemma sum_update:
  fixes h :: "'k \<times> 'v \<Rightarrow> 'n::comm_monoid_add"
  assumes "h (k, v) = (case map_of m k of None \<Rightarrow> 0 | Some u \<Rightarrow> h (k, u)) + d"
  shows "sum_list (map h (AList.update k v m)) = sum_list (map h m) + d"
  using assms by (induction m) (auto simp: add_ac)

lemma in_update: "p \<in> set (AList.update k v m) \<Longrightarrow> p = (k, v) \<or> p \<in> set m"
  by (induction m) (auto split: if_splits)

lemma group_into_sum:
  fixes h :: "'k \<Rightarrow> 'v \<Rightarrow> 'n::comm_monoid_add"
  assumes "\<forall>(k, v) \<in> set m. I k v" and "I (key x) (init (key x))" and "h (key x) (init (key x)) = 0"
    and "\<And>v. I (key x) v \<Longrightarrow> I (key x) (upd x v) \<and> h (key x) (upd x v) = h (key x) v + w"
  shows "(\<forall>(k, v) \<in> set (group_into key init upd x m). I k v)
       \<and> sum_list (map (\<lambda>(k, v). h k v) (group_into key init upd x m)) = sum_list (map (\<lambda>(k, v). h k v) m) + w"
proof -
  let ?old = "case map_of m (key x) of None \<Rightarrow> init (key x) | Some v \<Rightarrow> v"
  have old: "I (key x) ?old" using assms(1,2) by (auto split: option.splits dest: map_of_SomeD)
  have "sum_list (map (\<lambda>(k, v). h k v) (group_into key init upd x m)) = sum_list (map (\<lambda>(k, v). h k v) m) + w"
    unfolding group_into_def
    by (rule sum_update) (use assms(3) assms(4)[OF old] in \<open>auto split: option.splits\<close>)
  moreover have "\<forall>(k, v) \<in> set (group_into key init upd x m). I k v"
    using assms(1) assms(4)[OF old] by (auto simp: group_into_def dest: in_update)
  ultimately show ?thesis by blast
qed

lemma group_by_sum:
  fixes h :: "'k \<Rightarrow> 'v \<Rightarrow> 'n::comm_monoid_add"
  assumes "\<And>k. I k (init k)" and "\<And>k. h k (init k) = 0"
    and "\<And>x v. x \<in> set xs \<Longrightarrow> I (key x) v \<Longrightarrow> I (key x) (upd x v) \<and> h (key x) (upd x v) = h (key x) v + w x"
  shows "(\<forall>(k, v) \<in> set (group_by key init upd xs). I k v)
       \<and> sum_list (map (\<lambda>(k, v). h k v) (group_by key init upd xs)) = sum_list (map w xs)"
  using assms(3)
proof (induction xs rule: rev_induct)
  case Nil then show ?case by (simp add: group_by_def)
next
  case (snoc x xs)
  have e: "group_by key init upd (xs @ [x]) = group_into key init upd x (group_by key init upd xs)"
    by (simp add: group_by_def)
  have IH: "(\<forall>(k, v) \<in> set (group_by key init upd xs). I k v)
      \<and> sum_list (map (\<lambda>(k, v). h k v) (group_by key init upd xs)) = sum_list (map w xs)"
    by (rule snoc.IH) (use snoc.prems in auto)
  show ?case
    using group_into_sum[of "group_by key init upd xs" I key x init h upd "w x"] IH assms(1,2) snoc.prems
    by (simp add: e)
qed

lemma sum_perm:
  fixes f :: "'a \<Rightarrow> 'n::comm_monoid_add"
  assumes "mset xs = mset ys" shows "sum_list (map f xs) = sum_list (map f ys)"
  using assms by (metis mset_map sum_mset_sum_list)

lemma sorted_first:
  assumes "sorted (map (\<lambda>x. (f x, g x)) xs)" shows "sorted (map f xs)"
  using assms unfolding sorted_map by (rule sorted_wrt_mono_rel[rotated]) (auto simp: less_eq_prod_def)

section \<open>Usage by principal\<close>

definition recent :: "time \<Rightarrow> Record \<Rightarrow> bool" where
  "recent cutoff rec \<longleftrightarrow> isAfter (re_TS rec) (Some cutoff)"

lemma usage_fold:
  "ug_Principal (fold usage_add rs u) = ug_Principal u
 \<and> ug_Requests (fold usage_add rs u) = ug_Requests u + int (length rs)
 \<and> ug_Failures (fold usage_add rs u) = ug_Failures u + int (length (filter usage_failure rs))
 \<and> ug_PromptTokens (fold usage_add rs u) = ug_PromptTokens u + sum_list (map (\<lambda>r. deref (re_PromptTokens r)) rs)
 \<and> ug_CompletionTokens (fold usage_add rs u)
     = ug_CompletionTokens u + sum_list (map (\<lambda>r. deref (re_CompletionTokens r)) rs)
 \<and> ug_CostUSD (fold usage_add rs u) = ug_CostUSD u + sum_list (map (\<lambda>r. deref_cost (re_UpstreamCostUSD r)) rs)"
  by (induction rs arbitrary: u) (auto simp: usage_add_def)

text \<open>Every principal with a request in the window has exactly one row, and its row counts exactly its requests:
  how many, how many of them failed, their tokens and their cost. Nobody else has a row, and the rows come in the order of the
  number of requests.\<close>

theorem usage_exact:
  "distinct (map ug_Principal (UsageByPrincipal cutoff records))
 \<and> set (map ug_Principal (UsageByPrincipal cutoff records)) = re_Principal ` {r \<in> set records. recent cutoff r}
 \<and> sorted (map (\<lambda>u. - ug_Requests u) (UsageByPrincipal cutoff records))
 \<and> list_all (\<lambda>u. let mine = filter (\<lambda>r. recent cutoff r \<and> re_Principal r = ug_Principal u) records
       in ug_Requests u = int (length mine)
        \<and> ug_Failures u = int (length (filter usage_failure mine))
        \<and> ug_PromptTokens u = sum_list (map (\<lambda>r. deref (re_PromptTokens r)) mine)
        \<and> ug_CompletionTokens u = sum_list (map (\<lambda>r. deref (re_CompletionTokens r)) mine)
        \<and> ug_CostUSD u = sum_list (map (\<lambda>r. deref_cost (re_UpstreamCostUSD r)) mine)) (UsageByPrincipal cutoff records)"
proof -
  let ?in = "filter (recent cutoff) records"
  let ?g = "group_by re_Principal empty_usage usage_add ?in"
  let ?rows = "UsageByPrincipal cutoff records"
  have rows: "?rows = sort_key (\<lambda>r. (- ug_Requests r, ug_Principal r)) (map snd ?g)"
    by (simp add: UsageByPrincipal_def recent_def[abs_def])
  have entry: "u = fold usage_add (filter (\<lambda>r. re_Principal r = p) ?in) (empty_usage p) \<and> ug_Principal u = p"
    if "(p, u) \<in> set ?g" for p u
    using that usage_fold by (auto simp: group_by_entry empty_usage_def)
  then have names: "map ug_Principal (map snd ?g) = map fst ?g" by auto
  have "mset (map ug_Principal ?rows) = mset (map fst ?g)"
    unfolding rows names[symmetric] by (simp only: mset_map mset_sort)
  note perm = this
  have "distinct (map ug_Principal ?rows)"
    using mset_eq_imp_distinct_iff[OF perm] group_by_distinct[of re_Principal empty_usage usage_add ?in] by (rule iffD2)
  moreover have "set (map ug_Principal ?rows) = re_Principal ` set ?in"
    using mset_eq_setD[OF perm] group_by_keys[of re_Principal empty_usage usage_add ?in] by (rule trans)
  moreover have "sorted (map (\<lambda>u. - ug_Requests u) ?rows)"
  proof -
    have "sorted (map (\<lambda>r. (- ug_Requests r, ug_Principal r)) ?rows)" unfolding rows by simp
    then show ?thesis by (rule sorted_first)
  qed
  moreover have "let mine = filter (\<lambda>r. recent cutoff r \<and> re_Principal r = ug_Principal u) records
       in ug_Requests u = int (length mine)
        \<and> ug_Failures u = int (length (filter usage_failure mine))
        \<and> ug_PromptTokens u = sum_list (map (\<lambda>r. deref (re_PromptTokens r)) mine)
        \<and> ug_CompletionTokens u = sum_list (map (\<lambda>r. deref (re_CompletionTokens r)) mine)
        \<and> ug_CostUSD u = sum_list (map (\<lambda>r. deref_cost (re_UpstreamCostUSD r)) mine)" if "u \<in> set ?rows" for u
  proof -
    from that obtain p where "(p, u) \<in> set ?g" unfolding rows by auto
    then have p: "ug_Principal u = p" and u: "fold usage_add (filter (\<lambda>r. re_Principal r = p) ?in) (empty_usage p) = u"
      using entry by auto
    show ?thesis
      unfolding p Let_def
      using usage_fold[of "filter (\<lambda>r. re_Principal r = p) ?in" "empty_usage p", unfolded u]
      by (simp only: filter_filter) (simp add: empty_usage_def)
  qed
  ultimately show ?thesis by (simp add: list_all_iff)
qed

section \<open>The series of the records\<close>

text \<open>A field of the buckets that adds up a weight of the records.\<close>

definition counts :: "(SeriesBucket \<Rightarrow> int) \<Rightarrow> (Record \<Rightarrow> int) \<Rightarrow> bool" where
  "counts f w \<longleftrightarrow>
     (\<forall>t. f (empty_bucket_at t) = 0) \<and> (\<forall>a b. f (merge_bucket a b) = f a + f b)
   \<and> (\<forall>b n. f (b\<lparr>se_LatencyAvgMS := n\<rparr>) = f b) \<and> (\<forall>rec a. f (sa_b (acc_add rec a)) = f (sa_b a) + w rec)"

definition series_fields :: "((SeriesBucket \<Rightarrow> int) \<times> (Record \<Rightarrow> int)) list" where
  "series_fields =
     [(se_Requests, \<lambda>rec. 1), (se_Errors, \<lambda>rec. if isFailure rec then 1 else 0),
      (se_PromptTokens, \<lambda>rec. deref (re_PromptTokens rec)),
      (se_CompletionTokens, \<lambda>rec. deref (re_CompletionTokens rec))]"

lemma series_fields_count: "(f, w) \<in> set series_fields \<Longrightarrow> counts f w"
  by (auto simp: series_fields_def counts_def empty_bucket_at_def merge_bucket_def acc_add_def Let_def)

lemma countsD:
  assumes "counts f w"
  shows "f (empty_bucket_at t) = 0" "f (merge_bucket a b) = f a + f b" "f (sa_b (acc_add rec acc)) = f (sa_b acc) + w rec"
    "f (acc_point acc) = f (sa_b acc)"
  using assms by (simp_all add: counts_def acc_point_def)

lemma empty_bucket_start [simp]: "se_Start (empty_bucket_at t) = t"
  by (simp add: empty_bucket_at_def)

lemma acc_start [simp]: "se_Start (sa_b (acc_add rec a)) = se_Start (sa_b a)" "se_Start (sa_b (empty_acc t)) = t"
    "se_Start (acc_point a) = se_Start (sa_b a)"
  by (simp_all add: acc_add_def empty_acc_def acc_point_def Let_def)

lemma empty_acc_bucket [simp]: "sa_b (empty_acc t) = empty_bucket_at t"
  by (simp add: empty_acc_def)

text \<open>The points carry every recent record once, under its key and at the start of its slot.\<close>

lemma points_sum:
  assumes c: "counts f w"
  shows "sum_list (map (\<lambda>p. if Q (fst p) (se_Start (snd p)) then f (snd p) else 0)
             (memory_points groupBy bucket cutoff records))
       = sum_list (map (\<lambda>rec. if Q (series_key groupBy rec) (Truncate (record_time rec) bucket) then w rec else 0)
             (filter (recent cutoff) records))"
proof -
  let ?slot = "\<lambda>r. Truncate (record_time r) bucket"
  let ?h = "\<lambda>key bs a. if Q key bs then f (acc_point a) else 0"
  let ?I = "\<lambda>(bs::time) a. se_Start (sa_b a) = bs"
  let ?H = "\<lambda>key bm. sum_list (map (\<lambda>(bs, a). ?h key bs a) bm)"
  let ?J = "\<lambda>(key::string) bm. \<forall>(bs, a) \<in> set bm. ?I bs a"
  let ?upd = "\<lambda>rec bm. group_into ?slot empty_acc acc_add rec bm"
  let ?W = "\<lambda>rec. if Q (series_key groupBy rec) (?slot rec) then w rec else 0"
  let ?in = "filter (recent cutoff) records"
  let ?g = "group_by (series_key groupBy) (\<lambda>key. []) ?upd ?in"
  have inner: "?J k (?upd rec bm) \<and> ?H k (?upd rec bm) = ?H k bm + (if Q k (?slot rec) then w rec else 0)"
    if "?J k bm" for k rec bm
    by (rule group_into_sum[where h = "?h k" and I = ?I]) (use that in \<open>auto simp: countsD[OF c]\<close>)
  have g: "(\<forall>(k, bm) \<in> set ?g. ?J k bm) \<and> sum_list (map (\<lambda>(k, bm). ?H k bm) ?g) = sum_list (map ?W ?in)"
    by (rule group_by_sum) (use inner in auto)
  have row: "sum_list (map (\<lambda>p. if Q (fst p) (se_Start (snd p)) then f (snd p) else 0)
      (map (\<lambda>(bs, a). (k, acc_point a)) bm)) = ?H k bm" if "?J k bm" for k bm
    using that by (induction bm) auto
  have "sum_list (map (\<lambda>p. if Q (fst p) (se_Start (snd p)) then f (snd p) else 0)
      (concat (map (\<lambda>(key, bm). map (\<lambda>(bs, a). (key, acc_point a)) bm) m)))
    = sum_list (map (\<lambda>(k, bm). ?H k bm) m)" if "\<forall>(k, bm) \<in> set m. ?J k bm" for m
    using that
  proof (induction m)
    case (Cons p m)
    obtain k bm where p: "p = (k, bm)" by (rule prod.exhaust)
    from Cons.prems have bm: "?J k bm" and m: "\<forall>(k, bm) \<in> set m. ?J k bm" by (simp_all add: p)
    show ?case using Cons.IH[OF m] row[OF bm] by (simp add: p)
  qed simp
  with g show ?thesis by (simp add: memory_points_def recent_def[abs_def])
qed

section \<open>The grid\<close>

text \<open>Rows of a grid of \<open>n\<close> buckets.\<close>

abbreviation on_grid :: "nat \<Rightarrow> SeriesRow \<Rightarrow> bool" where
  "on_grid n r \<equiv> length (sw_Buckets r) = n"

lemma series_row_at_simps [simp]:
  "sw_Key (series_row_at start bucket n k) = k" "on_grid n (series_row_at start bucket n k)"
  "i < n \<Longrightarrow> sw_Buckets (series_row_at start bucket n k) ! i = empty_bucket_at (start + int i * bucket)"
  by (simp_all add: series_row_at_def)

lemma add_point_simps [simp]:
  "sw_Key (add_point start bucket p r) = sw_Key r"
  "length (sw_Buckets (add_point start bucket p r)) = length (sw_Buckets r)"
  by (simp_all add: add_point_def Let_def)

lemma merge_row_simps [simp]:
  "sw_Key (merge_row r s) = sw_Key s"
  "length (sw_Buckets (merge_row r s)) = min (length (sw_Buckets s)) (length (sw_Buckets r))"
  by (simp_all add: merge_row_def)

lemma merge_rows:
  assumes c: "counts f w" and "i < n" and "on_grid n s" and "\<forall>r \<in> set rs. on_grid n r"
  shows "on_grid n (fold merge_row rs s)
       \<and> f (sw_Buckets (fold merge_row rs s) ! i) = f (sw_Buckets s ! i) + sum_list (map (\<lambda>r. f (sw_Buckets r ! i)) rs)"
  using assms(3,4)
proof (induction rs arbitrary: s)
  case (Cons r rs)
  have "f (sw_Buckets (merge_row r s) ! i) = f (sw_Buckets s ! i) + f (sw_Buckets r ! i)"
    using Cons.prems assms(2) by (simp add: merge_row_def countsD[OF c])
  then show ?case using Cons.IH[of "merge_row r s"] Cons.prems by simp
qed simp

text \<open>The rows before the limit is applied.\<close>

definition all_rows :: "(string \<times> SeriesBucket) list \<Rightarrow> time \<Rightarrow> duration \<Rightarrow> nat \<Rightarrow> SeriesRow list" where
  "all_rows points start bucket n =
     sort_key (\<lambda>r. (- sw_Requests r, sw_Key r))
       (map snd (group_by fst (series_row_at start bucket n) (add_point start bucket)
          (filter (\<lambda>p. 0 \<le> point_index start bucket (snd p) \<and> point_index start bucket (snd p) < int n) points)))"

lemma assembleSeries_rows:
  assumes "0 < bucket" and "start = Truncate cutoff bucket" and "n = series_len start bucket now"
    and "out = all_rows points start bucket n"
  shows "assembleSeries points cutoff bucket limit now =
     (if limit > 0 \<and> int (length out) > limit
      then take (nat limit) out @ [fold merge_row (drop (nat limit) out) (series_row_at start bucket n other_key)]
      else out)"
  using assms by (simp add: assembleSeries_def series_width_def Let_def all_rows_def)

lemma all_rows_sum:
  assumes c: "counts f w" and i: "i < n"
  shows "(\<forall>r \<in> set (all_rows points start bucket n). on_grid n r)
       \<and> sum_list (map (\<lambda>r. if K (sw_Key r) then f (sw_Buckets r ! i) else 0) (all_rows points start bucket n))
         = sum_list (map (\<lambda>p. if K (fst p) \<and> point_index start bucket (snd p) = int i then f (snd p) else 0) points)"
proof -
  let ?ix = "\<lambda>p. point_index start bucket (snd p)"
  let ?in = "filter (\<lambda>p. 0 \<le> ?ix p \<and> ?ix p < int n) points"
  let ?I = "\<lambda>k r. on_grid n r \<and> sw_Key r = k"
  let ?h = "\<lambda>k r. if K k then f (sw_Buckets r ! i) else 0"
  let ?W = "\<lambda>p. if K (fst p) \<and> ?ix p = int i then f (snd p) else 0"
  let ?g = "group_by fst (series_row_at start bucket n) (add_point start bucket) ?in"
  have g: "(\<forall>(k, r) \<in> set ?g. ?I k r) \<and> sum_list (map (\<lambda>(k, r). ?h k r) ?g) = sum_list (map ?W ?in)"
  proof (rule group_by_sum)
    fix p r assume p: "p \<in> set ?in" and r: "?I (fst p) r"
    have "f (sw_Buckets (add_point start bucket p r) ! i)
        = f (sw_Buckets r ! i) + (if ?ix p = int i then f (snd p) else 0)"
      using p r i by (auto simp: add_point_def Let_def nth_list_update countsD[OF c])
    with r show "?I (fst p) (add_point start bucket p r) \<and> ?h (fst p) (add_point start bucket p r) = ?h (fst p) r + ?W p"
      by simp
  qed (use i in \<open>auto simp: countsD[OF c]\<close>)
  have e1: "map (\<lambda>r. if K (sw_Key r) then f (sw_Buckets r ! i) else 0) (map snd ?g) = map (\<lambda>(k, r). ?h k r) ?g"
    using g by auto
  have e2: "sum_list (map (\<lambda>r. if K (sw_Key r) then f (sw_Buckets r ! i) else 0) (all_rows points start bucket n))
      = sum_list (map (\<lambda>r. if K (sw_Key r) then f (sw_Buckets r ! i) else 0) (map snd ?g))"
    by (rule sum_perm) (simp add: all_rows_def)
  have e3: "sum_list (map ?W ?in) = sum_list (map ?W points)"
    using i by (induction points) auto
  have "\<forall>r \<in> set (all_rows points start bucket n). on_grid n r"
    using g by (auto simp: all_rows_def)
  with g show ?thesis unfolding e2 e1 e3[symmetric] by blast
qed

lemma all_rows_keys: "distinct (map sw_Key (all_rows points start bucket n))"
proof -
  let ?g = "group_by fst (series_row_at start bucket n) (add_point start bucket)
    (filter (\<lambda>p. 0 \<le> point_index start bucket (snd p) \<and> point_index start bucket (snd p) < int n) points)"
  have "sw_Key (fold (add_point start bucket) ps r) = sw_Key r" for ps r
    by (induction ps arbitrary: r) simp_all
  then have keys: "map sw_Key (map snd ?g) = map fst ?g" by (auto simp: group_by_entry)
  have "mset (map sw_Key (all_rows points start bucket n)) = mset (map fst ?g)"
    unfolding keys[symmetric] by (simp only: all_rows_def mset_map mset_sort)
  from iffD2[OF mset_eq_imp_distinct_iff[OF this] group_by_distinct] show ?thesis .
qed

section \<open>The series is exact\<close>

text \<open>A record lands in slot \<open>i\<close> when it is after the cutoff and within the \<open>i\<close>-th width from the start.\<close>

definition landed :: "time \<Rightarrow> duration \<Rightarrow> nat \<Rightarrow> Record \<Rightarrow> bool" where
  "landed cutoff bucket i rec \<longleftrightarrow>
     recent cutoff rec \<and> Truncate cutoff bucket + int i * bucket \<le> record_time rec
   \<and> record_time rec < Truncate cutoff bucket + (int i + 1) * bucket"

lemma Truncate_multiple:
  assumes "0 < d" shows "Truncate t d + zero_time_offset = d * ((t + zero_time_offset) div d)"
  using assms minus_mod_eq_mult_div[of "t + zero_time_offset" d] by (simp add: Truncate_def algebra_simps)

lemma exact_sdiv: "0 < d \<Longrightarrow> (d * a) sdiv d = (a::int)"
  by (simp add: signed_divide_int_def sgn_mult abs_mult sgn_mult_abs)

lemma div_eq_iff:
  fixes d :: int assumes "0 < d" shows "x div d = q \<longleftrightarrow> d * q \<le> x \<and> x < d * (q + 1)"
proof
  assume "x div d = q"
  then obtain r where "x = d * q + r" "0 \<le> r" "r < d"
    using assms mult_div_mod_eq[of d x] by (metis pos_mod_bound pos_mod_sign)
  then show "d * q \<le> x \<and> x < d * (q + 1)" by (simp add: algebra_simps)
next
  assume "d * q \<le> x \<and> x < d * (q + 1)"
  then show "x div d = q"
    by (intro int_div_pos_eq[where r = "x - d * q"]) (simp_all add: algebra_simps)
qed

lemma slot_of_record:
  assumes d: "0 < d" and r: "recent cutoff rec"
  shows "point_index (Truncate cutoff d) d (empty_bucket_at (Truncate (record_time rec) d)) = int i
     \<longleftrightarrow> landed cutoff d i rec"
proof -
  let ?a = "(record_time rec + zero_time_offset) div d" let ?b = "(cutoff + zero_time_offset) div d"
  have "Truncate (record_time rec) d - Truncate cutoff d = d * (?a - ?b)"
    using Truncate_multiple[OF d, of "record_time rec"] Truncate_multiple[OF d, of cutoff] by (simp add: algebra_simps)
  then have ix: "point_index (Truncate cutoff d) d (empty_bucket_at (Truncate (record_time rec) d)) = ?a - ?b"
    using d by (simp add: point_index_def exact_sdiv)
  have "?a = ?b + int i \<longleftrightarrow> d * (?b + int i) \<le> record_time rec + zero_time_offset
      \<and> record_time rec + zero_time_offset < d * (?b + int i + 1)"
    by (rule div_eq_iff[OF d])
  then show ?thesis
    using r Truncate_multiple[OF d, of cutoff] by (auto simp: ix landed_def algebra_simps)
qed

lemma slot_sum:
  assumes c: "counts f w" and d: "0 < d"
  shows "sum_list (map (\<lambda>p. if K (fst p) \<and> point_index (Truncate cutoff d) d (snd p) = int i then f (snd p) else 0)
             (memory_points groupBy d cutoff records))
       = sum_list (map w (filter (\<lambda>rec. landed cutoff d i rec \<and> K (series_key groupBy rec)) records))"
proof -
  let ?Q = "\<lambda>k s. K k \<and> point_index (Truncate cutoff d) d (empty_bucket_at s) = int i"
  let ?W = "\<lambda>rec. if ?Q (series_key groupBy rec) (Truncate (record_time rec) d) then w rec else 0"
  have ix: "point_index (Truncate cutoff d) d b = point_index (Truncate cutoff d) d (empty_bucket_at (se_Start b))" for b
    by (simp add: point_index_def)
  have "sum_list (map ?W (filter (recent cutoff) records))
      = sum_list (map w (filter (\<lambda>rec. landed cutoff d i rec \<and> K (series_key groupBy rec)) records))"
  proof (induction records)
    case (Cons rec records)
    then show ?case
      using slot_of_record[OF d, of cutoff rec i] by (auto simp: landed_def)
  qed simp
  with points_sum[OF c, of ?Q groupBy d cutoff records] show ?thesis by (simp only: ix[symmetric])
qed

lemma sum_unique:
  assumes "distinct (map key xs)" and "x \<in> set xs"
  shows "sum_list (map (\<lambda>y. if key y = key x then f y else (0::int)) xs) = f x"
  using assms
proof (induction xs)
  case (Cons y ys)
  show ?case
  proof (cases "x = y")
    case True
    with Cons.prems(1) have "key x \<notin> key ` set ys" by simp
    then have "\<forall>z \<in> set ys. key z \<noteq> key x" by (metis imageI)
    then have "sum_list (map (\<lambda>z. if key z = key x then f z else 0) ys) = 0" by (induction ys) auto
    with True show ?thesis by simp
  next
    case False
    with Cons show ?thesis by (auto simp: image_iff)
  qed
qed simp

text \<open>C31: The series of the dashboard loses nothing and counts nothing twice: in every time slot the requests (and the
  failures and the tokens) of all the rows together are exactly those of the records in the slot, whatever
  the limit; and each row that is not the fold of the rest carries exactly the records of its own key, on the
  full grid.\<close>

theorem series_exact:
  assumes d: "0 < bucket" and rows: "Series records cutoff bucket groupBy limit now = Inr rows"
    and fw: "(f, w) \<in> set series_fields" and i: "i < series_len (Truncate cutoff bucket) bucket now"
  shows "sum_list (map (\<lambda>r. f (sw_Buckets r ! i)) rows) = sum_list (map w (filter (landed cutoff bucket i) records))
       \<and> list_all (\<lambda>r. length (sw_Buckets r) = series_len (Truncate cutoff bucket) bucket now
            \<and> f (sw_Buckets r ! i)
                = sum_list (map w (filter (\<lambda>rec. landed cutoff bucket i rec \<and> series_key groupBy rec = sw_Key r) records)))
           (if limit > 0 then take (nat limit) rows else rows)"
proof -
  let ?start = "Truncate cutoff bucket" let ?n = "series_len ?start bucket now"
  let ?points = "memory_points groupBy bucket cutoff records"
  let ?out = "all_rows ?points ?start bucket ?n"
  have c: "counts f w" by (rule series_fields_count[OF fw])
  have rows': "rows = (if limit > 0 \<and> int (length ?out) > limit
      then take (nat limit) ?out @ [fold merge_row (drop (nat limit) ?out) (series_row_at ?start bucket ?n other_key)]
      else ?out)"
    using rows d assembleSeries_rows[OF d refl refl refl, of ?points cutoff limit now]
    by (auto simp: Series_def series_width_def Let_def split: sum.splits)
  have grid: "\<forall>r \<in> set ?out. on_grid ?n r" using all_rows_sum[OF c i, of ?points ?start bucket "\<lambda>_. True"] by blast
  have all: "sum_list (map (\<lambda>r. f (sw_Buckets r ! i)) ?out) = sum_list (map w (filter (landed cutoff bucket i) records))"
    using all_rows_sum[OF c i, of ?points ?start bucket "\<lambda>_. True"] slot_sum[OF c d, of "\<lambda>_. True"] by simp
  have split: "sum_list (map g ?out) = sum_list (map g (take m ?out)) + sum_list (map g (drop m ?out))" for g :: "SeriesRow \<Rightarrow> int" and m
    by (metis append_take_drop_id map_append sum_list_append)
  have total: "sum_list (map (\<lambda>r. f (sw_Buckets r ! i)) rows) = sum_list (map (\<lambda>r. f (sw_Buckets r ! i)) ?out)"
  proof (cases "limit > 0 \<and> int (length ?out) > limit")
    case True
    then have r: "rows = take (nat limit) ?out
        @ [fold merge_row (drop (nat limit) ?out) (series_row_at ?start bucket ?n other_key)]"
      using rows' by (simp only: if_True simp_thms)
    have "\<forall>r \<in> set (drop (nat limit) ?out). on_grid ?n r" using grid by (meson in_set_dropD)
    from merge_rows[OF c i _ this, of "series_row_at ?start bucket ?n other_key"] show ?thesis
      using i by (simp add: r split[where m = "nat limit"] countsD[OF c])
  next
    case False
    then have "rows = ?out" using rows' by (simp only: if_False)
    then show ?thesis by simp
  qed
  have own: "f (sw_Buckets r ! i)
      = sum_list (map w (filter (\<lambda>rec. landed cutoff bucket i rec \<and> series_key groupBy rec = sw_Key r) records))"
    if "r \<in> set ?out" for r
    using all_rows_sum[OF c i, of ?points ?start bucket "\<lambda>k. k = sw_Key r"] slot_sum[OF c d, of "\<lambda>k. k = sw_Key r"]
      sum_unique[OF all_rows_keys that, of "\<lambda>r. f (sw_Buckets r ! i)"] by simp
  have "set (if limit > 0 then take (nat limit) rows else rows) \<subseteq> set ?out"
    unfolding rows' using set_take_subset[of "nat limit" ?out] by (auto dest: in_set_takeD)
  with grid own total all show ?thesis by (auto simp: list_all_iff)
qed

definition record_at :: "time \<Rightarrow> string \<Rightarrow> int \<Rightarrow> Record" where
  "record_at t model status = zero_record\<lparr>re_TS := Some t, re_ResolvedVia := model, re_Status := status\<rparr>"

definition three_records :: "Record list" where
  "three_records = [record_at (90 * second) ''k2'' 200, record_at (95 * second) ''coder'' 503, record_at (130 * second) ''k2'' 200]"

theorem series_exact_witness:
  "\<exists>rows. Series three_records 0 (60 * second) ''model'' 1 (150 * second) = Inr rows
     \<and> sum_list (map (\<lambda>r. se_Errors (sw_Buckets r ! 1)) rows) = 1"
proof -
  let ?rows = "assembleSeries (memory_points ''model'' (60 * second) 0 three_records) 0 (60 * second) 1 (150 * second)"
  have r: "Series three_records 0 (60 * second) ''model'' 1 (150 * second) = Inr ?rows"
    by (simp add: Series_def groupColumn_def series_width_def)
  have f: "(se_Errors, \<lambda>rec. if isFailure rec then 1 else 0) \<in> set series_fields" by (simp add: series_fields_def)
  have i: "1 < series_len (Truncate 0 (60 * second)) (60 * second) (150 * second)" by code_simp
  have "sum_list (map (\<lambda>rec. if isFailure rec then 1 else 0) (filter (landed 0 (60 * second) 1) three_records)) = (1 :: int)"
    by code_simp
  with series_exact[OF _ r f i] r show ?thesis by auto
qed

section \<open>What counts as a failure\<close>

text \<open>The series and the failure window of the router (\<^verbatim>\<open>upstreamstats.go\<close>) agree on which classes are failures.\<close>

lemma isFailure_class:
  "c \<noteq> ClassNone \<Longrightarrow> re_ErrorClass rec = class_text c \<Longrightarrow> isFailure rec \<longleftrightarrow> isUpstreamFailure c"
  by (cases c) (auto simp: isFailure_def class_text_def isUpstreamFailure_def isPolicyRefusal_def has_suffix_def)

text \<open>The usage table also counts the refusals by privacy tier and scope, which the series leave out.\<close>

lemma usage_counts_refusals:
  "c = ClassPrivacyRefused \<or> c = ClassScopeRefused \<Longrightarrow> re_ErrorClass rec = class_text c
     \<Longrightarrow> usage_failure rec \<and> \<not> isFailure rec"
  by (auto simp: isFailure_def usage_failure_def class_text_def has_suffix_def)

section \<open>Times as text\<close>

text \<open>The fraction of a second in \<open>time.RFC3339Nano\<close>: nine digits without their trailing zeros, and nothing for a whole
  second. The local database compares such times as text.\<close>

definition nano_digits :: "nat \<Rightarrow> string" where
  "nano_digits n = (let d = show_nat n in replicate (9 - length d) (CHR ''0'') @ d)"

definition nano_text :: "nat \<Rightarrow> string" where
  "nano_text n =
     (if n = 0 then ''Z''
      else CHR ''.'' # rev (dropWhile (\<lambda>c. c = CHR ''0'') (rev (nano_digits n))) @ ''Z'')"

text \<open>Texts of times within the same second are not ordered like the times: half a second comes before zero.\<close>

lemma nano_text_unordered:
  "(''2026-11-05T12:00:00'' @ nano_text 500000000) < (''2026-11-05T12:00:00'' @ nano_text 0)"
proof -
  have "show_nat 500000000 = ''500000000''" by (simp add: show_nat.simps) code_simp
  then have "nano_text 500000000 = ''.5Z''" by (simp add: nano_text_def nano_digits_def)
  moreover have "nano_text 0 = ''Z''" by (simp add: nano_text_def)
  ultimately show ?thesis by (simp add: less_char_def)
qed

end
