(* ===== verification/Dashboard.thy ===== *)
theory Dashboard
  imports Listings Series_Props Authenticator Events
begin

text \<open>
  The views of the dashboard (\<^verbatim>\<open>internal/router/dashboard.go\<close>, \<^verbatim>\<open>dashboard_traffic.go\<close>,
  \<^verbatim>\<open>dashboard_requests.go\<close> and the usage table of \<^verbatim>\<open>dashboard_tokens.go\<close>): node metrics, the fleet, the
  catalogue, the header strip with its rate window, the request counters, and the tables over the request
  log with the fence around them.

  A view is a record; its JSON keys are those of the source. A \<open>float64\<close> reading is the rational number it
  stands for. The agents' answers are the \<open>NodeSnapshot\<close>s a prober returns (an argument, as in the code); the
  probes of one page run concurrently in the source and do not depend on each other.
\<close>

section \<open>Node metrics\<close>

text \<open>\<open>math.Round\<close> rounds halves away from zero.\<close>

definition math_Round :: "rat \<Rightarrow> rat" where
  "math_Round x = (if x \<ge> 0 then of_int \<lfloor>x + 1 / 2\<rfloor> else - of_int \<lfloor>1 / 2 - x\<rfloor>)"

definition round1 :: "rat \<Rightarrow> rat" where "round1 x = math_Round (x * 10) / 10"

record dashGPU =
  dg_Index :: int
  dg_VRAMUsedGB :: rat
  dg_VRAMTotalGB :: rat
  dg_VRAMPct :: rat
  dg_BusyPct :: "int option"
  dg_TempC :: "int option"
  dg_PowerW :: "rat option"

record nodeModelMetric =
  nmm_ModelID :: string
  nmm_State :: string
  nmm_RequestsRunning :: int
  nmm_RequestsWaiting :: int
  nmm_AvgTokPerS :: "rat option"
  nmm_TotalRequests :: int

record nodeMetric =
  nm_Reachable :: bool
  nm_VRAMUsedGB :: "rat option"
  nm_VRAMTotalGB :: "rat option"
  nm_VRAMPct :: "rat option"
  nm_GPUBusyPct :: "int option"
  nm_GPUTempC :: "int option"
  nm_GPUPowerW :: "rat option"
  nm_RAMUsedGB :: "rat option"
  nm_RAMTotalGB :: "rat option"
  nm_RAMPct :: "rat option"
  nm_Services :: "json list"
  nm_DiskFreeGB :: "rat option"
  nm_DiskTotalGB :: "rat option"
  nm_GPUs :: "dashGPU list"
  nm_Models :: "nodeModelMetric list"

definition unreachableNode :: nodeMetric where
  "unreachableNode =
     \<lparr>nm_Reachable = False, nm_VRAMUsedGB = None, nm_VRAMTotalGB = None, nm_VRAMPct = None, nm_GPUBusyPct = None,
      nm_GPUTempC = None, nm_GPUPowerW = None, nm_RAMUsedGB = None, nm_RAMTotalGB = None, nm_RAMPct = None,
      nm_Services = [], nm_DiskFreeGB = None, nm_DiskTotalGB = None, nm_GPUs = [], nm_Models = []\<rparr>"

definition percent :: "rat \<Rightarrow> rat \<Rightarrow> rat" where
  "percent used all = (if all > 0 then round1 (used / all * 100) else 0)"

definition gpu_view :: "AgentGPU \<Rightarrow> dashGPU" where
  "gpu_view g =
     \<lparr>dg_Index = ag_Index g, dg_VRAMUsedGB = round1 (ag_VRAMUsedGB g), dg_VRAMTotalGB = round1 (ag_VRAMTotalGB g),
      dg_VRAMPct = percent (ag_VRAMUsedGB g) (ag_VRAMTotalGB g), dg_BusyPct = ag_BusyPct g, dg_TempC = ag_TempC g,
      dg_PowerW = ag_PowerW g\<rparr>"

definition model_metric :: "AgentModel \<Rightarrow> nodeModelMetric" where
  "model_metric m =
     \<lparr>nmm_ModelID = am_ModelID m, nmm_State = am_State m, nmm_RequestsRunning = am_RequestsRunning m,
      nmm_RequestsWaiting = am_RequestsWaiting m, nmm_AvgTokPerS = am_AvgTokPerS m, nmm_TotalRequests = am_TotalRequests m\<rparr>"

definition vram_view :: "AgentHealth \<Rightarrow> nodeMetric \<Rightarrow> nodeMetric" where
  "vram_view h r =
     (case (ah_TotalVRAMGB h, ah_FreeVRAMGB h) of
        (Some all, Some free) \<Rightarrow>
          let used = round1 (all - free)
          in r\<lparr>nm_VRAMUsedGB := Some used, nm_VRAMTotalGB := Some (round1 all), nm_VRAMPct := Some (percent used all)\<rparr>
      | _ \<Rightarrow> r)"

definition ram_view :: "AgentHealth \<Rightarrow> nodeMetric \<Rightarrow> nodeMetric" where
  "ram_view h r =
     (case (ah_RAMUsedGB h, ah_RAMTotalGB h) of
        (Some used, Some all) \<Rightarrow>
          r\<lparr>nm_RAMUsedGB := Some (round1 used), nm_RAMTotalGB := Some (round1 all), nm_RAMPct := Some (percent used all)\<rparr>
      | _ \<Rightarrow> r)"

text \<open>A reachable snapshot carries the agent's health (\<open>ProbeNode\<close> sets both), so the dereference of a missing
  one is unreachable; it would panic.\<close>

definition fetchNodeMetrics :: "NodeSnapshot \<Rightarrow> nodeMetric option" where
  "fetchNodeMetrics snap =
     (if \<not> sn_Reachable snap then Some unreachableNode
      else case sn_Health snap of
             None \<Rightarrow> None
           | Some h \<Rightarrow>
               let r1 = vram_view h (unreachableNode\<lparr>nm_Reachable := True\<rparr>);
                   r2 = r1\<lparr>nm_GPUBusyPct := ah_GPUBusyPct h, nm_GPUTempC := ah_GPUTempC h,
                           nm_GPUPowerW := map_option round1 (ah_GPUPowerW h)\<rparr>;
                   r3 = ram_view h r2
               in Some (r3\<lparr>nm_Services := ah_Services h, nm_DiskFreeGB := ah_DiskFreeGB h,
                           nm_DiskTotalGB := ah_DiskTotalGB h,
                           nm_GPUs := (if length (ah_GPUs h) > 1 then map gpu_view (ah_GPUs h) else []),
                           nm_Models := map model_metric (sn_Models snap)\<rparr>))"

type_synonym node_fetcher = "string \<Rightarrow> int \<Rightarrow> nodeMetric"

definition fetchAllNodeMetrics :: "node_fetcher \<Rightarrow> Router \<Rightarrow> nodeMetric gomap" where
  "fetchAllNodeMetrics fetch rt =
     map (\<lambda>(name, node). (name, fetch (n_Host node) (n_AgentPort node))) (reg_Nodes (rt_registry rt))"

text \<open>The overlay of the router's own throughput readings.\<close>

definition overlay_tok :: "tokSample gomap \<Rightarrow> time \<Rightarrow> nodeModelMetric \<Rightarrow> nodeModelMetric" where
  "overlay_tok stats now m =
     (case tok_get (nmm_ModelID m) now stats of Some v \<Rightarrow> m\<lparr>nmm_AvgTokPerS := Some v\<rparr> | None \<Rightarrow> m)"

definition handleDashNodeMetrics :: "node_fetcher \<Rightarrow> tokSample gomap \<Rightarrow> time \<Rightarrow> Router \<Rightarrow> nodeMetric gomap" where
  "handleDashNodeMetrics fetch stats now rt =
     map (\<lambda>(name, nm). (name, nm\<lparr>nm_Models := map (overlay_tok stats now) (nm_Models nm)\<rparr>)) (fetchAllNodeMetrics fetch rt)"

section \<open>The rate window\<close>

text \<open>A ring of sixty slots, one per second; \<open>s % 60\<close> is the second's slot, for a clock after 1970.\<close>

record reqRateWindow =
  wn_slots :: "int list"
  wn_stamp :: "int list"

definition newReqRateWindow :: reqRateWindow where
  "newReqRateWindow = \<lparr>wn_slots = replicate 60 0, wn_stamp = replicate 60 0\<rparr>"

definition Unix :: "time \<Rightarrow> int" where "Unix t = t div second"

definition hit :: "time \<Rightarrow> reqRateWindow \<Rightarrow> reqRateWindow" where
  "hit now w =
     (let s = Unix now; i = nat (s mod 60);
          w1 = (if wn_stamp w ! i \<noteq> s
                then w\<lparr>wn_stamp := (wn_stamp w)[i := s], wn_slots := (wn_slots w)[i := 0]\<rparr> else w)
      in w1\<lparr>wn_slots := (wn_slots w1)[i := wn_slots w1 ! i + 1]\<rparr>)"

definition perMinute :: "time \<Rightarrow> reqRateWindow \<Rightarrow> int" where
  "perMinute now w =
     sum_list (map (\<lambda>i. if Unix now - wn_stamp w ! i < 60 then wn_slots w ! i else 0) [0..<60])"

lemma count_by_residue:
  assumes "\<forall>x \<in> set xs. key x < n"
  shows "int (length (filter P xs)) = sum_list (map (\<lambda>i. int (length (filter (\<lambda>x. P x \<and> key x = i) xs))) [0..<n])"
  using assms
proof (induction xs)
  case (Cons x xs)
  have "sum_list (map (\<lambda>i. if key x = i then 1 else 0) [0..<n]) = (1::int)"
    using Cons.prems sum_list_distinct_conv_sum_set[of "[0..<n]" "\<lambda>i. if key x = i then 1 else (0::int)"] by simp
  moreover have "sum_list (map (\<lambda>i. int (length (filter (\<lambda>y. P y \<and> key y = i) (x # xs)))) [0..<n])
      = sum_list (map (\<lambda>i. (if P x then (if key x = i then 1 else 0) else 0)
                          + int (length (filter (\<lambda>y. P y \<and> key y = i) xs))) [0..<n])"
    by (rule arg_cong[where f = sum_list]) auto
  ultimately show ?case using Cons by (simp add: sum_list_addf)
qed simp

text \<open>What the ring remembers of the hits so far: per slot the latest second that fell on it, and the hits in
  that second.\<close>

definition remembers :: "time list \<Rightarrow> reqRateWindow \<Rightarrow> bool" where
  "remembers hits w \<longleftrightarrow>
     length (wn_slots w) = 60 \<and> length (wn_stamp w) = 60
   \<and> (\<forall>i < 60. (\<forall>h \<in> set hits. nat (Unix h mod 60) = i \<longrightarrow> Unix h \<le> wn_stamp w ! i)
         \<and> (wn_stamp w ! i = 0 \<or> (\<exists>h \<in> set hits. Unix h = wn_stamp w ! i \<and> nat (Unix h mod 60) = i))
         \<and> wn_slots w ! i = int (length (filter (\<lambda>h. Unix h = wn_stamp w ! i \<and> nat (Unix h mod 60) = i) hits)))"

lemma remembers_new: "remembers [] newReqRateWindow"
  by (simp add: remembers_def newReqRateWindow_def)

lemma Unix_mono: "a \<le> b \<Longrightarrow> Unix a \<le> Unix b"
  by (simp add: Unix_def zdiv_mono1)

lemma remembers_hit:
  assumes r: "remembers hits w" and t: "\<forall>h \<in> set hits. h \<le> now" and z: "0 \<le> now"
  shows "remembers (hits @ [now]) (hit now w)"
proof -
  let ?s = "Unix now" let ?j = "nat (?s mod 60)"
  have j: "?j < 60" by (simp add: nat_less_iff)
  have s0: "0 \<le> ?s" using z Unix_mono[OF z] by (simp add: Unix_def)
  have le: "\<forall>h \<in> set hits. Unix h \<le> ?s" using t Unix_mono by blast
  have len: "length (wn_slots w) = 60" "length (wn_stamp w) = 60" using r by (simp_all add: remembers_def)
  have stamp: "wn_stamp w ! ?j \<le> ?s" using r j le s0 unfolding remembers_def by metis
  have fresh: "wn_stamp w ! ?j \<noteq> ?s \<Longrightarrow> filter (\<lambda>h. Unix h = ?s \<and> nat (Unix h mod 60) = ?j) hits = []"
  proof -
    assume ne: "wn_stamp w ! ?j \<noteq> ?s"
    have "\<forall>h \<in> set hits. nat (Unix h mod 60) = ?j \<longrightarrow> Unix h \<le> wn_stamp w ! ?j"
      using r j unfolding remembers_def by blast
    with ne stamp show ?thesis by (auto simp: filter_empty_conv)
  qed
  have slot: "wn_stamp (hit now w) ! i = (if i = ?j then ?s else wn_stamp w ! i)"
    "wn_slots (hit now w) ! i
       = (if i = ?j then (if wn_stamp w ! i = ?s then wn_slots w ! i else 0) + 1 else wn_slots w ! i)"
    if "i < 60" for i
    using that j len by (cases "wn_stamp w ! ?j = ?s"; simp add: hit_def Let_def nth_list_update)+
  show ?thesis
    unfolding remembers_def
  proof (intro conjI allI impI)
    show "length (wn_slots (hit now w)) = 60" "length (wn_stamp (hit now w)) = 60"
      using len by (simp_all add: hit_def Let_def)
    fix i :: nat assume i: "i < 60"
    have old: "(\<forall>h \<in> set hits. nat (Unix h mod 60) = i \<longrightarrow> Unix h \<le> wn_stamp w ! i)"
      "wn_stamp w ! i = 0 \<or> (\<exists>h \<in> set hits. Unix h = wn_stamp w ! i \<and> nat (Unix h mod 60) = i)"
      "wn_slots w ! i = int (length (filter (\<lambda>h. Unix h = wn_stamp w ! i \<and> nat (Unix h mod 60) = i) hits))"
      using r i by (auto simp: remembers_def)
    show "\<forall>h \<in> set (hits @ [now]). nat (Unix h mod 60) = i \<longrightarrow> Unix h \<le> wn_stamp (hit now w) ! i"
      using old(1) le by (auto simp: slot[OF i])
    show "wn_stamp (hit now w) ! i = 0
        \<or> (\<exists>h \<in> set (hits @ [now]). Unix h = wn_stamp (hit now w) ! i \<and> nat (Unix h mod 60) = i)"
      using old(2) by (auto simp: slot[OF i])
    show "wn_slots (hit now w) ! i
        = int (length (filter (\<lambda>h. Unix h = wn_stamp (hit now w) ! i \<and> nat (Unix h mod 60) = i) (hits @ [now])))"
      using old(3) fresh by (auto simp: slot[OF i])
  qed
qed

lemma remembers_run:
  "sorted hits \<Longrightarrow> \<forall>h \<in> set hits. 0 \<le> h \<Longrightarrow> remembers hits (fold hit hits newReqRateWindow)"
proof (induction hits rule: rev_induct)
  case (snoc h hits)
  then show ?case using remembers_hit[of hits "fold hit hits newReqRateWindow" h] by (simp add: sorted_append)
qed (simp add: remembers_new)

lemma same_residue:
  fixes a b :: int
  assumes "a \<le> b" and "b - a < 60" and "b mod 60 = a mod 60" shows "a = b"
proof -
  have "(b - a) mod 60 = 0" using assms(3) by (simp add: mod_eq_dvd_iff)
  moreover have "(b - a) mod 60 = b - a" using assms(1,2) by (simp add: mod_pos_pos_trivial)
  ultimately show ?thesis by simp
qed

text \<open>The rate of the header strip is exact: after any run of requests at non-decreasing times the sixty-slot
  ring answers with the number of requests in the last sixty seconds, however long the gaps between them.\<close>

theorem per_minute_exact:
  assumes "sorted (hits @ [now])" and "\<forall>h \<in> set hits. 0 \<le> h"
  shows "perMinute now (fold hit hits newReqRateWindow)
       = int (length (filter (\<lambda>h. Unix now - Unix h < 60) hits))"
proof -
  let ?w = "fold hit hits newReqRateWindow"
  have r: "remembers hits ?w" using remembers_run assms by (simp add: sorted_append)
  have le: "\<forall>h \<in> set hits. Unix h \<le> Unix now" using assms(1) Unix_mono by (simp add: sorted_append)
  have slot: "(if Unix now - wn_stamp ?w ! i < 60 then wn_slots ?w ! i else 0)
      = int (length (filter (\<lambda>h. Unix now - Unix h < 60 \<and> nat (Unix h mod 60) = i) hits))" if i: "i < 60" for i
  proof -
    have same: "Unix h = wn_stamp ?w ! i"
      if h: "h \<in> set hits" "Unix now - Unix h < 60" "nat (Unix h mod 60) = i" for h
    proof -
      have a: "Unix h \<le> wn_stamp ?w ! i" using r i h unfolding remembers_def by blast
      have nonneg: "0 \<le> Unix h" using assms(2) h(1) Unix_mono[of 0 h] by (auto simp: Unix_def)
      consider "wn_stamp ?w ! i = 0"
        | g where "g \<in> set hits" "Unix g = wn_stamp ?w ! i" "nat (Unix g mod 60) = i"
        using r i unfolding remembers_def by metis
      then show ?thesis
      proof cases
        case 1 with a nonneg show ?thesis by simp
      next
        case 2
        with h(3) have "Unix g mod 60 = Unix h mod 60" by (metis nat_0_le pos_mod_sign zero_less_numeral)
        moreover have "Unix g - Unix h < 60" using h(2) le 2(1) by force
        ultimately show ?thesis using a 2(2) same_residue[of "Unix h" "Unix g"] by simp
      qed
    qed
    show ?thesis
    proof (cases "Unix now - wn_stamp ?w ! i < 60")
      case True
      have "filter (\<lambda>h. Unix h = wn_stamp ?w ! i \<and> nat (Unix h mod 60) = i) hits
          = filter (\<lambda>h. Unix now - Unix h < 60 \<and> nat (Unix h mod 60) = i) hits"
        by (rule filter_cong) (use same True in auto)
      with r i True show ?thesis by (simp add: remembers_def)
    next
      case False
      then have "filter (\<lambda>h. Unix now - Unix h < 60 \<and> nat (Unix h mod 60) = i) hits = []"
        using same by (auto simp: filter_empty_conv)
      with False show ?thesis by simp
    qed
  qed
  have "perMinute now ?w
      = sum_list (map (\<lambda>i. int (length (filter (\<lambda>h. Unix now - Unix h < 60 \<and> nat (Unix h mod 60) = i) hits))) [0..<60])"
    unfolding perMinute_def by (rule arg_cong[where f = sum_list], rule map_cong) (use slot in auto)
  also have "\<dots> = int (length (filter (\<lambda>h. Unix now - Unix h < 60) hits))"
    by (rule count_by_residue[symmetric]) (simp add: nat_less_iff)
  finally show ?thesis .
qed

theorem per_minute_exact_witness:
  "perMinute (75 * second) (fold hit [2 * second, 14 * second, 62 * second, 74 * second] newReqRateWindow) = 2"
  using per_minute_exact[of "[2 * second, 14 * second, 62 * second, 74 * second]" "75 * second"]
  by (simp add: Unix_def)

section \<open>The fleet\<close>

record dash_node =
  dn_host :: string
  dn_gpu :: GpuType
  dn_vram_gb :: int
  dn_agent_port :: int
  dn_unified_memory :: bool
  dn_expected_down :: bool

definition dashNodes :: "(time \<Rightarrow> wall_time) \<Rightarrow> time \<Rightarrow> Router \<Rightarrow> dash_node gomap" where
  "dashNodes local now rt =
     map (\<lambda>(name, n). (name, \<lparr>dn_host = n_Host n, dn_gpu = n_GPU n, dn_vram_gb = n_VRAMGB n,
                              dn_agent_port = n_AgentPort n, dn_unified_memory = n_UnifiedMemory n,
                              dn_expected_down = ExpectedDown n (local now)\<rparr>)) (reg_Nodes (rt_registry rt))"

record dash_fleet =
  fl_node_count :: nat
  fl_nodes :: "dash_node gomap"
  fl_node_metrics :: "nodeMetric gomap"
  fl_roles :: "roleBinding list"
  fl_inventory :: "BaseInventoryView list"

definition handleDashFleet ::
    "'s availability \<Rightarrow> 's availabilityReporter option \<Rightarrow> node_fetcher \<Rightarrow> (time \<Rightarrow> wall_time) \<Rightarrow> time \<Rightarrow> pressureTracker
     \<Rightarrow> Router \<Rightarrow> 's \<Rightarrow> dash_fleet \<times> 's" where
  "handleDashFleet av reporter fetch local now p rt s =
     (let metrics = fetchAllNodeMetrics fetch rt; (roles, s1) = roleBindings av now p rt s
      in (\<lparr>fl_node_count = length (reg_Nodes (rt_registry rt)), fl_nodes = dashNodes local now rt,
           fl_node_metrics = metrics, fl_roles = roles,
           fl_inventory = (case reporter of None \<Rightarrow> [] | Some rep \<Rightarrow> rp_Inventory rep False s1)\<rparr>, s1))"

section \<open>The catalogue\<close>

record dashModel =
  dm_ID :: string
  dm_HFRepo :: string
  dm_Backend :: string
  dm_Nodes :: "string list"
  dm_HeadNode :: "string option"
  dm_VRAMGB :: int
  dm_AlwaysOn :: bool
  dm_Enabled :: bool
  dm_ToolProxy :: bool
  dm_Aliases :: "string list"
  dm_Capabilities :: "string list"
  dm_Tags :: "string list"
  dm_APIBase :: string
  dm_Health :: string
  dm_AgentState :: "string option"
  dm_Availability :: string
  dm_AvailabilityReason :: string
  dm_RequestsRunning :: int
  dm_RequestsWaiting :: int
  dm_AvgTokPerS :: "rat option"
  dm_TotalRequests :: int
  dm_ContextLength :: int
  dm_EffectiveContext :: int
  dm_Discovered :: bool
  dm_APIClass :: APIClass
  dm_MaxOutputTokens :: int
  dm_InputCostPerMillion :: "rat option"
  dm_OutputCostPerMillion :: "rat option"
  dm_Fallbacks :: "string list"
  dm_AvailabilitySince :: "time option"

text \<open>What the reachable agents say, from the tracker's last poll; a later agent overrides an earlier one.\<close>

definition agent_states :: "NodeSnapshot gomap \<Rightarrow> nodeModelMetric gomap" where
  "agent_states nodes =
     fold (\<lambda>(name, snap) out.
             if \<not> sn_Reachable snap then out
             else fold (\<lambda>m. store (am_ModelID m) (model_metric m)) (sn_Models snap) out) nodes []"

definition dash_placement :: "ModelDefinition \<Rightarrow> string list \<times> string option" where
  "dash_placement m =
     (case m_MultiNode m of
        Some mn \<Rightarrow>
          let h0 = mn_HeadNode mn;
              h = (if h0 = [] then (case mn_Nodes mn of n # ns \<Rightarrow> n | [] \<Rightarrow> []) else h0)
          in (mn_Nodes mn, if h \<noteq> [] then Some h else None)
      | None \<Rightarrow> if m_Node m \<noteq> [] then ([m_Node m], Some (m_Node m)) else ([], None))"

definition dash_health :: "ModelDefinition \<Rightarrow> string option \<Rightarrow> string \<times> string option" where
  "dash_health m agent =
     (if \<not> m_Enabled m then (''disabled'', None)
      else case agent of
             Some st \<Rightarrow> (''unknown'', Some st)
           | None \<Rightarrow> if m_Node m = [] \<and> m_MultiNode m = None then (''routed'', None) else (''unknown'', None))"

definition dash_row ::
    "Router \<Rightarrow> tokSample gomap \<Rightarrow> time \<Rightarrow> nodeModelMetric gomap \<Rightarrow> Status gomap \<Rightarrow> bool \<Rightarrow> string \<times> ModelDefinition \<Rightarrow> dashModel"
    where
  "dash_row rt stats now agents verdicts discovered e =
     (let (i, m) = e; (nodes, head) = dash_placement m; agent = lookup agents i;
          (health, state) = dash_health m (map_option nmm_State agent);
          verdict = lookup verdicts i
      in \<lparr>dm_ID = i, dm_HFRepo = m_HFRepo m, dm_Backend = backend_text (m_Backend m), dm_Nodes = nodes, dm_HeadNode = head,
          dm_VRAMGB = m_VRAMGB m, dm_AlwaysOn = m_AlwaysOn m, dm_Enabled = m_Enabled m, dm_ToolProxy = m_ToolProxy m,
          dm_Aliases = m_Aliases m, dm_Capabilities = map capability_text (m_Capabilities m), dm_Tags = m_Tags m,
          dm_APIBase = (if m_APIBase m = []
                        then (case APIBase (rt_registry rt) i None of Inr b \<Rightarrow> b | Inl e \<Rightarrow> []) else m_APIBase m),
          dm_Health = health, dm_AgentState = state,
          dm_Availability = (case verdict of Some v \<Rightarrow> availability_text (ss_State v) | None \<Rightarrow> []),
          dm_AvailabilityReason = (case verdict of Some v \<Rightarrow> ss_Reason v | None \<Rightarrow> []),
          dm_RequestsRunning = (case agent of Some r \<Rightarrow> nmm_RequestsRunning r | None \<Rightarrow> 0),
          dm_RequestsWaiting = (case agent of Some r \<Rightarrow> nmm_RequestsWaiting r | None \<Rightarrow> 0),
          dm_AvgTokPerS = (case tok_get i now stats of Some v \<Rightarrow> Some v
                           | None \<Rightarrow> (case agent of Some r \<Rightarrow> nmm_AvgTokPerS r | None \<Rightarrow> None)),
          dm_TotalRequests = (case agent of Some r \<Rightarrow> nmm_TotalRequests r | None \<Rightarrow> 0),
          dm_ContextLength = wellKnownContext (rt_active rt) m 0, dm_EffectiveContext = m_EffectiveContext m,
          dm_Discovered = discovered, dm_APIClass = m_APIClass m, dm_MaxOutputTokens = m_MaxOutputTokens m,
          dm_InputCostPerMillion = m_InputCostPerMillion m, dm_OutputCostPerMillion = m_OutputCostPerMillion m,
          dm_Fallbacks = m_Fallbacks m,
          dm_AvailabilitySince = (case verdict of Some v \<Rightarrow> ss_Since v | None \<Rightarrow> None)\<rparr>)"

definition sorted_entries :: "ModelDefinition gomap \<Rightarrow> (string \<times> ModelDefinition) list" where
  "sorted_entries ms = map (\<lambda>i. (i, the (lookup ms i))) (sort (map fst ms))"

definition verdicts_of :: "Status list \<Rightarrow> Status gomap" where
  "verdicts_of ss = fold (\<lambda>v. store (ss_Model v) v) ss []"

text \<open>\<^const>\<open>None\<close> is the panic of a tracker without a registry.\<close>

definition dashCatalogRows ::
    "'s availability \<Rightarrow> 's availabilityReporter option \<Rightarrow> tokSample gomap \<Rightarrow> time \<Rightarrow> Router \<Rightarrow> nodeModelMetric gomap \<Rightarrow> 's
     \<Rightarrow> (dashModel list \<times> 's) option" where
  "dashCatalogRows av reporter stats now rt agents s =
     (let disc = av_Discovered av s;
          rows = (\<lambda>verdicts. map (dash_row rt stats now agents verdicts False) (sorted_entries (reg_Models (rt_registry rt)))
                    @ map (dash_row rt stats now agents verdicts True) (sorted_entries disc))
      in case reporter of
           None \<Rightarrow> Some (rows [], s)
         | Some rep \<Rightarrow> map_option (\<lambda>(ss, s1). (rows (verdicts_of ss), s1)) (rp_Snapshot rep s))"

record dash_catalog =
  dt_litellm_url :: string
  dt_model_count :: nat
  dt_models :: "dashModel list"

definition handleDashCatalog ::
    "string \<Rightarrow> ('s \<Rightarrow> NodeSnapshot gomap) option \<Rightarrow> 's availability \<Rightarrow> 's availabilityReporter option \<Rightarrow> tokSample gomap
     \<Rightarrow> time \<Rightarrow> Router \<Rightarrow> 's \<Rightarrow> (dash_catalog \<times> 's) option" where
  "handleDashCatalog api nodes av reporter stats now rt s =
     map_option (\<lambda>(rows, s1). (\<lparr>dt_litellm_url = api, dt_model_count = length (reg_Models (rt_registry rt)), dt_models = rows\<rparr>, s1))
       (dashCatalogRows av reporter stats now rt
          (case nodes of Some f \<Rightarrow> agent_states (f s) | None \<Rightarrow> []) s)"

section \<open>The header strip\<close>

record dash_models =
  dv_active :: nat
  dv_up :: nat
  dv_warming :: nat
  dv_absent :: nat
  dv_unavailable :: nat
  dv_discovered :: nat

definition count_states :: "ModelDefinition gomap \<Rightarrow> Status list \<Rightarrow> dash_models \<Rightarrow> dash_models" where
  "count_states cat ss m =
     (let known = filter (\<lambda>v. lookup cat (ss_Model v) \<noteq> None) ss;
          n = (\<lambda>P. length (filter (\<lambda>v. P (ss_State v)) known))
      in m\<lparr>dv_warming := dv_warming m + n (\<lambda>a. a = Warming), dv_absent := dv_absent m + n (\<lambda>a. a = Absent),
           dv_unavailable := dv_unavailable m + n (\<lambda>a. a = Unavailable),
           dv_up := n (\<lambda>a. a \<noteq> Warming \<and> a \<noteq> Absent \<and> a \<noteq> Unavailable)\<rparr>)"

definition overview_models ::
    "'s availability \<Rightarrow> 's availabilityReporter option \<Rightarrow> Router \<Rightarrow> 's \<Rightarrow> (dash_models \<times> 's) option" where
  "overview_models av reporter rt s =
     (let cat = fst (catalog rt (av_Discovered av s));
          m = \<lparr>dv_active = length cat, dv_up = length cat, dv_warming = 0, dv_absent = 0, dv_unavailable = 0,
               dv_discovered = length (filter (\<lambda>(i, d). IsDiscovered d) cat)\<rparr>
      in case reporter of
           None \<Rightarrow> Some (m, s)
         | Some rep \<Rightarrow> map_option (\<lambda>(ss, s1). (count_states cat ss m, s1)) (rp_Snapshot rep s))"

record ReplicaOverview =
  ov_Replica :: string
  ov_URL :: string
  ov_Version :: string
  ov_UptimeS :: rat
  ov_RequestsPerMin :: int
  ov_Reachable :: bool
  ov_Error :: string
  ov_Feed :: "PeerState option"

record dash_overview =
  do_version :: string
  do_uptime_s :: rat
  do_mode :: string
  do_replica :: string
  do_models :: dash_models
  do_roles_total :: nat
  do_roles_bound :: nat
  do_requests_per_min :: int
  do_replicas :: "ReplicaOverview list"

text \<open>The overview of this replica and, unless a peer asks, of its peers. The uptime of the process and its
  version are arguments.\<close>

definition handleDashOverview ::
    "'s availability \<Rightarrow> 's availabilityReporter option \<Rightarrow> reqRateWindow \<Rightarrow> string \<Rightarrow> string \<Rightarrow> rat \<Rightarrow> bool
     \<Rightarrow> ReplicaOverview list \<Rightarrow> time \<Rightarrow> pressureTracker \<Rightarrow> Router \<Rightarrow> 's \<Rightarrow> (dash_overview \<times> 's) option" where
  "handleDashOverview av reporter rate replica version uptime scope_local peers now p rt s =
     (case overview_models av reporter rt s of
        None \<Rightarrow> None
      | Some (models, s1) \<Rightarrow>
          let (bindings, s2) = roleBindings av now p rt s1;
              self = \<lparr>ov_Replica = replica, ov_URL = [], ov_Version = version, ov_UptimeS = uptime,
                      ov_RequestsPerMin = perMinute now rate, ov_Reachable = True, ov_Error = [], ov_Feed = None\<rparr>;
              replicas = (if scope_local then [self] else self # peers)
          in Some (\<lparr>do_version = version, do_uptime_s = uptime, do_mode = rt_mode rt, do_replica = replica, do_models = models,
                    do_roles_total = length bindings, do_roles_bound = length (filter rb_Available bindings),
                    do_requests_per_min = sum_list (map ov_RequestsPerMin (filter ov_Reachable replicas)),
                    do_replicas = replicas\<rparr>, s2))"

section \<open>Tables over the request log\<close>

text \<open>An answer is a refusal with its status, the note that there is nothing to show, or the view. \<open>who\<close> is the
  identity on the request's context; without one no secret is configured and everything is open.\<close>

datatype 'a dash_answer = Refused int string | NotAvailable string | Shown 'a

definition no_reqlog :: string where "no_reqlog = ''the request log is not queryable (no reqlog sink)''"

definition own_only :: "Identity option \<Rightarrow> ('r \<Rightarrow> string) \<Rightarrow> 'r list \<Rightarrow> 'r list" where
  "own_only who name rows =
     (case who of
        Some i \<Rightarrow> if \<not> isOwner i then filter (\<lambda>r. name r = id_Principal i) rows else rows
      | None \<Rightarrow> rows)"

definition usage_hours :: "string \<Rightarrow> int" where
  "usage_hours q = (case Atoi q of Some h \<Rightarrow> if h > 0 \<and> h \<le> 24 * 90 then h else 24 | None \<Rightarrow> 24)"

definition handleDashUsage ::
    "(time \<Rightarrow> string + UsageRow list) option \<Rightarrow> Identity option \<Rightarrow> string \<Rightarrow> time \<Rightarrow> (int \<times> UsageRow list) dash_answer" where
  "handleDashUsage reader who hours_q now =
     (case reader of
        None \<Rightarrow> NotAvailable no_reqlog
      | Some usage \<Rightarrow>
          let hours = usage_hours hours_q in
          case usage (now - hours * 3600 * second) of
            Inl err \<Rightarrow> NotAvailable ''usage query failed; see the router log''
          | Inr rows \<Rightarrow> Shown (hours, own_only who ug_Principal rows))"

definition trafficWindows :: "(duration \<times> duration) gomap" where
  "trafficWindows =
     [(''1h'', (3600 * second, 60 * second)), (''24h'', (24 * 3600 * second, 15 * 60 * second)),
      (''7d'', (7 * 24 * 3600 * second, 3600 * second))]"

definition trafficRowLimit :: int where "trafficRowLimit = 12"

record traffic_view =
  tv_window :: string
  tv_bucket_s :: int
  tv_by :: string
  tv_since :: time
  tv_rows :: "SeriesRow list"
  tv_failures :: "FailureRow list"

text \<open>The sink's time-series side: \<open>Series\<close> and \<open>Failures\<close>.\<close>

type_synonym series_reader =
  "(time \<Rightarrow> duration \<Rightarrow> string \<Rightarrow> int \<Rightarrow> string + SeriesRow list) \<times> (time \<Rightarrow> string + FailureRow list)"

definition handleDashTraffic ::
    "series_reader option \<Rightarrow> Identity option \<Rightarrow> string \<Rightarrow> string \<Rightarrow> time \<Rightarrow> traffic_view dash_answer" where
  "handleDashTraffic reader who window_q by_q now =
     (let window = (if window_q = [] then ''24h'' else window_q); by = (if by_q = [] then ''model'' else by_q) in
      case lookup trafficWindows window of
        None \<Rightarrow> Refused 400 ''window must be one of 1h, 24h, 7d''
      | Some (width, bucket) \<Rightarrow>
          if by \<noteq> ''model'' \<and> by \<noteq> ''principal'' then Refused 400 ''by must be model or principal''
          else case reader of
                 None \<Rightarrow> NotAvailable no_reqlog
               | Some (series, failures) \<Rightarrow>
                   let cutoff = now - width in
                   case series cutoff bucket by trafficRowLimit of
                     Inl err \<Rightarrow> NotAvailable ''series query failed; see the router log''
                   | Inr rows \<Rightarrow>
                       Shown \<lparr>tv_window = window, tv_bucket_s = bucket sdiv second, tv_by = by, tv_since = cutoff,
                              tv_rows = (if by = ''principal'' then own_only who sw_Key rows else rows),
                              tv_failures = (case failures cutoff of Inl err \<Rightarrow> [] | Inr fs \<Rightarrow> fs)\<rparr>)"

definition sessionRowsDefault :: int where "sessionRowsDefault = 100"
definition sessionRowsMax :: int where "sessionRowsMax = 500"
definition sessionPrefixMin :: nat where "sessionPrefixMin = 4"

definition session_limit :: "string \<Rightarrow> int option" where
  "session_limit q =
     (if q = [] then Some sessionRowsDefault
      else case Atoi q of
             None \<Rightarrow> None
           | Some n \<Rightarrow> if n < 1 then None else Some (min n sessionRowsMax))"

type_synonym session_reader = "string \<Rightarrow> string \<Rightarrow> int \<Rightarrow> string + RequestRow list"

definition handleDashRequests ::
    "session_reader option \<Rightarrow> Identity option \<Rightarrow> string \<Rightarrow> string \<Rightarrow> (string \<times> int \<times> RequestRow list) dash_answer" where
  "handleDashRequests reader who session_q limit_q =
     (if length session_q < sessionPrefixMin then Refused 400 ''session must be at least 4 characters of a session id''
      else case session_limit limit_q of
             None \<Rightarrow> Refused 400 ''limit must be a positive integer''
           | Some limit \<Rightarrow>
               (case reader of
                  None \<Rightarrow> NotAvailable no_reqlog
                | Some requests \<Rightarrow>
                    let fenced = (case who of Some i \<Rightarrow> \<not> isOwner i | None \<Rightarrow> False);
                        mine = (case who of Some i \<Rightarrow> if fenced then id_Principal i else [] | None \<Rightarrow> [])
                    in if fenced \<and> mine = [] then Shown (session_q, limit, [])
                       else case requests session_q mine limit of
                              Inl err \<Rightarrow> NotAvailable ''session query failed; see the router log''
                            | Inr rows \<Rightarrow> Shown (session_q, limit, rows)))"

text \<open>What a sink promises about the requests of a session: they match the prefix, they are the named
  principal's, newest first, and no more than the limit.\<close>

locale session_source =
  fixes requests :: session_reader
  assumes matching: "requests pre who limit = Inr rows \<Longrightarrow> r \<in> set rows \<Longrightarrow> has_prefix (to_lower (qr_SessionID r)) (to_lower pre)"
    and owned: "requests pre who limit = Inr rows \<Longrightarrow> r \<in> set rows \<Longrightarrow> who \<noteq> [] \<Longrightarrow> qr_Principal r = who"
    and newest: "requests pre who limit = Inr rows \<Longrightarrow> sorted (map (\<lambda>r. newest_key (qr_TS r)) rows)"
    and bounded: "requests pre who limit = Inr rows \<Longrightarrow> 0 < limit \<Longrightarrow> int (length rows) \<le> limit"
begin

lemma limit_range: "session_limit q = Some limit \<Longrightarrow> 0 < limit \<and> limit \<le> sessionRowsMax"
  by (auto simp: session_limit_def sessionRowsMax_def sessionRowsDefault_def split: if_splits option.splits)

lemma fenced_listing:
  assumes "handleDashRequests (Some requests) (Some ident) session_q limit_q = Shown (pre, limit, rows)" and "\<not> isOwner ident"
  shows "list_all (\<lambda>r. qr_Principal r = id_Principal ident
                     \<and> has_prefix (to_lower (qr_SessionID r)) (to_lower session_q)) rows
       \<and> sorted (map (\<lambda>r. newest_key (qr_TS r)) rows) \<and> int (length rows) \<le> sessionRowsMax"
proof (cases "id_Principal ident = []")
  case True
  with assms show ?thesis
    by (auto simp: handleDashRequests_def sessionRowsMax_def split: if_splits option.splits)
next
  case False
  with assms obtain l where l: "session_limit limit_q = Some l" and r: "requests session_q (id_Principal ident) l = Inr rows"
    by (auto simp: handleDashRequests_def split: if_splits option.splits sum.splits)
  from matching[OF r] owned[OF r _ False] newest[OF r] bounded[OF r] limit_range[OF l] show ?thesis
    by (fastforce simp: list_all_iff)
qed

end

lemma sorted_take: "sorted (map f xs) \<Longrightarrow> sorted (map f (take n xs))"
  by (simp add: sorted_wrt_take take_map[symmetric])

lemma session_rows:
  assumes "r \<in> set (RequestsBySession records pre who limit)"
  shows "\<exists>rec \<in> set records. r = request_row rec \<and> has_prefix (to_lower (re_SessionID rec)) (to_lower pre)
       \<and> (who \<noteq> [] \<longrightarrow> re_Principal rec = who)"
  using assms by (auto simp: RequestsBySession_def Let_def split: if_splits dest!: in_set_takeD)

interpretation memory_sessions: session_source "\<lambda>pre who limit. Inr (RequestsBySession records pre who limit)" for records
proof
  fix pre who :: string and limit :: int and rows r
  assume "Inr (RequestsBySession records pre who limit) = (Inr rows :: string + RequestRow list)"
  then have rows: "rows = RequestsBySession records pre who limit" by simp
  show "r \<in> set rows \<Longrightarrow> has_prefix (to_lower (qr_SessionID r)) (to_lower pre)"
    using session_rows by (fastforce simp: rows request_row_def)
  show "r \<in> set rows \<Longrightarrow> who \<noteq> [] \<Longrightarrow> qr_Principal r = who"
    using session_rows by (fastforce simp: rows request_row_def)
  show "sorted (map (\<lambda>r. newest_key (qr_TS r)) rows)"
    by (simp add: rows RequestsBySession_def Let_def sorted_take)
  show "0 < limit \<Longrightarrow> int (length rows) \<le> limit"
    by (simp add: rows RequestsBySession_def Let_def)
qed


definition family_log :: "Record list" where
  "family_log =
     [(record_at (60 * second) ''k2'' 200)\<lparr>re_Principal := ''mom'', re_SessionID := ''abcd-1''\<rparr>,
      (record_at (61 * second) ''k2'' 200)\<lparr>re_Principal := ''kid'', re_SessionID := ''abcd-2''\<rparr>,
      (record_at (62 * second) ''k2'' 200)\<lparr>re_Principal := ''mom'', re_SessionID := ''abcd-1''\<rparr>]"

definition kid :: Identity where "kid = \<lparr>id_Principal = ''kid'', id_TokenID = dashboardTokenID, id_Scopes = [familyScope]\<rparr>"


text \<open>The traffic table is cut to the busiest rows before it is fenced: a person who is not among them sees no
  row, not even his own. (One row here instead of twelve.)\<close>

lemma quiet_person_sees_nothing:
  "map sw_Key (case Series family_log 0 (60 * second) ''principal'' 1 (120 * second) of Inr rows \<Rightarrow> rows | Inl e \<Rightarrow> [])
     = [''mom'', ''other'']"
  by code_simp

end
