(* ===== verification/Metrics.thy ===== *)
theory Metrics
  imports Dashboard
begin

text \<open>
  The Prometheus counters of the router (\<^verbatim>\<open>internal/router/metrics.go\<close>) and the panel that reads them
  back (\<open>handleDashRouterMetrics\<close>).

  The client library is not modelled. An observation is the list of calls it makes on the counters and
  histograms: the metric, the label values in the order of its labels, and the amount. What the library
  returns from \<open>Gather\<close> is an argument of \<open>snapshot\<close>; \<open>gathers\<close> states its documented behaviour: one metric for
  each combination of label values that was touched, holding the sum of the amounts.
\<close>

section \<open>Observations\<close>

datatype metric_name =
    RequestsTotal | RequestDuration | UpstreamTokens | UpstreamRequests | RoleFailovers | PrivacyRefusals

record sample =
  sm_metric :: metric_name
  sm_labels :: "string list"
  sm_amount :: rat

definition inc :: "metric_name \<Rightarrow> string list \<Rightarrow> sample" where
  "inc m labels = \<lparr>sm_metric = m, sm_labels = labels, sm_amount = 1\<rparr>"

definition ObservePrivacyRefusal :: "string \<Rightarrow> string \<Rightarrow> sample list" where
  "ObservePrivacyRefusal tier subject = [inc PrivacyRefusals [tier, subject]]"

definition ObserveFailover :: "string \<Rightarrow> string \<Rightarrow> string \<Rightarrow> sample list" where
  "ObserveFailover role from_model to_model = (if role = [] then [] else [inc RoleFailovers [role, from_model, to_model]])"

definition ObserveUpstream :: "string \<Rightarrow> string \<Rightarrow> string \<Rightarrow> sample list" where
  "ObserveUpstream model apiBase class =
     (if model = [] then []
      else [inc UpstreamRequests [model, apiBase, if class = [] then ''success'' else class]])"

definition upstreamProviderLabel :: "Record \<Rightarrow> string" where
  "upstreamProviderLabel rec =
     (if re_UpstreamProvider rec \<noteq> [] then re_UpstreamProvider rec
      else if re_BackendURL rec = [] then ''none'' else ''local'')"

definition policy_refusal_text :: "string \<Rightarrow> bool" where
  "policy_refusal_text class \<longleftrightarrow> class = ''privacy_refused'' \<or> class = ''scope_refused''"

definition token_sample :: "string \<Rightarrow> string \<Rightarrow> string \<Rightarrow> int option \<Rightarrow> sample list" where
  "token_sample kind model apiClass n_opt =
     (case n_opt of None \<Rightarrow> []
      | Some n \<Rightarrow> [\<lparr>sm_metric = UpstreamTokens, sm_labels = [kind, model, apiClass], sm_amount = of_int n\<rparr>])"

definition Observe :: "Record \<Rightarrow> sample list" where
  "Observe rec =
     (let model = (if re_ResolvedVia rec = [] then ''unresolved'' else re_ResolvedVia rec);
          apiClass = (if re_APIClass rec = [] then ''unknown'' else re_APIClass rec)
      in [inc RequestsTotal [re_Path rec, model, apiClass, show_int (re_Status rec), upstreamProviderLabel rec],
          \<lparr>sm_metric = RequestDuration, sm_labels = [re_Path rec, apiClass], sm_amount = of_int (re_LatencyMS rec) / 1000\<rparr>]
       @ (if re_BackendURL rec \<noteq> [] \<and> \<not> policy_refusal_text (re_ErrorClass rec)
             \<and> (re_UpstreamStatus rec > 0 \<or> re_ErrorClass rec \<noteq> [])
          then ObserveUpstream model (re_BackendURL rec) (re_ErrorClass rec) else [])
       @ token_sample ''prompt'' model apiClass (re_PromptTokens rec)
       @ token_sample ''completion'' model apiClass (re_CompletionTokens rec))"

text \<open>\<open>SetAvailability\<close>: the gauges it sets; the role gauge is reset first, so it is given as a whole.\<close>

definition SetAvailability ::
    "bool gomap \<Rightarrow> string gomap \<Rightarrow> (string \<times> rat) list \<times> ((string \<times> string) \<times> rat) list" where
  "SetAvailability models roleTargets =
     (map (\<lambda>(i, up). (i, if up then 1 else 0)) models,
      map (\<lambda>(role, target). ((role, target), 1)) (filter (\<lambda>(role, target). target \<noteq> []) roleTargets))"

text \<open>The load-time gauge: active models by class.\<close>

definition models_active :: "ModelDefinition gomap \<Rightarrow> (APIClass \<times> int) list" where
  "models_active active = group_by (\<lambda>(i, m). m_APIClass m) (\<lambda>c. 0) (\<lambda>_ n. n + 1) active"

section \<open>Reading the counters back\<close>

record metric =
  mt_labels :: "(string \<times> string) list"
  mt_value :: rat
  mt_count :: rat

record metricsSnapshot =
  mp_TotalRequests :: int
  mp_Errors :: int
  mp_ByStatus :: "int gomap"
  mp_ByModel :: "int gomap"
  mp_TokensPrompt :: int
  mp_TokensCompletion :: int
  mp_DurationSum :: rat
  mp_DurationCount :: rat

definition zero_snapshot :: metricsSnapshot where
  "zero_snapshot = \<lparr>mp_TotalRequests = 0, mp_Errors = 0, mp_ByStatus = [], mp_ByModel = [], mp_TokensPrompt = 0,
                    mp_TokensCompletion = 0, mp_DurationSum = 0, mp_DurationCount = 0\<rparr>"

definition bump_count :: "string \<Rightarrow> int \<Rightarrow> int gomap \<Rightarrow> int gomap" where
  "bump_count k v m = store k ((case lookup m k of Some n \<Rightarrow> n | None \<Rightarrow> 0) + v) m"

definition label :: "string \<Rightarrow> metric \<Rightarrow> string" where
  "label name mt = (case map_of (rev (mt_labels mt)) name of Some v \<Rightarrow> v | None \<Rightarrow> [])"

definition add_request_metric :: "metric \<Rightarrow> metricsSnapshot \<Rightarrow> metricsSnapshot" where
  "add_request_metric mt s =
     (let v = \<lfloor>mt_value mt\<rfloor>; status = label ''status'' mt
      in s\<lparr>mp_TotalRequests := mp_TotalRequests s + v,
           mp_ByStatus := bump_count status v (mp_ByStatus s),
           mp_Errors := mp_Errors s + (case Atoi status of Some code \<Rightarrow> if code \<ge> 400 then v else 0 | None \<Rightarrow> 0),
           mp_ByModel := bump_count (label ''model'' mt) v (mp_ByModel s)\<rparr>)"

definition add_duration_metric :: "metric \<Rightarrow> metricsSnapshot \<Rightarrow> metricsSnapshot" where
  "add_duration_metric mt s =
     s\<lparr>mp_DurationSum := mp_DurationSum s + mt_value mt, mp_DurationCount := mp_DurationCount s + mt_count mt\<rparr>"

definition add_token_metric :: "metric \<Rightarrow> metricsSnapshot \<Rightarrow> metricsSnapshot" where
  "add_token_metric mt s =
     (let v = \<lfloor>mt_value mt\<rfloor>; kind = label ''kind'' mt
      in if kind = ''prompt'' then s\<lparr>mp_TokensPrompt := mp_TokensPrompt s + v\<rparr>
         else if kind = ''completion'' then s\<lparr>mp_TokensCompletion := mp_TokensCompletion s + v\<rparr> else s)"

text \<open>\<open>snapshot\<close> over what \<open>Gather\<close> returns; an error is an empty snapshot.\<close>

definition snapshot :: "string + (metric_name \<times> metric list) list \<Rightarrow> metricsSnapshot" where
  "snapshot gathered =
     (case gathered of
        Inl err \<Rightarrow> zero_snapshot
      | Inr families \<Rightarrow>
          fold (\<lambda>(name, ms) s.
                  if name = RequestsTotal then fold add_request_metric ms s
                  else if name = RequestDuration then fold add_duration_metric ms s
                  else if name = UpstreamTokens then fold add_token_metric ms s else s) families zero_snapshot)"

record router_metrics =
  rm_models :: nat
  rm_models_by_class :: "(APIClass \<times> int) list"
  rm_total_requests :: int
  rm_errors :: int
  rm_by_status :: "int gomap"
  rm_top_models :: "(string \<times> int) list"
  rm_tokens_prompt :: int
  rm_tokens_completion :: int
  rm_avg_latency_ms :: "rat option"

definition handleDashRouterMetrics :: "Router \<Rightarrow> metricsSnapshot \<Rightarrow> router_metrics" where
  "handleDashRouterMetrics rt snap =
     \<lparr>rm_models = length (rt_active rt), rm_models_by_class = models_active (rt_active rt),
      rm_total_requests = mp_TotalRequests snap, rm_errors = mp_Errors snap, rm_by_status = mp_ByStatus snap,
      rm_top_models = take 6 (sort_key (\<lambda>(k, v). (- v, k)) (mp_ByModel snap)),
      rm_tokens_prompt = mp_TokensPrompt snap, rm_tokens_completion = mp_TokensCompletion snap,
      rm_avg_latency_ms = (if mp_DurationCount snap > 0
                           then Some (round1 (mp_DurationSum snap / mp_DurationCount snap * 1000)) else None)\<rparr>"

definition handleDashUpstream :: "time \<Rightarrow> upstreamTracker \<Rightarrow> upstreamRow list" where
  "handleDashUpstream now t = upstream_stats now t"

section \<open>Numbers written and read\<close>

lemma digits_value_snoc: "digits_value acc (xs @ [c]) = 10 * digits_value acc xs + (of_char c - 48)"
  by (induction xs arbitrary: acc) simp_all

lemma digit_char: "d < 10 \<Longrightarrow> is_digit (char_of (48 + d)) \<and> of_char (char_of (48 + d) :: char) = (48 + d :: nat)"
  by (simp add: is_digit_def)

lemma show_nat_digits: "show_nat n \<noteq> [] \<and> list_all is_digit (show_nat n) \<and> digits_value 0 (show_nat n) = n"
proof (induction n rule: less_induct)
  case (less n)
  show ?case
  proof (cases "n < 10")
    case True
    with digit_char[of n] show ?thesis by (subst (1 2 3) show_nat.simps) simp
  next
    case False
    then have "show_nat n = show_nat (n div 10) @ [char_of (48 + n mod 10)]" by (subst show_nat.simps) simp
    with less[of "n div 10"] False digit_char[of "n mod 10"] show ?thesis by (simp add: digits_value_snoc)
  qed
qed

lemma atoi_show_int: "atoi (show_int n) = Some n"
proof (cases "n < 0")
  case True
  with show_nat_digits[of "nat (- n)"] show ?thesis by (simp add: show_int_def atoi_def)
next
  case False
  obtain c cs where c: "show_nat (nat n) = c # cs" using show_nat_digits[of "nat n"] by (cases "show_nat (nat n)") auto
  with show_nat_digits[of "nat n"] have "is_digit c" by simp
  then have "c \<noteq> CHR ''-''" "c \<noteq> CHR ''+''" by (auto simp: is_digit_def)
  with False c show_nat_digits[of "nat n"] show ?thesis by (simp add: show_int_def atoi_def)
qed

lemma Atoi_show_int: "- (2 ^ 63) \<le> n \<Longrightarrow> n < 2 ^ 63 \<Longrightarrow> Atoi (show_int n) = Some n"
  by (simp add: Atoi_def atoi_show_int)

section \<open>The panel accounts for every request\<close>

text \<open>What the library returns for a list of calls.\<close>

definition label_names :: "metric_name \<Rightarrow> string list" where
  "label_names m =
     (case m of
        RequestsTotal \<Rightarrow> [''path'', ''model'', ''api_class'', ''status'', ''upstream_provider'']
      | RequestDuration \<Rightarrow> [''path'', ''api_class'']
      | UpstreamTokens \<Rightarrow> [''kind'', ''model'', ''api_class'']
      | UpstreamRequests \<Rightarrow> [''model'', ''api_base'', ''outcome'']
      | RoleFailovers \<Rightarrow> [''role'', ''from'', ''to'']
      | PrivacyRefusals \<Rightarrow> [''tier'', ''subject''])"

definition family_of :: "sample list \<Rightarrow> metric_name \<Rightarrow> metric list" where
  "family_of samples name =
     map (\<lambda>(labels, (v, n)). \<lparr>mt_labels = zip (label_names name) labels, mt_value = v, mt_count = n\<rparr>)
       (group_by sm_labels (\<lambda>_. (0, 0)) (\<lambda>s (v, n). (v + sm_amount s, n + 1))
          (filter (\<lambda>s. sm_metric s = name) samples))"

definition gathers :: "sample list \<Rightarrow> (metric_name \<times> metric list) list \<Rightarrow> bool" where
  "gathers samples families \<longleftrightarrow>
     distinct (map fst families) \<and> set (map sm_metric samples) \<subseteq> set (map fst families)
   \<and> list_all (\<lambda>(name, ms). mset ms = mset (family_of samples name)) families"

lemma request_metrics:
  "mp_TotalRequests (fold add_request_metric ms s) = mp_TotalRequests s + sum_list (map (\<lambda>m. \<lfloor>mt_value m\<rfloor>) ms)
 \<and> mp_Errors (fold add_request_metric ms s) = mp_Errors s
     + sum_list (map (\<lambda>m. case Atoi (label ''status'' m) of Some c \<Rightarrow> if c \<ge> 400 then \<lfloor>mt_value m\<rfloor> else 0 | None \<Rightarrow> 0) ms)
 \<and> mp_TokensPrompt (fold add_request_metric ms s) = mp_TokensPrompt s"
  by (induction ms arbitrary: s) (auto simp: add_request_metric_def Let_def split: option.splits)

lemma duration_metrics:
  "mp_TotalRequests (fold add_duration_metric ms s) = mp_TotalRequests s
 \<and> mp_Errors (fold add_duration_metric ms s) = mp_Errors s
 \<and> mp_TokensPrompt (fold add_duration_metric ms s) = mp_TokensPrompt s"
  by (induction ms arbitrary: s) (auto simp: add_duration_metric_def)

lemma token_metrics:
  "mp_TotalRequests (fold add_token_metric ms s) = mp_TotalRequests s
 \<and> mp_Errors (fold add_token_metric ms s) = mp_Errors s
 \<and> mp_TokensPrompt (fold add_token_metric ms s) = mp_TokensPrompt s
     + sum_list (map (\<lambda>m. if label ''kind'' m = ''prompt'' then \<lfloor>mt_value m\<rfloor> else 0) ms)"
  by (induction ms arbitrary: s) (auto simp: add_token_metric_def Let_def)

text \<open>A sum over a family weighted by its labels is the sum over the calls.\<close>

lemma family_sum:
  assumes "\<And>s. s \<in> set samples \<Longrightarrow> sm_metric s = name \<Longrightarrow> sm_amount s = of_int (w s)"
    and "mset ms = mset (family_of samples name)"
  shows "sum_list (map (\<lambda>m. if P (mt_labels m) then \<lfloor>mt_value m\<rfloor> else 0) ms)
       = sum_list (map (\<lambda>s. if P (zip (label_names name) (sm_labels s)) then w s else 0)
           (filter (\<lambda>s. sm_metric s = name) samples))"
proof -
  let ?in = "filter (\<lambda>s. sm_metric s = name) samples"
  let ?h = "\<lambda>labels (v :: rat, n :: rat). if P (zip (label_names name) labels) then \<lfloor>v\<rfloor> else 0"
  let ?W = "\<lambda>s. if P (zip (label_names name) (sm_labels s)) then w s else 0"
  let ?g = "group_by sm_labels (\<lambda>_. (0, 0)) (\<lambda>s (v, n). (v + sm_amount s, n + 1)) ?in"
  have "sum_list (map (\<lambda>(k, v). ?h k v) ?g) = sum_list (map ?W ?in)"
    by (rule conjunct2[OF group_by_sum[where I = "\<lambda>_ _. True"]]) (use assms(1) in auto)
  moreover have "sum_list (map (\<lambda>m. if P (mt_labels m) then \<lfloor>mt_value m\<rfloor> else 0) ms)
      = sum_list (map (\<lambda>m. if P (mt_labels m) then \<lfloor>mt_value m\<rfloor> else 0) (family_of samples name))"
    by (rule sum_perm[OF assms(2)])
  moreover have "map (\<lambda>m. if P (mt_labels m) then \<lfloor>mt_value m\<rfloor> else 0) (family_of samples name) = map (\<lambda>(k, v). ?h k v) ?g"
    by (auto simp: family_of_def)
  ultimately show ?thesis by simp
qed

lemma pick_family:
  fixes g :: "'b \<Rightarrow> int"
  assumes "distinct (map fst fs)" and "\<And>b. (n, b) \<in> set fs \<Longrightarrow> g b = G" and "n \<notin> set (map fst fs) \<Longrightarrow> G = 0"
  shows "sum_list (map (\<lambda>(m, b). if m = n then g b else 0) fs) = G"
proof -
  have none: "n \<notin> set (map fst fs) \<Longrightarrow> sum_list (map (\<lambda>(m, b). if m = n then g b else 0) fs) = 0" for fs :: "('a \<times> 'b) list"
    by (induction fs) auto
  have "distinct (map fst fs) \<Longrightarrow> (n, b) \<in> set fs \<Longrightarrow> sum_list (map (\<lambda>(m, b). if m = n then g b else 0) fs) = g b"
    for b and fs :: "('a \<times> 'b) list"
  proof (induction fs)
    case (Cons p fs)
    obtain m c where p: "p = (m, c)" by (rule prod.exhaust)
    show ?case
    proof (cases "m = n")
      case True
      then have "n \<notin> set (map fst fs)" and "c = b" using Cons.prems p by (auto simp: rev_image_eqI)
      with none[of fs] True p show ?thesis by simp
    next
      case False
      with Cons p show ?thesis by auto
    qed
  qed simp
  with assms none show ?thesis by (cases "n \<in> set (map fst fs)") force+
qed

lemma snapshot_fields:
  "mp_TotalRequests (snapshot (Inr fs))
     = sum_list (map (\<lambda>(n, ms). if n = RequestsTotal then sum_list (map (\<lambda>m. \<lfloor>mt_value m\<rfloor>) ms) else 0) fs)
 \<and> mp_Errors (snapshot (Inr fs))
     = sum_list (map (\<lambda>(n, ms). if n = RequestsTotal
         then sum_list (map (\<lambda>m. case Atoi (label ''status'' m) of Some c \<Rightarrow> if c \<ge> 400 then \<lfloor>mt_value m\<rfloor> else 0 | None \<Rightarrow> 0) ms)
         else 0) fs)
 \<and> mp_TokensPrompt (snapshot (Inr fs))
     = sum_list (map (\<lambda>(n, ms). if n = UpstreamTokens
         then sum_list (map (\<lambda>m. if label ''kind'' m = ''prompt'' then \<lfloor>mt_value m\<rfloor> else 0) ms) else 0) fs)"
proof -
  let ?step = "\<lambda>(name, ms) s. if name = RequestsTotal then fold add_request_metric ms s
                  else if name = RequestDuration then fold add_duration_metric ms s
                  else if name = UpstreamTokens then fold add_token_metric ms s else s"
  have "mp_TotalRequests (fold ?step fs s) = mp_TotalRequests s
      + sum_list (map (\<lambda>(n, ms). if n = RequestsTotal then sum_list (map (\<lambda>m. \<lfloor>mt_value m\<rfloor>) ms) else 0) fs)" for s
    by (induction fs arbitrary: s) (auto simp: request_metrics duration_metrics token_metrics)
  moreover have "mp_Errors (fold ?step fs s) = mp_Errors s
      + sum_list (map (\<lambda>(n, ms). if n = RequestsTotal
         then sum_list (map (\<lambda>m. case Atoi (label ''status'' m) of Some c \<Rightarrow> if c \<ge> 400 then \<lfloor>mt_value m\<rfloor> else 0 | None \<Rightarrow> 0) ms)
         else 0) fs)" for s
    by (induction fs arbitrary: s) (auto simp: request_metrics duration_metrics token_metrics)
  moreover have "mp_TokensPrompt (fold ?step fs s) = mp_TokensPrompt s
      + sum_list (map (\<lambda>(n, ms). if n = UpstreamTokens
         then sum_list (map (\<lambda>m. if label ''kind'' m = ''prompt'' then \<lfloor>mt_value m\<rfloor> else 0) ms) else 0) fs)" for s
    by (induction fs arbitrary: s) (auto simp: request_metrics duration_metrics token_metrics)
  ultimately show ?thesis by (simp add: snapshot_def zero_snapshot_def)
qed

definition observed :: "Record list \<Rightarrow> sample list" where "observed recs = concat (map Observe recs)"

lemma observe_metrics:
  "filter (\<lambda>s. sm_metric s = RequestsTotal) (Observe rec) = [hd (Observe rec)]"
  "sm_amount (hd (Observe rec)) = 1"
  "filter (\<lambda>s. sm_metric s = UpstreamTokens) (Observe rec)
     = token_sample ''prompt'' (if re_ResolvedVia rec = [] then ''unresolved'' else re_ResolvedVia rec)
         (if re_APIClass rec = [] then ''unknown'' else re_APIClass rec) (re_PromptTokens rec)
     @ token_sample ''completion'' (if re_ResolvedVia rec = [] then ''unresolved'' else re_ResolvedVia rec)
         (if re_APIClass rec = [] then ''unknown'' else re_APIClass rec) (re_CompletionTokens rec)"
proof -
  have t: "filter (\<lambda>s. sm_metric s = RequestsTotal) (token_sample k m c n) = []"
    "filter (\<lambda>s. sm_metric s = UpstreamTokens) (token_sample k m c n) = token_sample k m c n" for k m c n
    by (cases n; simp add: token_sample_def)+
  have u: "filter (\<lambda>s. sm_metric s = RequestsTotal) (ObserveUpstream m a c) = []"
    "filter (\<lambda>s. sm_metric s = UpstreamTokens) (ObserveUpstream m a c) = []" for m a c
    by (simp_all add: ObserveUpstream_def inc_def)
  show "filter (\<lambda>s. sm_metric s = RequestsTotal) (Observe rec) = [hd (Observe rec)]"
    "sm_amount (hd (Observe rec)) = 1"
    by (simp_all add: Observe_def Let_def t u inc_def)
  show "filter (\<lambda>s. sm_metric s = UpstreamTokens) (Observe rec)
     = token_sample ''prompt'' (if re_ResolvedVia rec = [] then ''unresolved'' else re_ResolvedVia rec)
         (if re_APIClass rec = [] then ''unknown'' else re_APIClass rec) (re_PromptTokens rec)
     @ token_sample ''completion'' (if re_ResolvedVia rec = [] then ''unresolved'' else re_ResolvedVia rec)
         (if re_APIClass rec = [] then ''unknown'' else re_APIClass rec) (re_CompletionTokens rec)"
    by (simp add: Observe_def Let_def t u inc_def)
qed

lemma observed_requests:
  "filter (\<lambda>s. sm_metric s = RequestsTotal) (observed recs) = map (\<lambda>rec. hd (Observe rec)) recs"
  by (induction recs) (simp_all add: observed_def observe_metrics)

lemma observed_amounts:
  assumes "s \<in> set (observed recs)"
  shows "sm_metric s = RequestsTotal \<Longrightarrow> sm_amount s = of_int 1"
    and "sm_metric s = UpstreamTokens \<Longrightarrow> sm_amount s = of_int \<lfloor>sm_amount s\<rfloor>"
proof -
  from assms obtain rec where rec: "s \<in> set (Observe rec)" by (auto simp: observed_def)
  show "sm_amount s = of_int 1" if "sm_metric s = RequestsTotal"
  proof -
    from that rec have "s \<in> set (filter (\<lambda>s. sm_metric s = RequestsTotal) (Observe rec))" by simp
    then show ?thesis by (simp add: observe_metrics)
  qed
  show "sm_amount s = of_int \<lfloor>sm_amount s\<rfloor>" if "sm_metric s = UpstreamTokens"
  proof -
    from that rec have "s \<in> set (filter (\<lambda>s. sm_metric s = UpstreamTokens) (Observe rec))" by simp
    then show ?thesis by (auto simp: observe_metrics token_sample_def split: option.splits)
  qed
qed

definition is_prompt :: "(string \<times> string) list \<Rightarrow> bool" where
  "is_prompt labels \<longleftrightarrow> label ''kind'' \<lparr>mt_labels = labels, mt_value = 0, mt_count = 0\<rparr> = ''prompt''"

lemma observed_prompt:
  "sum_list (map (\<lambda>s. if is_prompt (zip (label_names UpstreamTokens) (sm_labels s)) then \<lfloor>sm_amount s\<rfloor> else 0)
       (filter (\<lambda>s. sm_metric s = UpstreamTokens) (observed recs)))
     = sum_list (map (\<lambda>rec. deref (re_PromptTokens rec)) recs)"
proof (induction recs)
  case (Cons rec recs)
  have "sum_list (map (\<lambda>s. if is_prompt (zip (label_names UpstreamTokens) (sm_labels s)) then \<lfloor>sm_amount s\<rfloor> else 0)
      (token_sample k m c n)) = (if k = ''prompt'' then deref n else 0)" for k m c n
    by (cases n) (simp_all add: token_sample_def is_prompt_def label_def label_names_def deref_def)
  with Cons show ?case by (simp add: observed_def observe_metrics)
qed (simp add: observed_def)

definition is_error :: "(string \<times> string) list \<Rightarrow> bool" where
  "is_error labels \<longleftrightarrow>
     (case Atoi (label ''status'' \<lparr>mt_labels = labels, mt_value = 0, mt_count = 0\<rparr>) of Some c \<Rightarrow> c \<ge> 400 | None \<Rightarrow> False)"

lemma label_labels: "label k m = label k \<lparr>mt_labels = mt_labels m, mt_value = 0, mt_count = 0\<rparr>"
  by (simp add: label_def)

lemma observed_errors:
  assumes "- (2 ^ 63) \<le> re_Status rec" and "re_Status rec < 2 ^ 63"
  shows "is_error (zip (label_names RequestsTotal) (sm_labels (hd (Observe rec)))) \<longleftrightarrow> re_Status rec \<ge> 400"
  using assms by (simp add: is_error_def label_def label_names_def Observe_def Let_def inc_def Atoi_show_int)

lemma gathered_family:
  assumes "gathers samples families"
    and "\<And>s. s \<in> set samples \<Longrightarrow> sm_metric s = name \<Longrightarrow> sm_amount s = of_int (w s)"
  shows "sum_list (map (\<lambda>(n, ms). if n = name then sum_list (map (\<lambda>m. if P (mt_labels m) then \<lfloor>mt_value m\<rfloor> else 0) ms) else 0) families)
       = sum_list (map (\<lambda>s. if P (zip (label_names name) (sm_labels s)) then w s else 0)
           (filter (\<lambda>s. sm_metric s = name) samples))"
proof (rule pick_family)
  show "distinct (map fst families)" using assms(1) by (simp add: gathers_def)
  show "sum_list (map (\<lambda>m. if P (mt_labels m) then \<lfloor>mt_value m\<rfloor> else 0) ms)
      = sum_list (map (\<lambda>s. if P (zip (label_names name) (sm_labels s)) then w s else 0)
          (filter (\<lambda>s. sm_metric s = name) samples))" if "(name, ms) \<in> set families" for ms
    by (rule family_sum[OF assms(2)]) (use that assms(1) in \<open>auto simp: gathers_def list_all_iff\<close>)
  assume "name \<notin> set (map fst families)"
  with assms(1) have "filter (\<lambda>s. sm_metric s = name) samples = []" by (auto simp: gathers_def filter_empty_conv)
  then show "sum_list (map (\<lambda>s. if P (zip (label_names name) (sm_labels s)) then w s else 0)
      (filter (\<lambda>s. sm_metric s = name) samples)) = 0" by simp
qed

text \<open>The panel accounts for every request: whatever the requests were, the counters read back show as many
  requests as were observed, as many errors as had a status of 400 or more, and the sum of their prompt tokens.\<close>

theorem metrics_account:
  assumes g: "gathers (observed recs) families"
    and st: "\<forall>rec \<in> set recs. - (2 ^ 63) \<le> re_Status rec \<and> re_Status rec < 2 ^ 63"
  shows "mp_TotalRequests (snapshot (Inr families)) = int (length recs)
       \<and> mp_Errors (snapshot (Inr families)) = int (length (filter (\<lambda>rec. re_Status rec \<ge> 400) recs))
       \<and> mp_TokensPrompt (snapshot (Inr families)) = sum_list (map (\<lambda>rec. deref (re_PromptTokens rec)) recs)"
proof -
  have count: "sum_list (map (\<lambda>(n, ms). if n = RequestsTotal then sum_list (map (\<lambda>m. if P (mt_labels m) then \<lfloor>mt_value m\<rfloor> else 0) ms) else 0) families)
      = sum_list (map (\<lambda>rec. if P (zip (label_names RequestsTotal) (sm_labels (hd (Observe rec)))) then 1 else 0) recs)" for P
    using gathered_family[OF g, of RequestsTotal "\<lambda>_. 1" P] observed_amounts(1)[of _ recs]
    by (simp add: observed_requests comp_def)
  have toks: "sum_list (map (\<lambda>(n, ms). if n = UpstreamTokens then sum_list (map (\<lambda>m. if P (mt_labels m) then \<lfloor>mt_value m\<rfloor> else 0) ms) else 0) families)
      = sum_list (map (\<lambda>s. if P (zip (label_names UpstreamTokens) (sm_labels s)) then \<lfloor>sm_amount s\<rfloor> else 0)
          (filter (\<lambda>s. sm_metric s = UpstreamTokens) (observed recs)))" for P
    by (rule gathered_family[OF g]) (rule observed_amounts(2))
  have all: "mp_TotalRequests (snapshot (Inr families)) = int (length recs)"
    using count[where P = "\<lambda>_. True", unfolded if_True] by (simp add: snapshot_fields observed_requests sum_ones comp_def)
  have err: "(case Atoi (label ''status'' m) of Some c \<Rightarrow> if c \<ge> 400 then \<lfloor>mt_value m\<rfloor> else 0 | None \<Rightarrow> 0)
      = (if is_error (mt_labels m) then \<lfloor>mt_value m\<rfloor> else 0)" for m
    by (simp add: is_error_def label_labels[of _ m] split: option.splits)
  have "mp_Errors (snapshot (Inr families))
      = sum_list (map (\<lambda>rec. if is_error (zip (label_names RequestsTotal) (sm_labels (hd (Observe rec)))) then 1 else 0) recs)"
    unfolding snapshot_fields[THEN conjunct2, THEN conjunct1] err by (rule count)
  also have "\<dots> = sum_list (map (\<lambda>rec. if re_Status rec \<ge> 400 then 1 else 0) recs)"
    by (rule arg_cong[where f = sum_list], rule map_cong) (use observed_errors st in auto)
  also have "\<dots> = int (length (filter (\<lambda>rec. re_Status rec \<ge> 400) recs))" by (induction recs) auto
  finally have errors: "mp_Errors (snapshot (Inr families)) = int (length (filter (\<lambda>rec. re_Status rec \<ge> 400) recs))" .
  have kind: "label ''kind'' m = ''prompt'' \<longleftrightarrow> is_prompt (mt_labels m)" for m
    by (simp add: is_prompt_def label_labels[of _ m])
  have "mp_TokensPrompt (snapshot (Inr families)) = sum_list (map (\<lambda>rec. deref (re_PromptTokens rec)) recs)"
    unfolding snapshot_fields[THEN conjunct2, THEN conjunct2] kind toks[where P = is_prompt] by (rule observed_prompt)
  with all errors show ?thesis by simp
qed

theorem metrics_account_witness:
  "mp_TotalRequests (snapshot (Inr [(RequestsTotal, family_of (observed three_records) RequestsTotal),
      (RequestDuration, family_of (observed three_records) RequestDuration)])) = 3"
proof -
  have "gathers (observed three_records) [(RequestsTotal, family_of (observed three_records) RequestsTotal),
      (RequestDuration, family_of (observed three_records) RequestDuration)]"
    by (simp add: gathers_def observed_def three_records_def record_at_def zero_record_def Observe_def inc_def token_sample_def Let_def)
  moreover have "\<forall>rec \<in> set three_records. - (2 ^ 63) \<le> re_Status rec \<and> re_Status rec < 2 ^ 63"
    by (simp add: three_records_def record_at_def)
  ultimately have "mp_TotalRequests (snapshot (Inr [(RequestsTotal, family_of (observed three_records) RequestsTotal),
      (RequestDuration, family_of (observed three_records) RequestDuration)])) = int (length three_records)"
    using metrics_account by blast
  then show ?thesis by (simp add: three_records_def)
qed

end
