(* ===== verification/Dashboard_Routes.thy ===== *)
theory Dashboard_Routes
  imports Metrics Proxy_Props
begin

text \<open>
  How a request reaches the dashboard (\<open>DashboardHandler\<close>), the quick chat with its writer that turns an
  early failure into an event of the stream (\<^verbatim>\<open>internal/router/dashboard.go\<close>), and the reverse proxies for the
  other tools (\<^verbatim>\<open>dashboard_proxy.go\<close>).

  The shell is one page with its substitutions done; its text is not modelled. \<^verbatim>\<open>net/http\<close>'s router is the choice
  among the registered patterns; \<^verbatim>\<open>httputil.ReverseProxy\<close> is the pair of its two callbacks, \<open>Rewrite\<close> and
  \<open>ModifyResponse\<close>.
\<close>

section \<open>Routes\<close>

datatype dash_route =
    Shell | ToRoot | Static string | Favicon
  | Overview | Fleet | Catalog | NodeMetrics | RouterMetrics | Upstream
  | Chat | Usage | EventStream | Traffic | Requests | TokenList | TokenMint | TokenRevoke string
  | ToolProxy string | ToolRedirect string
  | MethodNotAllowed | NotFound

definition dashMonitorPrefix :: string where "dashMonitorPrefix = ''/monitor''"
definition dashTokensPrefix :: string where "dashTokensPrefix = ''/tokens''"

text \<open>A pattern with the method GET also takes HEAD.\<close>

definition on_get :: "string \<Rightarrow> dash_route \<Rightarrow> dash_route" where
  "on_get meth r = (if meth = ''GET'' \<or> meth = ''HEAD'' then r else MethodNotAllowed)"

definition get_routes :: "dash_route gomap" where
  "get_routes =
     [(''/'', Shell), (''/v2'', ToRoot), (''/favicon.ico'', Favicon), (''/api/overview'', Overview), (''/api/fleet'', Fleet),
      (''/api/catalog'', Catalog), (''/api/node-metrics'', NodeMetrics), (''/api/router-metrics'', RouterMetrics),
      (''/api/upstream'', Upstream), (''/api/usage'', Usage), (''/api/events'', EventStream), (''/api/traffic'', Traffic),
      (''/api/requests'', Requests)]"

definition dash_route :: "string \<Rightarrow> string \<Rightarrow> dash_route" where
  "dash_route meth path =
     (case lookup get_routes path of
        Some r \<Rightarrow> on_get meth r
      | None \<Rightarrow>
          if path = ''/api/chat'' then (if meth = ''POST'' then Chat else MethodNotAllowed)
          else if path = ''/api/tokens'' then
            (if meth = ''POST'' then TokenMint else on_get meth TokenList)
          else if has_prefix path ''/api/tokens/'' then
            (let i = trim_prefix path ''/api/tokens/'' in
             if i = [] \<or> CHR ''/'' \<in> set i then NotFound
             else if meth = ''DELETE'' then TokenRevoke i else MethodNotAllowed)
          else if has_prefix path ''/static/'' then on_get meth (Static (trim_prefix path ''/static/''))
          else if path = dashMonitorPrefix then ToolRedirect dashMonitorPrefix
          else if path = dashTokensPrefix then ToolRedirect dashTokensPrefix
          else if has_prefix path (dashMonitorPrefix @ ''/'') then ToolProxy dashMonitorPrefix
          else if has_prefix path (dashTokensPrefix @ ''/'') then ToolProxy dashTokensPrefix
          else NotFound)"

text \<open>The routes behind the identity gate. A tool that is not configured answers 404 without it.\<close>

definition behind_gate :: "(string \<Rightarrow> bool) \<Rightarrow> dash_route \<Rightarrow> bool" where
  "behind_gate set_up r =
     (case r of
        Chat \<Rightarrow> True | Usage \<Rightarrow> True | EventStream \<Rightarrow> True | Traffic \<Rightarrow> True | Requests \<Rightarrow> True
      | TokenList \<Rightarrow> True | TokenMint \<Rightarrow> True | TokenRevoke i \<Rightarrow> True
      | ToolProxy p \<Rightarrow> set_up p
      | _ \<Rightarrow> False)"

definition enter :: "DashboardConfig \<Rightarrow> (string \<Rightarrow> bool) \<Rightarrow> string \<Rightarrow> dash_request \<Rightarrow> dash_outcome" where
  "enter cfg set_up meth r =
     (if behind_gate set_up (dash_route meth (dq_path r)) then dashIdentityGate cfg r else DashServed None)"

text \<open>An asset is served when it exists, is no directory and is not the unsubstituted shell.\<close>

definition serves_static :: "(string \<Rightarrow> bool option) \<Rightarrow> string \<Rightarrow> bool" where
  "serves_static isDir p \<longleftrightarrow>
     p \<noteq> [] \<and> \<not> has_suffix p ''/'' \<and> p \<noteq> ''index.html'' \<and> isDir p = Some False"

definition proxyPrefixIf :: "string \<Rightarrow> string \<Rightarrow> string" where
  "proxyPrefixIf target pre = (if trim_space target = [] then [] else pre)"

definition optQuery :: "string \<Rightarrow> string" where "optQuery q = (if q = [] then [] else CHR ''?'' # q)"

section \<open>Quick chat\<close>

text \<open>The bodies: what the browser sent, and the request it becomes.\<close>

definition chat_body :: "string \<Rightarrow> string \<Rightarrow> obj" where
  "chat_body model message =
     [(''messages'', JArr [JObj [(''content'', JStr message), (''role'', JStr ''user'')]]),
      (''model'', JStr model),
      (''stream'', JBool True),
      (''stream_options'', JObj [(''include_usage'', JBool True)])]"

definition chat_request :: "Identity option \<Rightarrow> string \<Rightarrow> string \<Rightarrow> proxy_request" where
  "chat_request who model message =
     \<lparr>pq_Path = ''/v1/chat/completions'', pq_Header = [(''Content-Type'', [''application/json''])],
      pq_Body = Document (chat_body model message), pq_Identity = who\<rparr>"

text \<open>The handler, once the body is decoded: a 400 with its text, or the exchange of \<open>handleProxy\<close>.\<close>

definition handleDashChat ::
    "'s proxy_env \<Rightarrow> Identity option \<Rightarrow> string + string \<times> string \<Rightarrow> 's world \<Rightarrow> (int \<times> string) + 's exchange" where
  "handleDashChat pe who decoded sp =
     (case decoded of
        Inl err \<Rightarrow> Inl (400, ''invalid JSON: '' @ err)
      | Inr (model, message) \<Rightarrow>
          if model = [] \<or> message = []
          then Inl (400, CHR 0x22 # ''model'' @ [CHR 0x22] @ '' and '' @ [CHR 0x22] @ ''message'' @ [CHR 0x22] @ '' are required'')
          else Inr (handleProxy pe APIClassChat False (chat_request who model message) sp))"

text \<open>A person who is not an owner chats under the scope of a family token, so nothing said in the quick chat
  leaves the fleet, whatever model, role or chain is named and however often the request fails over.\<close>

theorem family_chat_stays_home:
  assumes gate: "dashIdentityGate cfg r = DashServed (Some ident)" and fam: "\<not> isOwner ident"
    and ex: "handleDashChat pe (Some ident) decoded sp = Inr ex"
    and av: "pe_av pe = tracker_avail" and wf: "wf_map (rt_active (pe_rt pe))" and a: "a \<in> set (ex_attempts ex)"
  shows "\<exists>m. at_Found a = Some m \<and> IsLocal m"
proof -
  obtain model message where e: "ex = handleProxy pe APIClassChat False (chat_request (Some ident) model message) sp"
    using ex by (auto simp: handleDashChat_def split: sum.splits if_splits)
  let ?rq = "chat_request (Some ident) model message"
  from gate fam have scopes: "id_Scopes ident = [familyScope]"
    by (auto simp: dashIdentityGate_def Let_def isOwner_def split: if_splits)
  have header: "header_get (pq_Header ?rq) PrivacyHeader = []" by (simp add: chat_request_def) code_simp
  have "ModelScope ident = ScopeModelsLocal"
    unfolding ModelScope_def scopes by code_simp
  moreover have "scopeTier ScopeModelsLocal = TierLocal" by code_simp
  moreover have "parsePrivacyHeader [] = (TierNone, [], [])" by code_simp
  ultimately have "pd_tier (fst (privacyDemandFor (header_get (pq_Header ?rq) PrivacyHeader) (pq_Identity ?rq))) = TierLocal"
    unfolding header by (simp add: privacyDemandFor_def chat_request_def less_eq_privacyTier_def)
  from attempt_within_tier[OF av wf this _ a[unfolded e]] show ?thesis by (auto simp: satisfies_tier_def)
qed

section \<open>The event writer of the chat\<close>

record sseErrorWriter =
  ew_inner :: writer
  ew_status :: int
  ew_wrote :: bool
  ew_errMode :: bool

definition sse_WriteHeader :: "int \<Rightarrow> sseErrorWriter \<Rightarrow> sseErrorWriter" where
  "sse_WriteHeader code w =
     (if ew_wrote w then w
      else
        let w1 = w\<lparr>ew_wrote := True, ew_status := code\<rparr>
        in if code = 200 then w1\<lparr>ew_inner := net_WriteHeader 200 (ew_inner w1)\<rparr>
           else w1\<lparr>ew_errMode := True,
                   ew_inner := net_WriteHeader 200 (set_header ''Content-Type'' ''text/event-stream'' (ew_inner w1))\<rparr>)"

text \<open>\<open>encode\<close> is \<open>json.Marshal\<close> of the object with the one field \<open>error\<close>.\<close>

definition error_frame :: "(string \<Rightarrow> string) \<Rightarrow> int \<Rightarrow> string \<Rightarrow> string" where
  "error_frame encode status b =
     ''data: '' @ encode (''router '' @ show_int status @ '': '' @ trim_space b) @ [CHR 0x0A, CHR 0x0A]"

definition sse_Write :: "(string \<Rightarrow> string) \<Rightarrow> string \<Rightarrow> sseErrorWriter \<Rightarrow> sseErrorWriter" where
  "sse_Write encode b w =
     (let w1 = (if \<not> ew_wrote w then sse_WriteHeader 200 w else w)
      in if \<not> ew_errMode w1 then w1\<lparr>ew_inner := net_Write b (ew_inner w1)\<rparr>
         else w1\<lparr>ew_inner := net_Write (error_frame encode (ew_status w1) b) (ew_inner w1)\<rparr>)"

datatype write_op = SetStatus int | WriteBytes string

definition write_op :: "(string \<Rightarrow> string) \<Rightarrow> write_op \<Rightarrow> sseErrorWriter \<Rightarrow> sseErrorWriter" where
  "write_op encode o' w = (case o' of SetStatus code \<Rightarrow> sse_WriteHeader code w | WriteBytes b \<Rightarrow> sse_Write encode b w)"

definition chat_writer :: sseErrorWriter where
  "chat_writer =
     \<lparr>ew_inner = set_header ''Cache-Control'' ''no-cache'' (set_header ''X-Accel-Buffering'' ''no'' fresh_writer),
      ew_status = 0, ew_wrote = False, ew_errMode = False\<rparr>"

definition bytes_of :: "write_op list \<Rightarrow> string list" where
  "bytes_of ops = concat (map (\<lambda>o'. case o' of WriteBytes b \<Rightarrow> [b] | SetStatus c \<Rightarrow> []) ops)"

lemma sse_settled:
  assumes "ew_wrote w" and "cl_status (ew_inner w) = 200"
  shows "cl_status (ew_inner (fold (write_op encode) ops w)) = 200
       \<and> cl_body (ew_inner (fold (write_op encode) ops w))
         = cl_body (ew_inner w)
           @ concat (map (\<lambda>b. if ew_errMode w then error_frame encode (ew_status w) b else b) (bytes_of ops))"
  using assms
proof (induction ops arbitrary: w)
  case (Cons o' ops)
  show ?case
  proof (cases o')
    case (SetStatus c)
    with Cons show ?thesis by (simp add: write_op_def sse_WriteHeader_def bytes_of_def)
  next
    case (WriteBytes b)
    let ?w = "sse_Write encode b w"
    have w: "ew_wrote ?w" "cl_status (ew_inner ?w) = 200"
      and same: "ew_errMode ?w = ew_errMode w" "ew_status ?w = ew_status w"
      and body: "cl_body (ew_inner ?w) = cl_body (ew_inner w) @ (if ew_errMode w then error_frame encode (ew_status w) b else b)"
      using Cons.prems by (simp_all add: sse_Write_def net_Write_def Let_def)
    from Cons.IH[OF w, unfolded same body] WriteBytes show ?thesis by (simp add: write_op_def bytes_of_def)
  qed
qed (simp add: bytes_of_def)

text \<open>Whatever the router answers, the browser gets status 200 and a stream: the router's own bytes when it starts
  with a 200, and otherwise one \<open>error\<close> event per message, which names the status the router meant.\<close>

theorem chat_answer_is_a_stream:
  "cl_status (ew_inner (fold (write_op encode) (SetStatus code # ops) chat_writer)) = 200
 \<and> cl_body (ew_inner (fold (write_op encode) (SetStatus code # ops) chat_writer))
     = concat (map (\<lambda>b. if code = 200 then b else error_frame encode code b) (bytes_of ops))"
proof -
  let ?w = "write_op encode (SetStatus code) chat_writer"
  have w: "ew_wrote ?w" "cl_status (ew_inner ?w) = 200"
    and same: "ew_errMode ?w \<longleftrightarrow> code \<noteq> 200" "ew_status ?w = code" "cl_body (ew_inner ?w) = []"
    by (auto simp: write_op_def sse_WriteHeader_def chat_writer_def net_WriteHeader_def informational_def set_header_def
        fresh_writer_def Let_def)
  from sse_settled[OF w, of encode ops, unfolded same] show ?thesis by (cases "code = 200") (simp_all add: bytes_of_def)
qed

text \<open>An informational status the upstream sends ahead of a 200 is taken for the final one, so the answer that
  follows is delivered as an error.\<close>

lemma informational_spoils_the_chat:
  "cl_body (ew_inner (fold (write_op encode) [SetStatus 103, SetStatus 200, WriteBytes b] chat_writer)) = error_frame encode 103 b"
  using chat_answer_is_a_stream[of encode 103 "[SetStatus 200, WriteBytes b]"] by (simp add: bytes_of_def)

section \<open>The tools behind the dashboard\<close>

text \<open>The path and the query of a URL that \<open>url.Parse\<close> accepts: the path with its escapes undone.\<close>

definition hex_value :: "char \<Rightarrow> nat" where
  "hex_value c = (let n = of_char c :: nat in if n \<le> 57 then n - 48 else if n \<le> 70 then n - 55 else n - 87)"

fun unescape :: "string \<Rightarrow> string" where
  "unescape (c # a # b # s) =
     (if c = CHR ''%'' then char_of (16 * hex_value a + hex_value b) # unescape s else c # unescape (a # b # s))"
| "unescape s = s"

definition url_tail :: "string \<Rightarrow> string" where
  "url_tail raw =
     (let u = before_char (CHR ''#'') raw in
      case get_scheme u of
        None \<Rightarrow> []
      | Some (scheme, rest) \<Rightarrow>
          if (scheme \<noteq> [] \<or> \<not> has_prefix rest ''///'') \<and> has_prefix rest ''//''
          then dropWhile (\<lambda>c. c \<noteq> CHR ''/'' \<and> c \<noteq> CHR ''?'') (drop 2 rest) else rest)"

definition url_path :: "string \<Rightarrow> string" where
  "url_path raw = unescape (before_char (CHR ''?'') (url_tail raw))"

definition url_query :: "string \<Rightarrow> string" where
  "url_query raw = (case cut (CHR ''?'') (url_tail raw) of None \<Rightarrow> [] | Some (p, q) \<Rightarrow> q)"

definition trim_slashes :: "string \<Rightarrow> string" where
  "trim_slashes s = rev (dropWhile (\<lambda>c. c = CHR ''/'') (rev s))"

record dash_proxy =
  dp_prefix :: string
  dp_scheme :: string
  dp_host :: string
  dp_base :: string

definition newDashProxy :: "string \<Rightarrow> string \<Rightarrow> string + dash_proxy" where
  "newDashProxy pre target =
     (let bad = Inl (''proxy target for '' @ pre @ '' must be an absolute http(s) URL, got '' @ quoted target);
          t = trim_slashes target
      in case url_parse t of
           None \<Rightarrow> bad
         | Some (scheme, host) \<Rightarrow>
             if scheme = [] \<or> host = [] then bad
             else Inr \<lparr>dp_prefix = pre, dp_scheme = scheme, dp_host = host, dp_base = trim_slashes (url_path t)\<rparr>)"

text \<open>What reaches the tool: the path, the query and the prefix header.\<close>

definition rewrite_path :: "dash_proxy \<Rightarrow> string \<Rightarrow> string" where
  "rewrite_path p path =
     (let rest = trim_prefix path (dp_prefix p)
      in dp_base p @ (if rest = [] then ''/'' else rest))"

definition dash_rewrite :: "dash_proxy \<Rightarrow> string \<times> string \<Rightarrow> string \<times> string \<times> string" where
  "dash_rewrite p pq = (rewrite_path p (fst pq), snd pq, dp_prefix p)"

text \<open>The \<open>Location\<close> the browser sees for the one the tool sent.\<close>

definition rewrite_location :: "dash_proxy \<Rightarrow> string \<Rightarrow> string" where
  "rewrite_location p loc =
     (let pre = dp_prefix p in
      if loc = [] then loc
      else if has_prefix loc ''/'' \<and> \<not> has_prefix loc (pre @ ''/'') \<and> loc \<noteq> pre
      then pre @ trim_prefix loc (dp_base p)
      else case url_parse loc of
             None \<Rightarrow> loc
           | Some (scheme, host) \<Rightarrow>
               if host = dp_host p \<and> scheme = dp_scheme p
               then pre @ trim_prefix (url_path loc) (dp_base p) @ optQuery (url_query loc) else loc)"

text \<open>\<open>mountDashProxy\<close>: the tool, or a 404 that names the flag; and the redirect from the bare prefix.\<close>

definition mountDashProxy :: "string \<Rightarrow> string \<Rightarrow> string \<Rightarrow> string + (string + dash_proxy)" where
  "mountDashProxy pre flag target =
     (if target = [] then Inr (Inl (pre @ ''/ is not proxied on this router: start it with '' @ flag))
      else case newDashProxy pre target of Inl err \<Rightarrow> Inl err | Inr p \<Rightarrow> Inr (Inr p))"

definition slash_redirect :: "string \<Rightarrow> string \<Rightarrow> string" where
  "slash_redirect pre query = pre @ ''/'' @ optQuery query"

text \<open>A redirect of a tool comes back to where the tool meant: following the rewritten \<open>Location\<close>, the browser
  stays under the prefix and its request reaches the tool at the path the tool redirected to, for a path under
  the tool's base that is not itself under the prefix.\<close>

theorem tool_redirect_returns:
  assumes "loc = dp_base p @ ''/'' @ rest" and "has_prefix loc ''/''"
    and "\<not> has_prefix loc (dp_prefix p @ ''/'')" and "loc \<noteq> dp_prefix p"
  shows "has_prefix (rewrite_location p loc) (dp_prefix p @ ''/'') \<and> rewrite_path p (rewrite_location p loc) = loc"
proof -
  have "loc \<noteq> []" using assms(1) by simp
  then have l: "rewrite_location p loc = dp_prefix p @ ''/'' @ rest"
    using assms by (simp add: rewrite_location_def Let_def)
  have "has_prefix (dp_prefix p @ ''/'' @ rest) (dp_prefix p @ ''/'')" by (metis append_assoc has_prefix_append)
  then show ?thesis unfolding l rewrite_path_def trim_prefix_append by (simp add: Let_def assms(1))
qed

definition tokenator :: dash_proxy where
  "tokenator = \<lparr>dp_prefix = ''/tokens'', dp_scheme = ''http'', dp_host = ''10.0.0.5:8080'', dp_base = ''/app''\<rparr>"

lemma tokenator_built: "newDashProxy ''/tokens'' ''http://10.0.0.5:8080/app/'' = Inr tokenator"
  by code_simp

theorem tool_redirect_returns_witness:
  "rewrite_path tokenator (rewrite_location tokenator ''/app/session/abc'') = ''/app/session/abc''"
  using tool_redirect_returns[of "''/app/session/abc''" tokenator "''session/abc''"]
  by (simp add: tokenator_def has_prefix_def)

text \<open>The base is cut off the path without looking for the end of a segment, and an absolute redirect loses the
  escapes of its path.\<close>

lemma redirect_splits_a_segment: "rewrite_location tokenator ''/apple'' = ''/tokensle''"
  by code_simp

lemma redirect_loses_escapes:
  "rewrite_location tokenator ''http://10.0.0.5:8080/app/a%3Fb'' = ''/tokens/a?b''"
  by code_simp

end
