(* ===== verification/Live_Check.thy ===== *)
theory Live_Check
  imports Lint Listings Tool_Loop
begin

text \<open>
  \<^verbatim>\<open>router --validate\<close>: the live pass of \<^verbatim>\<open>internal/health/livecheck.go\<close>, which runs the router's own inventory
  once against a registry and reports what it saw, and the command around it
  (\<^verbatim>\<open>cli/internal/routercmd/validate.go\<close>) with its exit codes.

  The listings are an argument. The fetches of one pass run concurrently; the order in which they land is
  an argument too, any permutation of the due fetches. A price is printed by an argument (\<^verbatim>\<open>%.3g\<close>).
  The file, its hash and the YAML decoding are what the command is given: a registry or the error of
  decoding it.
\<close>

section \<open>One live pass\<close>

definition LintInventoryUnreachable :: string where "LintInventoryUnreachable = ''inventory-unreachable''"
definition LintNotListed :: string where "LintNotListed = ''not-listed''"
definition LintDiscoveredModel :: string where "LintDiscoveredModel = ''discovered-model''"
definition LintRoleMemberNotListed :: string where "LintRoleMemberNotListed = ''role-member-not-listed''"
definition LintRoleMemberCapability :: string where "LintRoleMemberCapability = ''role-member-capability''"

record live_env =
  lv_getenv :: "string \<Rightarrow> string"
  lv_list :: "string \<Rightarrow> string \<Rightarrow> string \<Rightarrow> string + Listing"
  lv_timeout :: duration
  lv_local :: "time \<Rightarrow> wall_time"
  lv_arrive :: "invJob list \<Rightarrow> invJob list"
  lv_price :: "rat \<Rightarrow> string"
  lv_now :: time

definition live_config :: "live_env \<Rightarrow> ModelRegistry \<Rightarrow> string \<Rightarrow> TrackerConfig" where
  "live_config env reg mode =
     \<lparr>c_Registry = Some reg, c_Interval = 0, c_DownAfter = 0, c_BreakerTrip = 0, c_BreakerCooldown = 0,
      c_MaxRetryAfter = 0, c_DisableGenerationProbe = True, c_ProbeTimeout = 0,
      c_ProbeFilter = Some (\<lambda>i. lookup (ModelsForMode reg mode) i \<noteq> None), c_Getenv = lv_getenv env,
      c_InventoryInterval = 0, c_InventoryTimeout = lv_timeout env, c_DisableInventory = False,
      c_LocalTime = lv_local env\<rparr>"

definition answer_of :: "live_env \<Rightarrow> invJob \<Rightarrow> string + Listing" where
  "answer_of env j = lv_list env (ij_root j) (ij_bearer j) (ij_header j)"

definition RefreshInventory :: "live_env \<Rightarrow> Tracker \<Rightarrow> Tracker" where
  "RefreshInventory env t =
     (let (jobs, t1) = refreshDue (lv_now env) t
      in fold (\<lambda>j. applyInventory (lv_now env) (ij_root j) (answer_of env j)) (lv_arrive env jobs) t1)"

definition live_tracker :: "live_env \<Rightarrow> ModelRegistry \<Rightarrow> string \<Rightarrow> Tracker" where
  "live_tracker env reg mode = RefreshInventory env (NewTracker (live_config env reg mode))"

definition price_text :: "(rat \<Rightarrow> string) \<Rightarrow> ModelDefinition \<Rightarrow> string list" where
  "price_text price m =
     (case (m_InputCostPerMillion m, m_OutputCostPerMillion m) of
        (Some a, Some b) \<Rightarrow> [''$'' @ price a @ ''/$'' @ price b @ '' per M'']
      | _ \<Rightarrow> [])"

definition adoptable :: "(rat \<Rightarrow> string) \<Rightarrow> string \<Rightarrow> string \<Rightarrow> string \<Rightarrow> ModelDefinition \<Rightarrow> Diagnostic" where
  "adoptable price base mode i m =
     (let meta = (if m_ContextLength m > 0 then [''context '' @ show_int (m_ContextLength m)] else []) @ price_text price m;
          detail = (if length meta > 0 then '' ('' @ join '', '' meta @ '')'' else [])
      in \<lparr>dg_Severity = SevInfo, dg_Code = LintDiscoveredModel, dg_Subject = i, dg_Mode = mode,
          dg_Message = ''adoptable from '' @ base @ detail @ em_dash_text
            @ ''the router serves it by this name; name it in a role, or write a models.yaml entry to pin pricing/aliases''\<rparr>)"

definition base_findings :: "live_env \<Rightarrow> string \<Rightarrow> Tracker \<Rightarrow> BaseInventoryView \<Rightarrow> Diagnostic list" where
  "base_findings env mode t b =
     (if bi_FetchedAt b = None
      then [\<lparr>dg_Severity = SevWarn, dg_Code = LintInventoryUnreachable, dg_Subject = bi_Base b, dg_Mode = mode,
             dg_Message = ''listing could not be fetched ('' @ bi_Error b @ ''); the router would keep routing its ''
               @ show_nat (length (bi_Members b)) @ '' member(s) on config alone''\<rparr>]
      else map (\<lambda>i. let ((state, source, reason), t1) = stateLocked (lv_now env) i t
                    in \<lparr>dg_Severity = SevWarn, dg_Code = LintNotListed, dg_Subject = i, dg_Mode = mode,
                        dg_Message = reason @ ''; the router would mark it absent and drop it from /v1/models''\<rparr>)
             (bi_Absent b)
         @ List.map_filter (\<lambda>i. map_option (adoptable (lv_price env) (bi_Base b) mode i) (lookup (Discovered t) i))
             (bi_Discovered b))"

definition member_findings ::
    "ModelRegistry \<Rightarrow> string \<Rightarrow> ModelDefinition gomap \<Rightarrow> string \<Rightarrow> RoleDefinition \<Rightarrow> string \<Rightarrow> Diagnostic list" where
  "member_findings reg mode disc name rd i =
     (if lookup (reg_Models reg) i \<noteq> None then []
      else case DiscoveredMember reg i of
             None \<Rightarrow> []
           | Some (src, pid) \<Rightarrow>
               (case lookup disc i of
                  None \<Rightarrow>
                    [\<lparr>dg_Severity = SevWarn, dg_Code = LintRoleMemberNotListed, dg_Subject = name, dg_Mode = mode,
                      dg_Message = ''member '' @ i @ '': '' @ s_Prefix src @ '' ('' @ s_APIBase src @ '') does not list ''
                        @ quoted pid @ '' right now; the role skips it until it does''\<rparr>]
                | Some m \<Rightarrow>
                    map (\<lambda>want.
                      \<lparr>dg_Severity = SevWarn, dg_Code = LintRoleMemberCapability, dg_Subject = name, dg_Mode = mode,
                       dg_Message = ''member '' @ i @ '' lacks required capability '' @ quoted (capability_text want)
                         @ '' (its listing does not say; set capabilities on discovery '' @ s_Prefix src @ '')''\<rparr>)
                      (filter (\<lambda>want. \<not> HasCapability m want) (rq_Capabilities (r_Require rd)))))"

definition roleMemberDiagnostics :: "ModelRegistry \<Rightarrow> string \<Rightarrow> ModelDefinition gomap \<Rightarrow> Diagnostic list" where
  "roleMemberDiagnostics reg mode disc =
     concat (map (\<lambda>(name, rd). concat (map (member_findings reg mode disc name rd) (r_Candidates rd @ r_Overflow rd)))
       (RolesForMode reg mode))"

definition LiveCheck :: "live_env \<Rightarrow> ModelRegistry option \<Rightarrow> string \<Rightarrow> Diagnostic list" where
  "LiveCheck env reg_opt mode =
     (case reg_opt of
        None \<Rightarrow> []
      | Some reg \<Rightarrow>
          let t = live_tracker env reg mode
          in sort_key (\<lambda>d. (dg_Code d, dg_Subject d))
               (concat (map (base_findings env mode t) (Inventory (lv_now env) False t))
                @ roleMemberDiagnostics reg mode (Discovered t)))"

section \<open>The command\<close>

record validateOpts =
  vo_modes :: "string list"
  vo_strict :: bool
  vo_block :: "string list"
  vo_live :: bool

record expectedSet =
  ex_Models :: "string list"
  ex_Roles :: "string list"
  ex_ModelNames :: "string list gomap"

record modeReport =
  mr_Warnings :: "Diagnostic list"
  mr_Expected :: expectedSet

record validateReport =
  vr_OK :: bool
  vr_Errors :: "string list"
  vr_models :: nat
  vr_enabled :: nat
  vr_nodes :: nat
  vr_roles :: nat
  vr_Modes :: "modeReport gomap"
  vr_Promoted :: "string list"

definition expectedFor :: "ModelRegistry \<Rightarrow> string \<Rightarrow> expectedSet" where
  "expectedFor reg mode =
     (let models = ModelsForMode reg mode
      in \<lparr>ex_Models = sort (concat (map (\<lambda>(i, m). i # m_Aliases m) models)),
          ex_Roles = sort (map fst (RolesForMode reg mode)),
          ex_ModelNames = map (\<lambda>(i, m). (i, i # m_Aliases m)) models\<rparr>)"

definition mode_warnings :: "validateOpts \<Rightarrow> live_env \<Rightarrow> ModelRegistry \<Rightarrow> bool \<Rightarrow> string \<Rightarrow> Diagnostic list" where
  "mode_warnings opt env reg bootable mode =
     Lint reg mode @ (if vo_live opt \<and> bootable then LiveCheck env (Some reg) mode else [])"

definition promotes :: "validateOpts \<Rightarrow> Diagnostic \<Rightarrow> bool" where
  "promotes opt d \<longleftrightarrow> dg_Severity d \<noteq> SevInfo \<and> (vo_strict opt \<or> dg_Code d \<in> set (vo_block opt))"

text \<open>\<open>errors\<close> prints the errors of \<open>Validate\<close>, one line each. The result is the exit code and the report; a file
  that cannot be read has none.\<close>

definition runValidate ::
    "validateOpts \<Rightarrow> live_env \<Rightarrow> (val_error \<Rightarrow> string) \<Rightarrow> string + (string + ModelRegistry) \<Rightarrow> nat \<times> validateReport option" where
  "runValidate opt env printed file =
     (case file of
        Inl err \<Rightarrow> (2, None)
      | Inr (Inl err) \<Rightarrow>
          (1, Some \<lparr>vr_OK = False, vr_Errors = [err], vr_models = 0, vr_enabled = 0, vr_nodes = 0, vr_roles = 0,
                    vr_Modes = [], vr_Promoted = []\<rparr>)
      | Inr (Inr reg) \<Rightarrow>
          let errors = filter (\<lambda>l. l \<noteq> []) (map trim_space (concat (map (\<lambda>e. split_on (CHR 0x0A) (printed e)) (Validate reg))));
              warns = mode_warnings opt env reg (errors = []);
              promoted = sort (remdups (map dg_Code (filter (promotes opt) (concat (map warns (vo_modes opt))))));
              ok = (errors = [] \<and> promoted = [])
          in (if ok then 0 else 1,
              Some \<lparr>vr_OK = ok, vr_Errors = errors, vr_models = length (reg_Models reg),
                    vr_enabled = length (filter (\<lambda>(i, m). m_Enabled m) (reg_Models reg)),
                    vr_nodes = length (reg_Nodes reg), vr_roles = length (reg_Roles reg),
                    vr_Modes = fold (\<lambda>mode. store mode \<lparr>mr_Warnings = warns mode, mr_Expected = expectedFor reg mode\<rparr>)
                                 (vo_modes opt) [],
                    vr_Promoted = promoted\<rparr>))"

definition parseModes :: "string \<Rightarrow> string list" where
  "parseModes s = map trim_space (split_on (CHR '','') s)"

definition parseBlockList :: "string \<Rightarrow> string list" where
  "parseBlockList s = filter (\<lambda>p. p \<noteq> []) (map trim_space (split_on (CHR '','') s))"

end
