(* ===== verification/Live_Props.thy ===== *)
theory Live_Props
  imports Live_Check
begin

text \<open>
  What a live pass and the command around it promise: which bases and which models a pass reports,
  whatever order the listings land in, and what an exit code of zero says about the file and the
  upstreams.
\<close>

section \<open>Who is a member of which base\<close>

text \<open>The base a model is fetched with, and the members a base table holds for a root.\<close>

definition member_root :: "TrackerConfig \<Rightarrow> ModelRegistry \<Rightarrow> string \<Rightarrow> string option" where
  "member_root cfg reg i =
     (case lookup (reg_Models reg) i of
        None \<Rightarrow> None
      | Some m \<Rightarrow>
          if \<not> InventoryEnabled m then None
          else if (case c_ProbeFilter cfg of None \<Rightarrow> False | Some f \<Rightarrow> \<not> f i) then None
          else (case APIBase reg i (Some False) of Inl e \<Rightarrow> None | Inr a \<Rightarrow> Some (rootOf a)))"

definition members_of :: "baseInventory gomap \<Rightarrow> string \<Rightarrow> string list" where
  "members_of tab r = (case lookup tab r of None \<Rightarrow> [] | Some b \<Rightarrow> b_members b)"

lemma members_store [simp]:
  "members_of (store base b tab) r = (if r = base then b_members b else members_of tab r)"
  by (simp add: members_of_def)

lemma members_base_of [simp]: "b_members (base_of base tab) = members_of tab base"
  by (simp add: base_of_def members_of_def split: option.split)

lemma members_add_member:
  "members_of (add_member cfg reg i tab) r = members_of tab r @ (if member_root cfg reg i = Some r then [i] else [])"
  by (auto simp: add_member_def member_root_def Let_def split: option.split sum.split)

lemma members_add_source: "members_of (add_source cfg p tab) r = members_of tab r"
  by (cases p) (simp add: add_source_def Let_def)

lemma members_add_served: "members_of (add_served reg i tab) r = members_of tab r"
  by (auto simp: add_served_def members_of_def split: option.split sum.split)

lemma members_fold_member:
  "members_of (fold (add_member cfg reg) ids tab) r = members_of tab r @ filter (\<lambda>i. member_root cfg reg i = Some r) ids"
  by (induction ids arbitrary: tab) (simp_all add: members_add_member)

lemma members_fold_source: "members_of (fold (add_source cfg) ps tab) r = members_of tab r"
  by (induction ps arbitrary: tab) (simp_all add: members_add_source)

lemma members_fold_served: "members_of (fold (add_served reg) ids tab) r = members_of tab r"
  by (induction ids arbitrary: tab) (simp_all add: members_add_served)

lemma member_root_model: "member_root cfg reg i = Some r \<Longrightarrow> i \<in> fst ` set (reg_Models reg)"
  by (cases "lookup (reg_Models reg) i") (auto simp: member_root_def dest!: map_of_SomeD intro: rev_image_eqI)

lemma members_base_table:
  "i \<in> set (members_of (base_table cfg reg) r) \<longleftrightarrow> member_root cfg reg i = Some r"
  using member_root_model[of cfg reg i r]
  by (auto simp: base_table_def Let_def members_fold_member members_fold_source members_fold_served members_of_def[of "[]"])

text \<open>A new table: its roots are distinct, and no base has been asked or has answered.\<close>

definition unasked :: "baseInventory gomap \<Rightarrow> bool" where
  "unasked tab \<longleftrightarrow> wf_map tab \<and> (\<forall>r b. lookup tab r = Some b \<longrightarrow> \<not> b_inflight b \<and> b_listing b = None)"

lemma unasked_store: "unasked tab \<Longrightarrow> \<not> b_inflight b \<and> b_listing b = None \<Longrightarrow> unasked (store base b tab)"
  by (simp add: unasked_def)

lemma unasked_base_of: "unasked tab \<Longrightarrow> \<not> b_inflight (base_of base tab) \<and> b_listing (base_of base tab) = None"
  by (simp add: unasked_def base_of_def split: option.split)

lemma unasked_lookup: "unasked tab \<Longrightarrow> lookup tab r = Some b \<Longrightarrow> \<not> b_inflight b \<and> b_listing b = None"
  by (simp add: unasked_def)

lemma unasked_member: "unasked tab \<Longrightarrow> unasked (add_member cfg reg i tab)"
  by (simp add: add_member_def Let_def unasked_base_of unasked_store split: option.split sum.split)

lemma unasked_source: "unasked tab \<Longrightarrow> unasked (add_source cfg p tab)"
  by (cases p) (simp add: add_source_def Let_def unasked_base_of unasked_store)

lemma unasked_served: "unasked tab \<Longrightarrow> unasked (add_served reg i tab)"
  by (simp add: add_served_def unasked_store unasked_lookup split: option.split sum.split)

lemma base_table_unasked: "unasked (base_table cfg reg)"
proof -
  have "unasked []" by (simp add: unasked_def)
  then have "unasked (fold (add_member cfg reg) ids [])" for ids by (rule fold_keeps) (rule unasked_member)
  then have "unasked (fold (add_source cfg) ps (fold (add_member cfg reg) ids []))" for ids ps
    by (rule fold_keeps) (rule unasked_source)
  then show ?thesis unfolding base_table_def Let_def by (rule fold_keeps) (rule unasked_served)
qed

section \<open>Landing the listings of one pass\<close>

text \<open>A landing changes neither the table's members nor, of the verdicts, any but its own members'.\<close>

definition fetched :: "Tracker \<Rightarrow> string \<Rightarrow> bool" where
  "fetched t r \<longleftrightarrow> (\<exists>b. lookup (t_inv t) r = Some b \<and> b_listing b \<noteq> None \<and> b_fetchedAt b \<noteq> None)"

definition has_base :: "Tracker \<Rightarrow> string \<Rightarrow> bool" where
  "has_base t r \<longleftrightarrow> lookup (t_inv t) r \<noteq> None"

lemma landing_keeps:
  "t_cfg (applyInventory now base res t) = t_cfg t"
  "members_of (t_inv (applyInventory now base res t)) r = members_of (t_inv t) r"
  "has_base (applyInventory now base res t) r = has_base t r"
  by (simp add: applyInventory_def Let_def split: option.split sum.split)
     (auto simp: applyInventory_def Let_def has_base_def members_of_def
       split: option.split sum.split)

lemma landing_absent:
  assumes "c_Registry (t_cfg t) = Some reg"
  shows "is_absent (applyInventory now base res t) i =
     (case res of
        Inl e \<Rightarrow> is_absent t i
      | Inr l \<Rightarrow> if i \<in> set (members_of (t_inv t) base) then lookup l (member_name reg i) = None else is_absent t i)"
proof (cases "lookup (t_inv t) base")
  case None
  then show ?thesis by (simp add: applyInventory_def members_of_def split: sum.split)
next
  case (Some b)
  then show ?thesis
    using applyInventory_success(1)[OF Some assms, of now] is_absent_mark_all[of now reg base _ "b_members b"]
    by (cases res) (simp_all add: is_absent_def applyInventory_def Let_def members_of_def)
qed

lemma landing_fetched:
  "fetched (applyInventory now base res t) r = (fetched t r \<or> (r = base \<and> has_base t r \<and> \<not> isl res))"
proof (cases "lookup (t_inv t) base")
  case None
  then show ?thesis by (auto simp: applyInventory_def has_base_def)
next
  case (Some b)
  then show ?thesis
    by (cases res) (simp_all add: fetched_def has_base_def applyInventory_def Let_def split: option.split)
qed

definition pass :: "live_env \<Rightarrow> invJob list \<Rightarrow> Tracker \<Rightarrow> Tracker" where
  "pass env = fold (\<lambda>j. applyInventory (lv_now env) (ij_root j) (answer_of env j))"

lemma pass_simps [simp]:
  "pass env [] t = t"
  "pass env (j # js) t = pass env js (applyInventory (lv_now env) (ij_root j) (answer_of env j) t)"
  "pass env (xs @ ys) t = pass env ys (pass env xs t)"
  by (simp_all add: pass_def)

lemma pass_keeps:
  "t_cfg (pass env js t) = t_cfg t"
  "members_of (t_inv (pass env js t)) r = members_of (t_inv t) r"
  "has_base (pass env js t) r = has_base t r"
  by (induction js arbitrary: t) (simp_all add: landing_keeps)

lemma pass_elsewhere_fetched:
  "\<forall>j \<in> set js. ij_root j \<noteq> r \<Longrightarrow> fetched (pass env js t) r = fetched t r"
  by (induction js arbitrary: t) (auto simp: landing_fetched)

lemma pass_elsewhere_absent:
  assumes "c_Registry (t_cfg t) = Some reg" and "\<forall>j \<in> set js. i \<notin> set (members_of (t_inv t) (ij_root j))"
  shows "is_absent (pass env js t) i = is_absent t i"
  using assms by (induction js arbitrary: t) (simp_all add: landing_absent landing_keeps split: sum.split)

text \<open>With one fetch per base the order of the landings is immaterial: a base was fetched exactly when
  its own answer is a listing, and a member is absent exactly when that listing lacks its name.\<close>

lemma pass_one_base:
  assumes reg: "c_Registry (t_cfg t) = Some reg" and j: "j \<in> set js" and roots: "distinct (map ij_root js)"
    and base: "has_base t (ij_root j)" and fresh: "\<not> fetched t (ij_root j)"
  shows "fetched (pass env js t) (ij_root j) = (\<not> isl (answer_of env j))"
    and "(\<And>r'. i \<in> set (members_of (t_inv t) r') \<longleftrightarrow> r' = ij_root j) \<Longrightarrow> \<not> is_absent t i \<Longrightarrow>
      is_absent (pass env js t) i \<longleftrightarrow>
        (\<exists>l. answer_of env j = Inr l \<and> lookup l (member_name reg i) = None)"
proof -
  obtain xs ys where js: "js = xs @ j # ys" using j by (auto dest: split_list)
  have out: "\<forall>k \<in> set xs. ij_root k \<noteq> ij_root j" "\<forall>k \<in> set ys. ij_root k \<noteq> ij_root j"
    using roots by (simp_all add: js) (metis image_eqI)+
  let ?t = "pass env xs t"
  have reg': "c_Registry (t_cfg ?t) = Some reg" by (simp add: pass_keeps reg)
  have reg'': "c_Registry (t_cfg (applyInventory now b res ?t)) = Some reg" for now b res
    by (simp add: landing_keeps reg')
  show "fetched (pass env js t) (ij_root j) = (\<not> isl (answer_of env j))"
    using fresh base by (simp add: js pass_elsewhere_fetched[OF out(1)] pass_elsewhere_fetched[OF out(2)] landing_fetched pass_keeps)
  show "is_absent (pass env js t) i \<longleftrightarrow> (\<exists>l. answer_of env j = Inr l \<and> lookup l (member_name reg i) = None)"
    if mine: "\<And>r'. i \<in> set (members_of (t_inv t) r') \<longleftrightarrow> r' = ij_root j" and none: "\<not> is_absent t i"
  proof -
    let ?t' = "applyInventory (lv_now env) (ij_root j) (answer_of env j) ?t"
    have before: "is_absent ?t i = is_absent t i" using pass_elsewhere_absent[OF reg] out(1) mine by blast
    have "is_absent (pass env ys ?t') i = is_absent ?t' i"
      using out(2) mine by (intro pass_elsewhere_absent[OF reg'']) (simp add: landing_keeps pass_keeps)
    then show ?thesis using before none mine by (simp add: js landing_absent[OF reg'] pass_keeps split: sum.split)
  qed
qed


section \<open>A whole pass\<close>

lemma pass_wf: "wf_map (t_inv t) \<Longrightarrow> wf_map (t_inv (pass env js t))"
proof (induction js arbitrary: t)
  case (Cons j js)
  have "wf_map (t_inv (applyInventory (lv_now env) (ij_root j) (answer_of env j) t))"
    using Cons.prems by (simp add: applyInventory_def Let_def split: option.split sum.split)
  then show ?case using Cons.IH by simp
qed simp

definition job_of :: "string \<times> baseInventory \<Rightarrow> invJob" where
  "job_of p = \<lparr>ij_root = fst p, ij_bearer = b_bearer (snd p), ij_header = b_header (snd p)\<rparr>"

text \<open>The inventory settings of a live pass, and the base table they give.\<close>

definition live_settings :: "live_env \<Rightarrow> ModelRegistry \<Rightarrow> string \<Rightarrow> TrackerConfig" where
  "live_settings env reg mode = fill_config (live_config env reg mode)"

definition live_bases :: "live_env \<Rightarrow> ModelRegistry \<Rightarrow> string \<Rightarrow> baseInventory gomap" where
  "live_bases env reg mode = base_table (live_settings env reg mode) reg"

lemma live_settings_simps [simp]:
  "c_Registry (live_settings env reg mode) = Some reg" "\<not> c_DisableInventory (live_settings env reg mode)"
  by (simp_all add: live_settings_def live_config_def fill_config_def)

lemma new_live_tracker:
  "t_inv (NewTracker (live_config env reg mode)) = live_bases env reg mode"
  "t_cfg (NewTracker (live_config env reg mode)) = live_settings env reg mode"
  "t_models (NewTracker (live_config env reg mode)) = []"
  by (simp_all add: NewTracker_def buildInventory_def Let_def live_bases_def live_settings_def[symmetric])

lemma live_bases_wf: "wf_map (live_bases env reg mode)"
  and live_bases_new: "lookup (live_bases env reg mode) r = Some b \<Longrightarrow> \<not> b_inflight b \<and> b_listing b = None"
  using base_table_unasked[of "live_settings env reg mode" reg] by (simp_all add: live_bases_def unasked_def)

definition started :: "time \<Rightarrow> baseInventory \<Rightarrow> baseInventory" where
  "started now b = b\<lparr>b_inflight := True, b_attemptedAt := Some now\<rparr>"

lemma refresh_all_due:
  assumes "\<not> c_DisableInventory (t_cfg t)" and "\<forall>(r, b) \<in> set (t_inv t). \<not> b_inflight b"
  shows "fst (refreshDue now t) = sort_key ij_root (map job_of (t_inv t))"
    and "snd (refreshDue now t) = t\<lparr>t_inv := map (\<lambda>(r, b). (r, started now b)) (t_inv t)\<rparr>"
proof -
  have eq: "map (\<lambda>(r, b). (r, if \<not> b_inflight b then b\<lparr>b_attemptedAt := None\<rparr> else b)) (t_inv t)
      = map (\<lambda>(r, b). (r, b\<lparr>b_attemptedAt := None\<rparr>)) (t_inv t)"
    using assms(2) by (intro map_cong) auto
  have due: "filter (\<lambda>(r, b). inv_due (t_cfg t) now b) (map (\<lambda>(r, b). (r, b\<lparr>b_attemptedAt := None\<rparr>)) (t_inv t))
      = map (\<lambda>(r, b). (r, b\<lparr>b_attemptedAt := None\<rparr>)) (t_inv t)"
    using assms(2) by (intro filter_True) (auto simp: inv_due_def)
  have begun: "map (\<lambda>(r, b). (r, if inv_due (t_cfg t) now b then b\<lparr>b_inflight := True, b_attemptedAt := Some now\<rparr> else b))
        (map (\<lambda>(r, b). (r, b\<lparr>b_attemptedAt := None\<rparr>)) (t_inv t))
      = map (\<lambda>(r, b). (r, started now b)) (t_inv t)"
    using assms(2) by (auto simp: inv_due_def started_def)
  show "fst (refreshDue now t) = sort_key ij_root (map job_of (t_inv t))"
    using assms(1) by (simp add: refreshDue_def dueInventory_def eq due comp_def job_of_def[abs_def] case_prod_beta)
  show "snd (refreshDue now t) = t\<lparr>t_inv := map (\<lambda>(r, b). (r, started now b)) (t_inv t)\<rparr>"
    using assms(1) by (simp add: refreshDue_def dueInventory_def eq begun del: map_map)
qed

text \<open>The tracker a live pass leaves: every base answered by its own fetch, every member judged by the
  answer of its own base.\<close>

lemma live_tracker_pass:
  assumes arrive: "\<And>js. mset (lv_arrive env js) = mset js"
  obtains js t where "live_tracker env reg mode = pass env js t"
    and "t_inv t = map (\<lambda>(r, b). (r, started (lv_now env) b)) (live_bases env reg mode)"
    and "t_cfg t = live_settings env reg mode" and "t_models t = []"
    and "distinct (map ij_root js)" and "set js = job_of ` set (live_bases env reg mode)"
proof
  let ?t = "NewTracker (live_config env reg mode)" and ?tab = "live_bases env reg mode"
  let ?js = "lv_arrive env (sort_key ij_root (map job_of ?tab))"
  have new: "\<forall>(r, b) \<in> set (t_inv ?t). \<not> b_inflight b"
    using live_bases_wf live_bases_new by (fastforce simp: new_live_tracker map_of_eq_Some_iff)
  note due = refresh_all_due[OF _ new, of "lv_now env", simplified new_live_tracker, simplified]
  show "live_tracker env reg mode = pass env ?js (snd (refreshDue (lv_now env) ?t))"
    using due(1) by (simp add: live_tracker_def RefreshInventory_def pass_def case_prod_beta Let_def)
  show "t_inv (snd (refreshDue (lv_now env) ?t)) = map (\<lambda>(r, b). (r, started (lv_now env) b)) ?tab"
    and "t_cfg (snd (refreshDue (lv_now env) ?t)) = live_settings env reg mode"
    and "t_models (snd (refreshDue (lv_now env) ?t)) = []"
    using due(2) by (simp_all add: new_live_tracker)
  have m: "mset ?js = mset (map job_of ?tab)" using arrive by simp
  then show "set ?js = job_of ` set ?tab" by (metis list.set_map mset_eq_setD)
  have "mset (map ij_root ?js) = mset (map fst ?tab)"
    using m by (simp add: mset_map comp_def job_of_def[abs_def] multiset.map_comp)
  then show "distinct (map ij_root ?js)" using live_bases_wf by (metis mset_eq_imp_distinct_iff)
qed

definition base_answer :: "live_env \<Rightarrow> string \<Rightarrow> baseInventory \<Rightarrow> string + Listing" where
  "base_answer env r b = lv_list env r (b_bearer b) (b_header b)"

lemma live_pass_exact:
  fixes env :: live_env and reg :: ModelRegistry and mode :: string
  assumes arrive: "\<And>js. mset (lv_arrive env js) = mset js"
  defines "t \<equiv> live_tracker env reg mode"
  shows "wf_map (t_inv t)"
    and "members_of (t_inv t) r = members_of (live_bases env reg mode) r"
    and "has_base t r \<longleftrightarrow> lookup (live_bases env reg mode) r \<noteq> None"
    and "lookup (live_bases env reg mode) r = Some b \<Longrightarrow> fetched t r = (\<not> isl (base_answer env r b))"
    and "lookup (live_bases env reg mode) r = Some b \<Longrightarrow> i \<in> set (b_members b) \<Longrightarrow>
      is_absent t i \<longleftrightarrow> (\<exists>l. base_answer env r b = Inr l \<and> lookup l (member_name reg i) = None)"
proof -
  let ?tab = "live_bases env reg mode"
  obtain js t0 where run: "t = pass env js t0"
    and inv: "t_inv t0 = map (\<lambda>(r, b). (r, started (lv_now env) b)) ?tab"
    and cfg: "t_cfg t0 = live_settings env reg mode" and none: "t_models t0 = []"
    and roots: "distinct (map ij_root js)" and jobs: "set js = job_of ` set ?tab"
    using live_tracker_pass[OF arrive] unfolding t_def by blast
  have look: "lookup (t_inv t0) r = map_option (started (lv_now env)) (lookup ?tab r)" for r
    by (simp add: inv lookup_map_values)
  have members: "members_of (t_inv t0) r = members_of ?tab r" for r
    by (simp add: members_of_def look started_def split: option.split)
  have owner: "i \<in> set (members_of (t_inv t0) r) \<longleftrightarrow> member_root (live_settings env reg mode) reg i = Some r" for i r
    by (simp add: members live_bases_def members_base_table)
  have reg: "c_Registry (t_cfg t0) = Some reg" by (simp add: cfg)
  show "wf_map (t_inv t)"
    unfolding run using live_bases_wf by (intro pass_wf) (simp add: inv comp_def case_prod_beta)
  show "members_of (t_inv t) r = members_of ?tab r" by (simp add: run pass_keeps members)
  show "has_base t r \<longleftrightarrow> lookup ?tab r \<noteq> None" 
    using pass_keeps(3)[of env js t0 r] by (simp add: run has_base_def look)
  have one: "fetched t r = (\<not> isl (base_answer env r b))
      \<and> (i \<in> set (b_members b) \<longrightarrow> is_absent t i = (\<exists>l. base_answer env r b = Inr l \<and> lookup l (member_name reg i) = None))"
    if b: "lookup ?tab r = Some b" for i
  proof -
    let ?j = "job_of (r, b)"
    have j: "?j \<in> set js" using map_of_SomeD[OF b] by (auto simp: jobs)
    have root: "ij_root ?j = r" "answer_of env ?j = base_answer env r b"
      by (simp_all add: job_of_def answer_of_def base_answer_def)
    have base: "has_base t0 (ij_root ?j)" "\<not> fetched t0 (ij_root ?j)"
      using live_bases_new[OF b] b by (simp_all add: has_base_def fetched_def look root started_def)
    have mine: "i \<in> set (members_of (t_inv t0) r') \<longleftrightarrow> r' = ij_root ?j" if "i \<in> set (b_members b)" for r'

    proof -
      have "members_of ?tab r = b_members b" using b by (simp add: members_of_def)
      then have "member_root (live_settings env reg mode) reg i = Some r" using that owner[of i r] members[of r] by simp
      then show ?thesis by (auto simp: owner root)
    qed
    show ?thesis
      using pass_one_base(1)[OF reg j roots base] pass_one_base(2)[OF reg j roots base mine] none
      by (simp add: run root is_absent_def)
  qed
  from one show "fetched t r = (\<not> isl (base_answer env r b))" if "lookup ?tab r = Some b" using that by blast
  from one show "is_absent t i \<longleftrightarrow> (\<exists>l. base_answer env r b = Inr l \<and> lookup l (member_name reg i) = None)"
    if "lookup ?tab r = Some b" and "i \<in> set (b_members b)" using that by blast
qed

text \<open>The views of the pass.\<close>

lemma views_of_bases:
  assumes "wf_map (t_inv t)"
  shows "(\<exists>v \<in> set (Inventory now w t). P (bi_Base v) (bi_FetchedAt v) (bi_Absent v)) \<longleftrightarrow>
     (\<exists>r b. lookup (t_inv t) r = Some b
        \<and> P r (case b_listing b of None \<Rightarrow> None | Some l \<Rightarrow> b_fetchedAt b) (filter (is_absent t) (b_members b)))"
  by (simp add: Inventory_def map_of_eq_Some_iff[OF assms] case_prod_beta Bex_def split_paired_Ex cong: option.case_cong)

lemma answered_None: "(case l of None \<Rightarrow> None | Some x \<Rightarrow> f) = None \<longleftrightarrow> l = None \<or> f = None"
  by (cases l) simp_all

lemma role_finding_codes:
  "d \<in> set (roleMemberDiagnostics reg mode disc) \<Longrightarrow> dg_Code d \<in> {LintRoleMemberNotListed, LintRoleMemberCapability}"
  by (auto simp: roleMemberDiagnostics_def member_findings_def split: option.splits if_splits)

lemmas live_codes = LintInventoryUnreachable_def LintNotListed_def LintDiscoveredModel_def LintRoleMemberNotListed_def
  LintRoleMemberCapability_def

lemma base_finding_not_listed:
  "d \<in> set (base_findings env mode t b) \<Longrightarrow> dg_Code d = LintNotListed \<Longrightarrow>
     bi_FetchedAt b \<noteq> None \<and> dg_Subject d \<in> set (bi_Absent b)"
  by (auto simp: base_findings_def adoptable_def Let_def live_codes List.map_filter_def split: if_splits prod.splits)

lemma base_finding_unreachable:
  "d \<in> set (base_findings env mode t b) \<Longrightarrow> dg_Code d = LintInventoryUnreachable \<Longrightarrow>
     bi_FetchedAt b = None \<and> dg_Subject d = bi_Base b"
  by (auto simp: base_findings_def adoptable_def Let_def live_codes List.map_filter_def split: if_splits prod.splits)

lemma flagged_base_unreachable:
  "flagged (base_findings env mode t b) LintInventoryUnreachable r \<longleftrightarrow> bi_FetchedAt b = None \<and> bi_Base b = r"
proof
  assume "flagged (base_findings env mode t b) LintInventoryUnreachable r"
  then show "bi_FetchedAt b = None \<and> bi_Base b = r"
    using base_finding_unreachable[of _ env mode t b] by (auto simp: flagged_def)
qed (simp add: flagged_def base_findings_def)

lemma flagged_base_not_listed:
  "flagged (base_findings env mode t b) LintNotListed i \<longleftrightarrow> bi_FetchedAt b \<noteq> None \<and> i \<in> set (bi_Absent b)"
proof
  assume "flagged (base_findings env mode t b) LintNotListed i"
  then show "bi_FetchedAt b \<noteq> None \<and> i \<in> set (bi_Absent b)"
    using base_finding_not_listed[of _ env mode t b] by (auto simp: flagged_def)
next
  assume "bi_FetchedAt b \<noteq> None \<and> i \<in> set (bi_Absent b)"
  then obtain y where "bi_FetchedAt b = Some y" and "i \<in> set (bi_Absent b)" by auto
  then show "flagged (base_findings env mode t b) LintNotListed i"
    by (simp add: flagged_def base_findings_def Let_def case_prod_beta bex_Un)
qed

lemma unreachable_code: "LintInventoryUnreachable \<notin> {LintRoleMemberNotListed, LintRoleMemberCapability}"
  and not_listed_code: "LintNotListed \<notin> {LintRoleMemberNotListed, LintRoleMemberCapability}"
  by (simp_all add: live_codes)

lemma flagged_LiveCheck:
  assumes "code \<notin> {LintRoleMemberNotListed, LintRoleMemberCapability}"
  shows "flagged (LiveCheck env (Some reg) mode) code s \<longleftrightarrow>
     (\<exists>b \<in> set (Inventory (lv_now env) False (live_tracker env reg mode)).
        flagged (base_findings env mode (live_tracker env reg mode) b) code s)"
  using assms role_finding_codes[of _ reg mode "Discovered (live_tracker env reg mode)"]
  by (auto simp: LiveCheck_def Let_def flagged_def)

text \<open>\<^verbatim>\<open>router --validate-live\<close> tells the truth about the upstreams, whatever order the listings land in. A base
  is reported unreachable exactly when its fetch failed. A model is reported as not listed exactly when
  it belongs to a base that answered with a listing that lacks the name the base knows it by. So an
  upstream that is down never has its models reported as gone.\<close>

theorem live_check_exact:
  assumes "\<And>js. mset (lv_arrive env js) = mset js"
  shows "(flagged (LiveCheck env (Some reg) mode) LintInventoryUnreachable r \<longleftrightarrow>
        (\<exists>b e. lookup (live_bases env reg mode) r = Some b \<and> base_answer env r b = Inl e))
    \<and> (flagged (LiveCheck env (Some reg) mode) LintNotListed i \<longleftrightarrow>
        (\<exists>r b l. lookup (live_bases env reg mode) r = Some b \<and> i \<in> set (b_members b)
           \<and> base_answer env r b = Inr l \<and> lookup l (member_name reg i) = None))"
proof
  let ?t = "live_tracker env reg mode"
  note exact = live_pass_exact[OF assms, of reg mode]
  note views = views_of_bases[OF exact(1), where now = "lv_now env" and w = False]
  have "flagged (LiveCheck env (Some reg) mode) LintInventoryUnreachable r \<longleftrightarrow> has_base ?t r \<and> \<not> fetched ?t r"
    unfolding flagged_LiveCheck[OF unreachable_code] flagged_base_unreachable views[of "\<lambda>s f a. f = None \<and> s = r"]
    by (auto simp: has_base_def fetched_def answered_None)
  then show "flagged (LiveCheck env (Some reg) mode) LintInventoryUnreachable r \<longleftrightarrow>
        (\<exists>b e. lookup (live_bases env reg mode) r = Some b \<and> base_answer env r b = Inl e)"
    using exact(3,4)[of r] by (auto simp: isl_def)
  have "flagged (LiveCheck env (Some reg) mode) LintNotListed i \<longleftrightarrow>
      (\<exists>r. fetched ?t r \<and> i \<in> set (members_of (t_inv ?t) r) \<and> is_absent ?t i)"
    unfolding flagged_LiveCheck[OF not_listed_code] flagged_base_not_listed views[of "\<lambda>s f a. f \<noteq> None \<and> i \<in> set a"]
    by (intro ex_cong1) (auto simp: members_of_def fetched_def answered_None split: option.splits)
  also have "\<dots> \<longleftrightarrow> (\<exists>r b l. lookup (live_bases env reg mode) r = Some b \<and> i \<in> set (b_members b)
           \<and> base_answer env r b = Inr l \<and> lookup l (member_name reg i) = None)"
  proof -
    have "fetched ?t r \<and> i \<in> set (members_of (t_inv ?t) r) \<and> is_absent ?t i \<longleftrightarrow>
      (\<exists>b l. lookup (live_bases env reg mode) r = Some b \<and> i \<in> set (b_members b)
           \<and> base_answer env r b = Inr l \<and> lookup l (member_name reg i) = None)" for r
      using exact(2)[of r] exact(4,5)[of r]
      by (cases "lookup (live_bases env reg mode) r") (auto simp: members_of_def)
    then show ?thesis by simp
  qed
  finally show "flagged (LiveCheck env (Some reg) mode) LintNotListed i \<longleftrightarrow>
        (\<exists>r b l. lookup (live_bases env reg mode) r = Some b \<and> i \<in> set (b_members b)
           \<and> base_answer env r b = Inr l \<and> lookup l (member_name reg i) = None)" .
qed

lemma live_check_severity:
  "d \<in> set (LiveCheck env (Some reg) mode) \<Longrightarrow> dg_Code d \<in> {LintInventoryUnreachable, LintNotListed} \<Longrightarrow>
     dg_Severity d = SevWarn"
  using role_finding_codes[of d reg mode "Discovered (live_tracker env reg mode)"]
  by (auto simp: LiveCheck_def Let_def base_findings_def adoptable_def List.map_filter_def live_codes
      split: if_splits prod.splits)

section \<open>What an exit code of zero says\<close>

definition visible :: "(val_error \<Rightarrow> string) \<Rightarrow> bool" where
  "visible printed \<longleftrightarrow> (\<forall>e. \<exists>l \<in> set (split_on (CHR 0x0A) (printed e)). trim_space l \<noteq> [])"

lemma no_error_lines:
  "visible printed \<Longrightarrow>
     filter (\<lambda>l. l \<noteq> []) (map trim_space (concat (map (\<lambda>e. split_on (CHR 0x0A) (printed e)) es))) = [] \<longleftrightarrow> es = []"
  by (cases es) (fastforce simp: visible_def filter_empty_conv)+

lemma sorted_nothing: "sort_key f xs = [] \<longleftrightarrow> xs = []"
  by (metis length_0_conv length_sort)

lemma validate_exit_iff:
  assumes "visible printed"
  shows "fst (runValidate opt env printed file) = 0 \<longleftrightarrow>
     (\<exists>reg. file = Inr (Inr reg) \<and> Validate reg = []
        \<and> (\<forall>mode \<in> set (vo_modes opt). \<forall>d \<in> set (mode_warnings opt env reg True mode). \<not> promotes opt d))"
proof -
  have "fst (runValidate opt env printed (Inr (Inr reg))) = 0 \<longleftrightarrow> Validate reg = []
      \<and> (\<forall>mode \<in> set (vo_modes opt). \<forall>d \<in> set (mode_warnings opt env reg True mode). \<not> promotes opt d)" for reg
    using no_error_lines[OF assms, of "Validate reg"]
    by (auto simp: runValidate_def Let_def sorted_nothing filter_empty_conv)
  moreover have "fst (runValidate opt env printed (Inl e)) \<noteq> 0" and "fst (runValidate opt env printed (Inr (Inl e))) \<noteq> 0" for e
    by (simp_all add: runValidate_def)
  ultimately show ?thesis by (metis sum.exhaust)
qed


definition live_zen :: live_env where
  "live_zen = \<lparr>lv_getenv = (\<lambda>k. []), lv_list = (\<lambda>root bearer header. if root = zen_root then Inr [(''glm'', listed_k2\<lparr>lm_ID := ''glm''\<rparr>)] else Inl ''refused''),
               lv_timeout = 5, lv_local = (\<lambda>now. \<lparr>t_Weekday = 0, t_Hour = 0, t_Minute = 0\<rparr>), lv_arrive = rev,
               lv_price = (\<lambda>p. ''0''), lv_now = 1\<rparr>"

definition gated_live :: validateOpts where
  "gated_live = \<lparr>vo_modes = [''default''], vo_strict = False,
                 vo_block = [''inventory-unreachable'', ''not-listed''], vo_live = True\<rparr>"

definition printed_plain :: "val_error \<Rightarrow> string" where "printed_plain e = ''error''"

lemma gated_live_passes: "fst (runValidate gated_live live_zen printed_plain (Inr (Inr reg_disc))) = 0"
proof -
  have "visible printed_plain" by (simp add: visible_def printed_plain_def) code_simp
  moreover have "Validate reg_disc = []" by code_simp
  moreover have "LiveCheck live_zen (Some reg_disc) ''default'' = []" by code_simp
  moreover have "list_all (\<lambda>d. \<not> promotes gated_live d) (Lint reg_disc ''default'')" by code_simp
  ultimately show ?thesis
    by (simp add: validate_exit_iff gated_live_def mode_warnings_def list_all_iff)
qed


end
