(* ===== verification/Gpu_Readers.thy ===== *)
theory Gpu_Readers
  imports Tracker "HOL-Library.Signed_Division"
begin

text \<open>
  What a node agent reads of its machine (\<^verbatim>\<open>internal/nodeagent/gpu\<close>, \<^verbatim>\<open>mem.go\<close>, \<^verbatim>\<open>disk.go\<close>): one reader
  per GPU vendor, the cache in front of them, the memory and the disk.

  \<^item> The readers' view of the machine is a record: a command run (\<^const>\<open>None\<close> when it failed), a file read,
    a glob (empty on an error), the clock and the fallback size. \<open>ge_snapshot\<close> decodes the exporter's JSON
    document and \<open>ge_float\<close> is \<open>strconv.ParseFloat\<close> on finite values.
  \<^item> A \<open>float64\<close> is the rational it stands for. The byte counts of the AMD driver are 64-bit words.
  \<^item> The cache is a state and the two places a probe's result lands; any interleaving of readers and
    landings is a run of the step relation.
\<close>

section \<open>Numbers\<close>

text \<open>\<open>int(x)\<close> of a float drops the fraction; \<open>roundGB\<close> of \<^verbatim>\<open>disk.go\<close>.\<close>

definition go_int :: "rat \<Rightarrow> int" where "go_int x = (if x \<ge> 0 then \<lfloor>x\<rfloor> else \<lceil>x\<rceil>)"

definition roundGB :: "rat \<Rightarrow> rat" where "roundGB v = of_int (go_int (v * 10 + 1 / 2)) / 10"

definition mbToGB :: "int \<Rightarrow> rat" where "mbToGB mb = of_int mb / 1024"

text \<open>\<open>strconv.ParseUint(s, 10, 64)\<close>.\<close>

definition ParseUint :: "string \<Rightarrow> 64 word option" where
  "ParseUint s = (if s = [] \<or> \<not> list_all is_digit s \<or> digits_value 0 s \<ge> 2 ^ 64 then None
                  else Some (word_of_nat (digits_value 0 s)))"

text \<open>\<open>v, _ := strconv.Atoi(f)\<close>: 0 when it is not a number, the nearest bound when it does not fit.\<close>

definition atoi_or_bound :: "string \<Rightarrow> int" where
  "atoi_or_bound f = (case atoi f of None \<Rightarrow> 0 | Some n \<Rightarrow> max (- (2 ^ 63)) (min (2 ^ 63 - 1) n))"

definition scanKB :: "string \<Rightarrow> int" where
  "scanKB line = (case Schedule.fields line of _ # f # _ \<Rightarrow> atoi_or_bound f | _ \<Rightarrow> 0)"

text \<open>\<open>filepath.Dir\<close> of a path with a slash in it.\<close>

definition parent_of :: "string \<Rightarrow> string" where
  "parent_of p = rev (drop 1 (dropWhile (\<lambda>c. c \<noteq> CHR ''/'') (rev p)))"

definition first_line :: "string \<Rightarrow> string" where
  "first_line out = trim_space (before_char (CHR 0x0A) out)"

section \<open>Readings\<close>

record Device =
  gd_Index :: nat
  gd_PDev :: string
  gd_UsedVRAMGB :: rat
  gd_TotalVRAMGB :: rat
  gd_BusyPct :: "int option"
  gd_TempC :: "int option"
  gd_PowerW :: "rat option"

record Info =
  gi_GpuType :: string
  gi_TotalVRAMGB :: rat
  gi_FreeVRAMGB :: rat
  gi_Unified :: bool
  gi_GPUBusyPct :: "int option"
  gi_TempC :: "int option"
  gi_PowerW :: "rat option"
  gi_Devices :: "Device list"

definition no_info :: "string \<Rightarrow> Info" where
  "no_info vendor = \<lparr>gi_GpuType = vendor, gi_TotalVRAMGB = 0, gi_FreeVRAMGB = 0, gi_Unified = False, gi_GPUBusyPct = None,
                     gi_TempC = None, gi_PowerW = None, gi_Devices = []\<rparr>"

record exporter_gpu =
  eg_PDev :: string
  eg_UsedKiB :: int
  eg_BusyPct :: "int option"

record exporterSnapshot =
  es_TS :: int
  es_GPUs :: "exporter_gpu list"

record ReaderOptions =
  ge_exec :: "string \<Rightarrow> string list \<Rightarrow> string option"
  ge_file :: "string \<Rightarrow> string option"
  ge_glob :: "string \<Rightarrow> string list"
  ge_float :: "string \<Rightarrow> rat option"
  ge_snapshot :: "string \<Rightarrow> exporterSnapshot option"
  ge_now :: time
  ge_FallbackTotalVRAMGB :: int

text \<open>A reading is the information and the error that came with it.\<close>

type_synonym reading = "Info \<times> string option"

section \<open>NVIDIA\<close>

definition meminfo_value :: "string \<Rightarrow> string \<Rightarrow> int option" where
  "meminfo_value key data =
     fold (\<lambda>line acc. if has_prefix line key then Some (scanKB line) else acc) (split_on (CHR 0x0A) data) None"

definition nvidia_readMeminfo :: "ReaderOptions \<Rightarrow> string + int \<times> int \<times> bool" where
  "nvidia_readMeminfo env =
     (case ge_file env ''/proc/meminfo'' of
        None \<Rightarrow> Inl ''gpu/nvidia: read /proc/meminfo''
      | Some data \<Rightarrow>
          let totalKB = (case meminfo_value ''MemTotal:'' data of None \<Rightarrow> 0 | Some n \<Rightarrow> n);
              availKB = (case meminfo_value ''MemAvailable:'' data of None \<Rightarrow> 0 | Some n \<Rightarrow> n)
          in if totalKB = 0 then Inl ''gpu/nvidia: /proc/meminfo missing MemTotal''
             else Inr (availKB sdiv 1024, totalKB sdiv 1024, True))"

definition smi_memory :: "string \<Rightarrow> (int \<times> int) option" where
  "smi_memory out =
     (let line = first_line out
      in if contains_str line ''[N/A]'' then None
         else case split_on (CHR '','') line of
                [f, t] \<Rightarrow>
                  (case (Atoi (trim_space f), Atoi (trim_space t)) of
                     (Some freeMB, Some totalMB) \<Rightarrow> if totalMB > 0 then Some (freeMB, totalMB) else None
                   | _ \<Rightarrow> None)
              | _ \<Rightarrow> None)"

definition nvidia_readMemory :: "ReaderOptions \<Rightarrow> string + int \<times> int \<times> bool" where
  "nvidia_readMemory env =
     (case Option.bind (ge_exec env ''nvidia-smi'' [''--query-gpu=memory.free,memory.total'', ''--format=csv,noheader,nounits''])
             smi_memory of
        Some (freeMB, totalMB) \<Rightarrow> Inr (freeMB, totalMB, False)
      | None \<Rightarrow> nvidia_readMeminfo env)"

definition nvidia_readUtilisation :: "ReaderOptions \<Rightarrow> int option" where
  "nvidia_readUtilisation env =
     (case ge_exec env ''nvidia-smi'' [''--query-gpu=utilization.gpu'', ''--format=csv,noheader,nounits''] of
        None \<Rightarrow> None
      | Some out \<Rightarrow> let line = first_line out in if line = ''[N/A]'' then None else Atoi line)"

text \<open>One line per card: the hottest temperature and the sum of the powers.\<close>

definition thermal_line :: "(string \<Rightarrow> rat option) \<Rightarrow> string \<Rightarrow> int option \<times> rat option \<Rightarrow> int option \<times> rat option" where
  "thermal_line parse line acc =
     (case (split_on (CHR '','') line, acc) of
        ([a, b], temp, watts) \<Rightarrow>
          ((case Atoi (trim_space a) of
              None \<Rightarrow> temp
            | Some t \<Rightarrow> (case temp of None \<Rightarrow> Some t | Some t0 \<Rightarrow> if t > t0 then Some t else Some t0)),
           (case parse (trim_space b) of
              None \<Rightarrow> watts
            | Some p \<Rightarrow> Some ((case watts of None \<Rightarrow> 0 | Some p0 \<Rightarrow> p0) + p)))
      | _ \<Rightarrow> acc)"

definition nvidia_readThermal :: "ReaderOptions \<Rightarrow> int option \<times> rat option" where
  "nvidia_readThermal env =
     (case ge_exec env ''nvidia-smi'' [''--query-gpu=temperature.gpu,power.draw'', ''--format=csv,noheader,nounits''] of
        None \<Rightarrow> (None, None)
      | Some out \<Rightarrow> fold (thermal_line (ge_float env)) (split_on (CHR 0x0A) (trim_space out)) (None, None))"

definition nvidia_Read :: "ReaderOptions \<Rightarrow> reading" where
  "nvidia_Read env =
     (let mem = nvidia_readMemory env;
          info = (case mem of
                    Inl e \<Rightarrow> no_info ''nvidia''
                  | Inr (freeMB, totalMB, unified) \<Rightarrow>
                      (no_info ''nvidia'')\<lparr>gi_TotalVRAMGB := mbToGB totalMB, gi_FreeVRAMGB := mbToGB freeMB, gi_Unified := unified\<rparr>);
          (temp, watts) = nvidia_readThermal env
      in (info\<lparr>gi_GPUBusyPct := nvidia_readUtilisation env, gi_TempC := temp, gi_PowerW := watts\<rparr>,
          case mem of Inl e \<Rightarrow> Some e | Inr _ \<Rightarrow> None))"

section \<open>AMD\<close>

definition readUint :: "ReaderOptions \<Rightarrow> string \<Rightarrow> 64 word option" where
  "readUint env path = Option.bind (ge_file env path) (\<lambda>data. ParseUint (trim_space data))"

definition amd_readThermal :: "ReaderOptions \<Rightarrow> string \<Rightarrow> int option \<times> rat option" where
  "amd_readThermal env device =
     ((case ge_glob env (device @ ''/hwmon/hwmon*/temp1_input'') of
         [] \<Rightarrow> None | p # _ \<Rightarrow> map_option (\<lambda>v. uint (v div 1000)) (readUint env p)),
      (case ge_glob env (device @ ''/hwmon/hwmon*/power1_average'') of
         [] \<Rightarrow> None | p # _ \<Rightarrow> map_option (\<lambda>v. of_int (uint v) / 1000000) (readUint env p)))"

definition amd_readBusy :: "ReaderOptions \<Rightarrow> int option" where
  "amd_readBusy env =
     find_map (\<lambda>p. Option.bind (ge_file env p) (\<lambda>data. Atoi (trim_space data)))
       (ge_glob env ''/sys/class/drm/card[0-9]*/device/gpu_busy_percent'')"

definition amd_Read :: "ReaderOptions \<Rightarrow> reading" where
  "amd_Read env =
     (case ge_glob env ''/sys/class/drm/card[0-9]*/device/mem_info_vram_total'' of
        [] \<Rightarrow> (no_info ''amd'', Some ''gpu/amd: no /sys/class/drm/card*/device/mem_info_vram_total'')
      | first # _ \<Rightarrow>
          (let device = parent_of first
           in case readUint env first of
                None \<Rightarrow> (no_info ''amd'', Some first)
              | Some totalB \<Rightarrow>
                  (case readUint env (device @ ''/mem_info_vram_used'') of
                     None \<Rightarrow> (no_info ''amd'', Some (device @ ''/mem_info_vram_used''))
                   | Some usedB \<Rightarrow>
                       let mb = 1024 * 1024; totalMB = uint (totalB div mb); freeMB = uint ((totalB - usedB) div mb);
                           (temp, watts) = amd_readThermal env device
                       in ((no_info ''amd'')\<lparr>gi_TotalVRAMGB := mbToGB totalMB, gi_FreeVRAMGB := mbToGB freeMB, gi_Unified := True,
                            gi_GPUBusyPct := amd_readBusy env, gi_TempC := temp, gi_PowerW := watts\<rparr>, None))))"

section \<open>Intel\<close>

definition gpusJSONPath :: string where "gpusJSONPath = ''/run/gpu-vram/gpus.json''"

definition gpusJSONMaxAge :: duration where "gpusJSONMaxAge = 30 * second"

definition busiest_card :: "exporter_gpu list \<Rightarrow> int option" where
  "busiest_card gpus =
     fold (\<lambda>g m. case eg_BusyPct g of
                   None \<Rightarrow> m | Some b \<Rightarrow> (case m of None \<Rightarrow> Some b | Some b0 \<Rightarrow> if b > b0 then Some b else Some b0)) gpus None"

definition usedGB :: "exporter_gpu \<Rightarrow> rat" where "usedGB g = of_int (eg_UsedKiB g) / (1024 * 1024)"

definition readExporter :: "ReaderOptions \<Rightarrow> Info option" where
  "readExporter env =
     (case Option.bind (ge_file env gpusJSONPath) (ge_snapshot env) of
        None \<Rightarrow> None
      | Some snap \<Rightarrow>
          if es_GPUs snap = [] \<or> ge_now env - es_TS snap * second > gpusJSONMaxAge then None
          else
            (let fallback = ge_FallbackTotalVRAMGB env;
                 all = (if fallback > 0 then of_int fallback else 0);
                 perCard = (if fallback > 0 then all / of_nat (length (es_GPUs snap)) else 0);
                 used = sum_list (map usedGB (es_GPUs snap))
             in Some ((no_info ''intel'')\<lparr>gi_TotalVRAMGB := all,
                  gi_FreeVRAMGB := (if all > 0 then (if all - used < 0 then 0 else all - used) else 0),
                  gi_GPUBusyPct := busiest_card (es_GPUs snap),
                  gi_Devices := map (\<lambda>(i, g). \<lparr>gd_Index = i, gd_PDev = eg_PDev g, gd_UsedVRAMGB = usedGB g,
                                               gd_TotalVRAMGB = perCard, gd_BusyPct = eg_BusyPct g, gd_TempC = None,
                                               gd_PowerW = None\<rparr>) (enumerate 0 (es_GPUs snap))\<rparr>)))"

definition xpu_value :: "string \<Rightarrow> (string \<Rightarrow> string) \<Rightarrow> string \<Rightarrow> int option" where
  "xpu_value key strip line =
     (if \<not> contains_str line key then None
      else case split_on (CHR ''|'') line of
             _ # _ # v # _ \<Rightarrow> Atoi (strip (trim_space v))
           | _ \<Rightarrow> None)"

definition xpu_first :: "string \<Rightarrow> (string \<Rightarrow> string) \<Rightarrow> string option \<Rightarrow> int" where
  "xpu_first key strip answer =
     (case Option.bind answer (\<lambda>out. find_map (xpu_value key strip) (split_on (CHR 0x0A) out)) of
        None \<Rightarrow> 0 | Some v \<Rightarrow> v)"

definition queryUsedMB :: "ReaderOptions \<Rightarrow> int" where
  "queryUsedMB env = xpu_first ''GPU Memory Used (MiB)'' (\<lambda>v. v) (ge_exec env ''xpu-smi'' [''stats'', ''-d'', ''0''])"

definition queryTotalMB :: "ReaderOptions \<Rightarrow> int" where
  "queryTotalMB env =
     xpu_first ''Memory Physical Size'' (\<lambda>v. trim_space (trim_suffix v ''MiB'')) (ge_exec env ''xpu-smi'' [''discovery''])"

definition readXPUSMI :: "ReaderOptions \<Rightarrow> reading" where
  "readXPUSMI env =
     (let usedMB = queryUsedMB env; reported = queryTotalMB env;
          totalMB = (if reported = 0 \<and> ge_FallbackTotalVRAMGB env > 0 then ge_FallbackTotalVRAMGB env * 1024 else reported)
      in if totalMB = 0 then (no_info ''intel'', Some ''gpu/intel: unable to determine total VRAM'')
         else ((no_info ''intel'')\<lparr>gi_TotalVRAMGB := mbToGB totalMB,
                 gi_FreeVRAMGB := (if usedMB \<le> totalMB then mbToGB (totalMB - usedMB) else 0)\<rparr>, None))"

definition intel_Read :: "ReaderOptions \<Rightarrow> reading" where
  "intel_Read env = (case readExporter env of Some info \<Rightarrow> (info, None) | None \<Rightarrow> readXPUSMI env)"

text \<open>\<open>NewReader\<close>: the reader of a vendor.\<close>

definition NewReader :: "GpuType \<Rightarrow> ReaderOptions \<Rightarrow> reading" where
  "NewReader t =
     (case t of GpuNvidia \<Rightarrow> nvidia_Read | GpuAMD \<Rightarrow> amd_Read | GpuIntel \<Rightarrow> intel_Read
      | _ \<Rightarrow> (\<lambda>env. (no_info [], Some ''gpu: unsupported gpu type'')))"

section \<open>Memory and disk\<close>

definition memUsageGB :: "string option \<Rightarrow> (rat \<times> rat) option" where
  "memUsageGB file =
     (case file of
        None \<Rightarrow> None
      | Some data \<Rightarrow>
          (case (meminfo_value ''MemTotal:'' data, meminfo_value ''MemAvailable:'' data) of
             (Some totalKB, Some availKB) \<Rightarrow>
               Some (roundGB (of_int (totalKB - availKB) / (1024 * 1024)), roundGB (of_int totalKB / (1024 * 1024)))
           | _ \<Rightarrow> None))"

text \<open>\<open>statfs\<close> answers the block size and the counts of available and of all blocks, in 64 bits.\<close>

definition diskUsageGB :: "(64 word \<times> 64 word \<times> 64 word) option \<Rightarrow> (rat \<times> rat) option" where
  "diskUsageGB statfs =
     (case statfs of
        None \<Rightarrow> None
      | Some (block, avail, blocks) \<Rightarrow>
          Some (roundGB (of_int (uint (avail * block)) / (1024 * 1024 * 1024)),
                roundGB (of_int (uint (blocks * block)) / (1024 * 1024 * 1024))))"

section \<open>The cache\<close>

record cachedReader =
  ch_last :: reading
  ch_fetchedAt :: time
  ch_haveResult :: bool
  ch_refreshing :: bool

definition Cached :: cachedReader where
  "Cached = \<lparr>ch_last = (no_info [], None), ch_fetchedAt = 0, ch_haveResult = False, ch_refreshing = False\<rparr>"

text \<open>What a reader gets under the lock: an answer, with a background refresh started or not, or the
  wait for a probe of its own.\<close>

datatype look = Serve reading bool | Block

definition cache_Read :: "duration \<Rightarrow> time \<Rightarrow> cachedReader \<Rightarrow> look \<times> cachedReader" where
  "cache_Read ttl now c =
     (if ch_haveResult c \<and> now - ch_fetchedAt c < ttl then (Serve (ch_last c) False, c)
      else if ch_haveResult c then
        (if \<not> ch_refreshing c then (Serve (ch_last c) True, c\<lparr>ch_refreshing := True\<rparr>) else (Serve (ch_last c) False, c))
      else (Block, c))"

text \<open>The end of \<open>refresh\<close>, when its probe answered \<open>r\<close>.\<close>

definition refresh :: "time \<Rightarrow> reading \<Rightarrow> cachedReader \<Rightarrow> reading \<times> cachedReader" where
  "refresh now r c =
     (let c1 = c\<lparr>ch_refreshing := False\<rparr>;
          c2 = (if snd r = None \<or> \<not> ch_haveResult c1 then c1\<lparr>ch_last := r, ch_haveResult := True\<rparr> else c1)
      in (ch_last c2, c2\<lparr>ch_fetchedAt := now\<rparr>))"

text \<open>A run: the cache, the probes in the background, the readers that wait for a probe of their own, how
  many readers ever had to, and every probe result that landed, in order.\<close>

record cache_run =
  cr_cache :: cachedReader
  cr_background :: nat
  cr_blocked :: nat
  cr_cold :: nat
  cr_landed :: "reading list"

inductive cache_step :: "duration \<Rightarrow> cache_run \<Rightarrow> cache_run \<Rightarrow> bool" for ttl where
  served: "cache_Read ttl now (cr_cache s) = (Serve r b, c) \<Longrightarrow>
     cache_step ttl s (s\<lparr>cr_cache := c, cr_background := cr_background s + (if b then 1 else 0)\<rparr>)"
| waiting: "cache_Read ttl now (cr_cache s) = (Block, c) \<Longrightarrow>
     cache_step ttl s (s\<lparr>cr_cache := c, cr_blocked := cr_blocked s + 1, cr_cold := cr_cold s + 1\<rparr>)"
| background: "cr_background s > 0 \<Longrightarrow>
     cache_step ttl s (s\<lparr>cr_cache := snd (refresh now r (cr_cache s)), cr_background := cr_background s - 1,
                        cr_landed := cr_landed s @ [r]\<rparr>)"
| cold: "cr_blocked s > 0 \<Longrightarrow>
     cache_step ttl s (s\<lparr>cr_cache := snd (refresh now r (cr_cache s)), cr_blocked := cr_blocked s - 1,
                        cr_landed := cr_landed s @ [r]\<rparr>)"

inductive cache_reachable :: "duration \<Rightarrow> cache_run \<Rightarrow> bool" for ttl where
  start: "cache_reachable ttl \<lparr>cr_cache = Cached, cr_background = 0, cr_blocked = 0, cr_cold = 0, cr_landed = []\<rparr>"
| step: "cache_reachable ttl s \<Longrightarrow> cache_step ttl s s' \<Longrightarrow> cache_reachable ttl s'"

text \<open>The result worth serving: the latest success, or the first failure while there was none.\<close>

definition held :: "reading list \<Rightarrow> reading option" where
  "held rs = (case filter (\<lambda>r. snd r = None) rs of
                [] \<Rightarrow> (case rs of [] \<Rightarrow> None | r # _ \<Rightarrow> Some r)
              | g # gs \<Rightarrow> Some (last (g # gs)))"

lemma held_snoc: "held (rs @ [r]) = (if snd r = None \<or> rs = [] then Some r else held rs)"
  by (auto simp: held_def split: list.split)

lemma held_None: "held rs = None \<longleftrightarrow> rs = []"
  by (auto simp: held_def split: list.split)

definition cache_ok :: "cache_run \<Rightarrow> bool" where
  "cache_ok s \<longleftrightarrow>
     (ch_haveResult (cr_cache s) \<longleftrightarrow> cr_landed s \<noteq> [])
   \<and> (cr_landed s \<noteq> [] \<longrightarrow> held (cr_landed s) = Some (ch_last (cr_cache s)))
   \<and> (cr_landed s = [] \<longrightarrow> cr_background s = 0 \<and> \<not> ch_refreshing (cr_cache s) \<and> cr_blocked s = cr_cold s)
   \<and> (cr_landed s \<noteq> [] \<longrightarrow> cr_background s + cr_blocked s + 1 \<le> cr_cold s + (if ch_refreshing (cr_cache s) then 1 else 0))"

lemma refresh_simps [simp]:
  "ch_haveResult (snd (refresh now r c))" "\<not> ch_refreshing (snd (refresh now r c))"
  "ch_last (snd (refresh now r c)) = (if snd r = None \<or> \<not> ch_haveResult c then r else ch_last c)"
  "ch_fetchedAt (snd (refresh now r c)) = now"
  by (simp_all add: refresh_def Let_def)

lemma cache_step_ok:
  assumes "cache_step ttl s s'" and "cache_ok s"
  shows "cache_ok s'"
  using assms
proof cases
  case served
  with assms(2) show ?thesis by (auto simp: cache_ok_def cache_Read_def split: if_splits)
next
  case waiting
  with assms(2) show ?thesis by (auto simp: cache_ok_def cache_Read_def split: if_splits)
next
  case background
  with assms(2) show ?thesis by (auto simp: cache_ok_def held_snoc split: if_splits)
next
  case cold
  with assms(2) show ?thesis by (auto simp: cache_ok_def held_snoc split: if_splits)
qed

lemma cache_reachable_ok: "cache_reachable ttl s \<Longrightarrow> cache_ok s"
proof (induction rule: cache_reachable.induct)
  case start then show ?case by (simp add: cache_ok_def Cached_def)
next
  case (step s s') then show ?case by (blast intro: cache_step_ok)
qed


definition card_reading :: "rat \<Rightarrow> reading" where
  "card_reading free = ((no_info ''amd'')\<lparr>gi_TotalVRAMGB := 24, gi_FreeVRAMGB := free\<rparr>, None)"

definition warmed :: cache_run where
  "warmed = \<lparr>cr_cache = snd (refresh 10 (card_reading 8) Cached), cr_background = 0, cr_blocked = 0, cr_cold = 1,
             cr_landed = [card_reading 8]\<rparr>"

lemma warmed_reachable: "cache_reachable 5 warmed"
proof -
  let ?s0 = "\<lparr>cr_cache = Cached, cr_background = 0, cr_blocked = 0, cr_cold = 0, cr_landed = []\<rparr>"
  have "cache_step 5 ?s0 (?s0\<lparr>cr_cache := Cached, cr_blocked := cr_blocked ?s0 + 1, cr_cold := cr_cold ?s0 + 1\<rparr>)"
    by (rule cache_step.waiting[of 5 0]) (simp add: cache_Read_def Cached_def)
  then have 1: "cache_reachable 5 \<lparr>cr_cache = Cached, cr_background = 0, cr_blocked = 1, cr_cold = 1, cr_landed = []\<rparr>"
    using cache_reachable.step[OF cache_reachable.start] by simp
  from cache_reachable.step[OF 1 cache_step.cold[where now = 10 and r = "card_reading 8"]] show ?thesis by (simp add: warmed_def)
qed


text \<open>A card that stops answering is not noticed: after a success no failed probe changes an answer, however
  many there are.\<close>

lemma failures_stay_hidden:
  assumes "snd (ch_last c) = None" and "ch_haveResult c" and "\<forall>(when, r) \<in> set outcomes. snd r \<noteq> None"
  shows "ch_last (fold (\<lambda>(when, r) c. snd (refresh when r c)) outcomes c) = ch_last c"
proof -
  have "ch_last (fold (\<lambda>(when, r) c. snd (refresh when r c)) outcomes c) = ch_last c
      \<and> ch_haveResult (fold (\<lambda>(when, r) c. snd (refresh when r c)) outcomes c)"
    using assms(2,3) by (induction outcomes arbitrary: c) auto
  then show ?thesis by blast
qed

text \<open>The driver reads the used bytes after the total. When the card reports more used than total the
  unsigned difference wraps around, and the card reads as having thousands of terabytes free.\<close>

lemma amd_used_above_total_wraps:
  "((16 * 2 ^ 30 :: 64 word) - (16 * 2 ^ 30 + 4096)) div (1024 * 1024) = 2 ^ 44 - 1"
  by simp

text \<open>The free memory of an Intel node is between none and all of it.\<close>

lemma intel_free_bounds:
  assumes "readExporter env = Some info"
    and "\<And>data snap g. ge_snapshot env data = Some snap \<Longrightarrow> g \<in> set (es_GPUs snap) \<Longrightarrow> 0 \<le> eg_UsedKiB g"
  shows "0 \<le> gi_FreeVRAMGB info \<and> gi_FreeVRAMGB info \<le> gi_TotalVRAMGB info"
proof -
  obtain data snap where snap: "ge_snapshot env data = Some snap"
    and info: "gi_FreeVRAMGB info = (let all = gi_TotalVRAMGB info; used = sum_list (map usedGB (es_GPUs snap))
        in if all > 0 then (if all - used < 0 then 0 else all - used) else 0)" "0 \<le> gi_TotalVRAMGB info"
    using assms(1) by (auto simp: readExporter_def Let_def bind_eq_Some_conv split: if_splits option.splits)
  have "0 \<le> sum_list (map usedGB (es_GPUs snap))"
    using assms(2)[OF snap] by (intro sum_list_nonneg) (auto simp: usedGB_def)
  with info show ?thesis by (auto simp: Let_def)
qed

end
