(* ===== verification/Node_Agent.thy ===== *)
theory Node_Agent
  imports Gpu_Readers
begin

text \<open>
  The node agent (\<^verbatim>\<open>internal/nodeagent\<close>): the driver that asks an inference engine what it serves
  (\<^verbatim>\<open>backends/sglang\<close>), the agent's answers, and what the router's poll makes of them.

  The engine is an argument: its answer to \<^verbatim>\<open>/v1/models\<close> (a transport error, or a status and the ids it lists
  or the error of decoding them) and to \<^verbatim>\<open>/metrics\<close>. \<open>parse\<close> is \<open>strconv.ParseFloat\<close> on finite values.
\<close>

section \<open>Scraping an engine\<close>

record metricsSnapshot =
  sg_running :: int
  sg_waiting :: int
  sg_total :: int
  sg_avgTokPerSec :: rat

record scrape =
  sc_m :: metricsSnapshot
  sc_ttSum :: rat
  sc_ttCount :: int
  sc_gen :: rat

definition roundOneDecimal :: "rat \<Rightarrow> rat" where
  "roundOneDecimal v =
     (if v < 0 then - (of_int (go_int (- v * 10 + 1 / 2)) / 10) else of_int (go_int (v * 10 + 1 / 2)) / 10)"

text \<open>The text before and after the last space.\<close>

definition cut_last_space :: "string \<Rightarrow> (string \<times> string) option" where
  "cut_last_space line =
     (if CHR '' '' \<notin> set line then None
      else Some (rev (drop 1 (dropWhile (\<lambda>c. c \<noteq> CHR '' '') (rev line))), rev (takeWhile (\<lambda>c. c \<noteq> CHR '' '') (rev line))))"

definition metric_line :: "(string \<Rightarrow> rat option) \<Rightarrow> string \<Rightarrow> (string \<times> rat) option" where
  "metric_line parse line0 =
     (let line = trim_space line0
      in if line = [] \<or> has_prefix line ''#'' then None
         else case cut_last_space line of
                None \<Rightarrow> None
              | Some (left, right) \<Rightarrow>
                  map_option (\<lambda>v. (trim_prefix (before_char (CHR ''{'') (trim_space left)) ''sglang:'', v))
                    (parse (trim_space right)))"

definition take_metric :: "string \<times> rat \<Rightarrow> scrape \<Rightarrow> scrape" where
  "take_metric p s =
     (case p of (name, v) \<Rightarrow>
        if name \<in> {''num_requests_running'', ''num_running_reqs'', ''atlas_requests_active''}
        then s\<lparr>sc_m := (sc_m s)\<lparr>sg_running := go_int v\<rparr>\<rparr>
        else if name \<in> {''num_requests_waiting'', ''num_queue_reqs''} then s\<lparr>sc_m := (sc_m s)\<lparr>sg_waiting := go_int v\<rparr>\<rparr>
        else if name \<in> {''num_requests_total'', ''atlas_requests_total''} then s\<lparr>sc_m := (sc_m s)\<lparr>sg_total := go_int v\<rparr>\<rparr>
        else if name = ''gen_throughput'' then s\<lparr>sc_gen := v\<rparr>
        else if name \<in> {''inter_token_latency_seconds_sum'', ''time_per_output_token_seconds_sum''} then s\<lparr>sc_ttSum := v\<rparr>
        else if name \<in> {''inter_token_latency_seconds_count'', ''time_per_output_token_seconds_count''}
        then s\<lparr>sc_ttCount := go_int v\<rparr>
        else s)"

definition parseMetrics :: "(string \<Rightarrow> rat option) \<Rightarrow> string \<Rightarrow> metricsSnapshot" where
  "parseMetrics parse data =
     (let none = \<lparr>sg_running = 0, sg_waiting = 0, sg_total = 0, sg_avgTokPerSec = 0\<rparr>;
          s = fold take_metric (List.map_filter (metric_line parse) (split_on (CHR 0x0A) data))
                \<lparr>sc_m = none, sc_ttSum = 0, sc_ttCount = 0, sc_gen = 0\<rparr>
      in if sc_gen s > 0 then (sc_m s)\<lparr>sg_avgTokPerSec := roundOneDecimal (sc_gen s)\<rparr>
         else if sc_ttSum s > 0 \<and> sc_ttCount s > 0
         then let avg = sc_ttSum s / of_int (sc_ttCount s)
              in if avg > 0 then (sc_m s)\<lparr>sg_avgTokPerSec := roundOneDecimal (1 / avg)\<rparr> else sc_m s
         else sc_m s)"

section \<open>The driver\<close>

datatype State = Stopped | Starting | Running | Errored

definition state_text :: "State \<Rightarrow> string" where
  "state_text s = (case s of Stopped \<Rightarrow> ''stopped'' | Starting \<Rightarrow> ''starting'' | Running \<Rightarrow> ''running'' | Errored \<Rightarrow> ''error'')"

record engine_status =
  st_ModelID :: string
  st_State :: State
  st_PID :: "int option"
  st_Port :: "int option"
  st_Error :: string
  st_RequestsRunning :: int
  st_RequestsWaiting :: int
  st_TotalRequests :: int
  st_AvgTokPerSec :: "rat option"

definition status_of_state :: "string \<Rightarrow> State \<Rightarrow> engine_status" where
  "status_of_state i s = \<lparr>st_ModelID = i, st_State = s, st_PID = None, st_Port = None, st_Error = [], st_RequestsRunning = 0,
                          st_RequestsWaiting = 0, st_TotalRequests = 0, st_AvgTokPerSec = None\<rparr>"

record http_err =
  he_Timeout :: bool
  he_Text :: string

record engine =
  en_host :: string
  en_models :: "string \<Rightarrow> http_err + int \<times> (string + string list)"
  en_metrics :: "string \<Rightarrow> (int \<times> string) option"
  en_float :: "string \<Rightarrow> rat option"

definition DefaultPort :: int where "DefaultPort = 5391"

definition unreachable_fragments :: "string list" where
  "unreachable_fragments = [''connection refused'', ''no such host'', ''no route to host'', ''i/o timeout'',
                            ''context deadline exceeded'', ''EOF'']"

definition isUnreachable :: "http_err \<Rightarrow> bool" where
  "isUnreachable e \<longleftrightarrow> he_Timeout e \<or> list_ex (contains_str (he_Text e)) unreachable_fragments"

definition engine_url :: "engine \<Rightarrow> int \<Rightarrow> string \<Rightarrow> string" where
  "engine_url en port path =
     ''http://'' @ (if CHR '':'' \<in> set (en_host en) then ''['' @ en_host en @ '']'' else en_host en) @ '':'' @ show_int port @ path"

definition checkServing :: "engine \<Rightarrow> int \<Rightarrow> ModelDefinition option \<Rightarrow> http_err + bool" where
  "checkServing en port model =
     (case en_models en (engine_url en port ''/v1/models'') of
        Inl e \<Rightarrow> Inl e
      | Inr (status, body) \<Rightarrow>
          if status \<noteq> 200 then Inl \<lparr>he_Timeout = False, he_Text = ''unexpected status '' @ show_int status @ '' from /v1/models''\<rparr>
          else case model of
                 None \<Rightarrow> Inr True
               | Some m \<Rightarrow>
                   (case body of
                      Inl e \<Rightarrow> Inl \<lparr>he_Timeout = False, he_Text = ''decode /v1/models: '' @ e\<rparr>
                    | Inr ids \<Rightarrow> Inr (list_ex (\<lambda>i. i = before_char (CHR ''#'') (m_HFRepo m) \<or> i = m_HFRepo m) ids)))"

definition fetchMetrics :: "engine \<Rightarrow> int \<Rightarrow> metricsSnapshot option" where
  "fetchMetrics en port =
     (case en_metrics en (engine_url en port ''/metrics'') of
        None \<Rightarrow> None
      | Some (status, body) \<Rightarrow>
          if status \<noteq> 200 then None else Some (parseMetrics (en_float en) (take (2 * 1024 * 1024) body)))"

definition Backend_Status :: "engine \<Rightarrow> string \<Rightarrow> ModelDefinition option \<Rightarrow> engine_status" where
  "Backend_Status en i model =
     (let port = (case model of Some m \<Rightarrow> if m_APIPort m \<noteq> 0 then m_APIPort m else DefaultPort | None \<Rightarrow> DefaultPort);
          s = (status_of_state i Stopped)\<lparr>st_Port := Some port\<rparr>
      in case checkServing en port model of
           Inl e \<Rightarrow> if isUnreachable e then s\<lparr>st_Port := None\<rparr> else s\<lparr>st_State := Errored, st_Error := he_Text e\<rparr>
         | Inr False \<Rightarrow> s
         | Inr True \<Rightarrow>
             let s1 = s\<lparr>st_State := Running\<rparr>
             in case fetchMetrics en port of
                  None \<Rightarrow> s1
                | Some snap \<Rightarrow>
                    s1\<lparr>st_RequestsRunning := sg_running snap, st_RequestsWaiting := sg_waiting snap,
                       st_TotalRequests := sg_total snap,
                       st_AvgTokPerSec := (if sg_avgTokPerSec snap > 0 then Some (sg_avgTokPerSec snap) else None)\<rparr>)"

section \<open>The agent\<close>

record Agent =
  na_registry :: ModelRegistry
  na_node :: string
  na_backends :: "BackendType \<Rightarrow> (string \<Rightarrow> ModelDefinition option \<Rightarrow> engine_status) option"
  na_gpuReader :: "reading option"
  na_disk :: "(64 word \<times> 64 word \<times> 64 word) option"
  na_meminfo :: "string option"

text \<open>\<open>New\<close>, and the options of \<^verbatim>\<open>nodeagentcmd\<close>: one driver, under the vLLM backend, and a GPU reader where the
  node has a GPU; \<open>reading\<close> is what the reader answers at the time.\<close>

definition New :: "ModelRegistry option \<Rightarrow> Agent \<Rightarrow> string + Agent" where
  "New registry a =
     (case registry of
        None \<Rightarrow> Inl ''nodeagent: registry is nil''
      | Some reg \<Rightarrow>
          if lookup (reg_Nodes reg) (na_node a) = None
          then Inl (''nodeagent: node '' @ quoted (na_node a) @ '' not in registry'')
          else Inr (a\<lparr>na_registry := reg\<rparr>))"

definition has_gpu :: "NodeDefinition \<Rightarrow> bool" where
  "has_gpu n \<longleftrightarrow> n_GPU n \<noteq> GpuOther [] \<and> n_GPU n \<noteq> GpuNone"

definition run_agent ::
    "ModelRegistry \<Rightarrow> string \<Rightarrow> engine \<Rightarrow> (GpuType \<Rightarrow> int \<Rightarrow> reading) \<Rightarrow> (64 word \<times> 64 word \<times> 64 word) option \<Rightarrow> string option
     \<Rightarrow> string + Agent" where
  "run_agent reg node en gpu disk meminfo =
     New (Some reg)
       \<lparr>na_registry = reg, na_node = node,
        na_backends = (\<lambda>t. if t = BackendVLLM then Some (Backend_Status en) else None),
        na_gpuReader = (case lookup (reg_Nodes reg) node of
                          None \<Rightarrow> None
                        | Some n \<Rightarrow> if has_gpu n then Some (gpu (n_GPU n) (n_VRAMGB n)) else None),
        na_disk = disk, na_meminfo = meminfo\<rparr>"

definition probe_model :: "Agent \<Rightarrow> string \<Rightarrow> ModelDefinition \<Rightarrow> engine_status" where
  "probe_model a i m =
     (if m_Backend m = BackendExternal then status_of_state i Running
      else case na_backends a (m_Backend m) of
             Some drv \<Rightarrow> drv i (Some m)
           | None \<Rightarrow> status_of_state i Stopped)"

record GPUDevice =
  gp_Index :: nat
  gp_PDev :: string
  gp_VRAMUsedGB :: rat
  gp_VRAMTotalGB :: rat
  gp_BusyPct :: "int option"
  gp_TempC :: "int option"
  gp_PowerW :: "rat option"

record ServiceStatus =
  ss_Name :: string
  ss_Type :: string
  ss_Label :: string
  ss_Reachable :: bool

record HealthResponse =
  hr_Status :: string
  hr_Node :: string
  hr_GPUType :: "string option"
  hr_TotalVRAMGB :: "rat option"
  hr_FreeVRAMGB :: "rat option"
  hr_GPUBusyPct :: "int option"
  hr_GPUTempC :: "int option"
  hr_GPUPowerW :: "rat option"
  hr_RAMUsedGB :: "rat option"
  hr_RAMTotalGB :: "rat option"
  hr_DiskFreeGB :: "rat option"
  hr_DiskTotalGB :: "rat option"
  hr_GPUs :: "GPUDevice list"
  hr_RunningModels :: "string list"
  hr_Services :: "ServiceStatus list"

definition device_view :: "Device \<Rightarrow> GPUDevice" where
  "device_view d = \<lparr>gp_Index = gd_Index d, gp_PDev = gd_PDev d, gp_VRAMUsedGB = gd_UsedVRAMGB d, gp_VRAMTotalGB = gd_TotalVRAMGB d,
                    gp_BusyPct = gd_BusyPct d, gp_TempC = gd_TempC d, gp_PowerW = gd_PowerW d\<rparr>"

definition gpu_health :: "reading option \<Rightarrow> HealthResponse \<Rightarrow> HealthResponse" where
  "gpu_health reader h =
     (case reader of
        Some (info, None) \<Rightarrow>
          h\<lparr>hr_GPUType := Some (gi_GpuType info), hr_TotalVRAMGB := Some (gi_TotalVRAMGB info),
            hr_FreeVRAMGB := Some (gi_FreeVRAMGB info), hr_GPUBusyPct := gi_GPUBusyPct info, hr_GPUTempC := gi_TempC info,
            hr_GPUPowerW := gi_PowerW info, hr_GPUs := map device_view (gi_Devices info)\<rparr>
      | _ \<Rightarrow> h)"

definition agent_models :: "Agent \<Rightarrow> ModelDefinition gomap" where
  "agent_models a = ModelsForNode (na_registry a) (na_node a) True"

definition handleHealth :: "Agent \<Rightarrow> HealthResponse" where
  "handleHealth a =
     (let disk = diskUsageGB (na_disk a); ram = memUsageGB (na_meminfo a);
          services = (case lookup (reg_Nodes (na_registry a)) (na_node a) of None \<Rightarrow> [] | Some n \<Rightarrow> n_Services n)
      in gpu_health (na_gpuReader a)
           \<lparr>hr_Status = ''ok'', hr_Node = na_node a, hr_GPUType = None, hr_TotalVRAMGB = None, hr_FreeVRAMGB = None,
            hr_GPUBusyPct = None, hr_GPUTempC = None, hr_GPUPowerW = None,
            hr_RAMUsedGB = map_option fst ram, hr_RAMTotalGB = map_option snd ram,
            hr_DiskFreeGB = map_option fst disk, hr_DiskTotalGB = map_option snd disk, hr_GPUs = [],
            hr_RunningModels = map fst (filter (\<lambda>(i, m). st_State (probe_model a i m) = Running) (agent_models a)),
            hr_Services = map (\<lambda>(name, svc). \<lparr>ss_Name = name, ss_Type = sd_Type svc, ss_Label = sd_Label svc,
                                              ss_Reachable = False\<rparr>) services\<rparr>)"

record ModelListEntry =
  le_ModelID :: string
  le_State :: State
  le_HFRepo :: string
  le_Backend :: BackendType
  le_APIClass :: APIClass
  le_AlwaysOn :: bool
  le_VRAMGB :: int
  le_RequestsRunning :: int
  le_RequestsWaiting :: int
  le_AvgTokPerS :: "rat option"
  le_TotalRequests :: int

definition list_entry :: "Agent \<Rightarrow> string \<times> ModelDefinition \<Rightarrow> ModelListEntry" where
  "list_entry a p =
     (case p of (i, m) \<Rightarrow>
        let st = probe_model a i m
        in \<lparr>le_ModelID = i, le_State = st_State st, le_HFRepo = m_HFRepo m, le_Backend = m_Backend m, le_APIClass = m_APIClass m,
            le_AlwaysOn = m_AlwaysOn m, le_VRAMGB = m_VRAMGB m, le_RequestsRunning = st_RequestsRunning st,
            le_RequestsWaiting = st_RequestsWaiting st, le_AvgTokPerS = st_AvgTokPerSec st,
            le_TotalRequests = st_TotalRequests st\<rparr>)"

definition handleModelList :: "Agent \<Rightarrow> ModelListEntry list" where
  "handleModelList a = map (list_entry a) (agent_models a)"

record ModelStatusResponse =
  sr_ModelID :: string
  sr_State :: State
  sr_PID :: "int option"
  sr_Port :: "int option"
  sr_Backend :: BackendType
  sr_APIClass :: APIClass
  sr_HFRepo :: string
  sr_Error :: string

definition handleModelStatus :: "Agent \<Rightarrow> string \<Rightarrow> (int \<times> string) + ModelStatusResponse" where
  "handleModelStatus a i =
     (case lookup (agent_models a) i of
        None \<Rightarrow> Inl (404, ''model '' @ quoted i @ '' not found on node '' @ quoted (na_node a))
      | Some m \<Rightarrow>
          let st = probe_model a i m
          in Inr \<lparr>sr_ModelID = i, sr_State = st_State st, sr_PID = st_PID st, sr_Port = st_Port st, sr_Backend = m_Backend m,
                  sr_APIClass = m_APIClass m, sr_HFRepo = m_HFRepo m, sr_Error = st_Error st\<rparr>)"

text \<open>The gauges of \<open>newMetricsHandler\<close>: the models enabled on the node, and the temperature and the power, each
  not a number (\<^const>\<open>None\<close>) when it is not reported.\<close>

definition agent_gauges :: "Agent \<Rightarrow> nat \<times> (int option \<times> rat option) option" where
  "agent_gauges a =
     (length (agent_models a),
      map_option (\<lambda>(info, err). if err = None then (gi_TempC info, gi_PowerW info) else (None, None)) (na_gpuReader a))"

section \<open>What the router's poll makes of it\<close>

text \<open>The fields of the agent's JSON that \<open>ProbeNode\<close> decodes. A service becomes an object of the \<open>services\<close> array.\<close>

definition service_json :: "ServiceStatus \<Rightarrow> json" where
  "service_json s =
     JObj ([(''name'', JStr (ss_Name s)), (''service_type'', JStr (ss_Type s))]
           @ (if ss_Label s = [] then [] else [(''label'', JStr (ss_Label s))])
           @ [(''reachable'', JBool (ss_Reachable s)), (''queue_running'', JNum 0), (''queue_pending'', JNum 0)])"

definition wire_gpu :: "GPUDevice \<Rightarrow> AgentGPU" where
  "wire_gpu g = \<lparr>ag_Index = int (gp_Index g), ag_PDev = gp_PDev g, ag_VRAMUsedGB = gp_VRAMUsedGB g, ag_VRAMTotalGB = gp_VRAMTotalGB g,
                 ag_BusyPct = gp_BusyPct g, ag_TempC = gp_TempC g, ag_PowerW = gp_PowerW g\<rparr>"

definition wire_health :: "HealthResponse \<Rightarrow> AgentHealth" where
  "wire_health h =
     \<lparr>ah_TotalVRAMGB = hr_TotalVRAMGB h, ah_FreeVRAMGB = hr_FreeVRAMGB h, ah_GPUBusyPct = hr_GPUBusyPct h,
      ah_GPUTempC = hr_GPUTempC h, ah_GPUPowerW = hr_GPUPowerW h, ah_RAMUsedGB = hr_RAMUsedGB h, ah_RAMTotalGB = hr_RAMTotalGB h,
      ah_DiskFreeGB = hr_DiskFreeGB h, ah_DiskTotalGB = hr_DiskTotalGB h, ah_GPUs = map wire_gpu (hr_GPUs h),
      ah_Services = map service_json (hr_Services h)\<rparr>"

definition wire_model :: "ModelListEntry \<Rightarrow> AgentModel" where
  "wire_model e =
     \<lparr>am_ModelID = le_ModelID e, am_State = state_text (le_State e), am_RequestsRunning = le_RequestsRunning e,
      am_RequestsWaiting = le_RequestsWaiting e, am_AvgTokPerS = le_AvgTokPerS e, am_TotalRequests = le_TotalRequests e\<rparr>"

definition polled_agent :: "Agent \<Rightarrow> string \<Rightarrow> time \<Rightarrow> string \<Rightarrow> int \<Rightarrow> NodeSnapshot" where
  "polled_agent a = ProbeNode (\<lambda>_. Some (wire_health (handleHealth a))) (\<lambda>_. Some (map wire_model (handleModelList a)))"

lemma polled_agent_simps [simp]:
  "sn_Reachable (polled_agent a hn now host port)"
  "sn_Models (polled_agent a hn now host port) = map wire_model (handleModelList a)"
  by (simp_all add: polled_agent_def ProbeNode_def Let_def)

lemma find_keyed: "find (\<lambda>e. f e = i) (map g xs) = map_option g (find (\<lambda>x. f (g x) = i) xs)"
  by (induction xs) auto

lemma find_key: "map_option snd (find (\<lambda>p. fst p = i) xs) = lookup xs i"
  by (induction xs) auto

lemma found_key: "find (\<lambda>p. fst p = i) xs = Some p \<Longrightarrow> fst p = i"
  by (induction xs) (auto split: if_splits)

lemma polled_state:
  "ModelState (polled_agent a hn now host port) i =
     map_option (\<lambda>m. state_text (st_State (probe_model a i m))) (lookup (agent_models a) i)"
proof -
  have "ModelState (polled_agent a hn now host port) i
      = map_option (\<lambda>p. state_text (st_State (probe_model a (fst p) (snd p)))) (find (\<lambda>p. fst p = i) (agent_models a))"
    by (simp add: ModelState_def handleModelList_def find_keyed wire_model_def list_entry_def case_prod_beta Let_def
        option.map_comp comp_def cong: map_option_cong)
  also have "\<dots> = map_option (\<lambda>m. state_text (st_State (probe_model a i m))) (lookup (agent_models a) i)"
    by (cases "find (\<lambda>p. fst p = i) (agent_models a)")
       (auto simp: find_key[symmetric] dest: found_key)
  finally show ?thesis .
qed

lemma running_text: "state_text s = StateRunning \<longleftrightarrow> s = Running"
  by (cases s) (simp_all add: state_text_def StateRunning_def)

text \<open>The engine answers at the model's port with a listing that has the model's repository, with or without
  the suffix that picks a template.\<close>

definition engine_serves :: "engine \<Rightarrow> ModelDefinition \<Rightarrow> bool" where
  "engine_serves en m \<longleftrightarrow>
     (\<exists>ids. en_models en (engine_url en (if m_APIPort m \<noteq> 0 then m_APIPort m else DefaultPort) ''/v1/models'') = Inr (200, Inr ids)
        \<and> (before_char (CHR ''#'') (m_HFRepo m) \<in> set ids \<or> m_HFRepo m \<in> set ids))"

lemma driver_running: "st_State (Backend_Status en i (Some m)) = Running \<longleftrightarrow> engine_serves en m"
  by (auto simp: Backend_Status_def checkServing_def engine_serves_def status_of_state_def Let_def list_ex_iff
      split: option.split sum.split bool.split)

lemma run_agent_Inr:
  "run_agent reg n en gpu disk meminfo = Inr a \<Longrightarrow>
     na_registry a = reg \<and> na_node a = n \<and> na_backends a = (\<lambda>t. if t = BackendVLLM then Some (Backend_Status en) else None)"
  by (auto simp: run_agent_def New_def split: if_splits)

lemma run_agent_known: "lookup (reg_Nodes reg) n \<noteq> None \<Longrightarrow> \<exists>a. run_agent reg n en gpu disk meminfo = Inr a"
  unfolding run_agent_def New_def by (auto split: option.split)


definition engine_up :: engine where
  "engine_up = \<lparr>en_host = ''localhost'', en_models = (\<lambda>url. Inr (200, Inr [''Qwen/Q''])),
               en_metrics = (\<lambda>url. None), en_float = (\<lambda>s. None)\<rparr>"

definition reg_engine :: ModelRegistry where
  "reg_engine = reg_small\<lparr>reg_Models := [(''q'', model_local\<lparr>m_HFRepo := ''Qwen/Q#nothink''\<rparr>)]\<rparr>"


text \<open>An empty or cut-off answer to \<^verbatim>\<open>/v1/models\<close> reads as an engine that is not there: the decoder's message ends
  in \<^verbatim>\<open>EOF\<close>, one of the fragments that mean unreachable, although the comment files a garbage body under
  malfunctions.\<close>

lemma cut_off_listing_is_unreachable:
  assumes "en_models en (engine_url en DefaultPort ''/v1/models'') = Inr (200, Inl ''unexpected EOF'')" and "m_APIPort m = 0"
  shows "st_State (Backend_Status en i (Some m)) = Stopped \<and> st_Port (Backend_Status en i (Some m)) = None"
proof -
  have "contains_str ''decode /v1/models: unexpected EOF'' ''EOF''" by code_simp
  then show ?thesis
    using assms by (simp add: Backend_Status_def checkServing_def isUnreachable_def unreachable_fragments_def status_of_state_def)
qed

end
