(* ===== verification/Peers.thy ===== *)
theory Peers
  imports Dashboard
begin

text \<open>
  Between replicas (\<^verbatim>\<open>dashboard_events.go\<close>, \<^verbatim>\<open>peers.go\<close>): the event stream a replica writes, the reader that
  turns its bytes back into frames, who a peer is, and the probes behind the fleet-wide header strip. What a
  frame does to the mirror is in \<^theory_text>\<open>Events\<close>.

  The JSON of an event and of a snapshot is an argument in both directions, with \<open>encoding/json\<close>'s documented
  behaviour as its law: the text has no line break and reads back as what was written. An HTTP exchange is its
  outcome: the error of making it, or the status, its text and the decoded body.
\<close>

section \<open>The stream a replica writes\<close>

datatype sent = SentSnapshot "Event list" "Event list" | SentKeepalive | SentRequest Event

text \<open>What the handler's loop wakes up for until the reader or the router goes away.\<close>

datatype stream_input = KeepaliveTick | Received Event

definition handleDashEvents :: "Identity option \<Rightarrow> bool \<Rightarrow> Broker \<Rightarrow> Broker list \<Rightarrow> stream_input list \<Rightarrow> sent list" where
  "handleDashEvents who scope_local b peers inputs =
     (case events_snapshot who (snapshot_brokers scope_local b peers) of
        (inflight, late) \<Rightarrow>
          SentSnapshot inflight late
          # List.map_filter (\<lambda>x. case x of
                               KeepaliveTick \<Rightarrow> Some SentKeepalive
                             | Received e \<Rightarrow> if event_visible who e then Some (SentRequest e) else None) inputs)"

record event_codec =
  cd_snapshot :: "Event list \<Rightarrow> Event list \<Rightarrow> string"
  cd_event :: "Event \<Rightarrow> string"
  cd_read_snapshot :: "string \<Rightarrow> string + Event list \<times> Event list"
  cd_read_event :: "string \<Rightarrow> string + Event"

definition newline :: string where "newline = [CHR 0x0A]"

definition sse_frame :: "string \<Rightarrow> string \<Rightarrow> string" where
  "sse_frame event data = ''event: '' @ event @ newline @ ''data: '' @ data @ newline @ newline"

definition render :: "event_codec \<Rightarrow> sent \<Rightarrow> string" where
  "render c x =
     (case x of
        SentSnapshot inflight late \<Rightarrow> sse_frame ''snapshot'' (cd_snapshot c inflight late)
      | SentKeepalive \<Rightarrow> '': keepalive'' @ newline @ newline
      | SentRequest e \<Rightarrow> sse_frame ''request'' (cd_event c e))"

section \<open>The reader of a peer\<close>

definition trim_breaks :: "string \<Rightarrow> string" where
  "trim_breaks s = rev (dropWhile (\<lambda>c. c = CHR 0x0D \<or> c = CHR 0x0A) (rev s))"

definition feed_line :: "string \<Rightarrow> string \<times> string \<Rightarrow> (string \<times> string) option \<times> (string \<times> string)" where
  "feed_line line0 st =
     (case st of (event, data) \<Rightarrow>
        let line = trim_breaks line0
        in if has_prefix line ''event: '' then (None, (trim_prefix line ''event: '', data))
           else if has_prefix line ''data: '' then (None, (event, trim_prefix line ''data: ''))
           else if line = [] then (if event = [] then (None, (event, data)) else (Some (event, data), ([], [])))
           else (None, (event, data)))"

fun feed_lines :: "string \<times> string \<Rightarrow> string list \<Rightarrow> (string \<times> string) list" where
  "feed_lines st [] = []"
| "feed_lines st (l # ls) =
     (case feed_line l st of
        (None, st1) \<Rightarrow> feed_lines st1 ls
      | (Some fr, st1) \<Rightarrow> fr # feed_lines st1 ls)"

text \<open>\<open>ReadString\<close> fails on a last line without its break, and the loop ends.\<close>

definition complete_lines :: "string \<Rightarrow> string list" where
  "complete_lines s = butlast (split_on (CHR 0x0A) s)"

definition decode_frame :: "event_codec \<Rightarrow> string \<times> string \<Rightarrow> frame" where
  "decode_frame c p =
     (case p of (event, data) \<Rightarrow>
        if event = ''snapshot'' then
          (case cd_read_snapshot c data of Inl err \<Rightarrow> FrameBad err | Inr (inflight, late) \<Rightarrow> FrameSnapshot inflight late)
        else if event = ''request'' then
          (case cd_read_event c data of Inl err \<Rightarrow> FrameBad err | Inr e \<Rightarrow> FrameRequest e)
        else FrameUnknown)"

definition frames_read :: "event_codec \<Rightarrow> string \<Rightarrow> frame list" where
  "frames_read c body = map (decode_frame c) (feed_lines ([], []) (complete_lines body))"

section \<open>Who a peer is\<close>

type_synonym 'a http_outcome = "string + int \<times> string \<times> (string + 'a)"

definition identify :: "string http_outcome \<Rightarrow> string + string" where
  "identify outcome =
     (case outcome of
        Inl err \<Rightarrow> Inl err
      | Inr (status, text, body) \<Rightarrow>
          if status \<noteq> 200 then Inl (''peer /api/overview: '' @ text)
          else case body of Inl err \<Rightarrow> Inl (''peer /api/overview: '' @ err) | Inr name \<Rightarrow> Inr name)"

text \<open>The addresses and the header of \<open>newPeerSet\<close>; the identity header's name is an argument, empty for its default.\<close>

definition peer_urls :: "string list \<Rightarrow> string list" where
  "peer_urls peers =
     filter (\<lambda>u. u \<noteq> []) (map (\<lambda>u. rev (dropWhile (\<lambda>c. c = CHR ''/'') (rev (trim_space u)))) peers)"

definition peer_header :: "DashboardConfig \<Rightarrow> string \<Rightarrow> header" where
  "peer_header cfg identityHeader =
     (if dc_AuthSecret cfg = [] then []
      else
        let h = header_set ''X-Dashboard-Auth'' (dc_AuthSecret cfg) [];
            idHdr = (if identityHeader = [] then ''X-Auth-Request-Email'' else identityHeader)
        in case dc_Owners cfg of o1 # _ \<Rightarrow> header_set idHdr o1 h | [] \<Rightarrow> h)"

section \<open>The fleet's overview\<close>

record peerSet =
  pv_feeds :: "(string \<times> peerFeed) list"
  pv_ov :: "ReplicaOverview list option"
  pv_ovAt :: "time option"

definition newPeerSet :: "string list \<Rightarrow> peerSet" where
  "newPeerSet peers =
     \<lparr>pv_feeds = map (\<lambda>u. (u, \<lparr>fd_broker = newBroker DefaultEventRing,
                              fd_state = \<lparr>ps_Replica = [], ps_Connected = False, ps_Self = False, ps_Reconnects = 0,
                                          ps_LastEvent = None, ps_LastError = []\<rparr>\<rparr>)) (peer_urls peers),
      pv_ov = None, pv_ovAt = None\<rparr>"

definition PeerStates :: "peerSet \<Rightarrow> PeerState list" where
  "PeerStates ps = map (\<lambda>(u, f). fd_state f) (pv_feeds ps)"

record overview_body =
  bo_Replica :: string
  bo_Version :: string
  bo_UptimeS :: rat
  bo_RequestsPerMin :: int

definition probeOverview :: "overview_body http_outcome \<Rightarrow> string \<times> peerFeed \<Rightarrow> ReplicaOverview" where
  "probeOverview outcome p =
     (case p of (url, f) \<Rightarrow>
        let ov = \<lparr>ov_Replica = ps_Replica (fd_state f), ov_URL = url, ov_Version = [], ov_UptimeS = 0, ov_RequestsPerMin = 0,
                  ov_Reachable = False, ov_Error = [], ov_Feed = Some (fd_state f)\<rparr>
        in case outcome of
             Inl err \<Rightarrow> ov\<lparr>ov_Error := err\<rparr>
           | Inr (status, text, body) \<Rightarrow>
               if status \<noteq> 200 then ov\<lparr>ov_Error := ''peer /api/overview: '' @ text\<rparr>
               else (case body of
                       Inl err \<Rightarrow> ov\<lparr>ov_Error := ''peer /api/overview: '' @ err\<rparr>
                     | Inr b \<Rightarrow>
                         ov\<lparr>ov_Replica := (if bo_Replica b \<noteq> [] then bo_Replica b else ov_Replica ov), ov_Version := bo_Version b,
                            ov_UptimeS := bo_UptimeS b, ov_RequestsPerMin := bo_RequestsPerMin b, ov_Reachable := True\<rparr>))"

definition peerOverviewTTL :: duration where "peerOverviewTTL = 2 * second"

definition fresh_overviews :: "(string \<Rightarrow> overview_body http_outcome) \<Rightarrow> peerSet \<Rightarrow> ReplicaOverview list" where
  "fresh_overviews ask ps =
     map (\<lambda>p. probeOverview (ask (fst p)) p) (filter (\<lambda>p. \<not> ps_Self (fd_state (snd p))) (pv_feeds ps))"

definition peerOverviews :: "time \<Rightarrow> (string \<Rightarrow> overview_body http_outcome) \<Rightarrow> peerSet \<Rightarrow> ReplicaOverview list \<times> peerSet" where
  "peerOverviews now ask ps =
     (let fresh = (let out = fresh_overviews ask ps in (out, ps\<lparr>pv_ov := Some out, pv_ovAt := Some now\<rparr>))
      in case (pv_ov ps, pv_ovAt ps) of
           (Some ov, Some prev) \<Rightarrow> if now - prev < peerOverviewTTL then (ov, ps) else fresh
         | _ \<Rightarrow> fresh)"

section \<open>What is read is what was written\<close>

definition json_codec :: "event_codec \<Rightarrow> sent list \<Rightarrow> bool" where
  "json_codec c msgs \<longleftrightarrow>
     list_all (\<lambda>m. case m of
                SentSnapshot i r \<Rightarrow> cd_read_snapshot c (cd_snapshot c i r) = Inr (i, r)
                  \<and> set (cd_snapshot c i r) \<inter> {CHR 0x0A, CHR 0x0D} = {}
              | SentRequest e \<Rightarrow> cd_read_event c (cd_event c e) = Inr e \<and> set (cd_event c e) \<inter> {CHR 0x0A, CHR 0x0D} = {}
              | SentKeepalive \<Rightarrow> True) msgs"

definition frame_of :: "sent \<Rightarrow> frame option" where
  "frame_of x =
     (case x of SentSnapshot i r \<Rightarrow> Some (FrameSnapshot i r) | SentKeepalive \<Rightarrow> None | SentRequest e \<Rightarrow> Some (FrameRequest e))"

lemma complete_line: "CHR 0x0A \<notin> set l \<Longrightarrow> complete_lines (l @ newline @ s) = l # complete_lines s"
proof -
  assume l: "CHR 0x0A \<notin> set l"
  have "split_on (CHR 0x0A) (l @ CHR 0x0A # s) = l # split_on (CHR 0x0A) s"
    using l by (induction l) auto
  moreover have "split_on (CHR 0x0A) s \<noteq> []" by (rule split_on_nonempty)
  ultimately show ?thesis by (simp add: complete_lines_def newline_def)
qed

lemma no_complete_line: "complete_lines [] = []"
  by (simp add: complete_lines_def)

lemma trim_breaks_id: "CHR 0x0A \<notin> set s \<Longrightarrow> CHR 0x0D \<notin> set s \<Longrightarrow> trim_breaks s = s"
  by (cases s rule: rev_cases) (auto simp: trim_breaks_def)

lemma feed_frame:
  assumes "set event \<inter> {CHR 0x0A, CHR 0x0D} = {}" and "set data \<inter> {CHR 0x0A, CHR 0x0D} = {}" and "event \<noteq> []"
  shows "feed_lines ([], d) (complete_lines (sse_frame event data @ s)) = (event, data) # feed_lines ([], []) (complete_lines s)"
proof -
  have lines: "complete_lines (sse_frame event data @ s) = (''event: '' @ event) # (''data: '' @ data) # [] # complete_lines s"
    using assms complete_line[of "''event: '' @ event" "''data: '' @ data @ newline @ newline @ s"]
      complete_line[of "''data: '' @ data" "newline @ s"] complete_line[of "[]" s]
    by (simp add: sse_frame_def)
  have "trim_breaks (''event: '' @ event) = ''event: '' @ event" "trim_breaks (''data: '' @ data) = ''data: '' @ data"
    using assms by (intro trim_breaks_id; auto)+
  moreover have "has_prefix (''event: '' @ event) ''event: ''" "has_prefix (''data: '' @ data) ''data: ''"
    "\<not> has_prefix (''data: '' @ data) ''event: ''" "trim_breaks [] = []"
    by (simp_all add: has_prefix_def trim_breaks_def)
  moreover have "trim_prefix (''event: '' @ event) ''event: '' = event" "trim_prefix (''data: '' @ data) ''data: '' = data"
    by (rule trim_prefix_append)+
  ultimately show ?thesis
    using assms(3) by (simp add: lines feed_line_def has_prefix_def[of "[]"] del: append_Cons)
qed

lemma feed_keepalive:
  "feed_lines ([], d) (complete_lines (('': keepalive'' @ newline @ newline) @ s)) = feed_lines ([], d) (complete_lines s)"
proof -
  have "complete_lines (('': keepalive'' @ newline @ newline) @ s) = '': keepalive'' # [] # complete_lines s"
    using complete_line[of "'': keepalive''" "newline @ s"] complete_line[of "[]" s] by simp
  moreover have "trim_breaks '': keepalive'' = '': keepalive''" "trim_breaks [] = []" by (simp_all add: trim_breaks_def)
  moreover have "\<not> has_prefix '': keepalive'' ''event: ''" "\<not> has_prefix '': keepalive'' ''data: ''"
    "\<not> has_prefix [] ''event: ''" "\<not> has_prefix [] ''data: ''" by (simp_all add: has_prefix_def)
  ultimately show ?thesis by (simp add: feed_line_def)
qed

text \<open>A peer that cuts the stream anywhere has read a prefix of the frames.\<close>

lemma split_on_prefix: "prefix a b \<Longrightarrow> prefix (butlast (split_on c a)) (butlast (split_on c b))"
proof (induction a arbitrary: b)
  case (Cons x a)
  then obtain b' where b: "b = x # b'" "prefix a b'" by (auto simp: prefix_def)
  from Cons.IH[OF b(2)] have IH: "prefix (butlast (split_on c a)) (butlast (split_on c b'))" .
  obtain p ps where a: "split_on c a = p # ps" using split_on_nonempty[of c a] by (cases "split_on c a") auto
  obtain q qs where b': "split_on c b' = q # qs" using split_on_nonempty[of c b'] by (cases "split_on c b'") auto
  from IH show ?case by (auto simp: b a b' split: if_splits)
qed simp

lemma feed_lines_prefix: "prefix ls ls' \<Longrightarrow> prefix (feed_lines st ls) (feed_lines st ls')"
proof (induction ls arbitrary: st ls')
  case (Cons l ls)
  then obtain ls2 where "ls' = l # ls2" "prefix ls ls2" by (auto simp: prefix_def)
  with Cons.IH show ?case by (auto split: prod.split option.split)
qed simp

lemma frames_read_prefix: "prefix a b \<Longrightarrow> prefix (frames_read c a) (frames_read c b)"
  unfolding frames_read_def complete_lines_def
  by (intro map_mono_prefix feed_lines_prefix split_on_prefix)

lemma frames_read_all:
  "json_codec c msgs \<Longrightarrow> frames_read c (concat (map (render c) msgs)) = List.map_filter frame_of msgs"
proof (induction msgs)
  case Nil then show ?case by (simp add: frames_read_def no_complete_line List.map_filter_def)
next
  case (Cons m msgs)
  let ?rest = "concat (map (render c) msgs)"
  have "frames_read c (render c m @ ?rest) = (case frame_of m of None \<Rightarrow> [] | Some fr \<Rightarrow> [fr]) @ frames_read c ?rest"
  proof (cases m)
    case (SentSnapshot i r)
    then show ?thesis
      using Cons.prems feed_frame[of "''snapshot''" "cd_snapshot c i r" "[]" ?rest]
      by (simp add: frames_read_def render_def frame_of_def json_codec_def decode_frame_def)
  next
    case SentKeepalive
    then show ?thesis using feed_keepalive[of "[]" ?rest] by (simp add: frames_read_def render_def frame_of_def)
  next
    case (SentRequest e)
    then show ?thesis
      using Cons.prems feed_frame[of "''request''" "cd_event c e" "[]" ?rest]
      by (simp add: frames_read_def render_def frame_of_def json_codec_def decode_frame_def)
  qed
  moreover have "json_codec c msgs" using Cons.prems by (simp add: json_codec_def)
  ultimately show ?case using Cons.IH by (simp add: List.map_filter_simps split: option.split)
qed

text \<open>C35: What one replica writes another reads: the snapshot first, then each event the reader may see, in order,
  keepalives passed over. Where the connection breaks does not matter: the frames read are a prefix of those
  sent, none torn and none invented.\<close>

theorem peer_reads_what_was_sent:
  assumes "json_codec c (handleDashEvents who scope_local b peers inputs)"
    and "prefix body (concat (map (render c) (handleDashEvents who scope_local b peers inputs)))"
  defines "sent \<equiv> (case events_snapshot who (snapshot_brokers scope_local b peers) of (i, r) \<Rightarrow> FrameSnapshot i r)
    # List.map_filter (\<lambda>x. case x of Received e \<Rightarrow> if event_visible who e then Some (FrameRequest e) else None | KeepaliveTick \<Rightarrow> None) inputs"
  shows "prefix (frames_read c body) sent
       \<and> (body = concat (map (render c) (handleDashEvents who scope_local b peers inputs)) \<longrightarrow> frames_read c body = sent)"
proof -
  let ?msgs = "handleDashEvents who scope_local b peers inputs"
  let ?keep = "\<lambda>x. case x of KeepaliveTick \<Rightarrow> Some SentKeepalive
                 | Received e \<Rightarrow> if event_visible who e then Some (SentRequest e) else None"
  have "List.map_filter frame_of (List.map_filter ?keep inputs)
      = List.map_filter (\<lambda>x. case x of Received e \<Rightarrow> if event_visible who e then Some (FrameRequest e) else None | KeepaliveTick \<Rightarrow> None) inputs"
    by (induction inputs) (auto simp: List.map_filter_simps frame_of_def split: stream_input.split)
  then have "List.map_filter frame_of ?msgs = sent"
    by (simp add: handleDashEvents_def sent_def List.map_filter_simps frame_of_def split: prod.split)
  then show ?thesis using frames_read_prefix[OF assms(2), of c] frames_read_all[OF assms(1)] by simp
qed

definition codec_one :: event_codec where
  "codec_one = \<lparr>cd_snapshot = (\<lambda>i r. ''{}''), cd_event = (\<lambda>e. ''{}''), cd_read_snapshot = (\<lambda>s. Inr ([], [])),
                cd_read_event = (\<lambda>s. Inr zero_event)\<rparr>"

theorem peer_reads_what_was_sent_witness:
  "frames_read codec_one (concat (map (render codec_one)
       (handleDashEvents None True (newBroker 4) [] [KeepaliveTick, Received zero_event])))
     = [FrameSnapshot [] [], FrameRequest zero_event]"
proof -
  have snap: "events_snapshot None (snapshot_brokers True (newBroker 4) []) = ([], [])" by code_simp
  have "json_codec codec_one (handleDashEvents None True (newBroker 4) [] [KeepaliveTick, Received zero_event])"
    by (simp add: json_codec_def handleDashEvents_def snap List.map_filter_simps codec_one_def event_visible_def)
  from peer_reads_what_was_sent[OF this prefix_order.refl] show ?thesis
    by (simp add: snap List.map_filter_simps event_visible_def)
qed

end
