(* ===== verification/Spec2Isabelle.thy ===== *)
theory Spec2Isabelle
  imports Proxy_Props Images Events Upstream_Window Authenticator Schedule Tool_Proxy Mirror Egress Lint Anthropic
    Metrics Dashboard_Routes Live_Props Node_Agent Peers
begin

text \<open>
  A verification development for llm-router-go, the OpenAI-compatible front door of a fleet of model
  servers: a registry of models, nodes and roles (\<^verbatim>\<open>internal/config\<close>), a health tracker with a
  live inventory of what the upstreams list (\<^verbatim>\<open>internal/health\<close>), personal access tokens and scopes
  (\<^verbatim>\<open>internal/auth\<close>), and the router that resolves a name to an upstream under a privacy tier
  (\<^verbatim>\<open>internal/router\<close>), and the tool proxy that runs tools on a model's behalf and picks models for
  requests that name none (\<^verbatim>\<open>internal/toolproxy\<close>), and the agent on each node that tells the router which of
  its engines serve what (\<^verbatim>\<open>internal/nodeagent\<close>).

  \<^bold>\<open>How a request flows.\<close> The front door authenticates (\<open>Authenticator\<close> over \<open>Token_Store\<close> and \<open>Auth\<close>),
  the demand for privacy is the stricter of header and scope (\<open>Privacy\<close>), the prompt is sized
  (\<open>Envelope\<close>), the name is resolved (\<open>Resolve\<close>) by walking a preference order (\<open>Pressure\<close> may reorder
  it) against the verdicts of the tracker (\<open>Tracker\<close>, \<open>Inventory\<close>, seen through \<open>Availability\<close>), and a
  failed upstream is classified (\<open>Upstream_Errors\<close>) and failed over. \<open>Proxy\<close> composes all of this into
  \<open>handleProxy\<close>, one request from its body to the answer, around \<open>Forward\<close>, one exchange with an upstream.
  What a request did then goes to the failure window (\<open>Upstream_Window\<close>), the live feed (\<open>Events\<close>), the
  request log (\<open>Request_Log\<close>) and the counters (\<open>Metrics\<close>), which \<open>Dashboard\<close> shows to the people its gate lets
  in, each as far as his role goes. The tracker's polls read the agents (\<open>Node_Agent\<close>), which probe their engines
  and their cards (\<open>Gpu_Readers\<close>).
  An entry may be served through the tool proxy: \<open>buildResult\<close> sends it the entry's key, and \<open>Tool_Proxy\<close>
  resolves the key again over the same registry and runs the tool loop (\<open>Tool_Loop\<close>, \<open>Tool_Stream\<close>).

  \<^bold>\<open>Theories.\<close>
  \<^item> \<open>Go_Prelude\<close>, \<open>Go_Url\<close>: Go strings as byte lists, maps as association lists (an iteration order is
    the list's order, so results for every list hold for every order), time in nanoseconds, \<open>net/url\<close>.
  \<^item> \<open>Request_Defaults\<close>, \<open>Registry\<close>, \<open>Discovery\<close>, \<open>Registry_Validate\<close>: \<^verbatim>\<open>internal/config\<close>.
  \<^item> \<open>Schedule\<close>, \<open>Upstream_Errors\<close>, \<open>Tracker\<close>, \<open>Inventory\<close>: \<^verbatim>\<open>internal/health\<close> and the error classes of
    \<^verbatim>\<open>upstreamstats.go\<close>. \<open>Inventory\<close> has the step relation of the whole tracker and its invariant.
  \<^item> \<open>Auth\<close>, \<open>Token_Store\<close>, \<open>Authenticator\<close>: \<^verbatim>\<open>internal/auth\<close>, \<^verbatim>\<open>router/auth.go\<close>,
    \<^verbatim>\<open>dashboard_tokens.go\<close>. The locale \<open>credential_store\<close> is what the middleware needs of a store.
  \<^item> \<open>Privacy\<close>, \<open>Envelope\<close>, \<open>Pressure\<close>, \<open>Availability\<close>, \<open>Resolve\<close>, \<open>Resolve_Walk\<close>, \<open>Resolve_Props\<close>:
    \<^verbatim>\<open>internal/router\<close>. The locale \<open>availability_view\<close> is what resolution needs of a tracker; \<open>Resolve_Walk\<close>
    proves the walks in it, \<open>Resolve_Props\<close> states the properties at its interpretations.
  \<^item> \<open>Go_Http\<close>, \<open>Writers\<close>, \<open>Capture\<close>, \<open>Session\<close>: headers and JSON encoding of the library; the response writers of
    \<^verbatim>\<open>capture.go\<close> and \<^verbatim>\<open>internal/httpx\<close>; what is read off an answer; session ids.
  \<^item> \<open>Forward\<close>, \<open>Proxy\<close>, \<open>Proxy_Props\<close>, \<open>Images\<close>: \<open>reverseProxyTo\<close>, \<open>handleProxy\<close> and its loop (\<^verbatim>\<open>router.go\<close>),
    the properties that span it, and the multipart handler (\<^verbatim>\<open>images.go\<close>). An upstream is any function from
    what was sent to an answer; what the rest of the process does to the shared state while an attempt
    waits is any function of that state.
  \<^item> \<open>Upstream_Window\<close> (\<^verbatim>\<open>upstreamstats.go\<close>, \<^verbatim>\<open>tokstats.go\<close>) and \<open>Events\<close> (\<^verbatim>\<open>events.go\<close>, \<^verbatim>\<open>peers.go\<close>,
    \<^verbatim>\<open>dashboard_events.go\<close>).
  \<^item> \<open>Listings\<close> (\<^verbatim>\<open>availability.go\<close>, \<^verbatim>\<open>wellknown.go\<close>, the listings of \<^verbatim>\<open>router.go\<close>): what the router
    says it serves; the locale \<open>listing_view\<close> extends \<open>availability_view\<close> by what a listing needs. \<open>Mirror\<close>
    (\<^verbatim>\<open>internal/health/mirror.go\<close>): the tool proxy's view of that document, over its JSON. \<open>Zdr_Canary\<close>
    (\<^verbatim>\<open>zdrcanary.go\<close>): the watch on the account's retention setting.
  \<^item> \<open>Request_Log\<close>, \<open>Series_Props\<close> (\<^verbatim>\<open>internal/router/reqlog\<close>): the queue of the writers with its step relation, the
    columns and migrations, and the usage, series, failure and session queries, which lose and double nothing.
    \<open>Metrics\<close> (\<^verbatim>\<open>metrics.go\<close>): the labelled counters as the list of their increments, and the panel read back.
  \<^item> \<open>Dashboard\<close> (\<^verbatim>\<open>dashboard.go\<close>, \<^verbatim>\<open>dashboard_tokens.go\<close>, \<^verbatim>\<open>dashboard_traffic.go\<close>, \<^verbatim>\<open>dashboard_requests.go\<close>): the request
    rate and the views. \<open>Dashboard_Routes\<close> (the rest of \<^verbatim>\<open>dashboard.go\<close>, \<^verbatim>\<open>dashboard_proxy.go\<close>): the route table
    with its gate, the chat relay and the mounted tools.
  \<^item> \<open>Live_Check\<close>, \<open>Live_Props\<close> (\<^verbatim>\<open>livecheck.go\<close>, \<^verbatim>\<open>routercmd/validate.go\<close>): the registry held against what its
    servers list, and the command that gates a deploy on it.
  \<^item> \<open>Gpu_Readers\<close>, \<open>Node_Agent\<close> (\<^verbatim>\<open>internal/nodeagent\<close>): the vendor readers, their cache as a step relation, the
    engine driver, the agent's answers, and what a poll of the router makes of them.
  \<^item> \<open>Peers\<close> (\<^verbatim>\<open>dashboard_events.go\<close>, \<^verbatim>\<open>peers.go\<close>): the event stream as bytes and the reader of a peer; the
    overview probes.
  \<^item> \<open>Anthropic\<close> (\<^verbatim>\<open>anthropic.go\<close>): the passthrough, its tier gate, usage and hash chain. \<open>Lint\<close>
    (\<^verbatim>\<open>config/lint.go\<close>): the advisory checks, and which of them settle what resolution does.
  \<^item> \<open>Tool_Text\<close> (\<^verbatim>\<open>extract.go\<close> and the gate of \<^verbatim>\<open>stream.go\<close>), \<open>Tool_Loop\<close> (\<^verbatim>\<open>loop.go\<close>,
    \<^verbatim>\<open>response.go\<close>, \<^verbatim>\<open>tools/registry.go\<close>), \<open>Tool_Stream\<close> (\<^verbatim>\<open>stream.go\<close>, \<^verbatim>\<open>backend.go\<close>), \<open>Auto_Router\<close>
    (\<^verbatim>\<open>autorouter.go\<close>), \<open>Tool_Proxy\<close> (\<^verbatim>\<open>resolve.go\<close>, \<^verbatim>\<open>proxy.go\<close>), \<open>Egress\<close> (\<^verbatim>\<open>egress\<close>):
    \<^verbatim>\<open>internal/toolproxy\<close>. The regular expressions of the source are functions on strings; an answer to a
    client is the list of its events; the loops thread a world that backends and tools may change at will.

  \<^bold>\<open>Conventions.\<close> State is a record passed and returned; an error is the left of a sum; a pointer is an
  option; a question to the tracker returns the new state, since asking about an open breaker changes it.
  One operation is one critical section of the code's mutex, so a sequence of operations is any
  interleaving of goroutines at that grain. Counters and durations are integers except where width
  matters (the probe backoff and the probe sequence number are 64-bit words, the counters of the failure
  window 32-bit ones); a float64 is a rational rounded after every operation. There is no fuel: every
  recursion is structural or has a measure, and the rounds of the tool loop, the attempts of the proxy loop
  and the relays of a request are counted by the bounds of the code. The one loop without a bound is the
  start of the auto-router, \<open>RunInit\<close>, which is given the number of attempts before it is cancelled.

  \<^bold>\<open>Parameters.\<close> SHA-256, the environment, local time, the node and generation probes, listing fetches,
  random bytes and choices, the availability of the database, the length of printed numbers, the answers of
  upstreams, of the embedding service and of the relay list, the square root, the tools, the files and commands
  a GPU reader asks, and the JSON text of an event are arguments.

  \<^bold>\<open>Not modelled.\<close> YAML decoding (its defaults are), SQL statements and dialects (the queries are modelled as the
  in-memory sink computes them), HTTP servers and clients, logging, the Prometheus library and its text
  format, the dashboard's static page, the tools of the tool proxy (HTTP clients and an expression
  evaluator) and process wiring.
\<close>

end
